(* ===== verification/Prelude.thy ===== *)
theory Prelude
  imports Complex_Main "HOL-Library.Sublist" "HOL-Library.Char_ord" "HOL-Library.List_Lexorder"
    "HOL-Library.Product_Lexorder" "HOL-Library.Multiset"
begin

text \<open>
  What every component shares: Python's text, numbers, dictionaries and tables as HOL values.

  \<^item> A Python \<open>str\<close> is a \<^typ>\<open>string\<close>, a list of bytes; the texts the code compares are ASCII.
    \<open>lower\<close>, \<open>strip\<close>, \<open>startswith\<close> and \<open>in\<close> are \<open>lower\<close>, \<open>strip\<close>, \<^const>\<open>prefix\<close> and
    \<^const>\<open>sublist\<close>. The empty string is Python's "nothing said".
  \<^item> A Python \<open>int\<close> is an \<^typ>\<open>int\<close> (or a \<^typ>\<open>nat\<close> where the code only counts). A \<open>float\<close> is a
    \<^typ>\<open>rat\<close>: the arithmetic is exact, so the rounding of binary floating point is outside the model.
  \<^item> A database table is the list of its rows, in the order of their ids; \<open>INTEGER PRIMARY KEY\<close> gives
    a new row the largest id plus one.
  \<^item> A result that may fail is a sum: \<^term>\<open>Inl e\<close> is the exception, \<^term>\<open>Inr x\<close> the value.
\<close>

named_theorems table_simps "lookups and updates of tables"

section \<open>Text\<close>

definition lower_char :: "char \<Rightarrow> char" where
  "lower_char c = (if CHR ''A'' \<le> c \<and> c \<le> CHR ''Z'' then char_of (of_char c + (32::nat)) else c)"

definition lower :: "string \<Rightarrow> string" where
  "lower s = map lower_char s"

definition is_space :: "char \<Rightarrow> bool" where
  "is_space c \<longleftrightarrow> c \<in> {CHR '' '', CHR 0x09, CHR 0x0A, CHR 0x0B, CHR 0x0C, CHR 0x0D,
     CHR 0x1C, CHR 0x1D, CHR 0x1E, CHR 0x1F}"

definition is_digit :: "char \<Rightarrow> bool" where
  "is_digit c \<longleftrightarrow> CHR ''0'' \<le> c \<and> c \<le> CHR ''9''"

definition strip :: "string \<Rightarrow> string" where
  "strip s = rev (dropWhile is_space (rev (dropWhile is_space s)))"

text \<open>\<open>s.isdigit()\<close>: at least one character, all of them digits.\<close>

definition isdigit :: "string \<Rightarrow> bool" where
  "isdigit s \<longleftrightarrow> s \<noteq> [] \<and> list_all is_digit s"

definition digit_value :: "char \<Rightarrow> nat" where
  "digit_value c = of_char c - 48"

text \<open>\<open>int(s)\<close> of a string of digits.\<close>

definition nat_of_digits :: "string \<Rightarrow> nat" where
  "nat_of_digits s = foldl (\<lambda>n c. 10 * n + digit_value c) 0 s"

text \<open>\<open>s.partition(c)\<close> without its middle part: before and after the first \<open>c\<close>.\<close>

fun partition_at :: "char \<Rightarrow> string \<Rightarrow> string \<times> string" where
  "partition_at c [] = ([], [])"
| "partition_at c (x # xs) =
     (if x = c then ([], xs) else (let (a, b) = partition_at c xs in (x # a, b)))"

text \<open>\<open>s.split(c)\<close>: never empty.\<close>

fun split_at :: "char \<Rightarrow> string \<Rightarrow> string list" where
  "split_at c [] = [[]]"
| "split_at c (x # xs) =
     (if x = c then [] # split_at c xs
      else (case split_at c xs of [] \<Rightarrow> [[x]] | p # ps \<Rightarrow> (x # p) # ps))"

text \<open>\<open>s.split()\<close>: runs of non-space characters; \<open>split_words_acc\<close> holds the run being read, reversed.\<close>

fun split_words_acc :: "string \<Rightarrow> string \<Rightarrow> string list" where
  "split_words_acc acc [] = (if acc = [] then [] else [rev acc])"
| "split_words_acc acc (x # xs) =
     (if is_space x then (if acc = [] then split_words_acc [] xs else rev acc # split_words_acc [] xs)
      else split_words_acc (x # acc) xs)"

definition split_words :: "string \<Rightarrow> string list" where
  "split_words s = split_words_acc [] s"

text \<open>\<open>s.split(sep, 1)[0]\<close> for a non-empty \<open>sep\<close>: everything before its first occurrence.\<close>

fun upto_sep :: "string \<Rightarrow> string \<Rightarrow> string" where
  "upto_sep sep [] = []"
| "upto_sep sep (x # xs) = (if prefix sep (x # xs) then [] else x # upto_sep sep xs)"

text \<open>\<open>" ".join(ws)\<close> and, with any separator, \<open>sep.join(ws)\<close>.\<close>

fun join :: "string \<Rightarrow> string list \<Rightarrow> string" where
  "join sep [] = []"
| "join sep [w] = w"
| "join sep (w # ws) = w @ sep @ join sep ws"

lemma lower_Nil [simp]: "lower [] = []"
  by (simp add: lower_def)

lemma split_at_not_Nil [simp]: "split_at c s \<noteq> []"
  by (cases s) (auto split: list.splits)

lemma strip_Nil [simp]: "strip [] = []"
  by (simp add: strip_def)

lemma partition_at_append: "c \<notin> set a \<Longrightarrow> partition_at c (a @ c # b) = (a, b)"
  by (induction a) auto

lemma partition_at_absent: "c \<notin> set a \<Longrightarrow> partition_at c a = (a, [])"
  by (induction a) auto

lemma join_Cons: "ws \<noteq> [] \<Longrightarrow> join sep (w # ws) = w @ sep @ join sep ws"
  by (cases ws) auto

text \<open>Joined with a separator that no part holds, the parts are read back.\<close>

lemma split_at_absent: "c \<notin> set a \<Longrightarrow> split_at c a = [a]"
  by (induction a) auto

lemma split_at_append: "c \<notin> set a \<Longrightarrow> split_at c (a @ c # b) = a # split_at c b"
  by (induction a) auto

lemma split_at_join: "ws \<noteq> [] \<Longrightarrow> \<forall>w \<in> set ws. c \<notin> set w \<Longrightarrow> split_at c (join [c] ws) = ws"
proof (induction ws)
  case (Cons w ws)
  then show ?case by (cases "ws = []") (simp_all add: split_at_absent split_at_append join_Cons)
qed simp

lemma lower_char_idem [simp]: "lower_char (lower_char c) = lower_char c"
  by (auto simp: lower_char_def less_eq_char_def)

lemma lower_idem [simp]: "lower (lower s) = lower s"
  by (simp add: lower_def)

lemma is_space_lower [simp]: "is_space (lower_char c) = is_space c"
proof (cases "CHR ''A'' \<le> c \<and> c \<le> CHR ''Z''")
  case True
  then have "of_char c \<in> {65..90::nat}" by (simp add: less_eq_char_def)
  then have "of_char (lower_char c) \<in> {97..122::nat}" using True by (auto simp: lower_char_def)
  with \<open>of_char c \<in> _\<close> show ?thesis by (auto simp: is_space_def)
next
  case False
  then show ?thesis unfolding lower_char_def by (simp only: if_False)
qed

lemma dropWhile_lower: "dropWhile is_space (map lower_char s) = map lower_char (dropWhile is_space s)"
  by (simp add: dropWhile_map o_def)

lemma lower_strip: "lower (strip s) = strip (lower s)"
  by (simp only: lower_def strip_def rev_map dropWhile_lower rev_rev_ident)

lemma strip_ends:
  assumes "strip s \<noteq> []"
  shows "\<not> is_space (hd (strip s))" and "\<not> is_space (last (strip s))"
proof -
  define t where "t = dropWhile is_space s"
  from assms have d: "dropWhile is_space (rev t) \<noteq> []" by (simp add: strip_def t_def)
  then have ne: "t \<noteq> []" by auto
  have "last (dropWhile is_space (rev t)) = last (rev t)"
    using d by (metis dropWhile_eq_Nil_conv dropWhile_last)
  then have "hd (strip s) = hd t" using d ne by (simp add: strip_def t_def hd_rev last_rev)
  with ne show "\<not> is_space (hd (strip s))" by (simp add: t_def hd_dropWhile)
  show "\<not> is_space (last (strip s))" using d by (simp add: strip_def t_def last_rev hd_dropWhile)
qed

lemma strip_idem [simp]: "strip (strip s) = strip s"
proof (cases "strip s")
  case (Cons a as)
  have "dropWhile is_space (strip s) = strip s"
    using strip_ends(1) [of s] Cons by simp
  moreover have "dropWhile is_space (rev (strip s)) = rev (strip s)"
  proof -
    have "rev (strip s) \<noteq> []" "hd (rev (strip s)) = last (strip s)" using Cons by (simp_all add: hd_rev)
    then show ?thesis using strip_ends(2) [of s] Cons by (cases "rev (strip s)") auto
  qed
  ultimately show ?thesis by (metis rev_rev_ident strip_def)
qed simp

section \<open>Numbers\<close>

text \<open>A natural number in decimal, \<open>f"{n}"\<close>, and padded with zeros, \<open>f"{n:04d}"\<close>.\<close>

definition digit :: "nat \<Rightarrow> char" where
  "digit n = char_of (48 + n mod 10)"

fun decimal :: "nat \<Rightarrow> string" where
  "decimal n = (if n < 10 then [digit n] else decimal (n div 10) @ [digit n])"

definition padded :: "nat \<Rightarrow> nat \<Rightarrow> string" where
  "padded w n = replicate (w - length (decimal n)) (CHR ''0'') @ decimal n"

text \<open>\<open>int(s)\<close>: space around, a sign, digits; anything else is the \<open>ValueError\<close> (\<^term>\<open>None\<close>).\<close>

definition py_int :: "string \<Rightarrow> int option" where
  "py_int s =
     (let t = strip s;
          (sign, ds) = (case t of [] \<Rightarrow> (1, []) | c # r \<Rightarrow>
                          if c = CHR ''-'' then (- 1, r) else if c = CHR ''+'' then (1, r) else (1, t))
      in if isdigit ds then Some (sign * int (nat_of_digits ds)) else None)"

lemma digit_value_digit: "digit_value (digit n) = n mod 10"
  by (simp add: digit_value_def digit_def)

lemma is_digit_digit [simp]: "is_digit (digit n)"
  by (simp add: is_digit_def digit_def less_eq_char_def)

lemma nat_of_digits_snoc: "nat_of_digits (s @ [c]) = 10 * nat_of_digits s + digit_value c"
  by (simp add: nat_of_digits_def)

declare decimal.simps [simp del]

lemma nat_of_digits_decimal [simp]: "nat_of_digits (decimal n) = n"
proof (induction n rule: decimal.induct)
  case (1 n)
  show ?case
  proof (cases "n < 10")
    case True
    then show ?thesis by (simp add: decimal.simps nat_of_digits_def digit_value_digit)
  next
    case False
    then show ?thesis using 1 by (simp add: decimal.simps [of n] nat_of_digits_snoc digit_value_digit)
  qed
qed

lemma decimal_digits: "list_all is_digit (decimal n) \<and> decimal n \<noteq> []"
proof (induction n rule: decimal.induct)
  case (1 n)
  then show ?case by (cases "n < 10") (simp_all add: decimal.simps [of n])
qed

lemma nat_of_digits_zeros: "nat_of_digits (replicate k (CHR ''0'') @ s) = nat_of_digits s"
proof -
  have "foldl (\<lambda>n c. 10 * n + digit_value c) 0 (replicate k (CHR ''0'')) = 0"
    by (induction k) (simp_all add: digit_value_def)
  then show ?thesis by (simp add: nat_of_digits_def)
qed

lemma digits_not_space: "list_all is_digit s \<Longrightarrow> list_all (\<lambda>c. \<not> is_space c) s"
  by (auto simp: list_all_iff is_digit_def is_space_def less_eq_char_def)

lemma strip_no_space: "list_all (\<lambda>c. \<not> is_space c) s \<Longrightarrow> strip s = s"
proof (cases s)
  case (Cons a as)
  assume s: "list_all (\<lambda>c. \<not> is_space c) s"
  then have "list_all (\<lambda>c. \<not> is_space c) (rev s)" by simp
  moreover have "dropWhile is_space t = t" if "list_all (\<lambda>c. \<not> is_space c) t" for t
    using that by (cases t) auto
  ultimately show ?thesis using s by (simp add: strip_def)
qed simp

lemma decimal_chars: "c \<in> set (decimal n) \<Longrightarrow> is_digit c"
  using decimal_digits [of n] by (auto simp: list_all_iff)

lemma strip_decimal: "strip (decimal n) = decimal n"
  using decimal_digits [of n] digits_not_space strip_no_space by blast

lemma padded_number:
  "isdigit (strip (padded w n)) \<and> nat_of_digits (strip (padded w n)) = n"
proof -
  have "list_all is_digit (padded w n)" "padded w n \<noteq> []"
    using decimal_digits [of n] by (auto simp: padded_def list_all_iff is_digit_def)
  then show ?thesis
    using strip_no_space [OF digits_not_space] by (simp add: isdigit_def padded_def nat_of_digits_zeros)
qed

text \<open>Python's \<open>round\<close>: to the nearest, ties to even.\<close>

definition py_round :: "rat \<Rightarrow> int" where
  "py_round x = (let f = \<lfloor>x\<rfloor>; r = x - of_int f
                 in if r < 1 / 2 then f else if r > 1 / 2 then f + 1 else if even f then f else f + 1)"

definition round_to :: "nat \<Rightarrow> rat \<Rightarrow> rat" where
  "round_to k x = of_int (py_round (x * 10 ^ k)) / 10 ^ k"

lemma py_round_near: "\<bar>of_int (py_round x) - x\<bar> \<le> 1 / 2"
proof -
  have "of_int \<lfloor>x\<rfloor> \<le> x" "x < of_int \<lfloor>x\<rfloor> + 1" using floor_correct [of x] by simp_all
  moreover consider "x - of_int \<lfloor>x\<rfloor> < 1 / 2" | "x - of_int \<lfloor>x\<rfloor> > 1 / 2" | "x - of_int \<lfloor>x\<rfloor> = 1 / 2" by linarith
  then have "py_round x = \<lfloor>x\<rfloor> \<and> x - of_int \<lfloor>x\<rfloor> \<le> 1 / 2 \<or> py_round x = \<lfloor>x\<rfloor> + 1 \<and> x - of_int \<lfloor>x\<rfloor> \<ge> 1 / 2"
    by cases (simp_all add: py_round_def Let_def)
  ultimately show ?thesis by (auto simp: abs_le_iff)
qed

lemma py_round_mono: "x \<le> y \<Longrightarrow> py_round x \<le> py_round y"
proof -
  assume "x \<le> y"
  then consider "\<lfloor>x\<rfloor> = \<lfloor>y\<rfloor>" | "\<lfloor>x\<rfloor> + 1 \<le> \<lfloor>y\<rfloor>" using floor_mono [of x y] by linarith
  then show ?thesis using \<open>x \<le> y\<close> by cases (auto simp: py_round_def Let_def)
qed

lemma py_round_of_int [simp]: "py_round (of_int i) = i"
  by (simp add: py_round_def)

section \<open>Options and dictionaries\<close>

text \<open>\<open>d.get(k, default)\<close> of a literal dictionary kept as an association list.\<close>

definition get_or :: "'v \<Rightarrow> ('k \<times> 'v) list \<Rightarrow> 'k \<Rightarrow> 'v" where
  "get_or z d k = (case map_of d k of None \<Rightarrow> z | Some v \<Rightarrow> v)"

text \<open>Assignment to a key of a Python dict: the first insertion fixes the key's place.\<close>

fun dict_put :: "'k \<Rightarrow> 'v \<Rightarrow> ('k \<times> 'v) list \<Rightarrow> ('k \<times> 'v) list" where
  "dict_put k v [] = [(k, v)]"
| "dict_put k v ((k', v') # d) = (if k = k' then (k, v) # d else (k', v') # dict_put k v d)"

text \<open>\<open>{x: i for i, x in enumerate(xs)}\<close>.\<close>

definition last_position :: "'a list \<Rightarrow> 'a \<Rightarrow> nat" where
  "last_position xs x = foldl (\<lambda>n (i, y). if y = x then i else n) 0 (enumerate 0 xs)"

lemma map_of_dict_put [simp]: "map_of (dict_put k v d) = (map_of d)(k \<mapsto> v)"
  by (induction k v d rule: dict_put.induct) auto

lemma keys_dict_put: "set (map fst (dict_put k v d)) = insert k (set (map fst d))"
  by (induction k v d rule: dict_put.induct) auto

lemma distinct_dict_put [simp]:
  "distinct (map fst d) \<Longrightarrow> distinct (map fst (dict_put k v d))"
proof (induction k v d rule: dict_put.induct)
  case (2 k v k' v' d)
  then show ?case using keys_dict_put [of k v d] by auto
qed simp

section \<open>Results that may fail\<close>

text \<open>What runs after a step that may have raised: the exception, or the rest on its value.\<close>

definition and_then :: "'e + 'a \<Rightarrow> ('a \<Rightarrow> 'e + 'b) \<Rightarrow> 'e + 'b" where
  "and_then m f = (case m of Inl e \<Rightarrow> Inl e | Inr x \<Rightarrow> f x)"

lemma and_then_simps [simp]: "and_then (Inl e) f = Inl e" "and_then (Inr x) f = f x"
  by (simp_all add: and_then_def)

lemma and_then_Inr: "and_then m f = Inr y \<longleftrightarrow> (\<exists>x. m = Inr x \<and> f x = Inr y)"
  by (simp add: and_then_def split: sum.split)

lemma and_then_Inl: "and_then m f = Inl e \<longleftrightarrow> m = Inl e \<or> (\<exists>x. m = Inr x \<and> f x = Inl e)"
  by (simp add: and_then_def split: sum.split)

text \<open>A step applied along a list, stopping at the first exception.\<close>

fun map_ok :: "('a \<Rightarrow> 'e + 'b) \<Rightarrow> 'a list \<Rightarrow> 'e + 'b list" where
  "map_ok f [] = Inr []"
| "map_ok f (x # xs) = and_then (f x) (\<lambda>y. and_then (map_ok f xs) (\<lambda>ys. Inr (y # ys)))"

section \<open>Tables\<close>

text \<open>The id a new row gets.\<close>

definition next_id :: "('r \<Rightarrow> nat) \<Rightarrow> 'r list \<Rightarrow> nat" where
  "next_id rid rows = Suc (foldr (\<lambda>r m. max (rid r) m) rows 0)"

text \<open>The row with an id, and \<open>UPDATE ... WHERE id = ?\<close>.\<close>

definition row :: "('r \<Rightarrow> nat) \<Rightarrow> nat \<Rightarrow> 'r list \<Rightarrow> 'r option" where
  "row rid i rows = find (\<lambda>r. rid r = i) rows"

definition update_row :: "('r \<Rightarrow> nat) \<Rightarrow> nat \<Rightarrow> ('r \<Rightarrow> 'r) \<Rightarrow> 'r list \<Rightarrow> 'r list" where
  "update_row rid i f rows = map (\<lambda>r. if rid r = i then f r else r) rows"

lemma next_id_gt: "r \<in> set rows \<Longrightarrow> rid r < next_id rid rows"
  by (induction rows) (auto simp: next_id_def less_Suc_eq_le)

lemma next_id_fresh: "r \<in> set rows \<Longrightarrow> rid r \<noteq> next_id rid rows"
  using next_id_gt [of r rows rid] by simp

lemma next_id_pos [simp]: "0 < next_id rid rows"
  by (simp add: next_id_def)

lemma row_Some: "row rid i rows = Some r \<Longrightarrow> r \<in> set rows \<and> rid r = i"
  by (auto simp: row_def find_Some_iff)

lemma row_None: "row rid i rows = None \<longleftrightarrow> (\<forall>r \<in> set rows. rid r \<noteq> i)"
  by (auto simp: row_def find_None_iff)

lemma row_Nil [table_simps]: "row rid i [] = None"
  by (simp add: row_def)

lemma row_Cons [table_simps]: "row rid i (r # rows) = (if rid r = i then Some r else row rid i rows)"
  by (simp add: row_def)

lemma row_append: "row rid i (xs @ ys) = (case row rid i xs of None \<Rightarrow> row rid i ys | Some r \<Rightarrow> Some r)"
  by (induction xs) (auto simp: table_simps)

lemma row_fresh_append [table_simps]:
  "rid r = next_id rid rows \<Longrightarrow> row rid (next_id rid rows) (rows @ [r]) = Some r"
  using next_id_fresh [of _ rows rid] by (auto simp: row_append table_simps row_None split: option.splits)
    (metis row_Some)

lemma row_old_append:
  "row rid i rows = Some r \<Longrightarrow> row rid i (rows @ xs) = Some r"
  by (simp add: row_append)

lemma row_update [table_simps]:
  "(\<And>r. rid (f r) = rid r) \<Longrightarrow>
   row rid i (update_row rid j f rows) = (if i = j then map_option f (row rid i rows) else row rid i rows)"
  by (induction rows) (auto simp: update_row_def table_simps)

lemma row_put: "r \<in> set rows \<Longrightarrow> rid r = i \<Longrightarrow> rid w = i \<Longrightarrow> row rid i (update_row rid i (\<lambda>_. w) rows) = Some w"
  by (induction rows) (auto simp: update_row_def table_simps)

lemma find_unique: "distinct (map f xs) \<Longrightarrow> x \<in> set xs \<Longrightarrow> find (\<lambda>y. f y = f x) xs = Some x"
  by (induction xs) auto

lemma row_unique: "distinct (map rid rows) \<Longrightarrow> r \<in> set rows \<Longrightarrow> row rid (rid r) rows = Some r"
  by (induction rows) (auto simp: table_simps)

lemma ids_update_row [table_simps]:
  "(\<And>r. rid (f r) = rid r) \<Longrightarrow> map rid (update_row rid i f rows) = map rid rows"
  by (simp add: update_row_def)

text \<open>
  A table is a list of rows with a readable and writable id. The laws every client of a table uses, proved
  once from that: an insert is found, keeps what was there, keeps the ids distinct, and deleting it gives
  the table back.
\<close>

locale table =
  fixes rid :: "'r \<Rightarrow> nat" and put_id :: "nat \<Rightarrow> 'r \<Rightarrow> 'r"
  assumes rid_put: "rid (put_id i r) = i"
begin

lemma insert_found: "row rid (next_id rid rows) (rows @ [put_id (next_id rid rows) r]) = Some (put_id (next_id rid rows) r)"
  by (rule row_fresh_append) (rule rid_put)

lemma insert_keeps: "row rid i rows = Some x \<Longrightarrow> row rid i (rows @ [put_id (next_id rid rows) r]) = Some x"
  by (rule row_old_append)

lemma insert_undone: "filter (\<lambda>x. rid x \<noteq> next_id rid rows) (rows @ [put_id (next_id rid rows) r]) = rows"
  by (auto simp: rid_put filter_id_conv dest: next_id_fresh)

lemma insert_increasing:
  "sorted_wrt (<) (map rid rows) \<Longrightarrow> sorted_wrt (<) (map rid (rows @ [put_id (next_id rid rows) r]))"
  by (auto simp: sorted_wrt_append rid_put intro: next_id_gt)

end

lemma distinct_ids_append:
  "distinct (map rid rows) \<Longrightarrow> rid r = next_id rid rows \<Longrightarrow> distinct (map rid (rows @ [r]))"
  by (auto dest: next_id_fresh [of _ rows rid])

section \<open>Rankings\<close>

text \<open>
  What a list sorted by a key promises its readers: the same items, in key order, ties in the order they
  came. The facts the queue, the retests and the listings use follow from that alone.
\<close>

locale ranking =
  fixes rank :: "'a list \<Rightarrow> 'a list" and key :: "'a \<Rightarrow> 'k::linorder"
  assumes same_items: "mset (rank xs) = mset xs"
    and in_order: "sorted (map key (rank xs))"
    and ties_keep: "filter (\<lambda>x. key x = k) (rank xs) = filter (\<lambda>x. key x = k) xs"
begin

lemma rank_sort_key: "rank xs = sort_key key xs"
proof (rule properties_for_sort_key [symmetric])
  show "filter (\<lambda>x. key k = key x) (rank xs) = filter (\<lambda>x. key k = key x) xs" for k
    using ties_keep [of "key k" xs] by (simp add: eq_commute)
qed (simp_all add: same_items in_order)

lemma set_rank: "set (rank xs) = set xs"
  by (simp add: rank_sort_key)

lemma length_rank: "length (rank xs) = length xs"
  by (simp add: rank_sort_key)

lemma rank_Nil: "rank xs = [] \<longleftrightarrow> xs = []"
  using length_rank [of xs] by (metis length_0_conv)

lemma rank_filter: "rank (filter P xs) = filter P (rank xs)"
  by (simp add: rank_sort_key filter_sort)

lemma rank_first: "rank xs = x # ys \<Longrightarrow> y \<in> set xs \<Longrightarrow> key x \<le> key y"
  using in_order [of xs] set_rank [of xs] by auto

lemma distinct_rank: "distinct (map f (rank xs)) = distinct (map f xs)"
proof -
  have "mset (map f (rank xs)) = mset (map f xs)" by (simp add: same_items)
  then show ?thesis by (metis mset_eq_imp_distinct_iff)
qed

end

lemma sort_key_ranking: "ranking (sort_key key) key"
  by unfold_locales (simp_all add: sort_key_stable)

end
