(* ===== verification/Transitions.thy ===== *)
theory Transitions
  imports Prelude
begin

text \<open>
  The proposal ladder of \<open>harness/memory_store\<close>: the vocabularies of \<open>schema.py\<close> and the transition
  table of \<open>transitions.py\<close>. A proposal's state is the outcome of the verdict that holds it (empty: none
  yet). The refusal sentences of \<open>transition_refused\<close> are the constructors of \<open>refusal\<close>, with the values
  each sentence quotes; \<^term>\<open>None\<close> is the empty string, the move being allowed.
\<close>

definition VERDICTS :: "string list" where
  "VERDICTS = [''measured'', ''declined'', ''broken'', ''queued'', ''ignored'', ''screened'']"

definition TERMINAL :: "string list" where
  "TERMINAL = [''measured'', ''declined'', ''broken'', ''ignored'']"

definition WAYPOINTS :: "string list" where
  "WAYPOINTS = [''queued'', ''screened'']"

definition LADDER :: "(string \<times> nat) list" where
  "LADDER = [(''inspect'', 0), (''judge'', 1), (''fetch'', 2), (''screen'', 3), (''measure'', 4),
             (''adopt'', 5)]"

text \<open>\<open>LADDER.get(tier, 0)\<close>.\<close>

definition rung :: "string \<Rightarrow> nat" where
  "rung tier = get_or 0 LADDER tier"

definition RETRACTION :: string where "RETRACTION = ''retraction''"

definition RETEST :: string where "RETEST = ''retest''"

definition REOPENS :: "(string \<times> string list option) list" where
  "REOPENS = [(RETRACTION, None), (RETEST, Some [''broken'', ''declined''])]"

datatype refusal =
    NotAReopen string
  | CannotReopen string string
  | WouldReopen string string string string
  | BeforeOnLadder string string string string

definition transition_refused ::
    "string \<Rightarrow> string \<Rightarrow> string \<Rightarrow> string \<Rightarrow> string \<Rightarrow> refusal option" where
  "transition_refused state held_tier outcome tier reopen =
     (if reopen \<noteq> [] then
        (case map_of REOPENS reopen of
           None \<Rightarrow> Some (NotAReopen reopen)
         | Some allowed \<Rightarrow>
             (case allowed of
                None \<Rightarrow> None
              | Some states \<Rightarrow> if state \<notin> set states then Some (CannotReopen reopen state) else None))
      else if state = [] \<or> state = ''queued'' then None
      else if state \<in> set TERMINAL \<and> outcome \<in> set WAYPOINTS then
        Some (WouldReopen outcome tier state held_tier)
      else if rung tier < rung held_tier then
        Some (BeforeOnLadder tier held_tier outcome state)
      else None)"

text \<open>An event of a proposal's history: outcome, tier and the kind of reopen, empty for none.\<close>

type_synonym event = "string \<times> string \<times> string"

fun fold_step :: "string \<times> string \<Rightarrow> event \<Rightarrow> string \<times> string" where
  "fold_step (state, held) (outcome, tier, reopen) =
     (if transition_refused state held outcome tier reopen = None then (outcome, tier) else (state, held))"

definition fold_events :: "event list \<Rightarrow> string \<times> string" where
  "fold_events es = foldl fold_step ([], []) es"

section \<open>What the table allows\<close>

lemmas vocabulary_defs = VERDICTS_def TERMINAL_def WAYPOINTS_def RETRACTION_def RETEST_def

lemma not_refused_terminal:
  "transition_refused s h out t [] = None \<Longrightarrow> s \<in> set TERMINAL \<Longrightarrow> out \<in> set VERDICTS
   \<Longrightarrow> out \<in> set TERMINAL \<and> rung h \<le> rung t"
  by (auto simp: transition_refused_def vocabulary_defs split: if_splits)

lemma retraction_never_refused: "transition_refused s h out t RETRACTION = None"
  by (simp add: transition_refused_def REOPENS_def RETRACTION_def)

lemma fold_events_snoc: "fold_events (es @ [e]) = fold_step (fold_events es) e"
  by (simp add: fold_events_def)

lemma fold_events_Nil [simp]: "fold_events [] = ([], [])"
  by (simp add: fold_events_def)

lemma foldl_terminal:
  assumes "s \<in> set TERMINAL"
    and "\<forall>(out, t, k) \<in> set es. out \<in> set VERDICTS \<and> k = []"
  shows "fst (foldl fold_step (s, h) es) \<in> set TERMINAL \<and> rung h \<le> rung (snd (foldl fold_step (s, h) es))"
  using assms
proof (induction es arbitrary: s h)
  case Nil
  then show ?case by simp
next
  case (Cons e es)
  obtain out t k where e: "e = (out, t, k)" by (cases e)
  from Cons.prems e have v: "out \<in> set VERDICTS" "k = []" by auto
  show ?case
  proof (cases "transition_refused s h out t [] = None")
    case True
    from not_refused_terminal [OF True Cons.prems(1) v(1)]
    have "out \<in> set TERMINAL" "rung h \<le> rung t" by auto
    with Cons.IH [of out t] Cons.prems(2) True show ?thesis
      by (simp add: e v)
  next
    case False
    with Cons.IH [of s h] Cons.prems show ?thesis by (auto simp: e v)
  qed
qed

end
