(* ===== verification/Reasons.thy ===== *)
theory Reasons
  imports Prelude
begin

text \<open>
  Why a verdict happened: \<open>harness/reasons.py\<close>. The vocabulary of \<open>verdicts.reason\<close>, the failure classes
  a runner sets on a result row with the screen outcome and reason of each, the adapter that reads upstream
  error text, and the classifier that backfills older rows. The sentences that explain each reason are left
  out of \<open>REASONS\<close>; only its keys are read by code.
\<close>

section \<open>The vocabulary\<close>

definition REASONS :: "string list" where
  "REASONS = [''candidate'', ''harness'', ''runtime'', ''machine'', ''memory'', ''limit'', ''upstream'',
              ''reopened'']"

text \<open>The failure classes in precedence order, each with its screen outcome and its reason.\<close>

definition CLASSES :: "(string \<times> string \<times> string) list" where
  "CLASSES =
     [(''server_dead'', ''queued'', ''harness''),
      (''gpu_fault'', ''declined'', ''machine''),
      (''refused_by_gateway'', ''queued'', ''harness''),
      (''harness_error'', ''queued'', ''harness''),
      (''timeout'', ''declined'', ''limit''),
      (''token_budget_exhausted'', ''declined'', ''limit''),
      (''load_failed_runtime'', ''declined'', ''runtime''),
      (''load_failed_layout'', ''declined'', ''runtime''),
      (''backend_fault'', ''declined'', ''runtime''),
      (''missing_file_in_snapshot'', ''broken'', ''candidate''),
      (''crashed'', ''broken'', ''candidate''),
      (''content_failed'', ''broken'', ''candidate''),
      (''runaway'', ''broken'', ''candidate'')]"

definition STOPS :: "string list" where
  "STOPS = [''server_dead'', ''gpu_fault'']"

text \<open>The classes that mean the request never reached a model.\<close>

definition NEVER_RAN :: "string list" where
  "NEVER_RAN = map fst (filter (\<lambda>(c, outcome, r). r = ''harness'') CLASSES)"

definition first_class :: "string list \<Rightarrow> string" where
  "first_class classes =
     (case find (\<lambda>c. c \<in> set classes) (map fst CLASSES) of None \<Rightarrow> [] | Some c \<Rightarrow> c)"

section \<open>Reading upstream error text\<close>

definition P_SERVER_DEAD :: "string list" where
  "P_SERVER_DEAD = [''generation thread died'']"

definition P_GPU_FAULT :: "string list" where
  "P_GPU_FAULT = [''kiogpucommandbuffercallbackerrortimeout'', ''gpu timeout error'']"

definition P_GATEWAY :: "string list" where
  "P_GATEWAY = [''invalid model name'', ''gateway returned http 400'', ''is the gateway up'',
                ''connection refused'']"

definition P_HARNESS :: "string list" where
  "P_HARNESS = [''no cases of a modality it can run'', ''no candidate matched any case'',
     ''no module named'', ''error while finding module specification'', ''command not found'',
     ''guidance_scale has to be'', ''installed to convert a slow tokenizer'',
     ''run the library in offline mode'', ''restart your runtime after installation'',
     ''venv lacks a package'']"

definition P_SNAPSHOT :: "string list" where
  "P_SNAPSHOT = [''no such file or directory'', ''does not appear to have a file named'']"

definition LOAD_FAILED :: string where
  "LOAD_FAILED = ''gateway returned http 404''"

definition P_ARCHITECTURE :: "string list" where
  "P_ARCHITECTURE = [''model type'', ''modelargs'', ''parameters not in model'',
                     ''required positional argument'']"

definition P_LLAMACPP :: "string list" where
  "P_LLAMACPP = [''http 500'', ''failed to load'']"

definition P_LAYOUT :: "string list" where
  "P_LAYOUT = [''can'' @ [CHR 0x27] @ ''t find a pipeline linked to'', ''were passed'']"

definition ENGINE_HEADS :: "string list" where
  "ENGINE_HEADS = [''mflux'', ''diffusers'', ''diffusers-video'', ''acestep'', ''hf-ocr'', ''rerank'',
                   ''embed'', ''hf-pii'']"

definition P_REMOTE_CODE :: "string list" where
  "P_REMOTE_CODE = [''trust_remote_code'']"

definition AUDIO_HEADS :: "string list" where
  "AUDIO_HEADS = [''tts'', ''stt'']"

definition P_AUDIO :: "string list" where
  "P_AUDIO = [''failed to load model'']"

definition P_RUNAWAY :: "string list" where
  "P_RUNAWAY = [''tts ran away'']"

definition LLAMACPP_PREFIX :: string where
  "LLAMACPP_PREFIX = ''llamacpp:''"

text \<open>\<open>_any\<close>: the first phrase found, the empty string for none; its truth is \<open>any_phrase low ps \<noteq> []\<close>.\<close>

definition any_phrase :: "string \<Rightarrow> string list \<Rightarrow> string" where
  "any_phrase low phrases = (case find (\<lambda>p. sublist p low) phrases of None \<Rightarrow> [] | Some p \<Rightarrow> p)"

definition mps_abort :: "string \<Rightarrow> bool" where
  "mps_abort text =
     (let low = lower text
      in if sublist ''failed assertion'' low then sublist ''mpsgraph'' low
         else if sublist ''llvm error'' low then
           sublist (CHR 0x22 # ''mps.'') low \<or> sublist ''mps_'' low
         else False)"

fun backend_abort :: "string list \<Rightarrow> string" where
  "backend_abort [] = []"
| "backend_abort (line # rest) =
     (if sublist ''llvm error'' (lower line) then
        (let joined = join '' '' (map strip (take 2 (line # rest)))
         in if mps_abort joined then joined else backend_abort rest)
      else if mps_abort line then strip line
      else backend_abort rest)"

text \<open>Where the text was caught.\<close>

datatype caught = RUNNER | STDERR

text \<open>The spec's engine: what stands before its first comma and colon.\<close>

definition head_of :: "string \<Rightarrow> string" where
  "head_of candidate = strip (fst (partition_at CHR '':'' (fst (partition_at CHR '','' candidate))))"

definition classify :: "string \<Rightarrow> caught \<Rightarrow> string \<Rightarrow> string" where
  "classify text whence candidate =
     (let low = lower text; head = head_of candidate in
      if any_phrase low P_SERVER_DEAD \<noteq> [] then ''server_dead''
      else if any_phrase low P_GPU_FAULT \<noteq> [] then ''gpu_fault''
      else if mps_abort low then ''backend_fault''
      else if prefix LLAMACPP_PREFIX candidate \<and> list_all (\<lambda>p. sublist p low) P_LLAMACPP
        then ''load_failed_runtime''
      else if (sublist LOAD_FAILED low \<or> head \<in> set ENGINE_HEADS) \<and> any_phrase low P_ARCHITECTURE \<noteq> []
        then ''load_failed_runtime''
      else if head \<in> set AUDIO_HEADS \<and> any_phrase low P_AUDIO \<noteq> [] then ''load_failed_runtime''
      else if any_phrase low P_GATEWAY \<noteq> [] then ''refused_by_gateway''
      else if any_phrase low P_HARNESS \<noteq> [] then ''harness_error''
      else if whence = STDERR then (if any_phrase low P_SNAPSHOT \<noteq> [] then ''harness_error'' else [])
      else if any_phrase low P_RUNAWAY \<noteq> [] then ''runaway''
      else if any_phrase low P_LAYOUT \<noteq> [] \<or> any_phrase low P_REMOTE_CODE \<noteq> []
        then ''load_failed_layout''
      else if any_phrase low P_SNAPSHOT \<noteq> [] then ''missing_file_in_snapshot''
      else ''crashed'')"

section \<open>Backfill of older rows\<close>

definition legacy_class :: "string \<Rightarrow> string \<Rightarrow> string" where
  "legacy_class detail candidate = (if detail = [] then [] else classify detail RUNNER candidate)"

definition legacy_refused :: "string \<Rightarrow> string" where
  "legacy_refused detail =
     (let low = lower detail;
          found = filter (\<lambda>p. p \<noteq> []) (map (any_phrase low)
            [[''no measured size''], P_SERVER_DEAD, P_GATEWAY, P_HARNESS, [''no such file or directory'']])
      in case found of [] \<Rightarrow> [] | p # _ \<Rightarrow> p)"

definition legacy_architecture_gap :: "string \<Rightarrow> bool" where
  "legacy_architecture_gap detail =
     (let low = lower detail in sublist LOAD_FAILED low \<and> any_phrase low P_ARCHITECTURE \<noteq> [])"

definition legacy_layout_gap :: "string \<Rightarrow> bool" where
  "legacy_layout_gap detail = (any_phrase (lower detail) P_LAYOUT \<noteq> [])"

text \<open>The fact tiers, \<open>inspect\<close> and \<open>fetch\<close>, have sentences of their own.\<close>

definition legacy_fact_reason :: "string \<Rightarrow> string \<Rightarrow> string" where
  "legacy_fact_reason outcome low =
     (if prefix ''too-big'' low \<or> prefix ''needs-'' low \<or> sublist ''would leave under the'' low then ''machine''
      else if prefix ''dead'' low \<or> prefix ''404'' low \<or> sublist ''not found'' low \<or> sublist ''gone'' low
        then ''upstream''
      else if sublist ''no measured size'' low \<or> sublist ''no runner in the'' low then ''harness''
      else if (sublist ''past its'' low \<and> sublist ''budget'' low) \<or> sublist '' gib cap'' low then ''limit''
      else if list_ex (\<lambda>p. prefix p low) [''fits'', ''no-entry-point'', ''unknown'', ''bytes='', ''downloaded'']
           \<or> sublist ''attaches to a model'' low \<or> outcome = ''ignored'' then ''candidate''
      else [])"

definition legacy_reason :: "string \<Rightarrow> string \<Rightarrow> string \<Rightarrow> string \<Rightarrow> string" where
  "legacy_reason outcome tier detail reopen_kind =
     (let low = lower (strip detail) in
      if reopen_kind \<noteq> [] \<or> prefix ''retracted:'' low then ''reopened''
      else if outcome \<in> {''screened'', ''measured''} then ''candidate''
      else if tier \<in> {''inspect'', ''fetch''} then legacy_fact_reason outcome low
      else if tier \<in> {''judge'', ''adopt''} then
        (if prefix ''not measured:'' low then ''harness'' else ''candidate'')
      else if prefix ''not screened:'' low \<and> sublist ''safely available'' low then ''memory''
      else if sublist ''spent the whole'' low \<and> sublist ''budget'' low then ''limit''
      else if sublist ''timed out after'' low then ''limit''
      else if prefix ''the installed runtime could not load it'' low \<or> prefix ''needs its own runner'' low
           \<or> prefix ''the mps backend aborted'' low then ''runtime''
      else if any_phrase low P_GPU_FAULT \<noteq> [] \<or> sublist ''[metal]'' low then ''machine''
      else if prefix ''it ran and passed nothing'' low then
        (let head = upto_sep ''||'' low
         in if any_phrase head P_SERVER_DEAD \<noteq> [] \<or> any_phrase head P_GATEWAY \<noteq> []
               \<or> any_phrase head P_HARNESS \<noteq> [] then ''harness'' else ''candidate'')
      else if prefix ''not screened:'' low \<or> prefix ''not measured:'' low \<or> legacy_refused low \<noteq> []
        then ''harness''
      else if outcome \<in> {''broken'', ''declined''} then ''candidate''
      else [])"

section \<open>Facts\<close>

lemmas class_defs = CLASSES_def NEVER_RAN_def STOPS_def

lemma classes_distinct: "distinct (map fst CLASSES)"
  by (simp add: CLASSES_def)

lemma any_phrase_iff: "[] \<notin> set ps \<Longrightarrow> any_phrase low ps \<noteq> [] \<longleftrightarrow> (\<exists>p \<in> set ps. sublist p low)"
  by (auto simp: any_phrase_def find_None_iff find_Some_iff split: option.splits dest: nth_mem)

lemma find_first:
  "find P xs = Some x \<Longrightarrow> \<exists>ys zs. xs = ys @ x # zs \<and> P x \<and> (\<forall>y \<in> set ys. \<not> P y)"
proof (induction xs)
  case (Cons a xs)
  show ?case
  proof (cases "P a")
    case True
    with Cons.prems have "a # xs = [] @ x # xs \<and> P x \<and> (\<forall>y \<in> set []. \<not> P y)" by simp
    then show ?thesis by blast
  next
    case False
    with Cons obtain ys zs where "xs = ys @ x # zs" "P x" "\<forall>y \<in> set ys. \<not> P y" by auto
    with False have "a # xs = (a # ys) @ x # zs \<and> P x \<and> (\<forall>y \<in> set (a # ys). \<not> P y)" by simp
    then show ?thesis by blast
  qed
qed simp

lemma no_empty_class: "[] \<notin> set (map fst CLASSES)"
  by (simp add: CLASSES_def)

lemma first_class_Nil: "first_class cs = [] \<longleftrightarrow> (\<forall>c \<in> set (map fst CLASSES). c \<notin> set cs)"
proof (cases "find (\<lambda>c. c \<in> set cs) (map fst CLASSES)")
  case None
  then have "\<forall>c \<in> set (map fst CLASSES). c \<notin> set cs" by (auto simp: find_None_iff)
  moreover from None have "first_class cs = []" by (simp add: first_class_def)
  ultimately show ?thesis by blast
next
  case (Some c)
  from find_first [OF Some] have "c \<in> set (map fst CLASSES)" "c \<in> set cs"
    by (metis in_set_conv_decomp)+
  with no_empty_class Some show ?thesis by (auto simp: first_class_def simp del: set_map)
qed

lemma class_names:
  "''server_dead'' \<in> set (map fst CLASSES)" "''gpu_fault'' \<in> set (map fst CLASSES)"
  "''backend_fault'' \<in> set (map fst CLASSES)" "''load_failed_runtime'' \<in> set (map fst CLASSES)"
  "''refused_by_gateway'' \<in> set (map fst CLASSES)" "''harness_error'' \<in> set (map fst CLASSES)"
  "''runaway'' \<in> set (map fst CLASSES)" "''load_failed_layout'' \<in> set (map fst CLASSES)"
  "''missing_file_in_snapshot'' \<in> set (map fst CLASSES)" "''crashed'' \<in> set (map fst CLASSES)"
  by (simp_all add: CLASSES_def)

lemma classify_class:
  "classify text whence candidate \<in> insert [] (set (map fst CLASSES))"
  by (simp only: classify_def Let_def insert_iff class_names simp_thms split: if_split)

lemma classify_runner: "classify text RUNNER candidate \<noteq> []"
  by (simp only: classify_def Let_def list.distinct caught.distinct simp_thms if_False split: if_split)

end
