(* ===== verification/VerdictStore.thy ===== *)
theory VerdictStore
  imports Transitions Reasons
begin

text \<open>
  The store behind the ladder: the \<open>proposals\<close>, \<open>sightings\<close> and \<open>verdicts\<close> tables, and the one writer that
  moves a proposal's state (\<open>decide\<close>, \<open>_write\<close>, \<open>_schedule_retest\<close>, \<open>retract\<close>, \<open>state_audit\<close> in
  \<open>memory_store/transitions.py\<close>).

  An operation returns its result beside the store it leaves, so a refused write is seen to leave the
  store alone. \<open>_write\<close> reads the held state, inserts, and moves the state with a compare-and-swap, up to
  eight times; between its read and its insert other connections may write. What they do at the attempt with
  \<open>n\<close> attempts left is the parameter \<open>env n\<close>; the insert opens the write transaction, so nothing comes
  between it and the swap.
\<close>

section \<open>Tables\<close>

record verdict =
  v_id :: nat
  v_proposal :: "nat option"
  v_outcome :: string
  v_tier :: string
  v_detail :: string
  v_run_path :: string
  v_score :: "rat option"
  v_rubric :: string
  v_judge :: string
  v_decided_at :: rat
  v_machine :: "nat option"
  v_until :: string
  v_size_bytes :: int
  v_idle_days :: rat
  v_candidate :: "nat option"
  v_run :: "nat option"
  v_reason :: string
  v_reopens :: "nat option"
  v_reopen_kind :: string

record proposal =
  p_id :: nat
  p_name :: string
  p_kind :: string
  p_registry :: string
  p_description :: string
  p_lane :: string
  p_resolved :: string
  p_first_seen :: rat
  p_last_seen :: rat
  p_state :: string
  p_holder :: "nat option"
  p_retests :: nat
  p_next_retest :: "rat option"
  p_size_bytes :: int
  p_lane_source :: string
  p_category :: string
  p_attaches_to :: string

record sighting =
  s_id :: nat
  s_proposal :: nat
  s_source :: string
  s_url :: string
  s_why :: string
  s_relevance :: int
  s_seen_at :: rat
  s_machine :: "nat option"

record edge =
  e_id :: nat
  e_src :: nat
  e_dst :: nat
  e_relation :: string
  e_note :: string
  e_shared :: "int option"
  e_crowd :: "int option"
  e_score :: "rat option"

record download =
  dl_id :: nat
  dl_proposal :: "nat option"
  dl_repo :: string

record db =
  proposals :: "proposal list"
  verdicts :: "verdict list"
  sightings :: "sighting list"
  edges :: "edge list"
  downloads :: "download list"

datatype store_error =
    UnknownOutcome string
  | UnknownReason string
  | NotAPath string
  | NoProposal string
  | NotSaidWhy string
  | Illegal refusal
  | KeptMoving
  | RowGone
  | UnknownRegistry string

section \<open>Retests\<close>

definition RETEST_AFTER_SECONDS :: rat where "RETEST_AFTER_SECONDS = 7 * 86400"

definition RETESTS :: nat where "RETESTS = 3"

definition RETEST_TIERS :: "string list" where
  "RETEST_TIERS = [''screen'', ''measure'', ''adopt'']"

definition retest_eligible :: "string \<Rightarrow> string \<Rightarrow> string \<Rightarrow> bool" where
  "retest_eligible state tier until =
     ((case map_of REOPENS RETEST of Some (Some ss) \<Rightarrow> state \<in> set ss | _ \<Rightarrow> False)
      \<and> tier \<in> set RETEST_TIERS \<and> strip until = [])"

definition schedule_retest :: "nat \<Rightarrow> verdict \<Rightarrow> string \<Rightarrow> db \<Rightarrow> db" where
  "schedule_retest pid v reopen d =
     (if reopen = RETEST then
        d\<lparr>proposals := update_row p_id pid
            (\<lambda>p. p\<lparr>p_retests := p_retests p + 1, p_next_retest := None\<rparr>) (proposals d)\<rparr>
      else
        (let spent = (case row p_id pid (proposals d) of None \<Rightarrow> 0 | Some p \<Rightarrow> p_retests p);
             due = (if retest_eligible (v_outcome v) (v_tier v) (v_until v) \<and> spent < RETESTS
                    then Some (v_decided_at v + RETEST_AFTER_SECONDS) else None)
         in d\<lparr>proposals := update_row p_id pid (\<lambda>p. p\<lparr>p_next_retest := due\<rparr>) (proposals d)\<rparr>))"

section \<open>The writer\<close>

text \<open>The verdict holding a proposal's state: the \<open>LEFT JOIN\<close> of \<open>_held\<close>.\<close>

definition held_verdict :: "db \<Rightarrow> proposal \<Rightarrow> verdict option" where
  "held_verdict d p = (case p_holder p of None \<Rightarrow> None | Some i \<Rightarrow> row v_id i (verdicts d))"

definition held_tier :: "db \<Rightarrow> proposal \<Rightarrow> string" where
  "held_tier d p = (case held_verdict d p of None \<Rightarrow> [] | Some v \<Rightarrow> v_tier v)"

text \<open>An integer column read as a truth value: \<open>NULL\<close> and 0 are false.\<close>

definition truthy :: "nat option \<Rightarrow> bool" where
  "truthy i \<longleftrightarrow> i \<noteq> None \<and> i \<noteq> Some 0"

text \<open>A deterministic tier restating its state: no score, no run, and the held verdict says the same.\<close>

definition restates :: "db \<Rightarrow> proposal \<Rightarrow> verdict \<Rightarrow> string \<Rightarrow> bool" where
  "restates d p v reopen \<longleftrightarrow>
     truthy (p_holder p) \<and> reopen = [] \<and> v_score v = None \<and> v_run_path v = [] \<and> \<not> truthy (v_run v)
     \<and> (case held_verdict d p of
          None \<Rightarrow> False
        | Some h \<Rightarrow> v_tier h = v_tier v \<and> v_outcome h = v_outcome v \<and> v_detail h = v_detail v
            \<and> v_score h = None \<and> v_run_path h = [] \<and> \<not> truthy (v_run h))"

definition insert_verdict :: "verdict \<Rightarrow> db \<Rightarrow> nat \<times> db" where
  "insert_verdict v d =
     (let vid = next_id v_id (verdicts d)
      in (vid, d\<lparr>verdicts := verdicts d @ [v\<lparr>v_id := vid\<rparr>]\<rparr>))"

text \<open>\<open>COALESCE(state_verdict_id, 0)\<close>.\<close>

definition holder_or_0 :: "proposal \<Rightarrow> nat" where
  "holder_or_0 p = (case p_holder p of None \<Rightarrow> 0 | Some i \<Rightarrow> i)"

definition move_state :: "nat \<Rightarrow> string \<Rightarrow> nat \<Rightarrow> db \<Rightarrow> db" where
  "move_state pid outcome vid d =
     d\<lparr>proposals := update_row p_id pid (\<lambda>p. p\<lparr>p_state := outcome, p_holder := Some vid\<rparr>) (proposals d)\<rparr>"

fun write_loop :: "nat \<Rightarrow> (nat \<Rightarrow> db \<Rightarrow> db) \<Rightarrow> nat \<Rightarrow> verdict \<Rightarrow> string \<Rightarrow> db \<Rightarrow> (store_error + nat) \<times> db" where
  "write_loop 0 env pid v reopen d = (Inl KeptMoving, d)"
| "write_loop (Suc n) env pid v reopen d =
     (case row p_id pid (proposals d) of
        None \<Rightarrow> (Inl RowGone, d)
      | Some held \<Rightarrow>
          if restates d held v reopen then (Inr (holder_or_0 held), d)
          else (case transition_refused (p_state held) (held_tier d held) (v_outcome v) (v_tier v) reopen of
                  Some r \<Rightarrow> (Inl (Illegal r), d)
                | None \<Rightarrow>
                    (let cols = (if reopen \<noteq> []
                                 then v\<lparr>v_proposal := Some pid, v_reopens := p_holder held, v_reopen_kind := reopen\<rparr>
                                 else v\<lparr>v_proposal := Some pid\<rparr>);
                         d1 = env n d;
                         (vid, d2) = insert_verdict cols d1
                     in (case row p_id pid (proposals d2) of
                           Some now \<Rightarrow>
                             if holder_or_0 now = holder_or_0 held
                             then (Inr vid, schedule_retest pid v reopen (move_state pid (v_outcome v) vid d2))
                             else write_loop n env pid v reopen
                                    (d2\<lparr>verdicts := filter (\<lambda>x. v_id x \<noteq> vid) (verdicts d2)\<rparr>)
                         | None \<Rightarrow> write_loop n env pid v reopen
                                     (d2\<lparr>verdicts := filter (\<lambda>x. v_id x \<noteq> vid) (verdicts d2)\<rparr>)))))"

definition write_verdict ::
    "(nat \<Rightarrow> db \<Rightarrow> db) \<Rightarrow> nat \<Rightarrow> verdict \<Rightarrow> string \<Rightarrow> string \<Rightarrow> db \<Rightarrow> (store_error + nat) \<times> db" where
  "write_verdict env pid v reopen why d =
     (if reopen \<noteq> [] \<and> strip why = [] then (Inl (NotSaidWhy reopen), d)
      else write_loop 8 env pid v reopen d)"

section \<open>Deciding\<close>

text \<open>The keyword arguments of \<open>decide\<close>. \<open>k_at\<close> is \<^term>\<open>None\<close> when the clock is to be read.\<close>

record decision =
  k_tier :: string
  k_detail :: string
  k_run_path :: string
  k_score :: "rat option"
  k_rubric :: string
  k_judge :: string
  k_at :: "rat option"
  k_until :: string
  k_size_bytes :: int
  k_idle_days :: rat
  k_candidate :: "nat option"
  k_reopen :: string
  k_reopen_why :: string
  k_reason :: string
  k_run :: "nat option"

definition no_decision :: decision where
  "no_decision = \<lparr>k_tier = [], k_detail = [], k_run_path = [], k_score = None, k_rubric = [], k_judge = [],
     k_at = None, k_until = [], k_size_bytes = 0, k_idle_days = 0, k_candidate = None, k_reopen = [],
     k_reopen_why = [], k_reason = [], k_run = None\<rparr>"

definition proposal_named :: "db \<Rightarrow> string \<Rightarrow> proposal option" where
  "proposal_named d name = find (\<lambda>p. p_name p = name) (proposals d)"

text \<open>A run path is a path: absolute, or holding a separator. On POSIX an absolute path holds one.\<close>

definition is_path :: "string \<Rightarrow> bool" where
  "is_path s \<longleftrightarrow> CHR ''/'' \<in> set s \<or> CHR 0x5C \<in> set s"

definition fields_of :: "string \<Rightarrow> decision \<Rightarrow> string \<Rightarrow> rat \<Rightarrow> nat option \<Rightarrow> verdict" where
  "fields_of outcome k reason now machine =
     \<lparr>v_id = 0, v_proposal = None, v_outcome = outcome, v_tier = k_tier k, v_detail = k_detail k,
      v_run_path = k_run_path k, v_score = k_score k, v_rubric = k_rubric k, v_judge = k_judge k,
      v_decided_at = (case k_at k of None \<Rightarrow> now | Some t \<Rightarrow> t), v_machine = machine,
      v_until = k_until k, v_size_bytes = k_size_bytes k, v_idle_days = k_idle_days k,
      v_candidate = k_candidate k, v_run = k_run k, v_reason = reason, v_reopens = None,
      v_reopen_kind = []\<rparr>"

text \<open>The last verdict about a candidate, whatever its proposal.\<close>

definition last_of_candidate :: "db \<Rightarrow> nat option \<Rightarrow> verdict option" where
  "last_of_candidate d c =
     (case filter (\<lambda>v. c \<noteq> None \<and> v_candidate v = c) (verdicts d) of
        [] \<Rightarrow> None
      | vs \<Rightarrow> Some (last vs))"

definition same_as_last :: "db \<Rightarrow> string \<Rightarrow> decision \<Rightarrow> nat option" where
  "same_as_last d outcome k =
     (if k_score k = None \<and> k_run_path k = [] \<and> \<not> truthy (k_run k) then
        (case last_of_candidate d (k_candidate k) of
           None \<Rightarrow> None
         | Some s \<Rightarrow>
             if v_tier s = k_tier k \<and> v_outcome s = outcome \<and> v_detail s = k_detail k \<and> v_score s = None
                \<and> v_run_path s = [] \<and> \<not> truthy (v_run s)
             then Some (v_id s) else None)
      else None)"

text \<open>
  \<open>decide\<close>, on the tables above: \<open>env\<close> is what other connections do, \<open>now\<close> the clock, \<open>machine\<close> the id of this machine's row.
  The row itself, which the code writes between the checks and the move, is added in \<^theory_text>\<open>Machines\<close> (\<open>decide_recording\<close>).
\<close>

definition decide ::
    "(nat \<Rightarrow> db \<Rightarrow> db) \<Rightarrow> rat \<Rightarrow> nat option \<Rightarrow> string \<Rightarrow> string \<Rightarrow> decision \<Rightarrow> db
     \<Rightarrow> (store_error + nat) \<times> db" where
  "decide env now machine name outcome k d =
     (let reason = (if k_reopen k \<noteq> [] then ''reopened'' else k_reason k) in
      if outcome \<notin> set VERDICTS then (Inl (UnknownOutcome outcome), d)
      else if reason \<noteq> [] \<and> reason \<notin> set REASONS then (Inl (UnknownReason reason), d)
      else if k_run_path k \<noteq> [] \<and> \<not> is_path (k_run_path k) then (Inl (NotAPath (k_run_path k)), d)
      else
        (case proposal_named d name of
           Some p \<Rightarrow>
             write_verdict env (p_id p) (fields_of outcome k reason now machine) (k_reopen k) (k_reopen_why k) d
         | None \<Rightarrow>
             if \<not> (truthy (k_candidate k) \<and> name = []) then (Inl (NoProposal name), d)
             else (case same_as_last d outcome k of
                     Some i \<Rightarrow> (Inr i, d)
                   | None \<Rightarrow>
                       (let (vid, d') = insert_verdict (fields_of outcome k reason now machine) d
                        in (Inr vid, d')))))"

text \<open>\<open>retract\<close>: reopen or reclassify a decided name, saying why.\<close>

definition retract ::
    "(nat \<Rightarrow> db \<Rightarrow> db) \<Rightarrow> rat \<Rightarrow> nat option \<Rightarrow> string \<Rightarrow> string \<Rightarrow> string \<Rightarrow> string \<Rightarrow> string \<Rightarrow> db
     \<Rightarrow> (store_error + nat) \<times> db" where
  "retract env now machine name why outcome tier until d =
     (let detail = (if prefix ''retracted:'' why then why else ''retracted: '' @ why)
      in decide env now machine name outcome
           (no_decision\<lparr>k_tier := tier, k_until := until, k_detail := detail, k_reopen := RETRACTION,
              k_reopen_why := why\<rparr>) d)"

text \<open>\<open>decide_or_skip\<close>: an illegal move is skipped (\<^term>\<open>None\<close>), every other error still raised.\<close>

definition decide_or_skip ::
    "(nat \<Rightarrow> db \<Rightarrow> db) \<Rightarrow> rat \<Rightarrow> nat option \<Rightarrow> string \<Rightarrow> string \<Rightarrow> decision \<Rightarrow> db
     \<Rightarrow> (store_error + nat option) \<times> db" where
  "decide_or_skip env now machine name outcome k d =
     (case decide env now machine name outcome k d of
        (Inr vid, d') \<Rightarrow> (Inr (Some vid), d')
      | (Inl (Illegal r), d') \<Rightarrow> (Inr None, d')
      | (Inl (NotSaidWhy r), d') \<Rightarrow> (Inr None, d')
      | (Inl e, d') \<Rightarrow> (Inl e, d'))"

section \<open>The audit\<close>

text \<open>A row's event: before the column existed a retraction was only its prose.\<close>

definition event_of :: "verdict \<Rightarrow> event" where
  "event_of v =
     (v_outcome v, v_tier v,
      if v_reopen_kind v \<noteq> [] then v_reopen_kind v
      else if prefix ''retracted:'' (v_detail v) then RETRACTION else [])"

definition history :: "db \<Rightarrow> nat \<Rightarrow> event list" where
  "history d pid = map event_of (filter (\<lambda>v. v_proposal v = Some pid) (verdicts d))"

definition once_terminal :: "db \<Rightarrow> nat \<Rightarrow> bool" where
  "once_terminal d pid \<longleftrightarrow> (\<exists>v \<in> set (verdicts d). v_proposal v = Some pid \<and> v_outcome v \<in> set TERMINAL)"

text \<open>\<open>state_audit\<close>: the rows its fold disagrees with, and those once terminal and now open.\<close>

definition state_audit :: "db \<Rightarrow> (string \<times> string \<times> string) list \<times> (string \<times> string) list" where
  "state_audit d =
     ([(p_name p, p_state p, fst (fold_events (history d (p_id p)))).
         p \<leftarrow> proposals d, fst (fold_events (history d (p_id p))) \<noteq> p_state p],
      [(p_name p, p_state p). p \<leftarrow> proposals d, once_terminal d (p_id p) \<and> p_state p \<notin> set TERMINAL])"

end
