(* ===== verification/VerdictFacts.thy ===== *)
theory VerdictFacts
  imports VerdictStore
begin

text \<open>
  The store is event sourced: a proposal's state is what the transition table folds its verdicts to.
  \<open>store_ok\<close> says so, with the bookkeeping that makes it inductive; \<open>extends\<close> is what the writer relies on
  from other connections, and what it gives them in turn.
\<close>

interpretation verdict_table: table v_id "\<lambda>i v. v\<lparr>v_id := i\<rparr>"
  by unfold_locales simp

interpretation sighting_table: table s_id "\<lambda>i s. s\<lparr>s_id := i\<rparr>"
  by unfold_locales simp

interpretation proposal_table: table p_id "\<lambda>i p. p\<lparr>p_id := i\<rparr>"
  by unfold_locales simp

section \<open>The invariant\<close>

definition holder_ok :: "db \<Rightarrow> proposal \<Rightarrow> bool" where
  "holder_ok d p \<longleftrightarrow>
     (case p_holder p of
        None \<Rightarrow> p_state p = []
      | Some i \<Rightarrow> i \<noteq> 0 \<and> (\<exists>v. row v_id i (verdicts d) = Some v \<and> v_proposal v = Some (p_id p)
                             \<and> v_outcome v = p_state p))"

definition retest_ok :: "db \<Rightarrow> proposal \<Rightarrow> bool" where
  "retest_ok d p \<longleftrightarrow>
     (p_next_retest p \<noteq> None \<longrightarrow>
        p_retests p < RETESTS
        \<and> (\<exists>v. held_verdict d p = Some v \<and> retest_eligible (p_state p) (v_tier v) (v_until v)))"

definition proposal_ok :: "db \<Rightarrow> proposal \<Rightarrow> bool" where
  "proposal_ok d p \<longleftrightarrow>
     holder_ok d p \<and> retest_ok d p \<and> fold_events (history d (p_id p)) = (p_state p, held_tier d p)"

definition store_ok :: "db \<Rightarrow> bool" where
  "store_ok d \<longleftrightarrow>
     distinct (map p_id (proposals d)) \<and> distinct (map v_id (verdicts d))
     \<and> (\<forall>v \<in> set (verdicts d). \<forall>i. v_proposal v = Some i \<longrightarrow> i \<in> p_id ` set (proposals d))
     \<and> (\<forall>p \<in> set (proposals d). proposal_ok d p)"

text \<open>What a step of another connection may do: verdicts are only added, and the invariant holds after.\<close>

definition extends :: "db \<Rightarrow> db \<Rightarrow> bool" where
  "extends d d' \<longleftrightarrow> (store_ok d \<longrightarrow> store_ok d') \<and> (\<exists>vs. verdicts d' = verdicts d @ vs)"

lemma extends_refl [simp]: "extends d d"
  by (simp add: extends_def)

definition empty_db :: db where
  "empty_db = \<lparr>proposals = [], verdicts = [], sightings = [], edges = [], downloads = []\<rparr>"

lemma store_ok_empty: "store_ok empty_db"
  by (simp add: store_ok_def empty_db_def)

section \<open>One verdict more\<close>

lemma held_verdict_append:
  "held_verdict d p = Some v \<Longrightarrow> verdicts d' = verdicts d @ vs \<Longrightarrow> held_verdict d' p = Some v"
  by (auto simp: held_verdict_def row_old_append split: option.splits)

lemma holder_ok_append:
  "holder_ok d p \<Longrightarrow> verdicts d' = verdicts d @ vs \<Longrightarrow> holder_ok d' p"
  by (auto simp: holder_ok_def row_old_append split: option.splits)

lemma holder_ok_held: "holder_ok d p \<Longrightarrow> p_holder p = Some i \<Longrightarrow> \<exists>v. held_verdict d p = Some v \<and> v_outcome v = p_state p"
  by (auto simp: holder_ok_def held_verdict_def)

lemma held_tier_append:
  assumes "holder_ok d p" and "verdicts d' = verdicts d @ vs"
  shows "held_tier d' p = held_tier d p"
proof (cases "p_holder p")
  case None
  then show ?thesis by (simp add: held_tier_def held_verdict_def)
next
  case (Some i)
  with holder_ok_held [OF assms(1)] obtain v where "held_verdict d p = Some v" by blast
  with held_verdict_append [OF _ assms(2)] show ?thesis by (simp add: held_tier_def)
qed

lemma retest_ok_append:
  "retest_ok d p \<Longrightarrow> verdicts d' = verdicts d @ vs \<Longrightarrow> retest_ok d' p"
  using held_verdict_append [of d p _ d' vs] by (auto simp: retest_ok_def)

text \<open>A verdict about another proposal, or about none, leaves this proposal's account as it was.\<close>

lemma proposal_ok_append_other:
  assumes "proposal_ok d p" and "verdicts d' = verdicts d @ [v]" and "v_proposal v \<noteq> Some (p_id p)"
  shows "proposal_ok d' p"
proof -
  from assms have "holder_ok d' p" "retest_ok d' p" "held_tier d' p = held_tier d p"
    by (auto simp: proposal_ok_def intro: holder_ok_append retest_ok_append held_tier_append)
  moreover from assms(2,3) have "history d' (p_id p) = history d (p_id p)" by (simp add: history_def)
  ultimately show ?thesis using assms(1) by (simp add: proposal_ok_def)
qed

lemma history_append:
  "verdicts d' = verdicts d @ [v] \<Longrightarrow> v_proposal v = Some i \<Longrightarrow> history d' i = history d i @ [event_of v]"
  by (simp add: history_def)

text \<open>An event the table lets through is what the fold takes, also when its prose reads as a retraction.\<close>

lemma fold_step_event_of:
  assumes "transition_refused s h (v_outcome v) (v_tier v) reopen = None"
    and "v_reopen_kind v = reopen"
  shows "fold_step (s, h) (event_of v) = (v_outcome v, v_tier v)"
  using assms retraction_never_refused [of s h "v_outcome v" "v_tier v"]
  by (auto simp: event_of_def)

text \<open>The compare-and-swap's success means nobody moved the state since it was read.\<close>

lemma same_holder_same_state:
  assumes "verdicts d1 = verdicts d @ vs" and "holder_ok d held" and "holder_ok d1 now"
    and "holder_or_0 now = holder_or_0 held"
  shows "p_state now = p_state held \<and> held_tier d1 now = held_tier d held"
proof (cases "p_holder held")
  case None
  with assms(3,4) have "p_holder now = None"
    by (auto simp: holder_or_0_def holder_ok_def split: option.splits)
  with None assms(2,3) show ?thesis
    by (simp add: holder_ok_def held_tier_def held_verdict_def)
next
  case (Some i)
  with assms(2) obtain v where v: "row v_id i (verdicts d) = Some v" "v_outcome v = p_state held" "i \<noteq> 0"
    by (auto simp: holder_ok_def)
  with Some assms(4) have now: "p_holder now = Some i"
    by (auto simp: holder_or_0_def split: option.splits)
  from v assms(1) have "row v_id i (verdicts d1) = Some v" by (simp add: row_old_append)
  with assms(3) now v Some show ?thesis
    by (auto simp: holder_ok_def held_tier_def held_verdict_def)
qed

section \<open>The committed move\<close>

definition commit_move :: "nat \<Rightarrow> verdict \<Rightarrow> string \<Rightarrow> db \<Rightarrow> db" where
  "commit_move pid cols reopen d =
     (let (vid, d2) = insert_verdict cols d
      in schedule_retest pid cols reopen (move_state pid (v_outcome cols) vid d2))"

lemma proposals_insert [simp]: "proposals (snd (insert_verdict v d)) = proposals d"
  by (simp add: insert_verdict_def Let_def)

lemma verdicts_insert: "insert_verdict v d = (vid, d') \<Longrightarrow>
    vid = next_id v_id (verdicts d) \<and> verdicts d' = verdicts d @ [v\<lparr>v_id := vid\<rparr>] \<and> proposals d' = proposals d"
  by (auto simp: insert_verdict_def Let_def)

lemma verdicts_schedule [simp]: "verdicts (schedule_retest pid v r d) = verdicts d"
  by (simp add: schedule_retest_def Let_def)

lemma verdicts_move [simp]: "verdicts (move_state pid out vid d) = verdicts d"
  by (simp add: move_state_def)

text \<open>The row a committed move leaves, from the row \<open>q\<close> it found.\<close>

definition moved_row :: "verdict \<Rightarrow> string \<Rightarrow> nat \<Rightarrow> proposal \<Rightarrow> proposal" where
  "moved_row v reopen vid q =
     (let q' = q\<lparr>p_state := v_outcome v, p_holder := Some vid\<rparr>
      in if reopen = RETEST then q'\<lparr>p_retests := p_retests q + 1, p_next_retest := None\<rparr>
         else q'\<lparr>p_next_retest :=
                   (if retest_eligible (v_outcome v) (v_tier v) (v_until v) \<and> p_retests q < RETESTS
                    then Some (v_decided_at v + RETEST_AFTER_SECONDS) else None)\<rparr>)"

lemma moved_row_fields [simp]:
  "p_id (moved_row v r vid q) = p_id q" "p_name (moved_row v r vid q) = p_name q"
  "p_state (moved_row v r vid q) = v_outcome v" "p_holder (moved_row v r vid q) = Some vid"
  by (simp_all add: moved_row_def Let_def)

lemma update_row_const:
  "distinct (map rid rows) \<Longrightarrow> row rid i rows = Some q \<Longrightarrow>
   update_row rid i f rows = update_row rid i (\<lambda>_. f q) rows"
  unfolding update_row_def by (rule map_cong [OF refl]) (metis option.inject row_unique)

lemma update_row_twice:
  "(\<And>r. rid (f r) = rid r) \<Longrightarrow> update_row rid i g (update_row rid i f rows) = update_row rid i (g \<circ> f) rows"
  by (simp add: update_row_def)

lemma commit_move_tables:
  assumes "distinct (map p_id (proposals d))" and "row p_id pid (proposals d) = Some q"
  shows "verdicts (commit_move pid v r d) = verdicts d @ [v\<lparr>v_id := next_id v_id (verdicts d)\<rparr>]"
    and "proposals (commit_move pid v r d)
         = update_row p_id pid (\<lambda>_. moved_row v r (next_id v_id (verdicts d)) q) (proposals d)"
proof -
  show "verdicts (commit_move pid v r d) = verdicts d @ [v\<lparr>v_id := next_id v_id (verdicts d)\<rparr>]"
    by (simp add: commit_move_def insert_verdict_def Let_def)
  let ?mv = "\<lambda>p. p\<lparr>p_state := v_outcome v, p_holder := Some (next_id v_id (verdicts d))\<rparr>"
  have row: "row p_id pid (update_row p_id pid ?mv (proposals d)) = Some (?mv q)"
    using assms(2) by (simp add: row_update)
  have "\<exists>f. proposals (commit_move pid v r d) = update_row p_id pid f (proposals d)
      \<and> f q = moved_row v r (next_id v_id (verdicts d)) q"
    using row by (auto simp: commit_move_def insert_verdict_def Let_def schedule_retest_def move_state_def
        moved_row_def update_row_twice)
  then show "proposals (commit_move pid v r d)
         = update_row p_id pid (\<lambda>_. moved_row v r (next_id v_id (verdicts d)) q) (proposals d)"
    using update_row_const [OF assms] by metis
qed

lemma moved_row_retests:
  "p_next_retest (moved_row v r vid q) \<noteq> None \<Longrightarrow>
   p_retests (moved_row v r vid q) < RETESTS \<and> retest_eligible (v_outcome v) (v_tier v) (v_until v)"
  by (auto simp: moved_row_def Let_def split: if_splits)

lemma commit_move_ok:
  assumes ok: "store_ok d" and q: "row p_id pid (proposals d) = Some q"
    and legal: "transition_refused (p_state q) (held_tier d q) (v_outcome v) (v_tier v) reopen = None"
    and v: "v_proposal v = Some pid" "v_reopen_kind v = reopen"
  shows "store_ok (commit_move pid v reopen d)"
proof -
  define vid where "vid = next_id v_id (verdicts d)"
  define d' where "d' = commit_move pid v reopen d"
  define q' where "q' = moved_row v reopen vid q"
  define w where "w = v\<lparr>v_id := vid\<rparr>"
  have dist: "distinct (map p_id (proposals d))" and distv: "distinct (map v_id (verdicts d))"
    using ok by (simp_all add: store_ok_def)
  note tabs = commit_move_tables [OF dist q, of v reopen, folded vid_def d'_def, folded w_def q'_def]
  have vs': "verdicts d' = verdicts d @ [w]" using tabs by simp
  have ps': "proposals d' = update_row p_id pid (\<lambda>_. q') (proposals d)" using tabs by simp
  from row_Some [OF q] have qin: "q \<in> set (proposals d)" and qid: "p_id q = pid" by auto
  have q'id: "p_id q' = pid" by (simp add: q'_def qid)
  have wrow: "row v_id vid (verdicts d') = Some w"
    using row_fresh_append [of v_id w "verdicts d"] by (simp add: vs' w_def vid_def)
  have held': "held_verdict d' q' = Some w" by (simp add: held_verdict_def q'_def wrow)
  have q'ok: "proposal_ok d' q'"
  proof -
    have "holder_ok d' q'" using wrow v by (simp add: holder_ok_def q'_def w_def vid_def qid)
    moreover have "retest_ok d' q'"
      using moved_row_retests [of v reopen vid q] held' by (auto simp: retest_ok_def q'_def w_def)
    moreover have "fold_events (history d' pid) = (v_outcome v, v_tier v)"
    proof -
      have "fold_events (history d pid) = (p_state q, held_tier d q)"
        using ok qin qid by (auto simp: store_ok_def proposal_ok_def)
      then show ?thesis
        using fold_step_event_of [of "p_state q" "held_tier d q" w reopen] legal v
          history_append [OF vs', of pid]
        by (simp add: fold_events_snoc w_def)
    qed
    ultimately show ?thesis using held' q'id
      by (simp add: proposal_ok_def held_tier_def w_def q'_def)
  qed
  have others: "proposal_ok d' p" if "p \<in> set (proposals d)" "p_id p \<noteq> pid" for p
    using proposal_ok_append_other [OF _ vs', of p] that ok v by (auto simp: store_ok_def w_def)
  have "\<forall>p \<in> set (proposals d'). proposal_ok d' p"
    using q'ok others by (auto simp: ps' update_row_def)
  moreover have ids: "map p_id (proposals d') = map p_id (proposals d)"
    by (simp add: ps' update_row_def q'id)
  moreover have "distinct (map v_id (verdicts d'))"
    using distinct_ids_append [OF distv, of w] by (simp add: vs' w_def vid_def)
  moreover have "\<forall>x \<in> set (verdicts d'). \<forall>i. v_proposal x = Some i \<longrightarrow> i \<in> p_id ` set (proposals d')"
  proof -
    have "p_id ` set (proposals d') = p_id ` set (proposals d)" using ids by (metis set_map)
    then show ?thesis using ok qin qid v by (auto simp: vs' store_ok_def w_def)
  qed
  ultimately show ?thesis using dist unfolding d'_def [symmetric] by (simp add: store_ok_def)
qed

section \<open>The write loop\<close>

definition columns :: "nat \<Rightarrow> proposal \<Rightarrow> verdict \<Rightarrow> string \<Rightarrow> verdict" where
  "columns pid held v reopen =
     (if reopen \<noteq> [] then v\<lparr>v_proposal := Some pid, v_reopens := p_holder held, v_reopen_kind := reopen\<rparr>
      else v\<lparr>v_proposal := Some pid\<rparr>)"

lemma columns_fields [simp]:
  "v_proposal (columns pid h v r) = Some pid" "v_outcome (columns pid h v r) = v_outcome v"
  "v_tier (columns pid h v r) = v_tier v" "v_until (columns pid h v r) = v_until v"
  "v_decided_at (columns pid h v r) = v_decided_at v" "v_detail (columns pid h v r) = v_detail v"
  by (simp_all add: columns_def)

lemma columns_kind: "v_reopen_kind v = [] \<Longrightarrow> v_reopen_kind (columns pid h v r) = r"
  by (simp add: columns_def)

lemma schedule_retest_columns: "schedule_retest pid (columns i h v r) k d = schedule_retest pid v k d"
  by (simp add: schedule_retest_def)

text \<open>One turn of the loop, with the swap's success and its failure named.\<close>

lemma write_loop_Suc:
  assumes "row p_id pid (proposals d) = Some held" and "\<not> restates d held v reopen"
    and "transition_refused (p_state held) (held_tier d held) (v_outcome v) (v_tier v) reopen = None"
  shows "write_loop (Suc n) env pid v reopen d =
     (case row p_id pid (proposals (env n d)) of
        Some now \<Rightarrow>
          if holder_or_0 now = holder_or_0 held
          then (Inr (next_id v_id (verdicts (env n d))), commit_move pid (columns pid held v reopen) reopen (env n d))
          else write_loop n env pid v reopen (env n d)
      | None \<Rightarrow> write_loop n env pid v reopen (env n d))"
proof -
  have undone: "(env n d)\<lparr>verdicts := filter (\<lambda>x. v_id x \<noteq> next_id v_id (verdicts (env n d)))
       (verdicts (env n d) @ [(columns pid held v reopen)\<lparr>v_id := next_id v_id (verdicts (env n d))\<rparr>])\<rparr> = env n d"
    by (simp only: verdict_table.insert_undone) simp
  show ?thesis
    using assms undone
    by (auto simp: insert_verdict_def Let_def commit_move_def columns_def schedule_retest_columns
        schedule_retest_def move_state_def split: option.splits)
qed

lemma extends_trans: "extends d d' \<Longrightarrow> extends d' d'' \<Longrightarrow> extends d d''"
  by (auto simp: extends_def)

lemma commit_move_extends:
  assumes "distinct (map p_id (proposals d))" "row p_id pid (proposals d) = Some q"
    and "store_ok (commit_move pid v r d)"
  shows "extends d (commit_move pid v r d)"
  using assms commit_move_tables(1) [OF assms(1,2), of v r] by (simp add: extends_def)

lemma write_loop_extends:
  assumes env: "\<And>n d. extends d (env n d)" and kind: "v_reopen_kind v = []" and ok: "store_ok d"
  shows "extends d (snd (write_loop n env pid v reopen d))"
  using ok
proof (induction n arbitrary: d)
  case 0
  then show ?case by simp
next
  case (Suc n)
  have env_ok: "store_ok (env n d)" using env [of d n] Suc.prems by (simp add: extends_def)
  show ?case
  proof (cases "row p_id pid (proposals d)")
    case None
    then show ?thesis by simp
  next
    case (Some held)
    show ?thesis
    proof (cases "restates d held v reopen
        \<or> transition_refused (p_state held) (held_tier d held) (v_outcome v) (v_tier v) reopen \<noteq> None")
      case True
      then show ?thesis using Some by auto
    next
      case False
      note loop = write_loop_Suc [OF Some, of v reopen n env]
      have retry: "extends d (snd (write_loop n env pid v reopen (env n d)))"
        using extends_trans [OF env Suc.IH [OF env_ok]] .
      show ?thesis
      proof (cases "\<exists>now. row p_id pid (proposals (env n d)) = Some now \<and> holder_or_0 now = holder_or_0 held")
        case False
        with retry loop \<open>\<not> (restates d held v reopen \<or> _)\<close> show ?thesis by (auto split: option.splits)
      next
        case True
        then obtain now where now: "row p_id pid (proposals (env n d)) = Some now"
          "holder_or_0 now = holder_or_0 held" by blast
        have "holder_ok d held" "holder_ok (env n d) now"
          using row_Some [OF Some] row_Some [OF now(1)] Suc.prems env_ok
          by (auto simp: store_ok_def proposal_ok_def)
        moreover obtain vs where "verdicts (env n d) = verdicts d @ vs" using env [of d n] by (auto simp: extends_def)
        ultimately have same: "p_state now = p_state held" "held_tier (env n d) now = held_tier d held"
          using same_holder_same_state now(2) by metis+
        have "store_ok (commit_move pid (columns pid held v reopen) reopen (env n d))"
          using commit_move_ok [OF env_ok now(1), of "columns pid held v reopen" reopen] False same kind
          by (simp add: columns_kind)
        then have "extends (env n d) (commit_move pid (columns pid held v reopen) reopen (env n d))"
          using commit_move_extends [OF _ now(1)] env_ok by (simp add: store_ok_def)
        with env [of d n] have "extends d (commit_move pid (columns pid held v reopen) reopen (env n d))"
          by (blast intro: extends_trans)
        with loop now False show ?thesis by auto
      qed
    qed
  qed
qed

section \<open>Deciding keeps the invariant\<close>

lemma fields_of_kind [simp]: "v_reopen_kind (fields_of out k r t m) = []" "v_proposal (fields_of out k r t m) = None"
  by (simp_all add: fields_of_def)

lemma insert_unattached_ok:
  assumes "store_ok d" and "insert_verdict v d = (vid, d')" and "v_proposal v = None"
  shows "extends d d'"
proof -
  have t: "vid = next_id v_id (verdicts d)" "verdicts d' = verdicts d @ [v\<lparr>v_id := vid\<rparr>]" "proposals d' = proposals d"
    using verdicts_insert [OF assms(2)] by auto
  have "distinct (map v_id (verdicts d'))"
    using distinct_ids_append [of v_id "verdicts d" "v\<lparr>v_id := vid\<rparr>"] assms(1) t by (simp add: store_ok_def)
  moreover have "\<forall>p \<in> set (proposals d'). proposal_ok d' p"
    using assms(1,3) t proposal_ok_append_other [OF _ t(2)] by (simp add: store_ok_def)
  ultimately show ?thesis using assms(1,3) t by (auto simp: extends_def store_ok_def)
qed

lemma decide_extends:
  assumes "\<And>n d. extends d (env n d)" and "store_ok d"
  shows "extends d (snd (decide env now machine name outcome k d))"
proof -
  have w: "extends d (snd (write_verdict env pid (fields_of out k r t m) reopen why d))" for pid out r t m reopen why
    using write_loop_extends [OF assms(1) _ assms(2)] by (simp add: write_verdict_def)
  have i: "extends d (snd (let (vid, d') = insert_verdict (fields_of out k r t m) d in (Inr vid :: store_error + nat, d')))"
    for out r t m
    using insert_unattached_ok [OF assms(2), of "fields_of out k r t m"] by (auto split: prod.split)
  show ?thesis using w i by (simp add: decide_def Let_def split: option.split)
qed

lemma retract_extends:
  "(\<And>n d. extends d (env n d)) \<Longrightarrow> store_ok d \<Longrightarrow> extends d (snd (retract env now machine name why out t u d))"
  by (simp add: retract_def Let_def decide_extends)

lemma decide_or_skip_store [simp]:
  "snd (decide_or_skip env now machine name outcome k d) = snd (decide env now machine name outcome k d)"
  by (auto simp: decide_or_skip_def split: prod.splits sum.splits store_error.splits)

text \<open>Nobody else writing.\<close>

definition alone :: "nat \<Rightarrow> db \<Rightarrow> db" where
  "alone n d = d"

lemma alone_extends [simp]: "extends d (alone n d)"
  by (simp add: alone_def)

lemma audit_clean: "store_ok d \<Longrightarrow> fst (state_audit d) = []"
  by (auto simp: state_audit_def store_ok_def proposal_ok_def concat_eq_Nil_conv)

lemma write_alone:
  "row p_id pid (proposals d) = Some held \<Longrightarrow> \<not> restates d held v reopen \<Longrightarrow>
   transition_refused (p_state held) (held_tier d held) (v_outcome v) (v_tier v) reopen = None \<Longrightarrow>
   write_loop (Suc n) alone pid v reopen d
     = (Inr (next_id v_id (verdicts d)), commit_move pid (columns pid held v reopen) reopen d)"
  by (simp add: write_loop_Suc alone_def del: write_loop.simps)

lemma write_alone_error_Suc:
  "write_loop (Suc n) alone pid v reopen d = (Inl e, d') \<Longrightarrow> d' = d \<and> e \<noteq> KeptMoving"
proof -
  assume w: "write_loop (Suc n) alone pid v reopen d = (Inl e, d')"
  show ?thesis
  proof (cases "row p_id pid (proposals d)")
    case None
    with w show ?thesis by simp
  next
    case (Some held)
    show ?thesis
    proof (cases "restates d held v reopen
        \<or> transition_refused (p_state held) (held_tier d held) (v_outcome v) (v_tier v) reopen \<noteq> None")
      case True
      with w Some show ?thesis by (auto split: if_splits)
    next
      case False
      with w write_alone [OF Some] show ?thesis by (auto simp del: write_loop.simps)
    qed
  qed
qed

lemma write_alone_error:
  "write_loop 8 alone pid v reopen d = (Inl e, d') \<Longrightarrow> d' = d \<and> e \<noteq> KeptMoving"
  using write_alone_error_Suc [of 7 pid v reopen d e d'] by (simp add: eval_nat_numeral del: write_loop.simps)

lemma decide_alone_error:
  "decide alone now machine name outcome k d = (Inl e, d') \<Longrightarrow> d' = d \<and> e \<noteq> KeptMoving"
  by (auto simp: decide_def Let_def write_verdict_def dest: write_alone_error
      split: if_splits option.splits prod.splits)

end
