(* ===== verification/Lanes.thy ===== *)
theory Lanes
  imports Prelude
begin

text \<open>
  The lanes, \<open>harness/lanes.py\<close>: which names there are, which older names stand for them, and which lanes
  one text model serves. \<open>canonical\<close> is applied wherever a lane is read. \<open>from_prose\<close> and
  \<open>technique_route\<close> read regular expressions and are not modelled.
\<close>

definition WANTED :: "string list" where
  "WANTED = [''image'', ''code'', ''web'', ''svg'', ''video'', ''music'', ''decide'', ''agent'', ''ocr'',
             ''retrieval'', ''pii'', ''claims'']"

definition UNWANTED :: "string list" where
  "UNWANTED = [''extract'', ''stt'', ''tts'']"

definition ALL_LANES :: "string list" where
  "ALL_LANES = WANTED @ UNWANTED"

definition ALIASES :: "(string \<times> string) list" where
  "ALIASES = [(''text'', ''code''), (''all'', [])]"

text \<open>Lane to (why it is not run here, what would change that); empty since the Studio ran video.\<close>

definition PARKED :: "(string \<times> string \<times> string) list" where
  "PARKED = []"

definition TEXT_SERVED :: "string list" where
  "TEXT_SERVED = [''code'', ''web'', ''svg'', ''extract'', ''agent'']"

definition GGUF_SERVED :: "string list" where
  "GGUF_SERVED = TEXT_SERVED @ [''decide'', ''claims'']"

definition HUMAN_JUDGED :: "string list" where
  "HUMAN_JUDGED = [''music'', ''svg'']"

definition canonical :: "string \<Rightarrow> string" where
  "canonical lane = (let got = lower (strip lane) in get_or got ALIASES got)"

definition parked :: "string \<Rightarrow> string \<times> string" where
  "parked lane = get_or ([], []) PARKED (canonical lane)"

definition human_judged :: "string \<Rightarrow> bool" where
  "human_judged lane \<longleftrightarrow> canonical lane \<in> set HUMAN_JUDGED"

definition known :: "string \<Rightarrow> bool" where
  "known lane \<longleftrightarrow> canonical lane \<in> set ALL_LANES"

definition testable_in :: "string \<Rightarrow> string list" where
  "testable_in lane =
     (let got = canonical lane
      in if got = [] then [] else if got \<in> set TEXT_SERVED then TEXT_SERVED else [got])"

definition serves :: "string \<Rightarrow> string \<Rightarrow> bool" where
  "serves candidate_lane target_lane \<longleftrightarrow> canonical target_lane \<in> set (testable_in candidate_lane)"

section \<open>Facts\<close>

lemmas lane_tables = WANTED_def UNWANTED_def ALL_LANES_def ALIASES_def TEXT_SERVED_def HUMAN_JUDGED_def

lemma alias_closed: "get_or (get_or s ALIASES s) ALIASES (get_or s ALIASES s) = get_or s ALIASES s"
  by (simp add: get_or_def ALIASES_def)

lemma canonical_idem [simp]: "canonical (canonical s) = canonical s"
proof -
  define got where "got = lower (strip s)"
  have got: "lower (strip got) = got" by (simp add: got_def lower_strip)
  have "lower (strip (get_or got ALIASES got)) = get_or got ALIASES got"
    using got by (auto simp: get_or_def ALIASES_def) (simp add: lower_def lower_char_def strip_def is_space_def)+
  then show ?thesis using alias_closed [of got] by (simp add: canonical_def got_def [symmetric])
qed

lemma canonical_lane: "s \<in> set ALL_LANES \<Longrightarrow> canonical s = s"
  by (auto simp: lane_tables canonical_def get_or_def lower_def lower_char_def strip_def is_space_def)

text \<open>One text model serves several lanes: \<open>serves\<close> is an equivalence on the lanes there are.\<close>

lemma serves_iff:
  "serves a b \<longleftrightarrow> canonical a \<noteq> [] \<and>
     (if canonical a \<in> set TEXT_SERVED then canonical b \<in> set TEXT_SERVED else canonical b = canonical a)"
  by (simp add: serves_def testable_in_def Let_def)

lemma served_not_Nil: "[] \<notin> set TEXT_SERVED"
  by (simp add: TEXT_SERVED_def)

end
