(* ===== verification/Proposals.thy ===== *)
theory Proposals
  imports VerdictFacts Lanes
begin

text \<open>
  Recording names and reading them back, \<open>memory_store/proposals.py\<close>, and the retests of
  \<open>memory_store/retests.py\<close>. A query's \<open>ORDER BY\<close> is a stable sort of the rows in id order; where SQL leaves
  the order of equal keys open, the model keeps them by id.
\<close>

section \<open>Recording a sighting\<close>

record seen =
  n_name :: string
  n_source :: string
  n_url :: string
  n_why :: string
  n_relevance :: int
  n_kind :: string
  n_lane :: string
  n_resolved :: string
  n_registry :: string
  n_description :: string
  n_lane_source :: string
  n_category :: string

definition seen_update :: "seen \<Rightarrow> rat \<Rightarrow> proposal \<Rightarrow> proposal" where
  "seen_update s now p =
     p\<lparr>p_last_seen := now,
       p_resolved := (if n_resolved s \<noteq> [] then n_resolved s else p_resolved p),
       p_lane_source := (if p_lane p = [] \<and> n_lane s \<noteq> [] then n_lane_source s else p_lane_source p),
       p_lane := (if p_lane p = [] then n_lane s else p_lane p),
       p_registry := (if p_registry p = [] then n_registry s else p_registry p),
       p_description := (if n_description s \<noteq> [] then n_description s else p_description p),
       p_category := (if p_category p = [] then n_category s else p_category p)\<rparr>"

definition seen_insert :: "seen \<Rightarrow> rat \<Rightarrow> nat \<Rightarrow> proposal" where
  "seen_insert s now pid =
     \<lparr>p_id = pid, p_name = n_name s, p_kind = n_kind s, p_registry = n_registry s,
      p_description = n_description s, p_lane = n_lane s, p_resolved = n_resolved s, p_first_seen = now,
      p_last_seen = now, p_state = [], p_holder = None, p_retests = 0, p_next_retest = None,
      p_size_bytes = 0, p_lane_source = (if n_lane s \<noteq> [] then n_lane_source s else []),
      p_category = n_category s, p_attaches_to = []\<rparr>"

text \<open>\<open>UNIQUE (proposal_id, source, url)\<close> with \<open>INSERT OR IGNORE\<close>.\<close>

definition add_sighting :: "nat \<Rightarrow> seen \<Rightarrow> rat \<Rightarrow> nat option \<Rightarrow> db \<Rightarrow> db" where
  "add_sighting pid s now machine d =
     (if \<exists>x \<in> set (sightings d). s_proposal x = pid \<and> s_source x = n_source s \<and> s_url x = n_url s then d
      else d\<lparr>sightings := sightings d @
        [\<lparr>s_id = next_id s_id (sightings d), s_proposal = pid, s_source = n_source s, s_url = n_url s,
          s_why = n_why s, s_relevance = n_relevance s, s_seen_at = now, s_machine = machine\<rparr>]\<rparr>)"

definition record_seen :: "rat \<Rightarrow> nat option \<Rightarrow> seen \<Rightarrow> db \<Rightarrow> nat \<times> db" where
  "record_seen now machine s d =
     (case proposal_named d (n_name s) of
        Some p \<Rightarrow>
          (p_id p, add_sighting (p_id p) s now machine
             (d\<lparr>proposals := update_row p_id (p_id p) (seen_update s now) (proposals d)\<rparr>))
      | None \<Rightarrow>
          (let pid = next_id p_id (proposals d)
           in (pid, add_sighting pid s now machine
                 (d\<lparr>proposals := proposals d @ [seen_insert s now pid],
                    downloads := map (\<lambda>x. if dl_proposal x = None \<and> lower (dl_repo x) = lower (n_name s)
                                           then x\<lparr>dl_proposal := Some pid\<rparr> else x) (downloads d)\<rparr>))))"

section \<open>Facts read from the registry\<close>

definition set_lane :: "string \<Rightarrow> string \<Rightarrow> string \<Rightarrow> db \<Rightarrow> bool \<times> db" where
  "set_lane name lane source d =
     (let want = canonical lane in
      if want = [] then (False, d)
      else (case proposal_named d name of
              None \<Rightarrow> (False, d)
            | Some p \<Rightarrow>
                if canonical (p_lane p) = want then (False, d)
                else (True, d\<lparr>proposals := update_row p_id (p_id p)
                        (\<lambda>p. p\<lparr>p_lane := want, p_lane_source := source\<rparr>) (proposals d)\<rparr>)))"

definition set_size :: "string \<Rightarrow> int \<Rightarrow> db \<Rightarrow> bool \<times> db" where
  "set_size name size_bytes d =
     (if size_bytes \<le> 0 then (False, d)
      else (list_ex (\<lambda>p. p_name p = name) (proposals d),
            d\<lparr>proposals := map (\<lambda>p. if p_name p = name then p\<lparr>p_size_bytes := size_bytes\<rparr> else p) (proposals d)\<rparr>))"

definition REGISTRIES :: "string list" where
  "REGISTRIES = [''github'', ''huggingface'']"

definition set_registry :: "string \<Rightarrow> string \<Rightarrow> db \<Rightarrow> (store_error + unit) \<times> db" where
  "set_registry name registry d =
     (if registry \<notin> set REGISTRIES then (Inl (UnknownRegistry registry), d)
      else (Inr (), d\<lparr>proposals := map (\<lambda>p. if p_name p = name then p\<lparr>p_registry := registry\<rparr> else p)
                       (proposals d)\<rparr>))"

section \<open>Edges\<close>

definition link :: "string \<Rightarrow> string \<Rightarrow> string \<Rightarrow> string \<Rightarrow> int option \<Rightarrow> int option \<Rightarrow> rat option \<Rightarrow> db
    \<Rightarrow> (store_error + unit) \<times> db" where
  "link src dst relation note shared crowd score d =
     (case proposal_named d src of
        None \<Rightarrow> (Inl (NoProposal src), d)
      | Some s \<Rightarrow>
          (case proposal_named d dst of
             None \<Rightarrow> (Inl (NoProposal dst), d)
           | Some t \<Rightarrow>
               (let here = (\<lambda>e. e_src e = p_id s \<and> e_dst e = p_id t \<and> e_relation e = relation);
                    fresh = \<lparr>e_id = next_id e_id (edges d), e_src = p_id s, e_dst = p_id t,
                             e_relation = relation, e_note = note,
                             e_shared = (if score = None then None else shared),
                             e_crowd = (if score = None then None else crowd), e_score = score\<rparr>
                in if list_ex here (edges d)
                   then (Inr (), if score = None then d
                           else d\<lparr>edges := map (\<lambda>e. if here e then e\<lparr>e_shared := shared, e_crowd := crowd,
                                                     e_score := score\<rparr> else e) (edges d)\<rparr>)
                   else (Inr (), d\<lparr>edges := edges d @ [fresh]\<rparr>))))"

definition name_of :: "db \<Rightarrow> nat \<Rightarrow> string option" where
  "name_of d i = map_option p_name (row p_id i (proposals d))"

definition parents :: "db \<Rightarrow> string \<Rightarrow> string \<Rightarrow> string list" where
  "parents d name relation =
     List.map_filter (\<lambda>e. if name_of d (e_dst e) = Some name \<and> e_relation e = relation
                          then name_of d (e_src e) else None) (edges d)"

definition children :: "db \<Rightarrow> string \<Rightarrow> string \<Rightarrow> string list" where
  "children d name relation =
     List.map_filter (\<lambda>e. if name_of d (e_src e) = Some name \<and> e_relation e = relation
                          then name_of d (e_dst e) else None) (edges d)"

text \<open>
  \<open>retire_unlisted\<close>. The names are read once; each write decides again and may be refused.
\<close>

fun retire_each :: "rat \<Rightarrow> nat option \<Rightarrow> string \<Rightarrow> string list \<Rightarrow> string \<Rightarrow> string \<Rightarrow> string \<Rightarrow> string list \<Rightarrow> db
    \<Rightarrow> (store_error + string list) \<times> db" where
  "retire_each now machine name keep relation why outcome [] d = (Inr [], d)"
| "retire_each now machine name keep relation why outcome (other # rest) d =
     (if other \<in> set keep then retire_each now machine name keep relation why outcome rest d
      else if (case proposal_named d other of None \<Rightarrow> True | Some p \<Rightarrow> p_state p \<noteq> ''queued'')
        then retire_each now machine name keep relation why outcome rest d
      else if list_ex (\<lambda>p. p \<noteq> name) (parents d other relation)
        then retire_each now machine name keep relation why outcome rest d
      else (case decide_or_skip alone now machine other outcome
                   (no_decision\<lparr>k_tier := ''inspect'', k_detail := take 200 why, k_reason := ''candidate''\<rparr>) d of
              (Inl e, d') \<Rightarrow> (Inl e, d')
            | (Inr None, d') \<Rightarrow> retire_each now machine name keep relation why outcome rest d'
            | (Inr (Some v), d') \<Rightarrow>
                (case retire_each now machine name keep relation why outcome rest d' of
                   (Inl e, d'') \<Rightarrow> (Inl e, d'')
                 | (Inr gone, d'') \<Rightarrow> (Inr (other # gone), d''))))"

definition retire_unlisted :: "rat \<Rightarrow> nat option \<Rightarrow> string \<Rightarrow> string list \<Rightarrow> string \<Rightarrow> string \<Rightarrow> string \<Rightarrow> db
    \<Rightarrow> (store_error + string list) \<times> db" where
  "retire_unlisted now machine name keep relation why outcome d =
     retire_each now machine name keep relation why outcome (children d name relation) d"

section \<open>Reading back\<close>

definition times_seen :: "db \<Rightarrow> proposal \<Rightarrow> nat" where
  "times_seen d p = length (filter (\<lambda>s. s_proposal s = p_id p) (sightings d))"

definition last_sighting :: "db \<Rightarrow> proposal \<Rightarrow> rat" where
  "last_sighting d p =
     (case map s_seen_at (filter (\<lambda>s. s_proposal s = p_id p) (sightings d)) of
        [] \<Rightarrow> 0
      | t # ts \<Rightarrow> foldl max t ts)"

definition settled :: "db \<Rightarrow> string list" where
  "settled d = map p_name (filter (\<lambda>p. p_state p \<in> set TERMINAL) (proposals d))"

definition pending :: "db \<Rightarrow> nat \<Rightarrow> string option \<Rightarrow> bool \<Rightarrow> string list" where
  "pending d limit registry screened =
     (let stop = TERMINAL @ (if screened then [] else [''screened'']);
          rows = filter (\<lambda>p. 0 < times_seen d p \<and> p_resolved p \<noteq> []
                    \<and> (case registry of None \<Rightarrow> True | Some r \<Rightarrow> p_registry p = r)
                    \<and> p_state p \<notin> set stop) (proposals d)
      in map p_name (take limit
           (sort_key (\<lambda>p. (- int (times_seen d p), - last_sighting d p)) rows)))"

definition latest :: "db \<Rightarrow> string \<Rightarrow> (string \<times> string) option" where
  "latest d name =
     (case proposal_named d name of
        None \<Rightarrow> None
      | Some p \<Rightarrow> map_option (\<lambda>v. (p_state p, v_tier v)) (held_verdict d p))"

definition survivors :: "db \<Rightarrow> nat \<Rightarrow> (string \<times> string \<times> string \<times> string) list" where
  "survivors d limit =
     (let held = List.map_filter (\<lambda>p. map_option (\<lambda>v. (v, p)) (held_verdict d p)) (proposals d);
          rows = filter (\<lambda>(v, p). p_state p = ''screened'' \<and> v_tier v = ''screen'') held
      in map (\<lambda>(v, p). (p_name p, p_lane p, p_attaches_to p, v_detail v))
           (take limit (sort_key (\<lambda>(v, p). - int (v_id v)) rows)))"

definition by_registry :: "db \<Rightarrow> (string \<times> nat) list" where
  "by_registry d =
     (let rows = filter (\<lambda>p. p_resolved p \<noteq> [] \<and> p_state p \<notin> set TERMINAL) (proposals d)
      in map (\<lambda>r. (r, length (filter (\<lambda>p. p_registry p = r) rows))) (remdups (map p_registry rows)))"

section \<open>Retests\<close>

definition due_retests :: "db \<Rightarrow> rat \<Rightarrow> (proposal \<times> verdict) list" where
  "due_retests d now =
     (let rows = List.map_filter (\<lambda>p. map_option (\<lambda>v. (p, v)) (held_verdict d p)) (proposals d);
          due = filter (\<lambda>(p, v). (case p_next_retest p of None \<Rightarrow> False | Some t \<Rightarrow> t \<le> now)
                          \<and> p_retests p < RETESTS) rows;
          ordered = sort_key (\<lambda>(p, v). (case p_next_retest p of None \<Rightarrow> 0 | Some t \<Rightarrow> t, p_id p)) due
      in filter (\<lambda>(p, v). retest_eligible (p_state p) (v_tier v) (v_until v)) ordered)"

text \<open>The sentence of a reopen names the attempt.\<close>

definition attempt :: "proposal \<Rightarrow> verdict \<Rightarrow> string" where
  "attempt p v = ''retest '' @ decimal (p_retests p + 1) @ ''/'' @ decimal RETESTS @ '': '' @ p_state p
     @ '' at '' @ v_tier v"

fun reopen_each :: "nat option \<Rightarrow> rat \<Rightarrow> (proposal \<times> verdict) list \<Rightarrow> db \<Rightarrow> (store_error + string list) \<times> db" where
  "reopen_each machine now [] d = (Inr [], d)"
| "reopen_each machine now ((p, v) # rest) d =
     (case decide_or_skip alone now machine (p_name p) ''queued''
             (no_decision\<lparr>k_tier := ''inspect'', k_at := Some now, k_detail := attempt p v,
                k_reopen := RETEST, k_reopen_why := attempt p v\<rparr>) d of
        (Inl e, d') \<Rightarrow> (Inl e, d')
      | (Inr got, d') \<Rightarrow>
          (case reopen_each machine now rest d' of
             (Inl e, d'') \<Rightarrow> (Inl e, d'')
           | (Inr names, d'') \<Rightarrow> (Inr (if got = None then names else p_name p # names), d'')))"

definition reopen_due_retests :: "nat option \<Rightarrow> rat \<Rightarrow> db \<Rightarrow> (store_error + string list) \<times> db" where
  "reopen_due_retests machine now d = reopen_each machine now (due_retests d now) d"

end
