(* ===== verification/ProposalFacts.thy ===== *)
theory ProposalFacts
  imports Proposals
begin

text \<open>
  Every operation on the store as a step, and what holds in every store the steps reach: the state of each
  proposal is the fold of its verdicts, names are unique, and no rejection is asked again more than
  \<^const>\<open>RETESTS\<close> times.
\<close>

section \<open>Operations that leave the ladder alone\<close>

definition same_ladder :: "proposal \<Rightarrow> proposal \<Rightarrow> bool" where
  "same_ladder p q \<longleftrightarrow> p_id p = p_id q \<and> p_name p = p_name q \<and> p_state p = p_state q \<and> p_holder p = p_holder q
     \<and> p_retests p = p_retests q \<and> p_next_retest p = p_next_retest q"

lemma proposal_ok_same_ladder:
  assumes "proposal_ok d q" and "same_ladder p q" and "verdicts d' = verdicts d"
  shows "proposal_ok d' p"
proof -
  have "held_verdict d' p = held_verdict d q" "history d' (p_id p) = history d (p_id q)"
    using assms(2,3) by (auto simp: held_verdict_def same_ladder_def history_def split: option.split)
  moreover have "holder_ok d' p = holder_ok d q"
    using assms(2,3) by (auto simp: holder_ok_def same_ladder_def split: option.split)
  ultimately show ?thesis using assms
    by (simp add: proposal_ok_def retest_ok_def held_tier_def same_ladder_def)
qed

lemma store_ok_same_ladder:
  assumes "store_ok d" and "proposals d' = map f (proposals d)" and "verdicts d' = verdicts d"
    and f: "\<And>p. same_ladder (f p) p"
  shows "store_ok d'"
proof -
  have "map p_id (proposals d') = map p_id (proposals d)"
    using f by (simp add: assms(2) same_ladder_def)
  moreover from this have "p_id ` set (proposals d') = p_id ` set (proposals d)" by (metis set_map)
  moreover have "\<forall>p \<in> set (proposals d'). proposal_ok d' p"
    using assms(1) proposal_ok_same_ladder [OF _ f assms(3)] by (auto simp: assms(2) store_ok_def)
  ultimately show ?thesis using assms(1,3) by (simp add: store_ok_def)
qed

lemma update_row_map: "update_row rid i f rows = map (\<lambda>r. if rid r = i then f r else r) rows"
  by (simp add: update_row_def)

lemma add_sighting_tables [simp]:
  "proposals (add_sighting pid s now m d) = proposals d" "verdicts (add_sighting pid s now m d) = verdicts d"
  by (simp_all add: add_sighting_def)

lemma store_ok_new_row:
  assumes ok: "store_ok d" and ps: "proposals d' = proposals d @ [p]" and vs: "verdicts d' = verdicts d"
    and p: "p_id p = next_id p_id (proposals d)" "p_state p = []" "p_holder p = None" "p_next_retest p = None"
  shows "store_ok d'"
proof -
  have fresh: "\<forall>v \<in> set (verdicts d). v_proposal v \<noteq> Some (p_id p)"
    using ok next_id_fresh [of _ "proposals d" p_id] p(1) by (fastforce simp: store_ok_def)
  then have "history d' (p_id p) = []" by (simp add: history_def vs filter_empty_conv)
  then have "proposal_ok d' p"
    using p by (simp add: proposal_ok_def holder_ok_def retest_ok_def held_tier_def held_verdict_def)
  moreover have "\<forall>q \<in> set (proposals d). proposal_ok d' q"
    using ok proposal_ok_same_ladder [OF _ _ vs] by (auto simp: store_ok_def same_ladder_def)
  moreover have "distinct (map p_id (proposals d'))"
    using distinct_ids_append [of p_id "proposals d" p] ok p(1) by (simp add: ps store_ok_def)
  ultimately show ?thesis using ok by (auto simp: store_ok_def ps vs)
qed

definition names_ok :: "db \<Rightarrow> bool" where
  "names_ok d \<longleftrightarrow> distinct (map p_name (proposals d))"

definition budget_ok :: "db \<Rightarrow> bool" where
  "budget_ok d \<longleftrightarrow> (\<forall>p \<in> set (proposals d). p_retests p \<le> RETESTS)"

definition ladder_inv :: "db \<Rightarrow> bool" where
  "ladder_inv d \<longleftrightarrow> store_ok d \<and> names_ok d \<and> budget_ok d"

lemma ladder_inv_same_ladder:
  assumes "ladder_inv d" and "proposals d' = map f (proposals d)" and "verdicts d' = verdicts d"
    and "\<And>p. same_ladder (f p) p"
  shows "ladder_inv d'"
proof -
  have nm: "map p_name (proposals d') = map p_name (proposals d)"
    using assms(2,4) by (simp add: same_ladder_def)
  have "names_ok d' = names_ok d" unfolding names_ok_def nm ..
  moreover have "map p_retests (proposals d') = map p_retests (proposals d)"
    using assms(2,4) by (simp add: same_ladder_def)
  then have "budget_ok d' = budget_ok d"
    by (auto simp: budget_ok_def assms(2) same_ladder_def)
  ultimately show ?thesis
    using assms store_ok_same_ladder [of d d' f] by (simp add: ladder_inv_def)
qed

lemma proposal_named_Some: "proposal_named d n = Some p \<Longrightarrow> p \<in> set (proposals d) \<and> p_name p = n"
  by (auto simp: proposal_named_def find_Some_iff)

lemma proposal_named_None: "proposal_named d n = None \<longleftrightarrow> n \<notin> p_name ` set (proposals d)"
  by (auto simp: proposal_named_def find_None_iff)

lemma proposal_named_unique:
  "names_ok d \<Longrightarrow> p \<in> set (proposals d) \<Longrightarrow> proposal_named d (p_name p) = Some p"
  using find_unique [of p_name] by (simp add: proposal_named_def names_ok_def)

lemma record_seen_inv:
  assumes "ladder_inv d"
  shows "ladder_inv (snd (record_seen now m s d))"
proof (cases "proposal_named d (n_name s)")
  case (Some p)
  show ?thesis
    by (rule ladder_inv_same_ladder [OF assms, where f = "\<lambda>q. if p_id q = p_id p then seen_update s now q else q"])
      (simp_all add: record_seen_def Some update_row_map same_ladder_def seen_update_def)
next
  case None
  let ?p = "seen_insert s now (next_id p_id (proposals d))"
  let ?d = "snd (record_seen now m s d)"
  have t: "proposals ?d = proposals d @ [?p]" "verdicts ?d = verdicts d"
    by (simp_all add: record_seen_def None Let_def)
  have "store_ok ?d"
    using store_ok_new_row [OF _ t] assms by (simp add: ladder_inv_def seen_insert_def)
  moreover have "names_ok ?d"
    using assms None by (simp add: names_ok_def t ladder_inv_def proposal_named_None seen_insert_def)
  moreover have "budget_ok ?d" using assms by (simp add: budget_ok_def t ladder_inv_def seen_insert_def)
  ultimately show ?thesis by (simp add: ladder_inv_def)
qed

lemma ladder_inv_refl_map:
  "ladder_inv d \<Longrightarrow> (\<And>p. same_ladder (f p) p) \<Longrightarrow> ladder_inv (d\<lparr>proposals := map f (proposals d)\<rparr>)"
  by (rule ladder_inv_same_ladder [of d _ f]) simp_all

lemma set_lane_inv: "ladder_inv d \<Longrightarrow> ladder_inv (snd (set_lane name lane src d))"
  by (auto simp: set_lane_def Let_def update_row_map same_ladder_def split: option.splits
      intro!: ladder_inv_refl_map)

lemma set_size_inv: "ladder_inv d \<Longrightarrow> ladder_inv (snd (set_size name n d))"
  by (auto simp: set_size_def same_ladder_def intro!: ladder_inv_refl_map)

lemma set_registry_inv: "ladder_inv d \<Longrightarrow> ladder_inv (snd (set_registry name r d))"
  by (auto simp: set_registry_def same_ladder_def intro!: ladder_inv_refl_map)

lemma ladder_inv_same_tables:
  "ladder_inv d \<Longrightarrow> proposals d' = proposals d \<Longrightarrow> verdicts d' = verdicts d \<Longrightarrow> ladder_inv d'"
  by (rule ladder_inv_same_ladder [of d d' "\<lambda>p. p"]) (simp_all add: same_ladder_def)

lemma link_inv: "ladder_inv d \<Longrightarrow> ladder_inv (snd (link src dst rel note sh cr sc d))"
  by (auto simp: link_def Let_def split: option.splits intro: ladder_inv_same_tables)

section \<open>What one decision changes\<close>

lemma moved_row_spent:
  "p_retests (moved_row w r vid q) = (if r = RETEST then p_retests q + 1 else p_retests q)"
  by (simp add: moved_row_def Let_def)

lemma write_alone_proposals:
  assumes "store_ok d"
  shows "proposals (snd (write_loop n alone pid v reopen d)) = proposals d
    \<or> (\<exists>q vid w. row p_id pid (proposals d) = Some q
         \<and> transition_refused (p_state q) (held_tier d q) (v_outcome v) (v_tier v) reopen = None
         \<and> proposals (snd (write_loop n alone pid v reopen d))
             = update_row p_id pid (\<lambda>_. moved_row w reopen vid q) (proposals d))"
proof (cases n)
  case 0
  then show ?thesis by simp
next
  case (Suc m)
  show ?thesis
  proof (cases "row p_id pid (proposals d)")
    case None
    then show ?thesis by (simp add: Suc)
  next
    case (Some held)
    show ?thesis
    proof (cases "restates d held v reopen
        \<or> transition_refused (p_state held) (held_tier d held) (v_outcome v) (v_tier v) reopen \<noteq> None")
      case True
      then show ?thesis using Some by (auto simp: Suc)
    next
      case False
      then have "proposals (snd (write_loop n alone pid v reopen d))
          = update_row p_id pid (\<lambda>_. moved_row (columns pid held v reopen) reopen
              (next_id v_id (verdicts d)) held) (proposals d)"
        using write_alone [OF Some] commit_move_tables(2) [OF _ Some] assms
        by (simp add: Suc store_ok_def del: write_loop.simps)
      with Some False show ?thesis
        by (intro disjI2 exI [of _ held] exI [of _ "next_id v_id (verdicts d)"]
            exI [of _ "columns pid held v reopen"]) simp
    qed
  qed
qed

lemma decide_named:
  "proposal_named d name = Some p \<Longrightarrow>
   decide env now machine name outcome k d = (fst (decide env now machine name outcome k d), d)
   \<or> (\<exists>r. decide env now machine name outcome k d
         = write_verdict env (p_id p) (fields_of outcome k r now machine) (k_reopen k) (k_reopen_why k) d)"
  by (auto simp: decide_def Let_def)

lemma decide_alone_proposals:
  assumes "store_ok d"
  shows "proposals (snd (decide alone now machine name outcome k d)) = proposals d
    \<or> (\<exists>p q vid w. proposal_named d name = Some p \<and> row p_id (p_id p) (proposals d) = Some q
         \<and> transition_refused (p_state q) (held_tier d q) outcome (k_tier k) (k_reopen k) = None
         \<and> proposals (snd (decide alone now machine name outcome k d))
             = update_row p_id (p_id p) (\<lambda>_. moved_row w (k_reopen k) vid q) (proposals d))"
proof -
  have w: "proposals (snd (write_verdict alone (p_id p) (fields_of outcome k r now machine) (k_reopen k) why d)) = proposals d
    \<or> (\<exists>q vid w. row p_id (p_id p) (proposals d) = Some q
         \<and> transition_refused (p_state q) (held_tier d q) outcome (k_tier k) (k_reopen k) = None
         \<and> proposals (snd (write_verdict alone (p_id p) (fields_of outcome k r now machine) (k_reopen k) why d))
             = update_row p_id (p_id p) (\<lambda>_. moved_row w (k_reopen k) vid q) (proposals d))" for p r why
    using write_alone_proposals [OF assms, of 8 "p_id p" "fields_of outcome k r now machine" "k_reopen k"]
    by (auto simp: write_verdict_def fields_of_def)
  show ?thesis
  proof (cases "proposal_named d name")
    case (Some p)
    from decide_named [OF this, of alone now machine outcome k] show ?thesis
    proof
      assume "decide alone now machine name outcome k d = (fst (decide alone now machine name outcome k d), d)"
      then show ?thesis by (metis snd_conv)
    next
      assume "\<exists>r. decide alone now machine name outcome k d
         = write_verdict alone (p_id p) (fields_of outcome k r now machine) (k_reopen k) (k_reopen_why k) d"
      then obtain r where r: "decide alone now machine name outcome k d
         = write_verdict alone (p_id p) (fields_of outcome k r now machine) (k_reopen k) (k_reopen_why k) d" ..
      show ?thesis using w [of p r "k_reopen_why k"] Some unfolding r by blast
    qed
  next
    case None
    then show ?thesis by (auto simp: decide_def Let_def insert_verdict_def split: option.split)
  qed
qed

text \<open>The rows after a decision: names stay, and only a retest of that name spends from its budget.\<close>

lemma decide_alone_rows:
  assumes "ladder_inv d"
  shows "map p_name (proposals (snd (decide alone now machine name outcome k d))) = map p_name (proposals d)"
    and "p' \<in> set (proposals (snd (decide alone now machine name outcome k d))) \<Longrightarrow>
         \<exists>p \<in> set (proposals d). p_name p' = p_name p
           \<and> (p_name p \<noteq> name \<longrightarrow> p' = p)
           \<and> p_retests p' \<le> (if k_reopen k = RETEST \<and> p_name p = name then p_retests p + 1 else p_retests p)"
    and "map (\<lambda>p. (p_id p, p_name p)) (proposals (snd (decide alone now machine name outcome k d)))
       = map (\<lambda>p. (p_id p, p_name p)) (proposals d)"
    and "p \<in> set (proposals d) \<Longrightarrow> p_name p \<noteq> name \<Longrightarrow>
         p \<in> set (proposals (snd (decide alone now machine name outcome k d)))"
proof -
  let ?d' = "snd (decide alone now machine name outcome k d)"
  have ok: "store_ok d" using assms by (simp add: ladder_inv_def)
  have "map p_name (proposals ?d') = map p_name (proposals d)
    \<and> (\<forall>p' \<in> set (proposals ?d'). \<exists>p \<in> set (proposals d). p_name p' = p_name p \<and> (p_name p \<noteq> name \<longrightarrow> p' = p)
        \<and> p_retests p' \<le> (if k_reopen k = RETEST \<and> p_name p = name then p_retests p + 1 else p_retests p))
    \<and> map (\<lambda>p. (p_id p, p_name p)) (proposals ?d') = map (\<lambda>p. (p_id p, p_name p)) (proposals d)
    \<and> (\<forall>p \<in> set (proposals d). p_name p \<noteq> name \<longrightarrow> p \<in> set (proposals ?d'))"
  proof (cases "proposals ?d' = proposals d")
    case True
    then show ?thesis by auto
  next
    case False
    then obtain p q vid w where p: "proposal_named d name = Some p" "row p_id (p_id p) (proposals d) = Some q"
      and u: "proposals ?d' = update_row p_id (p_id p) (\<lambda>_. moved_row w (k_reopen k) vid q) (proposals d)"
      using decide_alone_proposals [OF ok] by blast
    have "q = p" using p ok proposal_named_Some [OF p(1)] row_unique [of p_id "proposals d" p]
      by (simp add: store_ok_def)
    moreover have "x = p" if "x \<in> set (proposals d)" "p_id x = p_id p" for x
      using that ok proposal_named_Some [OF p(1)] by (metis option.inject row_unique store_ok_def)
    ultimately have same: "update_row p_id (p_id p) (\<lambda>_. moved_row w (k_reopen k) vid q) (proposals d)
        = map (\<lambda>x. if x = p then moved_row w (k_reopen k) vid p else x) (proposals d)"
      unfolding update_row_def by (intro map_cong) auto
    show ?thesis
      using proposal_named_Some [OF p(1)] unfolding u same by (auto simp: moved_row_spent)
  qed
  then show "map p_name (proposals ?d') = map p_name (proposals d)"
    and "p' \<in> set (proposals ?d') \<Longrightarrow> \<exists>p \<in> set (proposals d). p_name p' = p_name p
       \<and> (p_name p \<noteq> name \<longrightarrow> p' = p)
       \<and> p_retests p' \<le> (if k_reopen k = RETEST \<and> p_name p = name then p_retests p + 1 else p_retests p)"
    and "map (\<lambda>p. (p_id p, p_name p)) (proposals ?d') = map (\<lambda>p. (p_id p, p_name p)) (proposals d)"
    and "p \<in> set (proposals d) \<Longrightarrow> p_name p \<noteq> name \<Longrightarrow> p \<in> set (proposals ?d')"
    by blast+
qed

lemma decide_names_ok: "ladder_inv d \<Longrightarrow> names_ok (snd (decide alone now machine name outcome k d))"
  using decide_alone_rows(1) by (simp add: names_ok_def ladder_inv_def)

lemma decide_store_ok: "store_ok d \<Longrightarrow> store_ok (snd (decide alone now machine name outcome k d))"
  using decide_extends [where env = alone, OF alone_extends, of d] unfolding extends_def by blast

lemma decide_inv:
  assumes "ladder_inv d" and "k_reopen k \<noteq> RETEST"
  shows "ladder_inv (snd (decide alone now machine name outcome k d))"
proof -
  have "budget_ok (snd (decide alone now machine name outcome k d))"
    unfolding budget_ok_def
  proof
    fix p' assume "p' \<in> set (proposals (snd (decide alone now machine name outcome k d)))"
    from decide_alone_rows(2) [OF assms(1) this] assms(2)
    obtain q where "q \<in> set (proposals d)" "p_retests p' \<le> p_retests q" by auto
    with assms(1) show "p_retests p' \<le> RETESTS" by (auto simp: ladder_inv_def budget_ok_def)
  qed
  then show ?thesis using assms decide_names_ok decide_store_ok by (simp add: ladder_inv_def)
qed

lemma retire_each_inv:
  "ladder_inv d \<Longrightarrow> ladder_inv (snd (retire_each now machine name keep relation why outcome others d))"
proof (induction others arbitrary: d)
  case (Cons other others)
  let ?k = "no_decision\<lparr>k_tier := ''inspect'', k_detail := take 200 why, k_reason := ''candidate''\<rparr>"
  have "k_reopen ?k \<noteq> RETEST" by (simp add: no_decision_def RETEST_def)
  note inv = decide_inv [OF Cons.prems this]
  obtain res d' where dec: "decide_or_skip alone now machine other outcome ?k d = (res, d')"
    by (cases "decide_or_skip alone now machine other outcome ?k d")
  have "ladder_inv d'" using inv [of now machine other outcome] dec by (metis decide_or_skip_store snd_conv)
  moreover obtain res2 d2 where rec: "retire_each now machine name keep relation why outcome others d' = (res2, d2)"
    by (cases "retire_each now machine name keep relation why outcome others d'")
  ultimately have "ladder_inv d'" "ladder_inv d2" using Cons.IH [of d'] by simp_all
  with Cons.IH [OF Cons.prems] show ?case
    by (cases res; cases res2) (simp_all add: dec rec split: option.split)
qed simp

section \<open>A decision and the edges\<close>

lemma commit_move_edges: "edges (commit_move pid v r d) = edges d"
  by (simp add: commit_move_def insert_verdict_def schedule_retest_def move_state_def Let_def)

lemma write_alone_edges: "edges (snd (write_loop (Suc n) alone pid v r d)) = edges d"
proof (cases "row p_id pid (proposals d)")
  case (Some held)
  show ?thesis
  proof (cases "restates d held v r
      \<or> transition_refused (p_state held) (held_tier d held) (v_outcome v) (v_tier v) r \<noteq> None")
    case True
    then show ?thesis using Some by auto
  next
    case False
    then show ?thesis using write_alone [OF Some, of v r n] by (simp add: commit_move_edges del: write_loop.simps)
  qed
qed simp

lemma write_verdict_edges: "edges (snd (write_verdict alone pid v r why d)) = edges d"
  using write_alone_edges [of 7] by (simp add: write_verdict_def eval_nat_numeral del: write_loop.simps)

lemma decide_alone_edges: "edges (snd (decide alone now machine name outcome k d)) = edges d"
  by (auto simp: decide_def Let_def write_verdict_edges insert_verdict_def split: option.split)

lemma name_of_map: "name_of d i = map_of (map (\<lambda>p. (p_id p, p_name p)) (proposals d)) i"
proof -
  have "map_option p_name (row p_id i ps) = map_of (map (\<lambda>p. (p_id p, p_name p)) ps) i" for ps
    by (induction ps) (auto simp: row_def)
  then show ?thesis by (simp add: name_of_def)
qed

lemma decide_alone_parents:
  assumes "ladder_inv d"
  shows "parents (snd (decide alone now machine name outcome k d)) other relation = parents d other relation"
proof -
  have "name_of (snd (decide alone now machine name outcome k d)) = name_of d"
    by (rule ext) (simp only: name_of_map decide_alone_rows(3) [OF assms])
  then show ?thesis by (simp only: parents_def decide_alone_edges)
qed

lemma retire_each_skip:
  "other \<in> set keep \<or> (case proposal_named d other of None \<Rightarrow> True | Some p \<Rightarrow> p_state p \<noteq> ''queued'')
     \<or> list_ex (\<lambda>p. p \<noteq> name) (parents d other relation) \<Longrightarrow>
   retire_each now machine name keep relation why outcome (other # others) d
     = retire_each now machine name keep relation why outcome others d"
  by (simp only: retire_each.simps simp_thms split: if_split) blast

lemma retire_each_only:
  assumes "ladder_inv d" and "retire_each now machine name keep relation why outcome others d = (Inr gone, d')"
  shows "\<forall>other \<in> set gone. other \<in> set others \<and> other \<notin> set keep \<and> set (parents d other relation) \<subseteq> {name}"
    and "\<forall>p \<in> set (proposals d). p_name p \<notin> set others \<longrightarrow> p \<in> set (proposals d')"
proof -
  let ?k = "no_decision\<lparr>k_tier := ''inspect'', k_detail := take 200 why, k_reason := ''candidate''\<rparr>"
  have "(\<forall>other \<in> set gone. other \<in> set others \<and> other \<notin> set keep \<and> set (parents d other relation) \<subseteq> {name})
    \<and> (\<forall>p \<in> set (proposals d). p_name p \<notin> set others \<longrightarrow> p \<in> set (proposals d'))"
    using assms
  proof (induction others arbitrary: d gone)
    case (Cons other others)
    let ?skip = "other \<in> set keep \<or> (case proposal_named d other of None \<Rightarrow> True | Some p \<Rightarrow> p_state p \<noteq> ''queued'')
        \<or> list_ex (\<lambda>p. p \<noteq> name) (parents d other relation)"
    show ?case
    proof (cases ?skip)
      case True
      then have "retire_each now machine name keep relation why outcome others d = (Inr gone, d')"
        using Cons.prems(2) retire_each_skip by metis
      from Cons.IH [OF Cons.prems(1) this] show ?thesis by auto
    next
      case False
      obtain res d1 where dec: "decide_or_skip alone now machine other outcome ?k d = (res, d1)"
        by (cases "decide_or_skip alone now machine other outcome ?k d")
      then have d1: "d1 = snd (decide alone now machine other outcome ?k d)" by (metis decide_or_skip_store snd_conv)
      have inv: "ladder_inv d1" unfolding d1 by (rule decide_inv [OF Cons.prems(1)]) (simp add: no_decision_def RETEST_def)
      have same: "parents d1 x relation = parents d x relation" for x
        unfolding d1 by (rule decide_alone_parents [OF Cons.prems(1)])
      have kept: "p \<in> set (proposals d1)" if "p \<in> set (proposals d)" "p_name p \<noteq> other" for p
        unfolding d1 using decide_alone_rows(4) [OF Cons.prems(1) that] .
      obtain rest where rest: "retire_each now machine name keep relation why outcome others d1 = (Inr rest, d')"
        "set gone \<subseteq> insert other (set rest)"
        using Cons.prems(2) False dec by (auto split: sum.splits option.splits prod.splits)
      have "other \<notin> set keep" "set (parents d other relation) \<subseteq> {name}"
        using False by (auto simp: list_ex_iff)
      moreover have "\<forall>x \<in> set rest. x \<in> set others \<and> x \<notin> set keep \<and> set (parents d x relation) \<subseteq> {name}"
        and "\<forall>p \<in> set (proposals d1). p_name p \<notin> set others \<longrightarrow> p \<in> set (proposals d')"
        using Cons.IH [OF inv rest(1)] same by auto
      ultimately show ?thesis using rest(2) kept by (intro conjI ballI impI) auto
    qed
  qed simp
  then show "\<forall>other \<in> set gone. other \<in> set others \<and> other \<notin> set keep \<and> set (parents d other relation) \<subseteq> {name}"
    and "\<forall>p \<in> set (proposals d). p_name p \<notin> set others \<longrightarrow> p \<in> set (proposals d')" by blast+
qed

section \<open>The retest pass\<close>

text \<open>The names still to reopen are below their budget, and stay so until their turn.\<close>

definition within_budget :: "db \<Rightarrow> string list \<Rightarrow> bool" where
  "within_budget d names \<longleftrightarrow> (\<forall>p \<in> set (proposals d). p_name p \<in> set names \<longrightarrow> p_retests p < RETESTS)"

lemma retest_step_inv:
  assumes inv: "ladder_inv d" and budget: "within_budget d (n # names)" and new: "n \<notin> set names"
    and kr: "k_reopen k = RETEST"
    and d': "d' = snd (decide alone now machine n ''queued'' k d)"
  shows "ladder_inv d' \<and> within_budget d' names"
proof -
  note rows = decide_alone_rows(2) [OF inv, of _ now machine n "''queued''" k, folded d']
  have "store_ok d'" "names_ok d'"
    using inv decide_store_ok decide_names_ok by (simp_all add: d' ladder_inv_def)
  moreover have "budget_ok d'"
    unfolding budget_ok_def
  proof
    fix p' assume "p' \<in> set (proposals d')"
    from rows [OF this] kr obtain q where q: "q \<in> set (proposals d)" "p_name p' = p_name q"
      "p_retests p' \<le> (if p_name q = n then p_retests q + 1 else p_retests q)" by auto
    show "p_retests p' \<le> RETESTS"
      using q inv budget by (cases "p_name q = n") (auto simp: within_budget_def ladder_inv_def budget_ok_def Suc_le_eq)
  qed
  moreover have "within_budget d' names"
    unfolding within_budget_def
  proof (intro ballI impI)
    fix p' assume p': "p' \<in> set (proposals d')" "p_name p' \<in> set names"
    from rows [OF p'(1)] obtain q where q: "q \<in> set (proposals d)" "p_name p' = p_name q"
      "p_name q \<noteq> n \<longrightarrow> p' = q" by auto
    with p'(2) new have "p' = q" by metis
    then show "p_retests p' < RETESTS" using q(1) p'(2) budget by (simp add: within_budget_def)
  qed
  ultimately show ?thesis by (simp add: ladder_inv_def)
qed

lemma reopen_each_inv:
  assumes "ladder_inv d" and "within_budget d (map (p_name \<circ> fst) rows)"
    and "distinct (map (p_name \<circ> fst) rows)"
  shows "ladder_inv (snd (reopen_each machine now rows d))"
  using assms
proof (induction rows arbitrary: d)
  case (Cons pv rows)
  obtain p v where pv: "pv = (p, v)" by (cases pv)
  define k where "k = no_decision\<lparr>k_tier := ''inspect'', k_at := Some now, k_detail := attempt p v,
      k_reopen := RETEST, k_reopen_why := attempt p v\<rparr>"
  define d' where "d' = snd (decide alone now machine (p_name p) ''queued'' k d)"
  have inv: "ladder_inv d' \<and> within_budget d' (map (p_name \<circ> fst) rows)"
    using Cons.prems by (intro retest_step_inv [OF _ _ _ _ d'_def]) (simp_all add: pv k_def o_def)
  with Cons.IH [of d'] Cons.prems(3) have "ladder_inv (snd (reopen_each machine now rows d'))" by (simp add: pv o_def)
  moreover obtain res2 d2 where rec: "reopen_each machine now rows d' = (res2, d2)"
    by (cases "reopen_each machine now rows d'")
  moreover obtain res where "decide_or_skip alone now machine (p_name p) ''queued'' k d = (res, d')"
    using decide_or_skip_store unfolding d'_def by (metis prod.collapse)
  ultimately show ?case using inv
    by (cases res; cases res2) (simp_all add: pv k_def [symmetric])
qed simp

lemma set_map_filter: "set (List.map_filter g xs) = {y. \<exists>x \<in> set xs. g x = Some y}"
  by (induction xs) (auto simp: map_filter_def)

lemma fst_map_filter:
  "map fst (List.map_filter (\<lambda>p. map_option (\<lambda>v. (p, v)) (g p)) xs) = filter (\<lambda>p. g p \<noteq> None) xs"
  by (induction xs) (auto simp: map_filter_def)

lemma distinct_map_sort_filter:
  "distinct (map f xs) \<Longrightarrow> distinct (map f (filter P (sort_key key (filter Q xs))))"
  by (simp add: distinct_map inj_on_def)

lemma due_rows_within:
  assumes "names_ok d"
  shows "within_budget d (map (p_name \<circ> fst) (due_retests d now))"
proof -
  have below: "p_retests (fst x) < RETESTS \<and> fst x \<in> set (proposals d)" if "x \<in> set (due_retests d now)" for x
    using that unfolding due_retests_def Let_def set_filter set_sort set_map_filter by auto
  show ?thesis
    unfolding within_budget_def
  proof (intro ballI impI)
    fix p assume p: "p \<in> set (proposals d)" "p_name p \<in> set (map (p_name \<circ> fst) (due_retests d now))"
    then obtain x where x: "x \<in> set (due_retests d now)" "p_name p = p_name (fst x)" by auto
    then have "fst x = p" using proposal_named_unique [OF assms] below [OF x(1)] p(1) by (metis option.inject)
    with below [OF x(1)] show "p_retests p < RETESTS" by simp
  qed
qed

lemma due_rows_distinct:
  assumes "names_ok d"
  shows "distinct (map (p_name \<circ> fst) (due_retests d now))"
proof -
  have "distinct (map (p_name \<circ> fst) (List.map_filter (\<lambda>p. map_option (\<lambda>v. (p, v)) (held_verdict d p)) (proposals d)))"
    using assms unfolding map_map [symmetric] fst_map_filter by (simp add: names_ok_def distinct_map_filter)
  then show ?thesis unfolding due_retests_def Let_def by (rule distinct_map_sort_filter)
qed

lemma reopen_due_inv: "ladder_inv d \<Longrightarrow> ladder_inv (snd (reopen_due_retests machine now d))"
  unfolding reopen_due_retests_def
  by (rule reopen_each_inv) (auto simp: ladder_inv_def intro: due_rows_within due_rows_distinct)

section \<open>Every reachable store\<close>

text \<open>
  One step of the program on the store. A retest is opened by \<open>reopen_due_retests\<close> only: no other caller of
  \<open>decide\<close> passes that kind.
\<close>

inductive store_step :: "db \<Rightarrow> db \<Rightarrow> bool" where
  decided: "k_reopen k \<noteq> RETEST \<Longrightarrow> store_step d (snd (decide alone now machine name outcome k d))"
| retested: "store_step d (snd (reopen_due_retests machine now d))"
| recorded: "store_step d (snd (record_seen now machine s d))"
| laned: "store_step d (snd (set_lane name lane source d))"
| sized: "store_step d (snd (set_size name n d))"
| registered: "store_step d (snd (set_registry name registry d))"
| linked: "store_step d (snd (link src dst relation note shared crowd score d))"
| retired: "store_step d (snd (retire_unlisted now machine name keep relation why outcome d))"

inductive store_reaches :: "db \<Rightarrow> bool" where
  start: "store_reaches empty_db"
| step: "store_reaches d \<Longrightarrow> store_step d d' \<Longrightarrow> store_reaches d'"

inductive_cases store_stepE: "store_step d d'"

lemma ladder_inv_empty: "ladder_inv empty_db"
  by (simp add: ladder_inv_def store_ok_empty names_ok_def budget_ok_def empty_db_def)
    (simp add: store_ok_empty [unfolded empty_db_def])

lemma store_step_inv: "store_step d d' \<Longrightarrow> ladder_inv d \<Longrightarrow> ladder_inv d'"
  by (erule store_stepE)
    (simp_all add: decide_inv reopen_due_inv record_seen_inv set_lane_inv set_size_inv set_registry_inv
      link_inv retire_unlisted_def retire_each_inv)

lemma store_reaches_inv: "store_reaches d \<Longrightarrow> ladder_inv d"
  by (induction rule: store_reaches.induct) (auto intro: ladder_inv_empty store_step_inv)

end
