(* ===== verification/Machines.thy ===== *)
theory Machines
  imports VerdictFacts
begin

text \<open>
  The machines a store was used on (\<open>memory_store/machines.py\<close>, \<open>harness/machine.py\<close>), one row per fingerprint, and the
  whole of \<open>decide\<close>: its checks, the row of this machine, which is written before the ladder is asked, and the move.
\<close>

section \<open>The facts of a machine\<close>

record held_facts =
  hf_fingerprint :: string
  hf_hw_model :: string
  hf_os :: string
  hf_arch :: string
  hf_memory_gb :: rat
  hf_accelerator :: string
  hf_runtimes :: string
  hf_ceiling_gb :: rat
  hf_versions :: "(string \<times> string) list"
  hf_limits :: "(string \<times> rat) list option"
  hf_last_commit :: string

definition OS_FAMILY :: "(string \<times> string) list" where
  "OS_FAMILY = [(''darwin'', ''macOS''), (''macos'', ''macOS''), (''linux'', ''Linux''), (''windows'', ''Windows'')]"

definition os_family :: "string \<Rightarrow> string" where
  "os_family os_string = (let head = fst (partition_at CHR ''-'' (strip os_string)) in get_or head OS_FAMILY (lower head))"

definition fingerprint :: "string \<Rightarrow> string \<Rightarrow> string \<Rightarrow> string" where
  "fingerprint hw os_string arch =
     (let s = join ''/'' (filter (\<lambda>x. x \<noteq> []) [hw, os_family os_string, arch]) in if s \<noteq> [] then s else ''unknown'')"

text \<open>The machines table; \<open>versions\<close> goes through JSON and back.\<close>

record machine_row =
  mr_id :: nat
  mr_facts :: held_facts
  mr_first_seen :: rat
  mr_last_seen :: rat

definition kept_facts :: "held_facts \<Rightarrow> held_facts" where
  "kept_facts f = f\<lparr>hf_fingerprint := (if hf_fingerprint f \<noteq> [] then hf_fingerprint f else fingerprint (hf_hw_model f) (hf_os f) (hf_arch f)),
     hf_versions := sort_key fst (filter (\<lambda>kv. snd kv \<noteq> []) (hf_versions f)), hf_limits := None, hf_last_commit := []\<rparr>"

definition refreshed :: "rat \<Rightarrow> held_facts \<Rightarrow> machine_row \<Rightarrow> machine_row" where
  "refreshed now f r =
     r\<lparr>mr_last_seen := now,
       mr_facts := f\<lparr>hf_hw_model := hf_hw_model (mr_facts r), hf_arch := hf_arch (mr_facts r)\<rparr>\<rparr>"

definition remember_machine :: "rat \<Rightarrow> held_facts \<Rightarrow> machine_row list \<Rightarrow> nat \<times> machine_row list" where
  "remember_machine now facts rows =
     (let f = kept_facts facts
      in case find (\<lambda>r. hf_fingerprint (mr_facts r) = hf_fingerprint f) rows of
           Some r \<Rightarrow> (mr_id r, map (\<lambda>x. if hf_fingerprint (mr_facts x) = hf_fingerprint f then refreshed now f x else x) rows)
         | None \<Rightarrow>
             (let i = next_id mr_id rows
              in (i, rows @ [\<lparr>mr_id = i, mr_facts = f, mr_first_seen = now, mr_last_seen = now\<rparr>])))"

definition recorded_facts :: "machine_row list \<Rightarrow> nat \<Rightarrow> held_facts option" where
  "recorded_facts rows i = map_option mr_facts (row mr_id i rows)"

section \<open>Deciding, with the machine\<close>

text \<open>
  \<open>decide\<close> on both tables: \<^const>\<open>decide\<close> of \<^theory_text>\<open>VerdictStore\<close> is what it does to the others, given the machine's id. The
  machine is remembered once the arguments were found good and the decision was found not to repeat the last one; a move
  that is refused after that leaves the row in the caller's transaction. \<open>stamp\<close> is the clock \<open>remember_machine\<close> reads.
\<close>

definition decide_recording ::
    "(nat \<Rightarrow> db \<Rightarrow> db) \<Rightarrow> rat \<Rightarrow> rat \<Rightarrow> held_facts \<Rightarrow> string \<Rightarrow> string \<Rightarrow> decision \<Rightarrow> machine_row list \<times> db
     \<Rightarrow> (store_error + nat) \<times> machine_row list \<times> db" where
  "decide_recording env now stamp facts name outcome k store =
     (let (ms, d) = store; reason = (if k_reopen k \<noteq> [] then ''reopened'' else k_reason k) in
      if outcome \<notin> set VERDICTS then (Inl (UnknownOutcome outcome), ms, d)
      else if reason \<noteq> [] \<and> reason \<notin> set REASONS then (Inl (UnknownReason reason), ms, d)
      else if k_run_path k \<noteq> [] \<and> \<not> is_path (k_run_path k) then (Inl (NotAPath (k_run_path k)), ms, d)
      else
        (case proposal_named d name of
           Some p \<Rightarrow>
             (let (mid, ms') = remember_machine stamp facts ms;
                  (res, d') = write_verdict env (p_id p) (fields_of outcome k reason now (Some mid)) (k_reopen k) (k_reopen_why k) d
              in (res, ms', d'))
         | None \<Rightarrow>
             if \<not> (truthy (k_candidate k) \<and> name = []) then (Inl (NoProposal name), ms, d)
             else (case same_as_last d outcome k of
                     Some i \<Rightarrow> (Inr i, ms, d)
                   | None \<Rightarrow>
                       (let (mid, ms') = remember_machine stamp facts ms;
                            (vid, d') = insert_verdict (fields_of outcome k reason now (Some mid)) d
                        in (Inr vid, ms', d')))))"

text \<open>On the tables of the ladder it is \<^const>\<open>decide\<close>, with the id of this machine's row.\<close>

lemma decide_recording_decide:
  "\<exists>ms'. decide_recording env now stamp facts name outcome k (ms, d)
     = (case decide env now (Some (fst (remember_machine stamp facts ms))) name outcome k d of (res, d') \<Rightarrow> (res, ms', d'))"
  by (cases "remember_machine stamp facts ms")
    (auto simp: decide_recording_def decide_def Let_def split: prod.split option.split)

section \<open>One row per machine\<close>

definition machines_ok :: "machine_row list \<Rightarrow> bool" where
  "machines_ok rows \<longleftrightarrow> distinct (map mr_id rows) \<and> distinct (map (hf_fingerprint \<circ> mr_facts) rows)"

lemma refreshed_keys [simp]:
  "mr_id (refreshed now f r) = mr_id r" "hf_fingerprint (mr_facts (refreshed now f r)) = hf_fingerprint f"
  by (simp_all add: refreshed_def)

text \<open>A machine is one row however often it is remembered, and what was last remembered is what is read back, hardware and architecture as first seen.\<close>

lemma remember_machine_ok:
  assumes "machines_ok rows"
  shows "machines_ok (snd (remember_machine now facts rows))"
proof (cases "find (\<lambda>r. hf_fingerprint (mr_facts r) = hf_fingerprint (kept_facts facts)) rows")
  case None
  have "distinct (map mr_id (rows @ [\<lparr>mr_id = next_id mr_id rows, mr_facts = kept_facts facts, mr_first_seen = now, mr_last_seen = now\<rparr>]))"
    using assms next_id_fresh [of _ rows mr_id] by (force simp: machines_ok_def)
  moreover have "snd (remember_machine now facts rows) = rows @ [\<lparr>mr_id = next_id mr_id rows, mr_facts = kept_facts facts, mr_first_seen = now, mr_last_seen = now\<rparr>]"
    by (simp add: remember_machine_def Let_def None)
  moreover have "hf_fingerprint (kept_facts facts) \<notin> (hf_fingerprint \<circ> mr_facts) ` set rows" using None by (auto simp: find_None_iff)
  ultimately show ?thesis using assms by (simp add: machines_ok_def)
next
  case (Some r)
  let ?f = "kept_facts facts"
  let ?rows = "map (\<lambda>x. if hf_fingerprint (mr_facts x) = hf_fingerprint ?f then refreshed now ?f x else x) rows"
  have "map mr_id ?rows = map mr_id rows" "map (hf_fingerprint \<circ> mr_facts) ?rows = map (hf_fingerprint \<circ> mr_facts) rows" by simp_all
  moreover have "snd (remember_machine now facts rows) = ?rows" by (simp add: remember_machine_def Let_def Some)
  ultimately show ?thesis using assms by (simp only: machines_ok_def)
qed

lemma remembered_read_back:
  assumes "machines_ok rows"
  shows "\<exists>hw arch. recorded_facts (snd (remember_machine now facts rows)) (fst (remember_machine now facts rows))
    = Some ((kept_facts facts)\<lparr>hf_hw_model := hw, hf_arch := arch\<rparr>)"
proof (cases "find (\<lambda>r. hf_fingerprint (mr_facts r) = hf_fingerprint (kept_facts facts)) rows")
  case None
  let ?r = "\<lparr>mr_id = next_id mr_id rows, mr_facts = kept_facts facts, mr_first_seen = now, mr_last_seen = now\<rparr>"
  have "distinct (map mr_id (rows @ [?r]))" using assms next_id_fresh [of _ rows mr_id] by (force simp: machines_ok_def)
  then have "row mr_id (mr_id ?r) (rows @ [?r]) = Some ?r" by (rule row_unique) simp
  then show ?thesis using None
    by (intro exI [of _ "hf_hw_model (kept_facts facts)"] exI [of _ "hf_arch (kept_facts facts)"])
      (simp add: remember_machine_def recorded_facts_def Let_def)
next
  case (Some r)
  let ?f = "kept_facts facts"
  let ?rows = "map (\<lambda>x. if hf_fingerprint (mr_facts x) = hf_fingerprint ?f then refreshed now ?f x else x) rows"
  have r: "r \<in> set rows" "hf_fingerprint (mr_facts r) = hf_fingerprint ?f" using Some by (auto simp: find_Some_iff)
  have "distinct (map mr_id ?rows)"
    using remember_machine_ok [OF assms, of now facts] Some by (simp add: machines_ok_def remember_machine_def Let_def)
  moreover have "refreshed now ?f r \<in> set ?rows" using r by force
  ultimately have "row mr_id (mr_id (refreshed now ?f r)) ?rows = Some (refreshed now ?f r)" by (rule row_unique)
  then show ?thesis using Some
    by (intro exI [of _ "hf_hw_model (mr_facts r)"] exI [of _ "hf_arch (mr_facts r)"])
      (simp add: remember_machine_def recorded_facts_def Let_def refreshed_def)
qed

text \<open>What remembering a machine does to the table: its own row is there, with the facts of now, and every other row is as it was.\<close>

definition only_this_machine :: "rat \<Rightarrow> held_facts \<Rightarrow> machine_row list \<Rightarrow> machine_row list \<Rightarrow> bool" where
  "only_this_machine stamp facts ms ms' \<longleftrightarrow>
     (let own = (\<lambda>r. hf_fingerprint (mr_facts r) = hf_fingerprint (kept_facts facts))
      in filter (\<lambda>r. \<not> own r) ms' = filter (\<lambda>r. \<not> own r) ms \<and> filter own ms' \<noteq> [] \<and>
         (\<forall>r \<in> set (filter own ms'). mr_last_seen r = stamp \<and> hf_runtimes (mr_facts r) = hf_runtimes facts \<and>
            hf_ceiling_gb (mr_facts r) = hf_ceiling_gb facts \<and> hf_memory_gb (mr_facts r) = hf_memory_gb facts))"

lemma remember_machine_own: "only_this_machine stamp facts ms (snd (remember_machine stamp facts ms))"
proof -
  define f where "f = kept_facts facts"
  define own where "own x \<longleftrightarrow> hf_fingerprint (mr_facts x) = hf_fingerprint f" for x :: machine_row
  have f: "hf_runtimes f = hf_runtimes facts" "hf_ceiling_gb f = hf_ceiling_gb facts" "hf_memory_gb f = hf_memory_gb facts"
    by (simp_all add: f_def kept_facts_def)
  have goal: "only_this_machine stamp facts ms ms' \<longleftrightarrow> filter (\<lambda>r. \<not> own r) ms' = filter (\<lambda>r. \<not> own r) ms \<and> filter own ms' \<noteq> [] \<and>
         (\<forall>r \<in> set (filter own ms'). mr_last_seen r = stamp \<and> hf_runtimes (mr_facts r) = hf_runtimes f \<and>
            hf_ceiling_gb (mr_facts r) = hf_ceiling_gb f \<and> hf_memory_gb (mr_facts r) = hf_memory_gb f)" for ms'
    by (simp add: only_this_machine_def own_def [abs_def] f Let_def f_def [symmetric])
  have m: "remember_machine stamp facts ms =
      (case find own ms of
         Some r \<Rightarrow> (mr_id r, map (\<lambda>x. if own x then refreshed stamp f x else x) ms)
       | None \<Rightarrow> (next_id mr_id ms, ms @ [\<lparr>mr_id = next_id mr_id ms, mr_facts = f, mr_first_seen = stamp, mr_last_seen = stamp\<rparr>]))"
    unfolding remember_machine_def f_def [symmetric] Let_def own_def [abs_def] ..
  show ?thesis
  proof (cases "find own ms")
    case None
    then have "filter own ms = []" by (auto simp: find_None_iff filter_empty_conv)
    then show ?thesis unfolding goal m None by (simp add: own_def)
  next
    case (Some r)
    have step: "own (if own x then refreshed stamp f x else x) = own x" for x by (simp add: own_def)
    have others: "filter (\<lambda>x. \<not> own x) (map (\<lambda>x. if own x then refreshed stamp f x else x) xs) = filter (\<lambda>x. \<not> own x) xs" for xs
      by (induction xs) (simp_all add: step)
    have mine: "filter own (map (\<lambda>x. if own x then refreshed stamp f x else x) xs) = map (refreshed stamp f) (filter own xs)" for xs
      by (induction xs) (simp_all add: step)
    have "filter own ms \<noteq> []" using Some by (auto simp: find_Some_iff filter_empty_conv)
    then show ?thesis unfolding goal m Some option.case snd_conv others mine by (simp add: refreshed_def)
  qed
qed

text \<open>What can refuse a move once the arguments are good.\<close>

lemma write_loop_refusals:
  assumes "write_loop (Suc n) alone pid v reopen d = (Inl e, d')" "row p_id pid (proposals d) = Some held"
  shows "d' = d \<and> (\<exists>r. e = Illegal r)"
proof -
  have "restates d held v reopen
      \<or> transition_refused (p_state held) (held_tier d held) (v_outcome v) (v_tier v) reopen \<noteq> None"
    using assms(1) write_alone [OF assms(2), of v reopen n] by (auto simp del: write_loop.simps)
  then show ?thesis using assms by (auto split: if_splits)
qed

lemma write_verdict_refusals:
  assumes "write_verdict alone pid v reopen why d = (Inl e, d')" "row p_id pid (proposals d) \<noteq> None"
  shows "d' = d \<and> ((\<exists>r. e = NotSaidWhy r) \<or> (\<exists>r. e = Illegal r))"
proof (cases "reopen \<noteq> [] \<and> strip why = []")
  case True
  then show ?thesis using assms by (auto simp: write_verdict_def)
next
  case False
  have eight: "8 = Suc 7" by simp
  obtain held where held: "row p_id pid (proposals d) = Some held" using assms(2) by blast
  have "write_loop (Suc 7) alone pid v reopen d = (Inl e, d')"
    using assms(1) False unfolding write_verdict_def eight by (simp del: write_loop.simps split: if_splits)
  from write_loop_refusals [OF this held] show ?thesis by blast
qed

text \<open>What each error of a decision leaves, with no other writer.\<close>

lemma decide_recording_refused:
  assumes "decide_recording alone now stamp facts name outcome k (ms, d) = (Inl e, ms', d')"
  shows "d' = d \<and>
    ((\<exists>x. e = UnknownOutcome x \<or> e = UnknownReason x \<or> e = NotAPath x \<or> e = NoProposal x) \<and> ms' = ms \<or>
     ((\<exists>x. e = NotSaidWhy x) \<or> (\<exists>r. e = Illegal r)) \<and> ms' = snd (remember_machine stamp facts ms))"
proof (cases "proposal_named d name")
  case None
  then show ?thesis using assms
    by (auto simp: decide_recording_def Let_def split: if_splits option.splits prod.splits)
next
  case (Some p)
  then have p: "row p_id (p_id p) (proposals d) \<noteq> None"
    unfolding row_def find_None_iff proposal_named_def find_Some_iff by (metis nth_mem)
  obtain mid ms1 where m: "remember_machine stamp facts ms = (mid, ms1)" by (rule prod.exhaust)
  show ?thesis
  proof (cases "ms' = ms1 \<and> write_verdict alone (p_id p) (fields_of outcome k (if k_reopen k \<noteq> [] then ''reopened'' else k_reason k) now (Some mid))
      (k_reopen k) (k_reopen_why k) d = (Inl e, d')")
    case True
    from write_verdict_refusals [OF conjunct2 [OF True] p] show ?thesis using conjunct1 [OF True] m by simp
  next
    case False
    then have "d' = d \<and> ms' = ms \<and> (\<exists>x. e = UnknownOutcome x \<or> e = UnknownReason x \<or> e = NotAPath x)"
      using assms Some m unfolding decide_recording_def Let_def prod.case
      by (auto split: if_splits prod.splits)
    then show ?thesis by blast
  qed
qed

end
