(* ===== verification/Ladder.thy ===== *)
theory Ladder
  imports ProposalFacts Machines
begin

text \<open>
  The ladder's properties: what the transition table, the writer, the retests and the reads of
  \<open>memory_store/\<close> promise of every store the operations reach, and of every schedule of other writers.
\<close>

section \<open>A small store\<close>

text \<open>One name sighted, then declined at the screen: its retest is due a week later.\<close>

definition sample_seen :: seen where
  "sample_seen = \<lparr>n_name = ''org/m'', n_source = ''hn'', n_url = ''u'', n_why = [], n_relevance = 1,
     n_kind = ''model'', n_lane = ''text'', n_resolved = ''org/m'', n_registry = ''huggingface'',
     n_description = [], n_lane_source = ''feed'', n_category = ''model''\<rparr>"

definition sample_seen_store :: db where
  "sample_seen_store = snd (record_seen 1 None sample_seen empty_db)"

definition sample_declined :: decision where
  "sample_declined = no_decision\<lparr>k_tier := ''screen'', k_at := Some 10, k_reason := ''limit''\<rparr>"

definition sample_store :: db where
  "sample_store = snd (decide alone 10 None ''org/m'' ''declined'' sample_declined sample_seen_store)"

lemma sample_seen_reaches: "store_reaches sample_seen_store"
  unfolding sample_seen_store_def by (rule store_reaches.step [OF store_reaches.start store_step.recorded])

lemma sample_reaches: "store_reaches sample_store"
  unfolding sample_store_def
  by (rule store_reaches.step [OF sample_seen_reaches], rule store_step.decided) 
    (simp add: sample_declined_def no_decision_def RETEST_def)

lemma sample_rows:
  "map (\<lambda>p. (p_name p, p_state p, p_retests p)) (proposals sample_store) = [(''org/m'', ''declined'', 0)]"
  "map p_next_retest (proposals sample_store) = [Some 604810]"
  by code_simp+

section \<open>The transition table\<close>

text \<open>
  C1. A settled proposal stays settled: once the ladder holds a terminal outcome, no event without a
  named reopen brings it back to a waypoint, and the rung that holds it never goes down.
\<close>

theorem terminal_is_final:
  assumes "fst (fold_events past) \<in> set TERMINAL"
    and "\<forall>(out, t, k) \<in> set later. out \<in> set VERDICTS \<and> k = []"
  shows "fst (fold_events (past @ later)) \<in> set TERMINAL
    \<and> rung (snd (fold_events past)) \<le> rung (snd (fold_events (past @ later)))"
  using foldl_terminal [OF assms(1) assms(2), of "snd (fold_events past)"]
  by (simp add: fold_events_def)

theorem terminal_is_final_witness:
  "fst (fold_events [(''declined'', ''screen'', []), (''queued'', ''inspect'', [])]) \<in> set TERMINAL"
  using terminal_is_final [of "[(''declined'', ''screen'', [])]" "[(''queued'', ''inspect'', [])]"]
  by (simp add: fold_events_def transition_refused_def vocabulary_defs)

section \<open>The writer\<close>

text \<open>
  C2. Whatever other connections write between this connection's read and its insert (each adding verdicts
  and keeping the audit clean), a decision only ever adds verdicts, and every proposal's state is still what
  the table folds its verdicts to.
\<close>

theorem decide_keeps_fold:
  assumes "\<And>n d. extends d (env n d)" and "store_ok d"
  shows "fst (state_audit (snd (decide env now machine name outcome k d))) = []
    \<and> (\<exists>vs. verdicts (snd (decide env now machine name outcome k d)) = verdicts d @ vs)"
  using decide_extends [OF assms, where now = now and machine = machine and name = name and outcome = outcome and k = k]
    assms(2) audit_clean by (auto simp: extends_def)

theorem decide_keeps_fold_witness:
  "fst (state_audit (snd (decide alone 10 None ''org/m'' ''declined'' sample_declined sample_seen_store))) = []"
  using decide_keeps_fold [of alone sample_seen_store, OF alone_extends] store_reaches_inv [OF sample_seen_reaches]
  by (simp add: ladder_inv_def)

text \<open>
  C3. A refused decision moves nothing: with no other writer, every error leaves proposals, verdicts and the other tables of
  the ladder exactly as they were, and the compare-and-swap never gives up. What \<open>decide\<close> finds wrong with its arguments leaves
  the machines alone too; a reopen without a why and a move the ladder refuses come after this machine was remembered,
  and leave its row, inserted or refreshed, and every other machine's as it was.
\<close>

theorem refused_decision_moves_nothing:
  assumes "decide_recording alone now stamp facts name outcome k (ms, d) = (Inl e, ms', d')"
  shows "d' = d \<and> e \<noteq> KeptMoving \<and>
    ((\<exists>x. e = UnknownOutcome x \<or> e = UnknownReason x \<or> e = NotAPath x \<or> e = NoProposal x) \<and> ms' = ms \<or>
     ((\<exists>x. e = NotSaidWhy x) \<or> (\<exists>r. e = Illegal r)) \<and> only_this_machine stamp facts ms ms')"
  using decide_recording_refused [OF assms] remember_machine_own [of stamp facts ms] by auto

text \<open>A Mac that was seen before at another ceiling: the reopening is refused, and its row is refreshed.\<close>

definition sample_facts :: "rat \<Rightarrow> held_facts" where
  "sample_facts ceiling_gb = \<lparr>hf_fingerprint = ''Mac/macOS/arm64'', hf_hw_model = ''Mac'', hf_os = ''macOS-15'', hf_arch = ''arm64'', hf_memory_gb = 32,
     hf_accelerator = ''metal'', hf_runtimes = ''mlx'', hf_ceiling_gb = ceiling_gb, hf_versions = [], hf_limits = None, hf_last_commit = []\<rparr>"

definition sample_machines :: "machine_row list" where
  "sample_machines = [\<lparr>mr_id = 4, mr_facts = sample_facts 20, mr_first_seen = 1, mr_last_seen = 2\<rparr>]"

theorem refused_decision_witness:
  "\<exists>ms'. decide_recording alone 20 21 (sample_facts 24) ''org/m'' ''queued'' no_decision (sample_machines, sample_store)
       = (Inl (Illegal (WouldReopen ''queued'' [] ''declined'' ''screen'')), ms', sample_store)
     \<and> map (\<lambda>r. (mr_id r, mr_last_seen r, hf_ceiling_gb (mr_facts r))) ms' = [(4, 21, 24)]
     \<and> only_this_machine 21 (sample_facts 24) sample_machines ms'"
proof -
  let ?out = "decide_recording alone 20 21 (sample_facts 24) ''org/m'' ''queued'' no_decision (sample_machines, sample_store)"
  obtain res ms' d' where out: "?out = (res, ms', d')" by (rule prod_cases3)
  have "fst ?out = Inl (Illegal (WouldReopen ''queued'' [] ''declined'' ''screen'')) \<and>
      map (\<lambda>r. (mr_id r, mr_last_seen r, hf_ceiling_gb (mr_facts r))) (fst (snd ?out)) = [(4, 21, 24)]" by code_simp
  then have got: "res = Inl (Illegal (WouldReopen ''queued'' [] ''declined'' ''screen''))"
    "map (\<lambda>r. (mr_id r, mr_last_seen r, hf_ceiling_gb (mr_facts r))) ms' = [(4, 21, 24)]" unfolding out by simp_all
  from refused_decision_moves_nothing [OF out [unfolded got(1)]] have "d' = sample_store" "only_this_machine 21 (sample_facts 24) sample_machines ms'"
    by simp_all
  then show ?thesis using out got by simp
qed

section \<open>Every reachable store\<close>

text \<open>
  C4. In every store the operations reach, the audit finds no row that folds differently: the recorded state
  of each proposal, and the rung that holds it, are exactly the fold of its verdicts, and names are unique.
\<close>

theorem reachable_audit_clean:
  assumes "store_reaches d"
  shows "fst (state_audit d) = [] \<and> distinct (map p_name (proposals d))
    \<and> (\<forall>p \<in> set (proposals d). fold_events (history d (p_id p)) = (p_state p, held_tier d p))"
  using store_reaches_inv [OF assms] audit_clean
  by (auto simp: ladder_inv_def names_ok_def store_ok_def proposal_ok_def)

theorem reachable_audit_clean_witness: "fst (state_audit sample_store) = []"
  using reachable_audit_clean [OF sample_reaches] by simp

text \<open>
  C5. In every reachable store no proposal was retested more often than the budget of three, and a retest
  is due only for a rejection by an eligible tier that named no condition, with budget left.
\<close>

theorem retest_budget:
  assumes "store_reaches d" and "p \<in> set (proposals d)"
  shows "p_retests p \<le> RETESTS
    \<and> (p_next_retest p \<noteq> None \<longrightarrow> p_retests p < RETESTS
         \<and> (\<exists>v. held_verdict d p = Some v \<and> retest_eligible (p_state p) (v_tier v) (v_until v)))"
  using store_reaches_inv [OF assms(1)] assms(2)
  by (auto simp: ladder_inv_def budget_ok_def store_ok_def proposal_ok_def retest_ok_def)

theorem retest_budget_witness:
  "\<exists>p \<in> set (proposals sample_store). p_next_retest p = Some 604810 \<and> p_retests p < RETESTS"
proof -
  obtain p where p: "p \<in> set (proposals sample_store)" "p_next_retest p = Some 604810"
    using sample_rows(2) by (cases "proposals sample_store") auto
  with retest_budget [OF sample_reaches p(1)] show ?thesis by auto
qed

section \<open>Recording and reading\<close>

text \<open>
  A name the store calls settled is never handed back as pending, whatever the registry and whether or
  not screened names are asked for.
\<close>

theorem pending_never_settled:
  assumes "store_reaches d"
  shows "set (pending d limit registry screened) \<inter> set (settled d) = {}"
proof -
  have names: "distinct (map p_name (proposals d))"
    using store_reaches_inv [OF assms] by (simp add: ladder_inv_def names_ok_def)
  have "\<exists>p \<in> set (proposals d). p_name p = n \<and> p_state p \<notin> set TERMINAL"
    if "n \<in> set (pending d limit registry screened)" for n
    using that unfolding pending_def Let_def by (auto dest!: in_set_takeD)
  moreover have "\<exists>p \<in> set (proposals d). p_name p = n \<and> p_state p \<in> set TERMINAL"
    if "n \<in> set (settled d)" for n
    using that by (auto simp: settled_def)
  ultimately show ?thesis using names by (fastforce simp: distinct_map inj_on_def)
qed

theorem pending_never_settled_witness:
  "''org/m'' \<in> set (settled sample_store) \<and> ''org/m'' \<notin> set (pending sample_store 50 None True)"
proof -
  have "''org/m'' \<in> set (settled sample_store)" by code_simp
  with pending_never_settled [OF sample_reaches, of 50 None True] show ?thesis by blast
qed

lemma find_update_row:
  "(\<And>x. f (g x) = f x) \<Longrightarrow> find (\<lambda>p. f p = n) (update_row rid i g rows) =
     map_option (\<lambda>x. if rid x = i then g x else x) (find (\<lambda>p. f p = n) rows)"
  by (induction rows) (auto simp: update_row_def)

lemma find_append_None: "find P xs = None \<Longrightarrow> find P (xs @ ys) = find P ys"
  by (induction xs) (auto split: if_splits)

lemma seen_update_same [simp]: "p_id (seen_update s t p) = p_id p" "p_name (seen_update s t p) = p_name p"
  by (simp_all add: seen_update_def)

lemma record_seen_named:
  "\<exists>p. proposal_named (snd (record_seen t m s d)) (n_name s) = Some p \<and> p_id p = fst (record_seen t m s d)"
proof (cases "proposal_named d (n_name s)")
  case (Some p)
  then show ?thesis
    by (simp add: record_seen_def proposal_named_def find_update_row)
next
  case None
  then have "find (\<lambda>p. p_name p = n_name s) (proposals d @ [seen_insert s t (next_id p_id (proposals d))])
      = Some (seen_insert s t (next_id p_id (proposals d)))"
    by (simp add: proposal_named_def find_append_None seen_insert_def)
  then show ?thesis using None by (simp add: record_seen_def proposal_named_def Let_def seen_insert_def)
qed

lemma record_seen_sighted:
  "\<exists>x \<in> set (sightings (snd (record_seen t m s d))).
     s_proposal x = fst (record_seen t m s d) \<and> s_source x = n_source s \<and> s_url x = n_url s"
  by (auto simp: record_seen_def add_sighting_def Let_def split: option.split)

text \<open>
  Recording the same sighting again adds neither a proposal nor a sighting: the second call finds the
  row the first made and returns the same id.
\<close>

theorem recording_is_idempotent:
  "fst (record_seen t' m' s (snd (record_seen t m s d))) = fst (record_seen t m s d)
   \<and> sightings (snd (record_seen t' m' s (snd (record_seen t m s d)))) = sightings (snd (record_seen t m s d))
   \<and> map p_name (proposals (snd (record_seen t' m' s (snd (record_seen t m s d)))))
       = map p_name (proposals (snd (record_seen t m s d)))"
proof -
  obtain p where p: "proposal_named (snd (record_seen t m s d)) (n_name s) = Some p"
    "p_id p = fst (record_seen t m s d)" using record_seen_named by blast
  have "add_sighting (p_id p) s t' m' e = e"
    if "sightings e = sightings (snd (record_seen t m s d))" for e
    using record_seen_sighted [of t m s d] that p(2) by (auto simp: add_sighting_def)
  then show ?thesis
    by (simp add: record_seen_def [of t'] p(1)) (simp add: p(2) update_row_def)
qed

section \<open>The retest pass reopens what is due\<close>

lemma strip_attempt: "strip (attempt p v) \<noteq> []"
  by (simp add: attempt_def strip_def is_space_def)

lemma retest_legal:
  "s \<in> {''broken'', ''declined''} \<Longrightarrow> transition_refused s h out t RETEST = None"
  by (auto simp: transition_refused_def REOPENS_def RETEST_def RETRACTION_def)

definition reopening :: "rat \<Rightarrow> proposal \<Rightarrow> verdict \<Rightarrow> decision" where
  "reopening now p v = no_decision\<lparr>k_tier := ''inspect'', k_at := Some now, k_detail := attempt p v,
     k_reopen := RETEST, k_reopen_why := attempt p v\<rparr>"

text \<open>One retest: the row becomes queued, one attempt is spent, every other row stays.\<close>

lemma reopen_one:
  assumes inv: "ladder_inv d" and p: "p \<in> set (proposals d)" and s: "p_state p \<in> {''broken'', ''declined''}"
  shows "\<exists>vid d' q. decide_or_skip alone now machine (p_name p) ''queued'' (reopening now p v) d = (Inr (Some vid), d')
      \<and> p_name q = p_name p \<and> p_state q = ''queued'' \<and> p_retests q = Suc (p_retests p) \<and> p_next_retest q = None
      \<and> proposals d' = update_row p_id (p_id p) (\<lambda>_. q) (proposals d)"
proof -
  let ?k = "reopening now p v"
  let ?f = "fields_of ''queued'' ?k ''reopened'' now machine"
  have ok: "store_ok d" and nm: "names_ok d" using inv by (simp_all add: ladder_inv_def)
  have named: "proposal_named d (p_name p) = Some p" using proposal_named_unique [OF nm p] .
  have dist: "distinct (map p_id (proposals d))" using ok by (simp add: store_ok_def)
  have row: "row p_id (p_id p) (proposals d) = Some p" using row_unique [OF dist p] .
  have k: "k_reopen ?k = RETEST" "k_reopen_why ?k = attempt p v" "k_run_path ?k = []" by (simp_all add: reopening_def no_decision_def)
  have "restates d p ?f RETEST = False" by (simp add: restates_def RETEST_def)
  moreover have "transition_refused (p_state p) (held_tier d p) (v_outcome ?f) (v_tier ?f) RETEST = None"
    using retest_legal [OF s] .
  ultimately have w: "write_loop (Suc 7) alone (p_id p) ?f RETEST d
      = (Inr (next_id v_id (verdicts d)), commit_move (p_id p) (columns (p_id p) p ?f RETEST) RETEST d)"
    using write_alone [OF row, of ?f RETEST 7] by blast
  have "write_loop 8 alone (p_id p) ?f RETEST d = write_loop (Suc 7) alone (p_id p) ?f RETEST d"
    by (rule arg_cong [where f = "\<lambda>n. write_loop n alone (p_id p) ?f RETEST d"]) simp
  then have "decide alone now machine (p_name p) ''queued'' ?k d
      = (Inr (next_id v_id (verdicts d)), commit_move (p_id p) (columns (p_id p) p ?f RETEST) RETEST d)"
    using w k strip_attempt [of p v]
    by (simp add: decide_def write_verdict_def named RETEST_def VERDICTS_def REASONS_def del: write_loop.simps)
  then show ?thesis
    using commit_move_tables(2) [OF dist row, of "columns (p_id p) p ?f RETEST" RETEST]
    by (auto simp: decide_or_skip_def moved_row_def fields_of_def Let_def
        intro!: exI [of _ "moved_row (columns (p_id p) p ?f RETEST) RETEST (next_id v_id (verdicts d)) p"])
qed

lemma reopen_each_all:
  assumes "ladder_inv d" and "within_budget d (map (p_name \<circ> fst) rows)"
    and "distinct (map (p_name \<circ> fst) rows)"
    and "\<forall>(p, v) \<in> set rows. p \<in> set (proposals d) \<and> p_state p \<in> {''broken'', ''declined''}"
  shows "\<exists>d'. reopen_each machine now rows d = (Inr (map (p_name \<circ> fst) rows), d')
    \<and> (\<forall>(p, v) \<in> set rows. \<exists>q \<in> set (proposals d'). p_name q = p_name p \<and> p_state q = ''queued''
         \<and> p_retests q = Suc (p_retests p) \<and> p_next_retest q = None)
    \<and> (\<forall>p \<in> set (proposals d). p_name p \<notin> (p_name \<circ> fst) ` set rows \<longrightarrow> p \<in> set (proposals d'))"
  using assms
proof (induction rows arbitrary: d)
  case (Cons pv rows)
  obtain p v where pv: "pv = (p, v)" by (cases pv)
  from Cons.prems(4) have p: "p \<in> set (proposals d)" "p_state p \<in> {''broken'', ''declined''}" by (auto simp: pv)
  from reopen_one [OF Cons.prems(1) p, of now machine v] obtain vid d1 q where
    one: "decide_or_skip alone now machine (p_name p) ''queued'' (reopening now p v) d = (Inr (Some vid), d1)"
    and q: "p_name q = p_name p" "p_state q = ''queued''" "p_retests q = Suc (p_retests p)" "p_next_retest q = None"
    and d1: "proposals d1 = update_row p_id (p_id p) (\<lambda>_. q) (proposals d)" by blast
  have stays: "x \<in> set (proposals d1)" if "x \<in> set (proposals d)" "p_name x \<noteq> p_name p" for x
  proof -
    have "p_id x \<noteq> p_id p" using that p(1) Cons.prems(1) row_unique [of p_id "proposals d"]
      by (metis ladder_inv_def option.inject store_ok_def)
    then show ?thesis using that(1) by (force simp: d1 update_row_def)
  qed
  have q1: "q \<in> set (proposals d1)" using p(1) by (force simp: d1 update_row_def)
  have d1_eq: "d1 = snd (decide alone now machine (p_name p) ''queued'' (reopening now p v) d)"
    using one decide_or_skip_store by (metis snd_conv)
  have inv1: "ladder_inv d1 \<and> within_budget d1 (map (p_name \<circ> fst) rows)"
    using Cons.prems by (intro retest_step_inv [OF _ _ _ _ d1_eq]) (simp_all add: pv reopening_def o_def)
  have new: "p_name p \<notin> (p_name \<circ> fst) ` set rows" using Cons.prems(3) by (simp add: pv)
  have later: "\<forall>(p', v') \<in> set rows. p' \<in> set (proposals d1) \<and> p_state p' \<in> {''broken'', ''declined''}"
  proof (clarify, rule conjI)
    fix p' v' assume "(p', v') \<in> set rows"
    then have "p_name p' \<in> (p_name \<circ> fst) ` set rows" by force
    then have "p_name p' \<noteq> p_name p" using new by metis
    moreover have old: "p' \<in> set (proposals d) \<and> p_state p' \<in> {''broken'', ''declined''}"
      using Cons.prems(4) \<open>(p', v') \<in> set rows\<close> by auto
    ultimately show "p' \<in> set (proposals d1)" using stays by blast
    show "p_state p' \<in> {''broken'', ''declined''}" using old ..
  qed
  have "distinct (map (p_name \<circ> fst) rows)" using Cons.prems(3) by (simp add: o_def)
  with Cons.IH [OF _ _ _ later] inv1 obtain d' where
    d': "reopen_each machine now rows d1 = (Inr (map (p_name \<circ> fst) rows), d')"
    and got: "\<forall>(p, v) \<in> set rows. \<exists>q \<in> set (proposals d'). p_name q = p_name p \<and> p_state q = ''queued''
         \<and> p_retests q = Suc (p_retests p) \<and> p_next_retest q = None"
    and kept: "\<forall>p \<in> set (proposals d1). p_name p \<notin> (p_name \<circ> fst) ` set rows \<longrightarrow> p \<in> set (proposals d')"
    by blast
  have "reopen_each machine now (pv # rows) d = (Inr (map (p_name \<circ> fst) (pv # rows)), d')"
    using one by (simp add: pv reopening_def d')
  moreover have "q \<in> set (proposals d')" using kept q1 q(1) new by auto
  moreover have "\<forall>x \<in> set (proposals d). p_name x \<notin> (p_name \<circ> fst) ` set (pv # rows) \<longrightarrow> x \<in> set (proposals d')"
    using kept stays by (simp add: pv)
  ultimately show ?case using got q by (intro exI [of _ d']) (auto simp: pv)
qed simp

lemma due_rows_open:
  assumes "(p, v) \<in> set (due_retests d now)"
  shows "p \<in> set (proposals d) \<and> p_state p \<in> {''broken'', ''declined''}"
  using assms unfolding due_retests_def Let_def set_filter set_sort set_map_filter
  by (auto simp: retest_eligible_def REOPENS_def RETEST_def RETRACTION_def)

text \<open>
  The retest pass reopens every rejection that is due, in order: each is queued again, exactly one of its
  attempts is spent, and no further retest is due until it is answered.
\<close>

theorem retest_pass_reopens_all_due:
  assumes "store_reaches d"
  shows "\<exists>d'. reopen_due_retests machine now d = (Inr (map (p_name \<circ> fst) (due_retests d now)), d')
    \<and> (\<forall>(p, v) \<in> set (due_retests d now). \<exists>q \<in> set (proposals d'). p_name q = p_name p \<and> p_state q = ''queued''
         \<and> p_retests q = Suc (p_retests p) \<and> p_next_retest q = None)"
proof -
  have inv: "ladder_inv d" and nm: "names_ok d" using store_reaches_inv [OF assms] by (simp_all add: ladder_inv_def)
  have "\<forall>(p, v) \<in> set (due_retests d now). p \<in> set (proposals d) \<and> p_state p \<in> {''broken'', ''declined''}"
    using due_rows_open by blast
  from reopen_each_all [OF inv due_rows_within [OF nm] due_rows_distinct [OF nm] this]
  show ?thesis unfolding reopen_due_retests_def by blast
qed

theorem retest_pass_witness:
  "fst (reopen_due_retests None 700000 sample_store) = Inr [''org/m'']"
proof -
  have "map (p_name \<circ> fst) (due_retests sample_store 700000) = [''org/m'']" by code_simp
  with retest_pass_reopens_all_due [OF sample_reaches, of None 700000] show ?thesis by auto
qed

text \<open>
  A tool that drops models from its list retires only names that were its children, that it no longer
  lists, and that no other tool lists; every row of another name is left exactly as it was.
\<close>

theorem retire_unlisted_spares:
  assumes "store_reaches d" and "retire_unlisted now machine name keep relation why outcome d = (Inr retired, d')"
  shows "(\<forall>other \<in> set retired. other \<in> set (children d name relation) \<and> other \<notin> set keep
           \<and> set (parents d other relation) \<subseteq> {name})
    \<and> (\<forall>p \<in> set (proposals d). p_name p \<notin> set (children d name relation) \<longrightarrow> p \<in> set (proposals d'))"
  using retire_each_only [OF store_reaches_inv [OF assms(1)], of now machine name keep relation why outcome
      "children d name relation" retired d'] assms(2)
  by (simp add: retire_unlisted_def)

text \<open>A tool that lists two models, one of them listed by another tool too; it then drops both.\<close>

definition sample_listed :: db where
  "sample_listed =
     (let put = (\<lambda>n d. snd (record_seen 1 None (sample_seen\<lparr>n_name := n\<rparr>) d));
          queue = (\<lambda>n d. snd (decide alone 2 None n ''queued'' no_decision d));
          tie = (\<lambda>s t d. snd (link s t ''lists'' [] None None None d))
      in tie ''u'' ''b'' (tie ''t'' ''b'' (tie ''t'' ''a''
           (queue ''b'' (queue ''a'' (put ''b'' (put ''a'' (put ''u'' (put ''t'' empty_db)))))))))"

lemma sample_listed_reaches: "store_reaches sample_listed"
  unfolding sample_listed_def Let_def
  by (rule store_reaches.step [OF _ store_step.linked] store_reaches.step [OF _ store_step.recorded]
      store_reaches.start store_reaches.step [OF _ store_step.decided])+ (simp_all add: no_decision_def RETEST_def)

theorem retire_unlisted_witness:
  "fst (retire_unlisted 9 None ''t'' [] ''lists'' ''gone'' ''ignored'' sample_listed) = Inr [''a'']
   \<and> set (parents sample_listed ''a'' ''lists'') \<subseteq> {''t''}"
proof -
  have got: "fst (retire_unlisted 9 None ''t'' [] ''lists'' ''gone'' ''ignored'' sample_listed) = Inr [''a'']" by code_simp
  then obtain d' where "retire_unlisted 9 None ''t'' [] ''lists'' ''gone'' ''ignored'' sample_listed = (Inr [''a''], d')"
    by (metis prod.collapse)
  from retire_unlisted_spares [OF sample_listed_reaches this] got show ?thesis by simp
qed

section \<open>Lanes and reasons\<close>

text \<open>
  Reading a lane twice is reading it once, and \<open>serves\<close> is an equivalence on the lanes there are: a
  model recorded under one text lane is a candidate for every text lane, and any other lane serves itself.
\<close>

theorem serves_equivalence:
  "canonical (canonical l) = canonical l
   \<and> (known l \<longrightarrow> serves l l)
   \<and> (serves a b \<longrightarrow> serves b a)
   \<and> (serves a b \<longrightarrow> serves b c \<longrightarrow> serves a c)"
proof -
  have "canonical l \<noteq> []" if "known l"
    using that by (auto simp: known_def lane_tables)
  then show ?thesis using served_not_Nil by (auto simp: serves_iff)
qed

theorem serves_equivalence_witness: "serves '' Text '' ''svg'' \<and> serves ''svg'' '' Text ''"
proof -
  have "serves '' Text '' ''svg''" by code_simp
  with serves_equivalence [of "''svg''" "'' Text ''" "''svg''"] show ?thesis by blast
qed

text \<open>
  A runner's error always has a class, the class is one the table knows, and the verdict written for a
  class whose reason is the harness is always a waypoint: what the harness got wrong never settles a
  candidate, whatever was said with it. Conversely only those classes leave the candidate open.
\<close>

theorem harness_errors_never_settle:
  "classify said RUNNER candidate \<in> set (map fst CLASSES)
   \<and> (\<forall>(c, outcome, reason) \<in> set CLASSES.
        outcome \<in> set VERDICTS \<and> reason \<in> set REASONS
        \<and> (c \<in> set NEVER_RAN \<longleftrightarrow> outcome \<in> set WAYPOINTS)
        \<and> (c \<notin> set NEVER_RAN \<longleftrightarrow> outcome \<in> set TERMINAL))"
proof -
  have "classify said RUNNER candidate \<in> set (map fst CLASSES)"
    using classify_class [of said RUNNER candidate] classify_runner [of said candidate] by blast
  then show ?thesis by (simp add: class_defs REASONS_def vocabulary_defs)
qed

theorem harness_errors_witness:
  "classify ''[Errno 61] Connection refused'' RUNNER ''mlx:m'' = ''refused_by_gateway''
   \<and> ''refused_by_gateway'' \<in> set NEVER_RAN \<and> ''queued'' \<in> set WAYPOINTS"
proof -
  have "classify ''[Errno 61] Connection refused'' RUNNER ''mlx:m'' = ''refused_by_gateway''"
    and member: "(''refused_by_gateway'', ''queued'', ''harness'') \<in> set CLASSES"
    and blamed: "''refused_by_gateway'' \<in> set NEVER_RAN" by code_simp+
  with harness_errors_never_settle [of "''[Errno 61] Connection refused''" "''mlx:m''"] show ?thesis by fast
qed

text \<open>
  Of the classes a run's rows carry, the one reported is the first in precedence order that occurs, so
  it does not depend on the order or the number of the rows; none is reported only when no known class occurs.
\<close>

theorem first_class_precedence:
  "(first_class cs = [] \<longleftrightarrow> set cs \<inter> set (map fst CLASSES) = {})
   \<and> (first_class cs \<noteq> [] \<longrightarrow>
        (\<exists>before after. map fst CLASSES = before @ first_class cs # after
           \<and> first_class cs \<in> set cs \<and> set before \<inter> set cs = {}))
   \<and> (set ds = set cs \<longrightarrow> first_class ds = first_class cs)"
proof (intro conjI impI)
  show "first_class cs = [] \<longleftrightarrow> set cs \<inter> set (map fst CLASSES) = {}"
    using first_class_Nil [of cs] by blast
  assume "first_class cs \<noteq> []"
  then obtain c where c: "find (\<lambda>c. c \<in> set cs) (map fst CLASSES) = Some c" "first_class cs = c"
    by (auto simp: first_class_def split: option.splits)
  from find_first [OF c(1)] c(2)
  show "\<exists>before after. map fst CLASSES = before @ first_class cs # after
           \<and> first_class cs \<in> set cs \<and> set before \<inter> set cs = {}" by blast
qed (simp add: first_class_def)

theorem first_class_witness:
  "first_class [''crashed'', ''timeout'', ''crashed''] = first_class [''timeout'', ''crashed'']
   \<and> ''server_dead'' \<notin> set [''crashed'', ''timeout'']"
  using first_class_precedence [of "[''timeout'', ''crashed'']" "[''crashed'', ''timeout'', ''crashed'']"] by auto

end
