(* ===== verification/Doubles.thy ===== *)
theory Doubles
  imports Prelude "HOL-Library.Log_Nat"
begin

text \<open>
  Python's floats where the rounding shows: an operation on floats is the exact result rounded to the nearest
  53-bit number, ties to even. Sizes in gigabytes stay far from the ends of the exponent's range, so overflow and
  gradual underflow are not part of \<open>double\<close>.
\<close>

section \<open>The rounding\<close>

text \<open>The exponent of a number that is not zero: \<open>2 powi k \<le> \<bar>x\<bar> < 2 powi (k + 1)\<close>, from the lengths of its fraction.\<close>

definition exponent_of :: "rat \<Rightarrow> int" where
  "exponent_of x =
     (let (n, d) = quotient_of x; k = bitlen \<bar>n\<bar> - bitlen d
      in if 2 powi k \<le> \<bar>x\<bar> then k else k - 1)"

definition double :: "rat \<Rightarrow> rat" where
  "double x = (if x = 0 then 0 else let ulp = 2 powi (exponent_of x - 52) in of_int (py_round (x / ulp)) * ulp)"

text \<open>\<open>round(x, k)\<close> of a float: to \<open>k\<close> decimals, and that decimal's float.\<close>

definition float_round :: "nat \<Rightarrow> rat \<Rightarrow> rat" where
  "float_round k x = double (round_to k x)"

section \<open>Its error\<close>

lemma bitlen_powi_bounds:
  assumes "0 < n"
  shows "2 powi (bitlen n - 1) \<le> (of_int n :: rat)" and "(of_int n :: rat) < 2 powi (bitlen n)"
proof -
  have b: "2 ^ nat (bitlen n - 1) \<le> n" "n < 2 ^ nat (bitlen n)" using bitlen_bounds [OF assms] by auto
  have pos: "0 < bitlen n" using assms by (simp add: bitlen_def floorlog_def add_pos_nonneg)
  have "(of_int (2 ^ nat (bitlen n - 1)) :: rat) \<le> of_int n" using b(1) by (simp only: of_int_le_iff)
  then show "2 powi (bitlen n - 1) \<le> (of_int n :: rat)" using pos by (simp add: power_int_def)
  have "(of_int n :: rat) < of_int (2 ^ nat (bitlen n))" using b(2) by (simp only: of_int_less_iff)
  then show "(of_int n :: rat) < 2 powi (bitlen n)" using pos by (simp add: power_int_def)
qed

lemma exponent_of_bounds:
  assumes "x \<noteq> 0"
  shows "2 powi exponent_of x \<le> \<bar>x\<bar>" and "\<bar>x\<bar> < 2 powi (exponent_of x + 1)"
proof -
  obtain n d where q: "quotient_of x = (n, d)" by (cases "quotient_of x")
  have d: "0 < d" using q by (rule quotient_of_denom_pos)
  have x: "x = of_int n / of_int d" using q by (rule quotient_of_div)
  have n: "0 < \<bar>n\<bar>" using assms x by auto
  have ax: "\<bar>x\<bar> = of_int \<bar>n\<bar> / of_int d" using d by (simp add: x)
  let ?a = "bitlen \<bar>n\<bar>" and ?b = "bitlen d"
  note bn = bitlen_powi_bounds [OF n] and bd = bitlen_powi_bounds [OF d]
  have dpos: "(0 :: rat) < of_int d" using d by simp
  have "2 powi (?a - ?b - 1) * of_int d \<le> 2 powi (?a - ?b - 1) * (2 powi ?b :: rat)"
    by (rule mult_left_mono) (use bd(2) in simp_all)
  also have "\<dots> = 2 powi (?a - 1)" by (simp flip: power_int_add)
  also have "\<dots> \<le> of_int \<bar>n\<bar>" by (rule bn(1))
  finally have low: "2 powi (?a - ?b - 1) \<le> \<bar>x\<bar>" unfolding ax using dpos by (simp add: pos_le_divide_eq)
  have "of_int \<bar>n\<bar> < (2 powi ?a :: rat)" by (rule bn(2))
  also have "\<dots> = 2 powi (?a - ?b + 1) * 2 powi (?b - 1)" by (simp flip: power_int_add)
  also have "\<dots> \<le> 2 powi (?a - ?b + 1) * of_int d"
    by (rule mult_left_mono) (use bd(1) in simp_all)
  finally have high: "\<bar>x\<bar> < 2 powi (?a - ?b + 1)" unfolding ax using dpos by (simp add: pos_divide_less_eq)
  show "2 powi exponent_of x \<le> \<bar>x\<bar>" "\<bar>x\<bar> < 2 powi (exponent_of x + 1)"
    using low high by (auto simp: exponent_of_def q Let_def)
qed

lemma double_zero [simp]: "double 0 = 0"
  by (simp add: double_def)

lemma double_error: "\<bar>double x - x\<bar> \<le> \<bar>x\<bar> / 2 ^ 53"
proof (cases "x = 0")
  case False
  let ?u = "2 powi (exponent_of x - 52) :: rat"
  have "2 powi exponent_of x \<le> \<bar>x\<bar>" using False by (rule exponent_of_bounds)
  then have u: "0 < ?u" "?u / 2 \<le> \<bar>x\<bar> / 2 ^ 53" by (simp_all add: power_int_diff)
  have "\<bar>double x - x\<bar> = \<bar>(of_int (py_round (x / ?u)) - x / ?u) * ?u\<bar>"
    using False u(1) by (simp add: double_def Let_def left_diff_distrib)
  also have "\<dots> = \<bar>of_int (py_round (x / ?u)) - x / ?u\<bar> * ?u" using u(1) by (simp add: abs_mult)
  also have "\<dots> \<le> 1 / 2 * ?u" by (rule mult_right_mono [OF py_round_near]) (use u(1) in simp)
  finally show ?thesis using u(2) by simp
qed simp

text \<open>A whole number below \<open>2\<^sup>5\<^sup>3\<close> is a float itself.\<close>

lemma double_of_int:
  assumes "\<bar>i\<bar> < 2 ^ 53"
  shows "double (of_int i) = of_int i"
proof (cases "i = 0")
  case False
  let ?x = "of_int i :: rat"
  have "(2 :: rat) powi exponent_of ?x \<le> \<bar>?x\<bar>" by (rule exponent_of_bounds) (use False in simp)
  also have "\<dots> < 2 powi 53"
  proof -
    have "(of_int \<bar>i\<bar> :: rat) < of_int (2 ^ 53)" using assms by (simp only: of_int_less_iff)
    then show ?thesis by (simp add: power_int_def)
  qed
  finally have "exponent_of ?x < 53" by (metis linorder_not_less power_int_increasing one_le_numeral)
  then have u: "(2 :: rat) powi (exponent_of ?x - 52) = 1 / 2 ^ nat (52 - exponent_of ?x)"
    by (auto simp: power_int_def power_one_over)
  have "?x / (1 / 2 ^ nat (52 - exponent_of ?x)) = of_int (i * 2 ^ nat (52 - exponent_of ?x))" by simp
  then have "py_round (?x / (1 / 2 ^ nat (52 - exponent_of ?x))) = i * 2 ^ nat (52 - exponent_of ?x)"
    by (simp only: py_round_of_int)
  then show ?thesis using False by (simp add: double_def Let_def u)
qed simp

end
