(* ===== verification/Pressure.thy ===== *)
theory Pressure
  imports Doubles
begin

text \<open>
  Memory pressure and the ramp that measures where it starts: \<open>harness/pressure.py\<close>, \<open>harness/ramp.py\<close>.
  The readers (\<open>sysctl\<close>, \<open>vm_stat\<close>, \<open>/proc\<close>) and the allocator are parameters, as the code injects them; a
  file that cannot be read is \<^term>\<open>None\<close>. The ramp's rows in the store are a table of the model.
  The sizes of the ramp are Python's floats: every sum, difference and rounding of them is rounded by \<^const>\<open>double\<close>.
\<close>

section \<open>A sample\<close>

definition NORMAL :: int where "NORMAL = 1"

definition WARN :: int where "WARN = 2"

record pressure =
  free_pct :: "int option"
  level :: "int option"
  swapouts :: "int option"
  wired :: "rat option"

definition pressure_known :: "pressure \<Rightarrow> bool" where
  "pressure_known p \<longleftrightarrow> free_pct p \<noteq> None \<or> level p \<noteq> None \<or> swapouts p \<noteq> None \<or> wired p \<noteq> None"

definition alarming :: "pressure \<Rightarrow> bool" where
  "alarming p \<longleftrightarrow> (case level p of None \<Rightarrow> False | Some l \<Rightarrow> l > NORMAL)"

text \<open>\<open>wired_gb\<close>, over the lines of the output: the page size and the count last seen.\<close>

definition rstrip_dot :: "string \<Rightarrow> string" where
  "rstrip_dot s = rev (dropWhile (\<lambda>c. c = CHR ''.'') (rev s))"

definition wired_line :: "string \<Rightarrow> nat \<times> nat option \<Rightarrow> nat \<times> nat option" where
  "wired_line line acc =
     (let (page, pages) = acc;
          digits = filter isdigit (split_words line);
          page' = (if sublist ''page size of'' line \<and> digits \<noteq> [] then nat_of_digits (hd digits) else page);
          value = rstrip_dot (strip (snd (partition_at (CHR '':'') line)));
          pages' = (if prefix ''Pages wired down'' line \<and> isdigit value then Some (nat_of_digits value) else pages)
      in (page', pages'))"

definition wired_gb :: "string list \<Rightarrow> rat option" where
  "wired_gb lines =
     (case fold wired_line lines (16384, None) of
        (page, None) \<Rightarrow> None
      | (page, Some pages) \<Rightarrow> Some (round_to 2 (of_nat (pages * page) / 1024 ^ 3)))"

text \<open>\<open>_linux_signals\<close>: the fs of \<open>meminfo\<close> (a later line wins) and the first \<open>pswpout\<close> of \<open>vmstat\<close>.\<close>

definition meminfo_field :: "string \<Rightarrow> (string \<times> nat) list \<Rightarrow> (string \<times> nat) list" where
  "meminfo_field line fs =
     (let (key, value) = partition_at (CHR '':'') line
      in case split_words value of
           [] \<Rightarrow> fs
         | d # _ \<Rightarrow> if isdigit d then (strip key, nat_of_digits d) # fs else fs)"

definition linux_free :: "string list option \<Rightarrow> int option" where
  "linux_free meminfo =
     (case meminfo of
        None \<Rightarrow> None
      | Some lines \<Rightarrow>
          (let fs = fold meminfo_field lines []
           in case (map_of fs ''MemTotal'', map_of fs ''MemAvailable'') of
                (Some whole, Some avail) \<Rightarrow>
                  if whole \<noteq> 0 then Some (py_round (of_nat avail * 100 / of_nat whole)) else None
              | _ \<Rightarrow> None))"

definition linux_swapouts :: "string list option \<Rightarrow> int option" where
  "linux_swapouts vmstat =
     (case vmstat of
        None \<Rightarrow> None
      | Some lines \<Rightarrow>
          (case find (\<lambda>l. prefix ''pswpout '' l) lines of
             None \<Rightarrow> None
           | Some l \<Rightarrow> (case split_words l of _ # w # _ \<Rightarrow> py_int w | _ \<Rightarrow> None)))"

text \<open>
  \<open>sample\<close>: each \<open>sysctl\<close> that is a number; on Linux, where none of them is, what \<open>/proc\<close> says. The result is
  \<^term>\<open>None\<close> where \<open>int\<close> raises (a reading with several minus signs).
\<close>

definition sysctl_field :: "string \<Rightarrow> int option option" where
  "sysctl_field raw =
     (if isdigit (dropWhile (\<lambda>c. c = CHR ''-'') raw) then map_option Some (py_int raw) else Some None)"

definition sample :: "(string \<Rightarrow> string) \<Rightarrow> string list \<Rightarrow> (int option \<times> int option) option \<Rightarrow> pressure option" where
  "sample sysctl vm_stat linux =
     (case (sysctl_field (sysctl ''kern.memorystatus_level''),
            sysctl_field (sysctl ''kern.memorystatus_vm_pressure_level''),
            sysctl_field (sysctl ''vm.compressor.segment.swapout_regular'')) of
        (Some free, Some lev, Some swaps) \<Rightarrow>
          (let none = (free = None \<and> lev = None \<and> swaps = None)
           in case linux of
                Some (lfree, lswaps) \<Rightarrow>
                  if none then Some \<lparr>free_pct = lfree, level = None, swapouts = lswaps, wired = wired_gb vm_stat\<rparr>
                  else Some \<lparr>free_pct = free, level = lev, swapouts = swaps, wired = wired_gb vm_stat\<rparr>
              | None \<Rightarrow> Some \<lparr>free_pct = free, level = lev, swapouts = swaps, wired = wired_gb vm_stat\<rparr>)
      | _ \<Rightarrow> None)"

section \<open>The ramp\<close>

record ramp_row =
  r_gb :: rat
  r_pressure :: pressure
  r_available :: rat

definition stop_reason :: "pressure \<Rightarrow> pressure \<Rightarrow> int \<Rightarrow> string" where
  "stop_reason now base floor_pct =
     (if (case level now of None \<Rightarrow> 0 | Some l \<Rightarrow> l) \<ge> WARN then ''pressure warn''
      else if (case (swapouts now, swapouts base) of (Some n, Some b) \<Rightarrow> n > b | _ \<Rightarrow> False) then ''compressor swapping''
      else if (case free_pct now of None \<Rightarrow> False | Some f \<Rightarrow> f \<le> floor_pct) then ''free below floor''
      else [])"

record ramp_report =
  rp_margin :: "rat option"
  rp_base :: ramp_row
  rp_steps :: "ramp_row list"
  rp_stopped :: string
  rp_warn_at :: "rat option"
  rp_last_normal :: rat

text \<open>
  The loop: \<open>alloc i\<close> is what the \<open>i\<close>th allocation raises, \<open>sense i\<close> the \<open>i\<close>th row's pressure and available
  memory. It runs while the next step fits under the cap; \<^term>\<open>None\<close> is the fuel running out: a step that is not
  positive, or one so small against the cap that adding it is lost in the rounding.
\<close>

fun ramp_loop :: "nat \<Rightarrow> rat \<Rightarrow> int \<Rightarrow> rat \<Rightarrow> (nat \<Rightarrow> string option) \<Rightarrow> (nat \<Rightarrow> pressure \<times> rat) \<Rightarrow> pressure \<Rightarrow> nat \<Rightarrow> rat
    \<Rightarrow> (ramp_row list \<times> rat \<times> string \<times> rat option) option" where
  "ramp_loop 0 step floor_pct cap alloc sense base i held = None"
| "ramp_loop (Suc n) step floor_pct cap alloc sense base i held =
     (if double (held + step) \<le> cap then
        (case alloc i of
           Some why \<Rightarrow> Some ([], held, ''allocation failed: '' @ take 160 why, None)
         | None \<Rightarrow>
             (let held' = double (held + step); (p, avail) = sense (Suc i);
                  now = \<lparr>r_gb = held', r_pressure = p, r_available = float_round 2 avail\<rparr>;
                  why = stop_reason p base floor_pct
              in if why \<noteq> [] then Some ([now], held', why, Some held')
                 else map_option (\<lambda>(rows, h, stopped, warn). (now # rows, h, stopped, warn))
                        (ramp_loop n step floor_pct cap alloc sense base (Suc i) held')))
      else Some ([], held, ''cap'', None))"

datatype ramp_error = UnknownMemory | OutOfFuel

definition ramp_cap :: "rat option \<Rightarrow> rat \<Rightarrow> rat" where
  "ramp_cap cap_gb whole = (case cap_gb of None \<Rightarrow> double (whole - 4) | Some c \<Rightarrow> c)"

definition ramp_run :: "nat \<Rightarrow> rat \<Rightarrow> int \<Rightarrow> rat option \<Rightarrow> rat \<Rightarrow> (nat \<Rightarrow> string option) \<Rightarrow> (nat \<Rightarrow> pressure \<times> rat)
    \<Rightarrow> ramp_error + ramp_report" where
  "ramp_run fuel step floor_pct cap_gb whole alloc sense =
     (if cap_gb = None \<and> whole \<le> 0 then Inl UnknownMemory
      else
        (let cap = ramp_cap cap_gb whole;
             (p0, a0) = sense 0;
             base = \<lparr>r_gb = 0, r_pressure = p0, r_available = float_round 2 a0\<rparr>
         in case ramp_loop fuel step floor_pct cap alloc sense p0 0 0 of
              None \<Rightarrow> Inl OutOfFuel
            | Some (rows, held, stopped, warn) \<Rightarrow>
                (let last_normal = (case warn of None \<Rightarrow> held | Some w \<Rightarrow> double (w - step))
                 in Inr \<lparr>rp_margin = (case warn of None \<Rightarrow> None
                           | Some w \<Rightarrow> Some (float_round 2 (double (r_available base - last_normal)))),
                         rp_base = base, rp_steps = rows, rp_stopped = stopped, rp_warn_at = warn,
                         rp_last_normal = last_normal\<rparr>)))"

section \<open>The stored results\<close>

definition KEEP :: nat where "KEEP = 10"

record memory_limit =
  ml_id :: nat
  ml_machine :: nat
  ml_measured_at :: rat
  ml_report :: ramp_report

definition save_ramp :: "ramp_report \<Rightarrow> rat \<Rightarrow> nat \<Rightarrow> memory_limit list \<Rightarrow> nat \<times> memory_limit list" where
  "save_ramp report when machine rows =
     (let i = next_id ml_id rows
      in (i, rows @ [\<lparr>ml_id = i, ml_machine = machine, ml_measured_at = when, ml_report = report\<rparr>]))"

definition ramp_runs :: "memory_limit list \<Rightarrow> nat option \<Rightarrow> ramp_report list" where
  "ramp_runs rows machine =
     (case machine of
        None \<Rightarrow> []
      | Some m \<Rightarrow> map ml_report (rev (take KEEP
          (sort_key (\<lambda>r. (- ml_measured_at r, - int (ml_id r))) (filter (\<lambda>r. ml_machine r = m) rows)))))"

section \<open>Facts\<close>

interpretation limit_table: table ml_id "\<lambda>i r. r\<lparr>ml_id := i\<rparr>"
  by unfold_locales simp

text \<open>
  A step that is not lost: while the sizes stay below \<open>2\<^sup>5\<^sup>2\<close> steps, a sum is larger than what was held by half a
  step at least.
\<close>

lemma double_bounds: "0 \<le> x \<Longrightarrow> x - x / 2 ^ 53 \<le> double x \<and> double x \<le> x + x / 2 ^ 53"
proof -
  assume "0 \<le> x"
  then have "\<bar>double x - x\<bar> \<le> x / 2 ^ 53" using double_error [of x] by (simp only: abs_of_nonneg)
  then show ?thesis by linarith
qed

lemma sum_below_cap:
  assumes "double x \<le> cap" and "0 \<le> x" and "cap \<le> 2 ^ 51 * step"
  shows "x \<le> 2 * cap" and "x / 2 ^ 53 \<le> step / 2"
  using double_bounds [OF assms(2)] assms by simp_all

lemma step_gains:
  assumes "0 < step" and "0 \<le> held" and "double (held + step) \<le> cap" and "cap \<le> 2 ^ 51 * step"
  shows "held + step / 2 \<le> double (held + step)"
proof -
  have "(held + step) / 2 ^ 53 \<le> step / 2" by (rule sum_below_cap [OF assms(3) _ assms(4)]) (use assms(1,2) in simp)
  moreover have "held + step - (held + step) / 2 ^ 53 \<le> double (held + step)"
    using double_bounds [of "held + step"] assms(1,2) by simp
  ultimately show ?thesis by linarith
qed

lemma ramp_loop_returns:
  assumes "0 < step" and "cap \<le> 2 ^ 51 * step" and "0 \<le> held" and "cap - held < of_nat n * (step / 2)"
  shows "\<exists>r. ramp_loop (Suc n) step floor_pct cap alloc sense base i held = Some r"
  using assms(3,4)
proof (induction n arbitrary: i held)
  case 0
  have "held < double (held + step)" if "double (held + step) \<le> cap"
    using step_gains [OF assms(1) 0(1) that assms(2)] assms(1) by simp
  then show ?case using 0 by auto
next
  case (Suc n)
  show ?case
  proof (cases "double (held + step) \<le> cap")
    case True
    have gain: "held + step / 2 \<le> double (held + step)" by (rule step_gains [OF assms(1) Suc.prems(1) True assms(2)])
    have "0 \<le> double (held + step)" using gain Suc.prems(1) assms(1) by simp
    moreover have "cap - double (held + step) < of_nat n * (step / 2)"
      using Suc.prems(2) gain by (simp add: algebra_simps)
    ultimately obtain r
      where r: "ramp_loop (Suc n) step floor_pct cap alloc sense base (Suc i) (double (held + step)) = Some r"
      using Suc.IH [of "double (held + step)" "Suc i"] by blast
    show ?thesis
      by (subst ramp_loop.simps(2)) (auto simp: Let_def r simp del: ramp_loop.simps split: option.split prod.split)
  qed simp
qed

text \<open>The size held after some rows; and how a loop that returned went, from what was held when it started.\<close>

definition held_after :: "rat \<Rightarrow> ramp_row list \<Rightarrow> rat" where
  "held_after held rows = (if rows = [] then held else r_gb (last rows))"

definition ramp_went :: "rat \<Rightarrow> int \<Rightarrow> rat \<Rightarrow> (nat \<Rightarrow> string option) \<Rightarrow> pressure \<Rightarrow> nat \<Rightarrow> rat
    \<Rightarrow> ramp_row list \<times> rat \<times> string \<times> rat option \<Rightarrow> bool" where
  "ramp_went step floor_pct cap alloc base i held got \<longleftrightarrow>
     (case got of (rows, h, stopped, warn) \<Rightarrow>
        h = held_after held rows \<and> (\<forall>r \<in> set rows. r_gb r \<le> cap)
      \<and> sorted_wrt (\<lambda>x y. x + step / 2 \<le> y) (held # map r_gb rows)
      \<and> (\<forall>r \<in> set (butlast rows). stop_reason (r_pressure r) base floor_pct = [])
      \<and> (case warn of
           None \<Rightarrow> (\<forall>r \<in> set rows. stop_reason (r_pressure r) base floor_pct = [])
             \<and> (stopped = ''cap'' \<and> cap < double (h + step)
                \<or> (\<exists>why. alloc (i + length rows) = Some why \<and> stopped = ''allocation failed: '' @ take 160 why))
         | Some w \<Rightarrow> rows \<noteq> [] \<and> w = h \<and> h = double (held_after held (butlast rows) + step)
             \<and> stop_reason (r_pressure (last rows)) base floor_pct = stopped \<and> stopped \<noteq> []))"

lemma ramp_went_cons:
  assumes "ramp_went step floor_pct cap alloc base (Suc i) (r_gb now) (rows, h, stopped, warn)"
    and "0 \<le> step" and "r_gb now \<le> cap" and "held + step / 2 \<le> r_gb now"
    and "stop_reason (r_pressure now) base floor_pct = []"
  shows "ramp_went step floor_pct cap alloc base i held (now # rows, h, stopped, warn)"
proof -
  have "held + step / 2 \<le> r_gb r" if "r \<in> set rows" for r
  proof -
    have "r_gb now + step / 2 \<le> r_gb r" using that assms(1) by (simp add: ramp_went_def)
    then show ?thesis using assms(2,4) by linarith
  qed
  then show ?thesis using assms by (cases rows; cases warn) (auto simp: ramp_went_def held_after_def)
qed

lemma ramp_loop_went:
  assumes "0 < step" and "cap \<le> 2 ^ 51 * step" and "0 \<le> held"
    and "ramp_loop n step floor_pct cap alloc sense base i held = Some got"
  shows "ramp_went step floor_pct cap alloc base i held got"
  using assms(3,4)
proof (induction n arbitrary: i held got)
  case (Suc n)
  obtain p avail where pa: "sense (Suc i) = (p, avail)" by (cases "sense (Suc i)")
  let ?held' = "double (held + step)"
  let ?now = "\<lparr>r_gb = ?held', r_pressure = p, r_available = float_round 2 avail\<rparr>"
  let ?why = "stop_reason p base floor_pct"
  show ?case
  proof (cases "?held' \<le> cap \<and> alloc i = None")
    case False
    then show ?thesis using Suc.prems by (cases "alloc i") (auto simp: ramp_went_def held_after_def split: if_splits)
  next
    case True
    then have fits: "?held' \<le> cap" by simp
    have gain: "held + step / 2 \<le> ?held'" by (rule step_gains [OF assms(1) Suc.prems(1) fits assms(2)])
    show ?thesis
    proof (cases "?why = []")
      case False
      then have "got = ([?now], ?held', ?why, Some ?held')" using Suc.prems(2) True by (simp add: pa Let_def)
      then show ?thesis using False fits gain by (simp add: ramp_went_def held_after_def)
    next
      case no_reason: True
      then obtain rest where rest: "ramp_loop n step floor_pct cap alloc sense base (Suc i) ?held' = Some rest"
          and got: "got = (case rest of (rows, h, stopped, warn) \<Rightarrow> (?now # rows, h, stopped, warn))"
        using Suc.prems(2) True by (auto simp: pa Let_def)
      have "0 \<le> ?held'" using gain Suc.prems(1) assms(1) by simp
      from Suc.IH [OF this rest] obtain rows h stopped warn where "rest = (rows, h, stopped, warn)"
        and "ramp_went step floor_pct cap alloc base (Suc i) (r_gb ?now) (rows, h, stopped, warn)"
        by (cases rest) auto
      with ramp_went_cons [of step floor_pct cap alloc base i ?now rows h stopped warn held] show ?thesis
        using got assms(1) fits gain no_reason by simp
    qed
  qed
qed simp

text \<open>Going up by a step and back is off by the two roundings at most.\<close>

lemma step_back_error:
  assumes "0 < step" and "0 \<le> held" and "double (held + step) \<le> cap"
  shows "\<bar>double (double (held + step) - step) - held\<bar> \<le> cap / 2 ^ 51"
proof -
  let ?w = "double (held + step)"
  have pos: "0 \<le> held + step" using assms(1,2) by simp
  have x: "held + step - (held + step) / 2 ^ 53 \<le> ?w" "?w \<le> held + step + (held + step) / 2 ^ 53"
    using double_bounds [OF pos] by simp_all
  define e where "e = (held + step) / 2 ^ 53"
  have small: "2 * e \<le> held + step" "0 \<le> e" using pos by (simp_all add: e_def)
  have x': "held + step - e \<le> ?w" "?w \<le> held + step + e" using x by (simp_all only: e_def)
  have twice: "held + step \<le> 2 * cap" using x' small assms(3) by linarith
  then have "e \<le> 2 * cap / 2 ^ 53" unfolding e_def by (rule divide_right_mono) simp
  then have up: "e \<le> cap / 2 ^ 52" by simp
  have "\<bar>?w - step\<bar> \<le> 2 * cap" using x' small twice assms by linarith
  then have "\<bar>?w - step\<bar> / 2 ^ 53 \<le> 2 * cap / 2 ^ 53" by (rule divide_right_mono) simp
  then have "\<bar>?w - step\<bar> / 2 ^ 53 \<le> cap / 2 ^ 52" by simp
  then have "\<bar>double (?w - step) - (?w - step)\<bar> \<le> cap / 2 ^ 52" using double_error [of "?w - step"] by (rule order_trans [rotated])
  moreover have "\<bar>?w - (held + step)\<bar> \<le> cap / 2 ^ 52" using x' up by linarith
  moreover have "cap / 2 ^ 52 + cap / 2 ^ 52 = cap / 2 ^ 51" by simp
  ultimately show ?thesis by linarith
qed

text \<open>
  C9. The ramp always returns for a positive step that is no smaller than \<open>2\<^sup>-\<^sup>5\<^sup>1\<close> of its cap, the default cap of all
  but four gigabytes included. It never holds more than the cap, its sizes grow with every row, and no row but the
  last shows a reason to stop. Where none does, the cap or a failing allocation ended it, its last normal size is the
  size it held, and there is no margin; where the last row does, that row is where it warned, and the last normal size
  is the size of the row before it up to the rounding of one sum and one difference, \<open>2\<^sup>-\<^sup>5\<^sup>1\<close> of the cap.
\<close>

theorem ramp_finds_the_boundary:
  assumes "cap = ramp_cap cap_gb whole" and "cap_gb \<noteq> None \<or> 0 < whole"
    and "0 < step" and "cap \<le> 2 ^ 51 * step" and "cap < of_nat n * (step / 2)"
  shows "\<exists>rep. ramp_run (Suc n) step floor_pct cap_gb whole alloc sense = Inr rep
    \<and> (\<forall>r \<in> set (rp_steps rep). r_gb r \<le> cap)
    \<and> sorted_wrt (<) (0 # map r_gb (rp_steps rep))
    \<and> (\<forall>r \<in> set (butlast (rp_steps rep)). stop_reason (r_pressure r) (r_pressure (rp_base rep)) floor_pct = [])
    \<and> (case rp_warn_at rep of
         None \<Rightarrow> (\<forall>r \<in> set (rp_steps rep). stop_reason (r_pressure r) (r_pressure (rp_base rep)) floor_pct = [])
           \<and> rp_last_normal rep = held_after 0 (rp_steps rep) \<and> rp_margin rep = None
           \<and> (rp_stopped rep = ''cap'' \<and> cap < double (rp_last_normal rep + step)
              \<or> (\<exists>why. alloc (length (rp_steps rep)) = Some why \<and> rp_stopped rep = ''allocation failed: '' @ take 160 why))
       | Some w \<Rightarrow> rp_steps rep \<noteq> [] \<and> w = r_gb (last (rp_steps rep))
           \<and> stop_reason (r_pressure (last (rp_steps rep))) (r_pressure (rp_base rep)) floor_pct = rp_stopped rep
           \<and> rp_stopped rep \<noteq> []
           \<and> \<bar>rp_last_normal rep - held_after 0 (butlast (rp_steps rep))\<bar> \<le> cap / 2 ^ 51
           \<and> rp_margin rep \<noteq> None)"
proof -
  obtain p0 a0 where s0: "sense 0 = (p0, a0)" by (cases "sense 0")
  obtain rows h stopped warn where loop: "ramp_loop (Suc n) step floor_pct cap alloc sense p0 0 0 = Some (rows, h, stopped, warn)"
    using ramp_loop_returns [OF assms(3,4), of 0 n floor_pct alloc sense p0 0] assms(5) by auto
  have went: "ramp_went step floor_pct cap alloc p0 0 0 (rows, h, stopped, warn)"
    by (rule ramp_loop_went [OF assms(3,4) order_refl loop])
  have "ramp_cap cap_gb whole = cap" "\<not> (cap_gb = None \<and> whole \<le> 0)" using assms(1,2) by auto
  then obtain rep where run: "ramp_run (Suc n) step floor_pct cap_gb whole alloc sense = Inr rep"
    and rep: "rp_steps rep = rows" "rp_warn_at rep = warn" "rp_stopped rep = stopped" "r_pressure (rp_base rep) = p0"
      "rp_last_normal rep = (case warn of None \<Rightarrow> h | Some w \<Rightarrow> double (w - step))"
      "rp_margin rep = None \<longleftrightarrow> warn = None"
    using that by (simp add: ramp_run_def s0 loop Let_def del: ramp_loop.simps split: option.splits)
  have sorted: "sorted_wrt (<) (0 # map r_gb rows)"
    by (rule sorted_wrt_mono_rel [of _ "\<lambda>x y. x + step / 2 \<le> y"]) (use went assms(3) in \<open>auto simp: ramp_went_def\<close>)
  have near: "\<bar>double (w - step) - held_after 0 (butlast rows)\<bar> \<le> cap / 2 ^ 51" if "warn = Some w" for w
  proof -
    have w: "w = double (held_after 0 (butlast rows) + step)" "w \<le> cap"
      using went that by (auto simp: ramp_went_def held_after_def)
    have "0 \<le> held_after 0 (butlast rows)"
      using sorted by (auto simp: held_after_def dest!: in_set_butlastD [OF last_in_set] intro: less_imp_le)
    then show ?thesis using step_back_error [OF assms(3)] w by simp
  qed
  show ?thesis
    by (intro exI [of _ rep] conjI)
      (use run went sorted near in \<open>auto simp: rep ramp_went_def held_after_def split: option.splits\<close>)
qed

text \<open>With whole gigabytes below \<open>2\<^sup>5\<^sup>3\<close> no rounding happens and the boundary is exact, as with the default step of one.\<close>

lemma whole_steps_are_exact:
  assumes "0 \<le> s" and "0 \<le> k" and "k + s < 2 ^ 53"
  shows "double (double (of_int k + of_int s) - of_int s) = of_int k"
  using double_of_int [of "k + s"] double_of_int [of k] assms by simp

text \<open>A machine that warns at the third gigabyte.\<close>

definition sample_sense :: "nat \<Rightarrow> pressure \<times> rat" where
  "sample_sense i = (\<lparr>free_pct = Some 60, level = Some (if i < 3 then 1 else 2), swapouts = None, wired = None\<rparr>, 12)"

theorem ramp_witness:
  "\<exists>rep. ramp_run 100 1 10 None 32 (\<lambda>_. None) sample_sense = Inr rep \<and> sorted_wrt (<) (0 # map r_gb (rp_steps rep))"
proof -
  have "ramp_cap None 32 = 28" by code_simp
  then show ?thesis using ramp_finds_the_boundary [of 28 None 32 1 99 10 "\<lambda>_. None" sample_sense] by auto
qed

text \<open>
  With a step of three tenths, as the float it is, the boundary is not exact: the ramp warns at the third row, and the
  last normal size lies below the size of the second, which was normal.
\<close>

definition tenths3 :: rat where "tenths3 = 5404319552844595 / 18014398509481984"

lemma tenths3_sums:
  "double (3 / 10) = tenths3" "double tenths3 = tenths3"
  "tenths3 \<le> 4" "double (2 * tenths3) = 5404319552844595 / 9007199254740992"
  "double (5404319552844595 / 9007199254740992 + tenths3) = 2026619832316723 / 2251799813685248"
  "double (2026619832316723 / 2251799813685248 - tenths3) = 2702159776422297 / 4503599627370496"
  by code_simp+

lemma tenths_round:
  "\<exists>rep. ramp_run 9 (double (3 / 10)) 10 (Some 4) 32 (\<lambda>_. None) sample_sense = Inr rep
     \<and> map r_gb (rp_steps rep) = [tenths3, 5404319552844595 / 9007199254740992, 2026619832316723 / 2251799813685248]
     \<and> rp_last_normal rep < r_gb (rp_steps rep ! 1)"
  by (simp add: ramp_run_def ramp_cap_def sample_sense_def eval_nat_numeral tenths3_sums stop_reason_def WARN_def Let_def)

end
