(* ===== verification/Queue.thy ===== *)
theory Queue
  imports Pressure
begin

text \<open>
  The job queue, \<open>harness/workqueue.py\<close>: rows of the \<open>jobs\<close> table worked by one runner at a time, in order,
  while memory pressure is normal.

  The state is the table with its \<open>AUTOINCREMENT\<close> high-water mark, the \<open>paused\<close> flag, whether another
  process holds the runner lock, the pid files and the cancel flags. A job's text id (\<open>"0007"\<close>) is
  \<open>job_label\<close> of its number. Parameters: the clock \<open>now\<close> (whole seconds, as the stamps keep it), \<open>stamp\<close> which
  renders it, \<open>mid\<close> (the row of this machine, \<^term>\<open>None\<close> when the store has none), and the subprocess: a job's
  process is a function from the queue it starts in to its exit code (\<^term>\<open>None\<close> when it cannot be started)
  and the queue it leaves, so that what other callers do while it runs is part of it. The Windows branches,
  the job files of older versions (\<open>import_json\<close>) and the printed lines are not modelled.
\<close>

section \<open>The table\<close>

record job =
  j_id :: nat
  j_title :: string
  j_kind :: string
  j_output :: string
  j_priority :: int
  j_argv :: "string list"
  j_cwd :: string
  j_state :: string
  j_created :: rat
  j_started :: "rat option"
  j_finished :: "rat option"
  j_rc :: "int option"
  j_log :: string
  j_note :: string
  j_by :: string
  j_machine :: "nat option"

record queue =
  q_jobs :: "job list"
  q_last :: nat
  q_paused :: bool
  q_locked :: bool
  q_pids :: "(nat \<times> nat) list"
  q_flags :: "nat list"

datatype queue_error =
    NoCommand
  | OptionAsCommand string
  | WholeCommandLine string
  | NoJob string
  | NotPendingJob string string string
  | NotOnThisMachine string
  | OtherCommit string string

definition PENDING :: string where "PENDING = ''pending''"
definition RUNNING :: string where "RUNNING = ''running''"
definition DONE :: string where "DONE = ''done''"
definition FAILED :: string where "FAILED = ''failed''"
definition CANCELLED :: string where "CANCELLED = ''cancelled''"

lemmas job_states = PENDING_def RUNNING_def DONE_def FAILED_def CANCELLED_def

definition job_label :: "nat \<Rightarrow> string" where
  "job_label i = padded 4 i"

definition job_key :: "string \<Rightarrow> nat option" where
  "job_key s = (let t = strip s in if isdigit t then Some (nat_of_digits t) else None)"

section \<open>Adding\<close>

text \<open>Where a queued job runs. \<open>git_top\<close> and \<open>git_head\<close> are what \<open>git rev-parse\<close> prints, if it succeeds.\<close>

definition queue_cwd :: "(string \<Rightarrow> string) \<Rightarrow> (string \<Rightarrow> string option) \<Rightarrow> (string \<Rightarrow> string option) \<Rightarrow> string \<Rightarrow> string option
    \<Rightarrow> string \<Rightarrow> queue_error + string" where
  "queue_cwd resolve git_top git_head caller deploy explicit =
     (if explicit \<noteq> [] then Inr (resolve explicit)
      else
        (let caller' = resolve caller in
         case deploy of
           None \<Rightarrow> Inr caller'
         | Some d \<Rightarrow>
             (let deploy' = resolve d in
              case git_top caller' of
                None \<Rightarrow> Inr deploy'
              | Some repo \<Rightarrow>
                  if resolve repo = deploy' then Inr caller'
                  else (case git_head caller' of
                          None \<Rightarrow> Inl (OtherCommit repo deploy')
                        | Some mine \<Rightarrow>
                            if mine \<noteq> [] \<and> git_head deploy' = Some mine then Inr deploy'
                            else Inl (OtherCommit repo deploy')))))"

definition next_job_id :: "queue \<Rightarrow> nat" where
  "next_job_id q = max (Suc (q_last q)) (next_id j_id (q_jobs q))"

definition add_job :: "(string \<Rightarrow> bool) \<Rightarrow> string \<Rightarrow> rat \<Rightarrow> nat option \<Rightarrow> string list \<Rightarrow> string \<Rightarrow> string \<Rightarrow> string \<Rightarrow> string
    \<Rightarrow> int \<Rightarrow> string \<Rightarrow> queue \<Rightarrow> (queue_error + job) \<times> queue" where
  "add_job exists_path getcwd now machine argv title cwd kind output priority by q =
     (case argv of
        [] \<Rightarrow> (Inl NoCommand, q)
      | first # _ \<Rightarrow>
          if prefix ''-'' first then (Inl (OptionAsCommand first), q)
          else if list_ex is_space first \<and> \<not> exists_path first then (Inl (WholeCommandLine first), q)
          else
            (let i = next_job_id q;
                 j = \<lparr>j_id = i, j_title = (if title \<noteq> [] then title else join '' '' argv), j_kind = kind,
                      j_output = output, j_priority = priority, j_argv = argv,
                      j_cwd = (if cwd \<noteq> [] then cwd else getcwd), j_state = PENDING, j_created = now,
                      j_started = None, j_finished = None, j_rc = None, j_log = [], j_note = [], j_by = by,
                      j_machine = machine\<rparr>
             in (Inr j, q\<lparr>q_jobs := q_jobs q @ [j], q_last := i\<rparr>)))"

section \<open>Reading\<close>

definition order :: "job list \<Rightarrow> job list" where
  "order got = sort_key (\<lambda>j. (- j_priority j, j_id j)) got"

text \<open>\<open>_here\<close>: the jobs this machine's worker owns.\<close>

definition here :: "nat option \<Rightarrow> job \<Rightarrow> bool" where
  "here mid j \<longleftrightarrow> (case mid of None \<Rightarrow> j_machine j = None | Some m \<Rightarrow> j_machine j = Some m \<or> j_machine j = None)"

definition pending_jobs :: "nat option \<Rightarrow> queue \<Rightarrow> job list" where
  "pending_jobs mid q = order (filter (\<lambda>j. j_state j = PENDING \<and> here mid j) (q_jobs q))"

definition current :: "nat option \<Rightarrow> queue \<Rightarrow> job option" where
  "current mid q =
     (case filter (\<lambda>j. j_state j = RUNNING \<and> here mid j) (q_jobs q) of [] \<Rightarrow> None | js \<Rightarrow> Some (last js))"

definition durations :: "string \<Rightarrow> queue \<Rightarrow> rat list" where
  "durations title q =
     List.map_filter (\<lambda>j. case (j_started j, j_finished j) of
         (Some s, Some f) \<Rightarrow> if j_state j = DONE \<and> j_title j = title \<and> f \<ge> s then Some (f - s) else None
       | _ \<Rightarrow> None) (q_jobs q)"

definition get_job :: "string \<Rightarrow> queue \<Rightarrow> job option" where
  "get_job s q = (case job_key s of None \<Rightarrow> None | Some i \<Rightarrow> row j_id i (q_jobs q))"

section \<open>Changing a pending job\<close>

text \<open>\<open>_only_pending\<close>: the state test is in the same statement as the change \<open>f\<close> to the table.\<close>

definition only_pending :: "(nat \<Rightarrow> job list \<Rightarrow> job list) \<Rightarrow> string \<Rightarrow> string \<Rightarrow> queue \<Rightarrow> (queue_error + unit) \<times> queue" where
  "only_pending f s verb q =
     (case job_key s of
        Some i \<Rightarrow>
          (case row j_id i (q_jobs q) of
             Some j \<Rightarrow> if j_state j = PENDING then (Inr (), q\<lparr>q_jobs := f i (q_jobs q)\<rparr>)
                       else (Inl (NotPendingJob s (j_state j) verb), q)
           | None \<Rightarrow> (Inl (NoJob s), q))
      | None \<Rightarrow> (Inl (NoJob s), q))"

definition set_priority :: "string \<Rightarrow> int \<Rightarrow> queue \<Rightarrow> (queue_error + job option) \<times> queue" where
  "set_priority s priority q =
     (case only_pending (\<lambda>i. update_row j_id i (\<lambda>j. j\<lparr>j_priority := priority\<rparr>)) s ''reordered'' q of
        (Inl e, q') \<Rightarrow> (Inl e, q')
      | (Inr u, q') \<Rightarrow> (Inr (get_job s q'), q'))"

text \<open>\<open>_write\<close>: a job's mutable fields back to its row.\<close>

definition write_job :: "job \<Rightarrow> queue \<Rightarrow> queue" where
  "write_job job q =
     q\<lparr>q_jobs := update_row j_id (j_id job)
         (\<lambda>r. r\<lparr>j_state := j_state job, j_started := j_started job, j_finished := j_finished job,
               j_rc := j_rc job, j_log := j_log job, j_note := j_note job, j_priority := j_priority job\<rparr>) (q_jobs q)\<rparr>"

definition settle_cancelled :: "(rat \<Rightarrow> string) \<Rightarrow> rat \<Rightarrow> job \<Rightarrow> string \<Rightarrow> int option \<Rightarrow> queue \<Rightarrow> queue" where
  "settle_cancelled stamp now job how rc q =
     (let said = get_or ''stopped'' [(''term'', ''stopped on request''), (''kill'', ''killed after the grace period''),
                                     (''gone'', ''had already exited'')] how;
          fresh = ''cancelled by soh jobs cancel at '' @ stamp now @ ''; '' @ said;
          note = (case row j_id (j_id job) (q_jobs q) of
                    Some stored \<Rightarrow> if how = [] \<and> j_state stored = CANCELLED then j_note stored else fresh
                  | None \<Rightarrow> fresh)
      in write_job (job\<lparr>j_state := CANCELLED, j_note := note,
                       j_finished := (case j_finished job of None \<Rightarrow> Some now | Some t \<Rightarrow> Some t),
                       j_rc := (case rc of None \<Rightarrow> j_rc job | Some r \<Rightarrow> Some r)\<rparr>) q)"

text \<open>
  \<open>stop_group\<close> on POSIX: whether the group is there at first and when signalled, what each poll until the
  deadline sees, and whether it is still there to be killed.
\<close>

definition stop_group :: "bool \<Rightarrow> bool \<Rightarrow> bool list \<Rightarrow> bool \<Rightarrow> string" where
  "stop_group alive_first term_found polls kill_found =
     (if \<not> alive_first then ''gone''
      else if \<not> term_found then ''gone''
      else if list_ex (\<lambda>seen_alive. \<not> seen_alive) polls then ''term''
      else if kill_found then ''kill'' else ''term'')"

definition pid_of :: "(nat \<Rightarrow> bool) \<Rightarrow> nat \<Rightarrow> queue \<Rightarrow> nat option" where
  "pid_of alive_pid i q =
     (case map_of (q_pids q) i of None \<Rightarrow> None | Some pid \<Rightarrow> if alive_pid pid then Some pid else None)"

text \<open>
  \<open>cancel\<close>. \<open>stopping\<close> is what happens to the queue while the process group is being stopped, with how it
  went: the job's own runner may see the flag and settle the row meanwhile.
\<close>

definition cancel :: "(nat \<Rightarrow> bool) \<Rightarrow> (nat \<Rightarrow> queue \<Rightarrow> string \<times> queue) \<Rightarrow> (rat \<Rightarrow> string) \<Rightarrow> rat \<Rightarrow> string \<Rightarrow> queue
    \<Rightarrow> (queue_error + job option) \<times> queue" where
  "cancel alive_pid stopping stamp now s q =
     (case get_job s q of
        Some job \<Rightarrow>
          if j_state job = RUNNING then
            (case pid_of alive_pid (j_id job) q of
               None \<Rightarrow> (Inl (NotOnThisMachine (job_label (j_id job))), q)
             | Some pid \<Rightarrow>
                 (let (how, q1) = stopping pid (q\<lparr>q_flags := j_id job # q_flags q\<rparr>);
                      q2 = settle_cancelled stamp now job how None q1
                  in (Inr (case row j_id (j_id job) (q_jobs q2) of None \<Rightarrow> Some job | Some j \<Rightarrow> Some j), q2)))
          else (case only_pending (\<lambda>i. filter (\<lambda>j. j_id j \<noteq> i)) s ''cancelled'' q of
                  (Inl e, q') \<Rightarrow> (Inl e, q')
                | (Inr u, q') \<Rightarrow> (Inr (Some job), q'))
      | None \<Rightarrow>
          (case only_pending (\<lambda>i. filter (\<lambda>j. j_id j \<noteq> i)) s ''cancelled'' q of
             (Inl e, q') \<Rightarrow> (Inl e, q')
           | (Inr u, q') \<Rightarrow> (Inr None, q')))"

section \<open>Pausing\<close>

definition pause :: "queue \<Rightarrow> queue" where
  "pause q = q\<lparr>q_paused := True\<rparr>"

definition resume :: "queue \<Rightarrow> queue" where
  "resume q = q\<lparr>q_paused := False\<rparr>"

definition gate :: "pressure \<Rightarrow> queue \<Rightarrow> bool \<times> string" where
  "gate p q =
     (if q_paused q then (False, ''paused (soh jobs resume)'')
      else if alarming p then
        (False, ''memory pressure level '' @ (case level p of None \<Rightarrow> ''None'' | Some l \<Rightarrow> decimal (nat l)))
      else (True, if level p \<noteq> None then ''memory pressure normal'' else ''memory pressure unknown''))"

text \<open>\<open>quiesce\<close>: pause, then wait; \<open>busy i\<close> is what the \<open>i\<close>th look at the runner lock finds. \<^term>\<open>None\<close> is
  still waiting after \<open>n\<close> looks.\<close>

fun wait_idle :: "nat \<Rightarrow> (nat \<Rightarrow> bool) \<Rightarrow> nat \<Rightarrow> bool" where
  "wait_idle 0 busy i = False"
| "wait_idle (Suc n) busy i = (if busy i then wait_idle n busy (Suc i) else True)"

definition quiesce :: "nat \<Rightarrow> (nat \<Rightarrow> bool) \<Rightarrow> queue \<Rightarrow> bool option \<times> queue" where
  "quiesce n busy q = (if wait_idle n busy 0 then Some (q_paused q) else None, pause q)"

section \<open>Running\<close>

text \<open>\<open>_in_group\<close>: the child's pid is where \<open>cancel\<close> finds it while the child runs.\<close>

definition in_group :: "(job \<Rightarrow> nat option) \<Rightarrow> (queue \<Rightarrow> int \<times> queue) \<Rightarrow> job \<Rightarrow> queue \<Rightarrow> int option \<times> queue" where
  "in_group spawn wait_child job q =
     (case spawn job of
        None \<Rightarrow> (None, q)
      | Some pid \<Rightarrow>
          (let (rc, q') = wait_child (q\<lparr>q_pids := (j_id job, pid) # q_pids q\<rparr>)
           in (Some rc, q'\<lparr>q_pids := filter (\<lambda>(i, p). i \<noteq> j_id job) (q_pids q')\<rparr>)))"

definition run_one :: "(nat \<Rightarrow> string) \<Rightarrow> (rat \<Rightarrow> string) \<Rightarrow> rat \<Rightarrow> (job \<Rightarrow> queue \<Rightarrow> int option \<times> queue) \<Rightarrow> job \<Rightarrow> queue
    \<Rightarrow> job \<times> queue" where
  "run_one log_file stamp now popen job q =
     (let started = job\<lparr>j_state := RUNNING, j_started := Some now, j_log := log_file (j_id job)\<rparr>;
          q1 = write_job started q;
          q2 = q1\<lparr>q_flags := filter (\<lambda>i. i \<noteq> j_id job) (q_flags q1)\<rparr>;
          (got, q3) = popen started q2;
          rc = (case got of None \<Rightarrow> 127 | Some r \<Rightarrow> r);
          ended = started\<lparr>j_rc := Some rc, j_finished := Some now\<rparr>;
          q4 = (if j_id job \<in> set (q_flags q3)
                then settle_cancelled stamp now ended [] (Some rc)
                       (q3\<lparr>q_flags := filter (\<lambda>i. i \<noteq> j_id job) (q_flags q3)\<rparr>)
                else write_job (ended\<lparr>j_state := (if rc = 0 then DONE else FAILED)\<rparr>) q3)
      in (case row j_id (j_id job) (q_jobs q4) of None \<Rightarrow> ended | Some j \<Rightarrow> j, q4))"

definition INTERRUPTED :: string where
  "INTERRUPTED = ''interrupted; add it again to retry''"

definition recover :: "nat option \<Rightarrow> queue \<Rightarrow> queue" where
  "recover mid q =
     q\<lparr>q_jobs := map (\<lambda>j. if j_state j = RUNNING \<and> here mid j
                          then j\<lparr>j_state := FAILED, j_note := INTERRUPTED\<rparr> else j) (q_jobs q)\<rparr>"

text \<open>
  The runner's loop, with the gate asked before each job. The result is the jobs run; \<^term>\<open>None\<close> when the
  fuel runs out, which it cannot while there is more of it than pending jobs and no process adds any.
\<close>

fun run_loop :: "nat \<Rightarrow> nat option \<Rightarrow> (nat \<Rightarrow> string) \<Rightarrow> (rat \<Rightarrow> string) \<Rightarrow> rat \<Rightarrow> (job \<Rightarrow> queue \<Rightarrow> int option \<times> queue)
    \<Rightarrow> (queue \<Rightarrow> bool) \<Rightarrow> queue \<Rightarrow> (job list \<times> queue) option" where
  "run_loop 0 mid log_file stamp now popen open_gate q = None"
| "run_loop (Suc n) mid log_file stamp now popen open_gate q =
     (case pending_jobs mid q of
        [] \<Rightarrow> Some ([], q)
      | job # _ \<Rightarrow>
          if \<not> open_gate q then Some ([], q)
          else (let (went, q') = run_one log_file stamp now popen job q
                in map_option (\<lambda>(rest, q''). (went # rest, q''))
                     (run_loop n mid log_file stamp now popen open_gate q')))"

definition run_pending :: "nat \<Rightarrow> nat option \<Rightarrow> (nat \<Rightarrow> string) \<Rightarrow> (rat \<Rightarrow> string) \<Rightarrow> rat \<Rightarrow> (job \<Rightarrow> queue \<Rightarrow> int option \<times> queue)
    \<Rightarrow> (queue \<Rightarrow> bool) \<Rightarrow> queue \<Rightarrow> (job list \<times> queue) option" where
  "run_pending n mid log_file stamp now popen open_gate q =
     (if q_locked q then Some ([], q)
      else run_loop n mid log_file stamp now popen open_gate (recover mid q))"

text \<open>One pass of the worker service, \<open>serve(forever=False)\<close>: it goes round again while it went something.\<close>

fun serve :: "nat \<Rightarrow> nat \<Rightarrow> nat option \<Rightarrow> (nat \<Rightarrow> string) \<Rightarrow> (rat \<Rightarrow> string) \<Rightarrow> rat \<Rightarrow> (job \<Rightarrow> queue \<Rightarrow> int option \<times> queue)
    \<Rightarrow> (queue \<Rightarrow> bool) \<Rightarrow> queue \<Rightarrow> queue option" where
  "serve 0 n mid log_file stamp now popen open_gate q = None"
| "serve (Suc rounds) n mid log_file stamp now popen open_gate q =
     (if pending_jobs mid q = [] \<or> \<not> open_gate q then Some q
      else (case run_pending n mid log_file stamp now popen open_gate q of
              None \<Rightarrow> None
            | Some ([], q') \<Rightarrow> Some q'
            | Some (_ # _, q') \<Rightarrow> serve rounds n mid log_file stamp now popen open_gate q'))"

text \<open>\<open>link_run\<close>: a stored run is stamped with the job named in the environment, if there is one.\<close>

definition link_run :: "string \<Rightarrow> nat option \<Rightarrow> queue \<Rightarrow> (nat \<times> nat option) list \<Rightarrow> bool \<times> (nat \<times> nat option) list" where
  "link_run job_env run_id q runs =
     (case (job_key job_env, run_id) of
        (Some i, Some r) \<Rightarrow>
          if row j_id i (q_jobs q) = None then (False, runs)
          else (True, map (\<lambda>(k, j). if k = r then (k, Some i) else (k, j)) runs)
      | _ \<Rightarrow> (False, runs))"

end
