(* ===== verification/QueueFacts.thy ===== *)
theory QueueFacts
  imports Queue
begin

text \<open>
  What the queue promises: ids are never handed out twice whatever processes do to the table, jobs run in
  order and end as their exit code says, a cancelled job ends cancelled, another machine's jobs are left
  alone, and only a pending job can be changed from outside.
\<close>

interpretation run_order: ranking order "\<lambda>j. (- j_priority j, j_id j)"
  unfolding order_def [abs_def] by (rule sort_key_ranking)

interpretation job_table: table j_id "\<lambda>i j. j\<lparr>j_id := i\<rparr>"
  by unfold_locales simp

section \<open>Atomic steps\<close>

text \<open>
  What one statement of some process does to the queue. A worker's \<open>run_one\<close>, a \<open>cancel\<close> and anything that
  happens while a job runs are sequences of these.
\<close>

inductive queue_step :: "queue \<Rightarrow> queue \<Rightarrow> bool" where
  added: "add_job ex cwd0 now m argv title cwd kind out prio by q = (Inr j, q') \<Longrightarrow> queue_step q q'"
| dropped: "only_pending (\<lambda>i. filter (\<lambda>j. j_id j \<noteq> i)) s verb q = (Inr (), q') \<Longrightarrow> queue_step q q'"
| prioritised: "set_priority s p q = (Inr r, q') \<Longrightarrow> queue_step q q'"
| written: "queue_step q (write_job j q)"
| recovered: "queue_step q (recover mid q)"
| paused: "queue_step q (q\<lparr>q_paused := b\<rparr>)"
| locked: "queue_step q (q\<lparr>q_locked := b\<rparr>)"
| pids: "queue_step q (q\<lparr>q_pids := ps\<rparr>)"
| flags: "queue_step q (q\<lparr>q_flags := fs\<rparr>)"

inductive_cases queue_stepE: "queue_step q q'"

abbreviation queue_steps :: "queue \<Rightarrow> queue \<Rightarrow> bool" where
  "queue_steps \<equiv> queue_step\<^sup>*\<^sup>*"

definition queue_ok :: "queue \<Rightarrow> bool" where
  "queue_ok q \<longleftrightarrow> distinct (map j_id (q_jobs q)) \<and> (\<forall>j \<in> set (q_jobs q). j_id j \<le> q_last q)"

text \<open>What every step keeps: the mark never goes back, and an id at or below it is not born again.\<close>

definition queue_grows :: "queue \<Rightarrow> queue \<Rightarrow> bool" where
  "queue_grows q q' \<longleftrightarrow> queue_ok q' \<and> q_last q \<le> q_last q'
     \<and> (\<forall>i \<in> j_id ` set (q_jobs q'). i \<in> j_id ` set (q_jobs q) \<or> q_last q < i)"

lemma queue_grows_trans: "queue_grows a b \<Longrightarrow> queue_grows b c \<Longrightarrow> queue_grows a c"
  unfolding queue_grows_def by (meson le_less_trans order_trans)

lemma queue_grows_same_ids:
  "queue_ok q \<Longrightarrow> map j_id (q_jobs q') = map j_id (q_jobs q) \<Longrightarrow> q_last q' = q_last q \<Longrightarrow> queue_grows q q'"
proof -
  assume a: "queue_ok q" "map j_id (q_jobs q') = map j_id (q_jobs q)" "q_last q' = q_last q"
  from a(2) have "j_id ` set (q_jobs q') = j_id ` set (q_jobs q)" by (metis set_map)
  with a show ?thesis unfolding queue_grows_def queue_ok_def by (metis (no_types, lifting) imageE imageI order_refl)
qed

lemma write_job_ids [simp]: "map j_id (q_jobs (write_job j q)) = map j_id (q_jobs q)"
  by (simp add: write_job_def ids_update_row)

lemma recover_ids [simp]: "map j_id (q_jobs (recover mid q)) = map j_id (q_jobs q)"
  by (simp add: recover_def)

lemma write_job_last [simp]: "q_last (write_job j q) = q_last q"
  by (simp add: write_job_def)

lemma recover_last [simp]: "q_last (recover mid q) = q_last q"
  by (simp add: recover_def)

lemma next_job_id_new: "j \<in> set (q_jobs q) \<Longrightarrow> j_id j < next_job_id q"
  by (simp add: next_job_id_def next_id_gt less_max_iff_disj)

lemma add_job_grows:
  assumes "queue_ok q" and "add_job ex cwd0 now m argv title cwd kind out prio by q = (Inr j, q')"
  shows "queue_grows q q' \<and> j_id j = next_job_id q \<and> q_jobs q' = q_jobs q @ [j] \<and> q_last q < j_id j"
proof -
  have t: "q_jobs q' = q_jobs q @ [j]" "q_last q' = j_id j" "j_id j = next_job_id q" "j_state j = PENDING"
    using assms(2) by (auto simp: add_job_def Let_def split: list.splits if_splits)
  have up: "q_last q < j_id j" by (simp add: t(3) next_job_id_def less_max_iff_disj)
  have new: "\<forall>k \<in> set (q_jobs q). j_id k < j_id j" using next_job_id_new by (simp add: t(3))
  have "distinct (map j_id (q_jobs q'))" using assms(1) new by (fastforce simp: t(1) queue_ok_def)
  moreover have "\<forall>k \<in> set (q_jobs q'). j_id k \<le> q_last q'" unfolding t(1,2) using new by (auto intro: less_imp_le)
  ultimately have "queue_grows q q'" using up t(1,2) by (simp add: queue_grows_def queue_ok_def)
  with t up show ?thesis by blast
qed

lemma only_pending_Inr:
  "only_pending f s verb q = (Inr u, q') \<Longrightarrow>
   \<exists>i j. job_key s = Some i \<and> row j_id i (q_jobs q) = Some j \<and> j_state j = PENDING \<and> q' = q\<lparr>q_jobs := f i (q_jobs q)\<rparr>"
  by (auto simp: only_pending_def split: option.splits if_splits)

lemma queue_step_grows: "queue_step q q' \<Longrightarrow> queue_ok q \<Longrightarrow> queue_grows q q'"
proof (induction rule: queue_step.induct)
  case added
  then show ?case using add_job_grows by blast
next
  case (dropped s verb q q')
  from only_pending_Inr [OF dropped(1)] obtain i where "q' = q\<lparr>q_jobs := filter (\<lambda>j. j_id j \<noteq> i) (q_jobs q)\<rparr>" by blast
  then show ?case using dropped(2) by (auto simp: queue_grows_def queue_ok_def distinct_map_filter)
next
  case (prioritised s p q r q')
  from prioritised(1) obtain u where "only_pending (\<lambda>i. update_row j_id i (\<lambda>j. j\<lparr>j_priority := p\<rparr>)) s ''reordered'' q = (Inr u, q')"
    by (auto simp: set_priority_def split: prod.splits sum.splits)
  from only_pending_Inr [OF this] prioritised(2) show ?case
    by (auto intro!: queue_grows_same_ids simp: ids_update_row)
qed (auto intro!: queue_grows_same_ids)

lemma queue_steps_grow: "queue_steps q q' \<Longrightarrow> queue_ok q \<Longrightarrow> queue_grows q q'"
proof (induction rule: rtranclp_induct)
  case base
  then show ?case by (simp add: queue_grows_same_ids)
next
  case (step y z)
  then show ?case using queue_grows_trans queue_step_grows by (meson queue_grows_def)
qed

section \<open>Handlers as sequences of steps\<close>

lemma settle_steps: "queue_steps q (settle_cancelled stamp now j how rc q)"
  unfolding settle_cancelled_def Let_def by (rule r_into_rtranclp) (rule queue_step.written)

lemma settle_after_flags: "queue_steps q (settle_cancelled stamp now j how rc (q\<lparr>q_flags := fs\<rparr>))"
  by (rule converse_rtranclp_into_rtranclp [OF queue_step.flags settle_steps])

lemma write_steps: "queue_steps q (write_job j q)"
  by (rule r_into_rtranclp) (rule queue_step.written)

lemma run_one_steps:
  assumes "\<And>j q. queue_steps q (snd (popen j q))"
  shows "queue_steps q (snd (run_one log_file stamp now popen job q))"
proof -
  define started where "started = job\<lparr>j_state := RUNNING, j_started := Some now, j_log := log_file (j_id job)\<rparr>"
  define q2 where "q2 = (write_job started q)\<lparr>q_flags := filter (\<lambda>i. i \<noteq> j_id job) (q_flags (write_job started q))\<rparr>"
  obtain got q3 where p: "popen started q2 = (got, q3)" by (cases "popen started q2")
  have "queue_steps q q2"
    unfolding q2_def
    by (rule converse_rtranclp_into_rtranclp, rule queue_step.written, rule r_into_rtranclp, rule queue_step.flags)
  also have "queue_steps q2 q3" using assms [of q2 started] p by simp
  also have "queue_steps q3 (snd (run_one log_file stamp now popen job q))"
    by (simp add: run_one_def Let_def started_def [symmetric] q2_def [symmetric] p settle_after_flags write_steps)
  finally show ?thesis .
qed

lemma run_loop_Suc:
  assumes "pending_jobs mid q = job # rest" and "open_gate q"
    and "run_one log_file stamp now popen job q = (r, q1)"
  shows "run_loop (Suc n) mid log_file stamp now popen open_gate q =
     (case run_loop n mid log_file stamp now popen open_gate q1 of
        None \<Rightarrow> None | Some (later, q2) \<Rightarrow> Some (r # later, q2))"
  by (simp only: run_loop.simps assms list.case prod.case Let_def not_True_eq_False if_False)
    (cases "run_loop n mid log_file stamp now popen open_gate q1", simp_all split: prod.split)

lemma run_loop_steps:
  assumes "\<And>j q. queue_steps q (snd (popen j q))"
  shows "run_loop n mid log_file stamp now popen open_gate q = Some (went, q') \<Longrightarrow> queue_steps q q'"
proof (induction n arbitrary: q went)
  case (Suc n)
  show ?case
  proof (cases "pending_jobs mid q = [] \<or> \<not> open_gate q")
    case True
    then show ?thesis using Suc.prems by (auto split: list.splits)
  next
    case False
    then obtain job rest where pend: "pending_jobs mid q = job # rest" "open_gate q" by (auto simp: neq_Nil_conv)
    obtain r q1 where one: "run_one log_file stamp now popen job q = (r, q1)" by fastforce
    from Suc.prems obtain went' where "run_loop n mid log_file stamp now popen open_gate q1 = Some (went', q')"
      unfolding run_loop_Suc [where open_gate = open_gate, OF pend one] by (auto split: option.splits prod.splits)
    with Suc.IH have "queue_steps q1 q'" by blast
    moreover have "queue_steps q q1" using run_one_steps [where popen = popen and log_file = log_file and stamp = stamp and now = now and q = q and job = job, OF assms]
      by (simp add: one)
    ultimately show ?thesis by (rule rtranclp_trans [rotated])
  qed
qed simp

lemma run_pending_steps:
  assumes "\<And>j q. queue_steps q (snd (popen j q))"
    and "run_pending n mid log_file stamp now popen open_gate q = Some (went, q')"
  shows "queue_steps q q'"
proof (cases "q_locked q")
  case True
  then show ?thesis using assms(2) by (simp add: run_pending_def)
next
  case False
  then have "run_loop n mid log_file stamp now popen open_gate (recover mid q) = Some (went, q')"
    using assms(2) by (simp add: run_pending_def)
  from run_loop_steps [OF assms(1) this] show ?thesis
    by (rule converse_rtranclp_into_rtranclp [rotated]) (rule queue_step.recovered)
qed

section \<open>Ids\<close>

text \<open>
  A job's text id reads back as its number, so \<open>cancel\<close>, \<open>set_priority\<close> and \<open>link_run\<close> reach the job
  the caller was shown.
\<close>

theorem job_label_roundtrip: "job_key (job_label i) = Some i"
  using padded_number [of 4 i] by (simp add: job_key_def job_label_def Let_def)

text \<open>
  C6. An id is never handed out twice: whatever other callers and the jobs themselves did to the queue while
  it was worked (cancelling, which deletes a job, included), no id comes back: one at or below the old mark that is in
  the table now was in it before; and a job added after gets an id above every one of the table before and of the
  table now.
\<close>

theorem ids_never_reused:
  assumes "\<And>j q. queue_steps q (snd (popen j q))" and "queue_ok q"
    and "run_pending n mid log_file stamp now popen open_gate q = Some (went, q')"
    and "add_job ex cwd0 now' m argv title cwd kind out prio by q' = (Inr j, q'')"
  shows "queue_ok q'' \<and> (\<forall>i \<in> j_id ` set (q_jobs q'). i \<le> q_last q \<longrightarrow> i \<in> j_id ` set (q_jobs q))
    \<and> (\<forall>i \<in> j_id ` set (q_jobs q) \<union> j_id ` set (q_jobs q'). i < j_id j)"
proof -
  have g: "queue_grows q q'" using queue_steps_grow [OF run_pending_steps [OF assms(1,3)] assms(2)] .
  then have ok': "queue_ok q'" by (simp add: queue_grows_def)
  note a = add_job_grows [OF ok' assms(4)]
  show ?thesis
    using g ok' a assms(2) by (force simp: queue_grows_def queue_ok_def)
qed

section \<open>A calm run\<close>

text \<open>A process that leaves the queue alone and ends with \<open>exit\<close>.\<close>

definition calm :: "(nat \<Rightarrow> int option) \<Rightarrow> job \<Rightarrow> queue \<Rightarrow> int option \<times> queue" where
  "calm exit j q = (exit (j_id j), q)"

definition exit_code :: "int option \<Rightarrow> int" where
  "exit_code got = (case got of None \<Rightarrow> 127 | Some r \<Rightarrow> r)"

definition end_state :: "int \<Rightarrow> string" where
  "end_state rc = (if rc = 0 then DONE else FAILED)"

lemma update_row_same:
  "(\<And>r. rid (f r) = rid r) \<Longrightarrow> update_row rid i g (update_row rid i f rows) = update_row rid i (\<lambda>r. g (f r)) rows"
  by (simp add: update_row_def)

lemma run_one_calm:
  assumes "queue_ok q" and "row j_id (j_id job) (q_jobs q) = Some job"
  shows "\<exists>r q'. run_one log_file stamp now (calm exit) job q = (r, q')
    \<and> j_id r = j_id job \<and> j_machine r = j_machine job \<and> j_state r = end_state (exit_code (exit (j_id job)))
    \<and> j_rc r = Some (exit_code (exit (j_id job)))
    \<and> q_jobs q' = update_row j_id (j_id job) (\<lambda>_. r) (q_jobs q) \<and> q_last q' = q_last q"
proof -
  let ?rc = "exit_code (exit (j_id job))"
  define w where "w = job\<lparr>j_state := end_state ?rc, j_started := Some now, j_finished := Some now,
      j_rc := Some ?rc, j_log := log_file (j_id job)\<rparr>"
  have const: "update_row j_id (j_id job) f (q_jobs q) = update_row j_id (j_id job) (\<lambda>_. f job) (q_jobs q)" for f
    unfolding update_row_def using assms(1,2) row_unique [of j_id "q_jobs q"]
    by (intro map_cong [OF refl]) (metis option.inject queue_ok_def)
  have jobs: "q_jobs (snd (run_one log_file stamp now (calm exit) job q)) = update_row j_id (j_id job) (\<lambda>_. w) (q_jobs q)"
  proof -
    have "\<exists>f. q_jobs (snd (run_one log_file stamp now (calm exit) job q)) = update_row j_id (j_id job) f (q_jobs q) \<and> f job = w"
      by (auto simp: run_one_def Let_def calm_def write_job_def update_row_same w_def end_state_def exit_code_def)
    then show ?thesis using const by metis
  qed
  have "fst (run_one log_file stamp now (calm exit) job q) = w"
  proof -
    have "row j_id (j_id job) (update_row j_id (j_id job) (\<lambda>_. w) (q_jobs q)) = Some w"
      using row_Some [OF assms(2)] by (intro row_put [of job]) (simp_all add: w_def)
    then show ?thesis using jobs
      by (simp add: run_one_def Let_def calm_def write_job_def)
  qed
  then obtain q' where "run_one log_file stamp now (calm exit) job q = (w, q')" by (metis prod.collapse)
  moreover have "q_last (snd (run_one log_file stamp now (calm exit) job q)) = q_last q"
    by (simp add: run_one_def Let_def calm_def)
  ultimately show ?thesis using jobs by (intro exI [of _ w] exI [of _ q']) (simp add: w_def)
qed

text \<open>What is pending after the first pending job was put back in another state: the others, in order.\<close>

lemma pending_after:
  assumes "queue_ok q" and p: "pending_jobs mid q = job # rest"
    and r: "j_id r = j_id job" "j_state r \<noteq> PENDING"
    and q': "q_jobs q' = update_row j_id (j_id job) (\<lambda>_. r) (q_jobs q)"
  shows "pending_jobs mid q' = rest"
proof -
  let ?P = "\<lambda>j. j_state j = PENDING \<and> here mid j"
  have "filter ?P (update_row j_id (j_id job) (\<lambda>_. r) js) = filter (\<lambda>j. j_id j \<noteq> j_id job) (filter ?P js)" for js
    using r by (induction js) (auto simp: update_row_def)
  then have "pending_jobs mid q' = order (filter (\<lambda>j. j_id j \<noteq> j_id job) (filter ?P (q_jobs q)))"
    by (simp add: pending_jobs_def q')
  also have "\<dots> = filter (\<lambda>j. j_id j \<noteq> j_id job) (pending_jobs mid q)"
    by (simp only: run_order.rank_filter pending_jobs_def)
  also have "\<dots> = rest"
  proof -
    have "distinct (map j_id (pending_jobs mid q))"
      using assms(1) unfolding pending_jobs_def run_order.distinct_rank by (simp add: queue_ok_def distinct_map_filter)
    then have "\<forall>j \<in> set rest. j_id j \<noteq> j_id job" by (metis distinct.simps(2) image_eqI list.simps(9) list.set_map p)
    then show ?thesis by (simp add: p filter_id_conv)
  qed
  finally show ?thesis .
qed

lemma pending_member: "j \<in> set (pending_jobs mid q) \<Longrightarrow> j \<in> set (q_jobs q) \<and> j_state j = PENDING \<and> here mid j"
  by (simp add: pending_jobs_def run_order.set_rank)

lemma run_loop_calm:
  assumes "queue_ok q" and "length (pending_jobs mid q) < n" and "\<And>q. open_gate q"
  shows "\<exists>went q'. run_loop n mid log_file stamp now (calm exit) open_gate q = Some (went, q')
    \<and> map (\<lambda>j. (j_id j, j_rc j, j_state j)) went
        = map (\<lambda>j. let rc = exit_code (exit (j_id j)) in (j_id j, Some rc, end_state rc)) (pending_jobs mid q)
    \<and> pending_jobs mid q' = []
    \<and> (\<forall>x \<in> set (q_jobs q). \<not> here mid x \<longrightarrow> x \<in> set (q_jobs q'))"
  using assms(1,2)
proof (induction n arbitrary: q)
  case (Suc n)
  show ?case
  proof (cases "pending_jobs mid q")
    case Nil
    then show ?thesis by simp
  next
    case (Cons job rest)
    have "job \<in> set (q_jobs q)" using pending_member [of job mid q] Cons by simp
    then have row: "row j_id (j_id job) (q_jobs q) = Some job"
      using row_unique [of j_id "q_jobs q"] Suc.prems(1) by (simp add: queue_ok_def)
    from run_one_calm [OF Suc.prems(1) row, of log_file stamp now exit] obtain r q1
      where one: "run_one log_file stamp now (calm exit) job q = (r, q1)"
        and r: "j_id r = j_id job" "j_state r = end_state (exit_code (exit (j_id job)))"
          "j_rc r = Some (exit_code (exit (j_id job)))"
        and q1: "q_jobs q1 = update_row j_id (j_id job) (\<lambda>_. r) (q_jobs q)" "q_last q1 = q_last q" by blast
    have "map j_id (q_jobs q1) = map j_id (q_jobs q)" using r(1) by (simp add: q1 update_row_def)
    then have ok1: "queue_ok q1"
      using queue_grows_same_ids [OF Suc.prems(1) _ q1(2)] by (simp add: queue_grows_def)
    have next_jobs: "pending_jobs mid q1 = rest"
      using pending_after [OF Suc.prems(1) Cons r(1) _ q1(1)] r(2) by (simp add: end_state_def job_states)
    have "length (pending_jobs mid q1) < n" using Suc.prems(2) Cons next_jobs by simp
    from Suc.IH [OF ok1 this] obtain later q2 where
      later: "run_loop n mid log_file stamp now (calm exit) open_gate q1 = Some (later, q2)"
        "map (\<lambda>j. (j_id j, j_rc j, j_state j)) later
           = map (\<lambda>j. let rc = exit_code (exit (j_id j)) in (j_id j, Some rc, end_state rc)) rest"
        "pending_jobs mid q2 = []" "\<forall>x \<in> set (q_jobs q1). \<not> here mid x \<longrightarrow> x \<in> set (q_jobs q2)"
      by (auto simp: next_jobs)
    have own: "here mid job" using pending_member [of job mid q] Cons by simp
    have foreign: "x \<in> set (q_jobs q1)" if "x \<in> set (q_jobs q)" "\<not> here mid x" for x
    proof -
      have "row j_id (j_id x) (q_jobs q) = Some x"
        using that(1) row_unique [of j_id "q_jobs q"] Suc.prems(1) by (simp add: queue_ok_def)
      with row own that(2) have "j_id x \<noteq> j_id job" by auto
      then show ?thesis using that(1) by (force simp: q1(1) update_row_def)
    qed
    have "run_loop (Suc n) mid log_file stamp now (calm exit) open_gate q = Some (r # later, q2)"
      using run_loop_Suc [where open_gate = open_gate, OF Cons assms(3) one, of n] later(1) by simp
    then show ?thesis using later r foreign by (simp add: Cons Let_def del: run_loop.simps)
  qed
qed simp

lemma pending_recover [simp]: "pending_jobs mid (recover mid q) = pending_jobs mid q"
proof -
  have "filter (\<lambda>j. j_state j = PENDING \<and> here mid j)
      (map (\<lambda>j. if j_state j = RUNNING \<and> here mid j then j\<lparr>j_state := FAILED, j_note := INTERRUPTED\<rparr> else j) js)
      = filter (\<lambda>j. j_state j = PENDING \<and> here mid j) js" for js
    by (induction js) (auto simp: job_states)
  then show ?thesis by (simp add: pending_jobs_def recover_def)
qed

lemma recover_ok: "queue_ok q \<Longrightarrow> queue_ok (recover mid q)"
  using queue_grows_same_ids [of q "recover mid q"] by (simp add: queue_grows_def)

lemma recover_foreign: "x \<in> set (q_jobs q) \<Longrightarrow> \<not> here mid x \<Longrightarrow> x \<in> set (q_jobs (recover mid q))"
  by (force simp: recover_def)

lemma run_pending_calm:
  assumes "queue_ok q" and "\<not> q_locked q" and "\<And>q. open_gate q" and "length (pending_jobs mid q) < n"
  shows "\<exists>went q'. run_pending n mid log_file stamp now (calm exit) open_gate q = Some (went, q')
    \<and> map (\<lambda>j. (j_id j, j_rc j, j_state j)) went
        = map (\<lambda>j. let rc = exit_code (exit (j_id j)) in (j_id j, Some rc, end_state rc)) (pending_jobs mid q)
    \<and> pending_jobs mid q' = []
    \<and> (\<forall>x \<in> set (q_jobs q). \<not> here mid x \<longrightarrow> x \<in> set (q_jobs q'))"
  using run_loop_calm [where n = n and mid = mid and open_gate = open_gate and log_file = log_file and stamp = stamp
      and now = now and exit = exit, OF recover_ok [OF assms(1), of mid]] assms(2-4) recover_foreign [of _ q mid]
  by (simp add: run_pending_def) blast

text \<open>
  C7. With the gate open and no other caller, the runner returns after running every pending job of this
  machine exactly once, higher priority first and then in the order added; each ends done if its process
  exited 0 and failed otherwise (127 when it could not be started), nothing is left pending, and
  the jobs of other machines are as they were.
\<close>

theorem runner_works_the_queue:
  assumes "queue_ok q" and "\<not> q_locked q" and "\<And>q. open_gate q" and "length (pending_jobs mid q) < n"
  shows "\<exists>went q'. run_pending n mid log_file stamp now (calm exit) open_gate q = Some (went, q')
    \<and> map (\<lambda>j. (j_id j, j_rc j, j_state j)) went
        = map (\<lambda>j. let rc = exit_code (exit (j_id j)) in (j_id j, Some rc, end_state rc)) (pending_jobs mid q)
    \<and> sorted (map (\<lambda>j. (- j_priority j, j_id j)) (pending_jobs mid q))
    \<and> pending_jobs mid q' = []
    \<and> (\<forall>x \<in> set (q_jobs q). \<not> here mid x \<longrightarrow> x \<in> set (q_jobs q'))"
  using run_pending_calm [where open_gate = open_gate, OF assms]
    run_order.in_order [of "filter (\<lambda>j. j_state j = PENDING \<and> here mid j) (q_jobs q)"]
  by (simp add: pending_jobs_def)

section \<open>A small queue\<close>

definition empty_queue :: queue where
  "empty_queue = \<lparr>q_jobs = [], q_last = 0, q_paused = False, q_locked = False, q_pids = [], q_flags = []\<rparr>"

definition sample_add :: "string \<Rightarrow> int \<Rightarrow> queue \<Rightarrow> queue" where
  "sample_add word prio q = snd (add_job (\<lambda>_. False) ''/d'' 5 None [word] [] [] ''command'' [] prio ''cli'' q)"

definition sample_queue :: queue where
  "sample_queue = sample_add ''c'' 9 (sample_add ''b'' 0 (sample_add ''a'' 0 empty_queue))"

lemma sample_queue_ok: "queue_ok sample_queue"
  by (simp add: queue_ok_def sample_queue_def sample_add_def empty_queue_def add_job_def next_job_id_def next_id_def Let_def is_space_def)

lemma sample_queue_pending: "map j_id (pending_jobs None sample_queue) = [3, 1, 2]"
  by code_simp

lemma sample_queue_few: "length (pending_jobs None sample_queue) < 4" "\<not> q_locked sample_queue"
  by code_simp+

theorem ids_never_reused_witness:
  "\<exists>went q'. run_pending 4 None job_label (\<lambda>_. []) 7 (calm (\<lambda>_. Some 0)) (\<lambda>_. True) sample_queue = Some (went, q')
     \<and> (\<forall>i \<in> j_id ` set (q_jobs q'). i < j_id (hd (rev (q_jobs (sample_add ''d'' 0 q')))))"
proof -
  from run_pending_calm [where open_gate = "\<lambda>_. True" and log_file = job_label and stamp = "\<lambda>_. []" and now = 7
      and exit = "\<lambda>_. Some 0", OF sample_queue_ok sample_queue_few(2) TrueI sample_queue_few(1)]
  obtain went q' where run: "run_pending 4 None job_label (\<lambda>_. []) 7 (calm (\<lambda>_. Some 0)) (\<lambda>_. True) sample_queue = Some (went, q')"
    by blast
  obtain j q'' where add: "add_job (\<lambda>_. False) ''/d'' 5 None [''d''] [] [] ''command'' [] 0 ''cli'' q' = (Inr j, q'')"
    by (simp add: add_job_def is_space_def Let_def)
  have "queue_steps q (snd (calm (\<lambda>_. Some 0) j q))" for j q by (simp add: calm_def)
  note all = ids_never_reused [OF this sample_queue_ok run add]
  have "q_jobs q'' = q_jobs q' @ [j]"
    using add by (auto simp: add_job_def Let_def split: if_splits)
  with all run add show ?thesis by (auto simp: sample_add_def)
qed

theorem runner_witness:
  "\<exists>went q'. run_pending 4 None job_label (\<lambda>_. []) 7 (calm (\<lambda>i. if i = 2 then None else Some 0)) (\<lambda>_. True) sample_queue
       = Some (went, q')
     \<and> map (\<lambda>j. (j_id j, j_rc j)) went = [(3, Some 0), (1, Some 0), (2, Some 127)]"
proof -
  have ids: "map (\<lambda>j. let rc = exit_code (if j_id j = 2 then None else Some 0) in (j_id j, Some rc, end_state rc)) (pending_jobs None sample_queue)
      = map (\<lambda>i. let rc = exit_code (if i = 2 then None else Some 0) in (i, Some rc, end_state rc)) [3, 1, 2]"
    unfolding sample_queue_pending [symmetric] by (simp add: o_def)
  from runner_works_the_queue [where open_gate = "\<lambda>_. True" and log_file = job_label and stamp = "\<lambda>_. []" and now = 7
      and exit = "\<lambda>i. if i = 2 then None else Some 0", OF sample_queue_ok sample_queue_few(2) TrueI sample_queue_few(1)]
  obtain went q' where "run_pending 4 None job_label (\<lambda>_. []) 7 (calm (\<lambda>i. if i = 2 then None else Some 0)) (\<lambda>_. True) sample_queue = Some (went, q')"
    "map (\<lambda>j. (j_id j, j_rc j, j_state j)) went
       = map (\<lambda>i. let rc = exit_code (if i = 2 then None else Some 0) in (i, Some rc, end_state rc)) [3, 1, 2]"
    using ids by auto
  moreover from this(2) have "map (\<lambda>j. (j_id j, j_rc j)) went = [(3, Some 0), (1, Some 0), (2, Some 127)]"
    by (auto simp: Let_def exit_code_def)
  ultimately show ?thesis by (intro exI conjI)
qed

section \<open>Cancelling and guarding\<close>

lemma row_write:
  "row j_id i (q_jobs q) = Some r \<Longrightarrow> j_id j = i \<Longrightarrow>
   \<exists>x. row j_id i (q_jobs (write_job j q)) = Some x \<and> j_state x = j_state j \<and> j_rc x = j_rc j \<and> j_finished x = j_finished j"
  by (simp add: write_job_def row_update)

lemma settle_row:
  assumes "row j_id (j_id j) (q_jobs q) = Some r"
  shows "\<exists>x. row j_id (j_id j) (q_jobs (settle_cancelled stamp now j how rc q)) = Some x \<and> j_state x = CANCELLED
    \<and> j_rc x = (case rc of None \<Rightarrow> j_rc j | Some c \<Rightarrow> Some c) \<and> j_finished x \<noteq> None"
proof -
  obtain k where k: "settle_cancelled stamp now j how rc q = write_job k q" "j_id k = j_id j" "j_state k = CANCELLED"
    "j_rc k = (case rc of None \<Rightarrow> j_rc j | Some c \<Rightarrow> Some c)" "j_finished k \<noteq> None"
    unfolding settle_cancelled_def Let_def by (auto split: option.split)
  from row_write [OF assms k(2)] k show ?thesis by auto
qed

lemma settle_flags [simp]: "q_flags (settle_cancelled stamp now j how rc q) = q_flags q"
  by (simp add: settle_cancelled_def write_job_def Let_def)

text \<open>
  C8. How a run ends is decided by the cancel flag first: a job whose flag was set while its process ran ends
  cancelled whatever its exit code, and the flag is taken down; otherwise it is done exactly when the exit
  code is 0. Either way the row keeps the exit code and a finish time.
\<close>

theorem run_ends_as_flagged:
  assumes "popen (job\<lparr>j_state := RUNNING, j_started := Some now, j_log := log_file (j_id job)\<rparr>)
      ((write_job (job\<lparr>j_state := RUNNING, j_started := Some now, j_log := log_file (j_id job)\<rparr>) q)
         \<lparr>q_flags := filter (\<lambda>i. i \<noteq> j_id job) (q_flags q)\<rparr>) = (got, q3)"
    and "row j_id (j_id job) (q_jobs q3) = Some r"
  shows "j_state (fst (run_one log_file stamp now popen job q))
        = (if j_id job \<in> set (q_flags q3) then CANCELLED else if got = Some 0 then DONE else FAILED)
    \<and> j_rc (fst (run_one log_file stamp now popen job q)) = Some (case got of None \<Rightarrow> 127 | Some rc \<Rightarrow> rc)
    \<and> j_finished (fst (run_one log_file stamp now popen job q)) \<noteq> None
    \<and> j_id job \<notin> set (q_flags (snd (run_one log_file stamp now popen job q)))"
proof -
  define started where "started = job\<lparr>j_state := RUNNING, j_started := Some now, j_log := log_file (j_id job)\<rparr>"
  define rc where "rc = (case got of None \<Rightarrow> 127 | Some c \<Rightarrow> c)"
  define ended where "ended = started\<lparr>j_rc := Some rc, j_finished := Some now\<rparr>"
  define q3' where "q3' = q3\<lparr>q_flags := filter (\<lambda>i. i \<noteq> j_id job) (q_flags q3)\<rparr>"
  define settled where "settled = settle_cancelled stamp now ended [] (Some rc) q3'"
  define finished where "finished = write_job (ended\<lparr>j_state := (if rc = 0 then DONE else FAILED)\<rparr>) q3"
  have ids: "j_id ended = j_id job" "j_rc ended = Some rc" "j_finished ended = Some now" by (simp_all add: ended_def started_def)
  have flags: "q_flags (write_job started q) = q_flags q" by (simp add: write_job_def)
  have run: "run_one log_file stamp now popen job q =
      (let q4 = (if j_id job \<in> set (q_flags q3) then settled else finished)
       in (case row j_id (j_id job) (q_jobs q4) of None \<Rightarrow> ended | Some j \<Rightarrow> j, q4))"
    using assms(1) by (simp only: run_one_def Let_def started_def [symmetric] flags prod.case rc_def [symmetric]
        ended_def [symmetric] q3'_def [symmetric] settled_def [symmetric] finished_def [symmetric])
  have rc0: "rc = 0 \<longleftrightarrow> got = Some 0" by (simp add: rc_def split: option.split)
  show ?thesis
  proof (cases "j_id job \<in> set (q_flags q3)")
    case True
    have "row j_id (j_id ended) (q_jobs q3') = Some r" using assms(2) by (simp add: q3'_def ids)
    from settle_row [OF this, of stamp now "[]" "Some rc"] True show ?thesis
      unfolding run by (auto simp: ids settled_def rc_def q3'_def)
  next
    case False
    obtain x where "row j_id (j_id job) (q_jobs finished) = Some x" "j_state x = (if rc = 0 then DONE else FAILED)"
      "j_rc x = Some rc" "j_finished x = Some now"
      using row_write [OF assms(2), of "ended\<lparr>j_state := (if rc = 0 then DONE else FAILED)\<rparr>"] ids
      unfolding finished_def by auto
    with False show ?thesis unfolding run by (simp add: rc0 rc_def [symmetric] finished_def write_job_def)
  qed
qed

text \<open>Someone cancels the job while it runs; its process then exits 0.\<close>

definition cancelled_meanwhile :: "job \<Rightarrow> queue \<Rightarrow> int option \<times> queue" where
  "cancelled_meanwhile j q = (Some 0, q\<lparr>q_flags := j_id j # q_flags q\<rparr>)"

theorem run_ends_as_flagged_witness:
  "j_state (fst (run_one job_label (\<lambda>_. []) 7 cancelled_meanwhile (hd (q_jobs sample_queue)) sample_queue)) = CANCELLED"
proof -
  let ?job = "hd (q_jobs sample_queue)"
  let ?s = "?job\<lparr>j_state := RUNNING, j_started := Some 7, j_log := job_label (j_id ?job)\<rparr>"
  let ?q = "(write_job ?s sample_queue)\<lparr>q_flags := filter (\<lambda>i. i \<noteq> j_id ?job) (q_flags sample_queue)\<rparr>"
  have "row j_id (j_id ?job) (q_jobs sample_queue) = Some ?job" by code_simp
  from row_write [OF this, of ?s] obtain r where r: "row j_id (j_id ?job) (q_jobs (write_job ?s sample_queue)) = Some r" by auto
  obtain q3 where q3: "cancelled_meanwhile ?s ?q = (Some 0, q3)" "j_id ?job \<in> set (q_flags q3)"
    "q_jobs q3 = q_jobs (write_job ?s sample_queue)"
    by (simp add: cancelled_meanwhile_def)
  from run_ends_as_flagged [where popen = cancelled_meanwhile and job = ?job and now = 7 and log_file = job_label
      and q = sample_queue and stamp = "\<lambda>_. []" and got = "Some 0" and r = r, OF q3(1)] q3(2,3) r show ?thesis by simp
qed

text \<open>
  From outside only a pending job can be reordered or dropped: any other job, and any id that is not one,
  is refused and the queue is left as it was. A reordering changes nothing but that job's priority.
\<close>

theorem only_pending_changes:
  "(case set_priority s p q of
      (Inl e, q') \<Rightarrow> q' = q
        \<and> (\<forall>i j. job_key s = Some i \<longrightarrow> row j_id i (q_jobs q) = Some j \<longrightarrow> j_state j \<noteq> PENDING)
    | (Inr r, q') \<Rightarrow> \<exists>i j. job_key s = Some i \<and> row j_id i (q_jobs q) = Some j \<and> j_state j = PENDING
        \<and> r = Some (j\<lparr>j_priority := p\<rparr>)
        \<and> q' = q\<lparr>q_jobs := map (\<lambda>x. if j_id x = i then x\<lparr>j_priority := p\<rparr> else x) (q_jobs q)\<rparr>)
   \<and> (\<forall>j. get_job s q = Some j \<longrightarrow> j_state j \<noteq> RUNNING \<longrightarrow>
        cancel alive_pid stopping stamp now s q =
          (if j_state j = PENDING then (Inr (Some j), q\<lparr>q_jobs := filter (\<lambda>x. j_id x \<noteq> j_id j) (q_jobs q)\<rparr>)
           else (Inl (NotPendingJob s (j_state j) ''cancelled''), q)))"
proof (rule conjI)
  show "case set_priority s p q of
      (Inl e, q') \<Rightarrow> q' = q
        \<and> (\<forall>i j. job_key s = Some i \<longrightarrow> row j_id i (q_jobs q) = Some j \<longrightarrow> j_state j \<noteq> PENDING)
    | (Inr r, q') \<Rightarrow> \<exists>i j. job_key s = Some i \<and> row j_id i (q_jobs q) = Some j \<and> j_state j = PENDING
        \<and> r = Some (j\<lparr>j_priority := p\<rparr>)
        \<and> q' = q\<lparr>q_jobs := map (\<lambda>x. if j_id x = i then x\<lparr>j_priority := p\<rparr> else x) (q_jobs q)\<rparr>"
    by (auto simp: set_priority_def only_pending_def get_job_def row_update update_row_def [symmetric]
        split: option.split)
  show "\<forall>j. get_job s q = Some j \<longrightarrow> j_state j \<noteq> RUNNING \<longrightarrow>
        cancel alive_pid stopping stamp now s q =
          (if j_state j = PENDING then (Inr (Some j), q\<lparr>q_jobs := filter (\<lambda>x. j_id x \<noteq> j_id j) (q_jobs q)\<rparr>)
           else (Inl (NotPendingJob s (j_state j) ''cancelled''), q))"
    by (auto simp: cancel_def get_job_def only_pending_def dest!: row_Some split: option.splits)
qed

theorem only_pending_witness:
  "fst (cancel (\<lambda>_. True) (\<lambda>_ q. (''term'', q)) (\<lambda>_. []) 9 ''0002'' sample_queue) = Inr (row j_id 2 (q_jobs sample_queue))"
proof -
  obtain j where j: "get_job ''0002'' sample_queue = Some j" "row j_id 2 (q_jobs sample_queue) = Some j" "j_state j = PENDING"
  proof -
    have "get_job ''0002'' sample_queue = row j_id 2 (q_jobs sample_queue)" by code_simp
    moreover have "map_option j_state (row j_id 2 (q_jobs sample_queue)) = Some PENDING" by code_simp
    ultimately show thesis using that by auto
  qed
  then have "j_state j \<noteq> RUNNING" by (simp add: job_states)
  with j only_pending_changes [where s = "''0002''" and q = sample_queue] show ?thesis by simp
qed

end
