(* ===== verification/Paired.thy ===== *)
theory Paired
  imports Prelude
begin

text \<open>
  Paired comparison and the holdout split: \<open>harness/paired.py\<close>, \<open>harness/holdout.py\<close>. A result row keeps
  the fields these read. A dict keyed by case is an association list in insertion order; its iteration order
  only ever reaches counts. The draw of a case (a digest of its content) is a parameter.
\<close>

section \<open>The sign test\<close>

definition lower_tail :: "nat \<Rightarrow> nat \<Rightarrow> nat" where
  "lower_tail n k = sum_list (map (\<lambda>i. n choose i) [0..<Suc k])"

definition sign_test :: "nat \<Rightarrow> nat \<Rightarrow> rat" where
  "sign_test k n =
     (if n = 0 then 1 else min 1 (2 * (of_nat (lower_tail n (min k (n - k))) / 2 ^ n)))"

record cell =
  c_candidate :: string
  c_lost :: nat
  c_gained :: nat
  c_unchanged :: nat

definition discordant :: "cell \<Rightarrow> nat" where
  "discordant c = c_lost c + c_gained c"

definition cell_p :: "cell \<Rightarrow> rat" where
  "cell_p c = sign_test (min (c_lost c) (c_gained c)) (discordant c)"

definition cell_verdict :: "cell \<Rightarrow> string" where
  "cell_verdict c = (if discordant c = 0 then ''identical'' else if cell_p c \<le> 5 / 100 then ''differs'' else ''no evidence'')"

section \<open>Rows\<close>

record rrow =
  rr_candidate :: string
  rr_case :: string
  rr_passed :: bool
  rr_seconds :: "rat option"

text \<open>The two dicts' common keys, each once, and the cells that moved.\<close>

definition shared_keys :: "(string \<times> bool) list \<Rightarrow> (string \<times> bool) list \<Rightarrow> string list" where
  "shared_keys a b = filter (\<lambda>k. map_of b k \<noteq> None) (remdups (map fst a))"

definition compare_verdicts :: "string \<Rightarrow> (string \<times> bool) list \<Rightarrow> (string \<times> bool) list \<Rightarrow> cell" where
  "compare_verdicts name a b =
     (let keys = shared_keys a b;
          lost = length (filter (\<lambda>k. map_of a k = Some True \<and> map_of b k \<noteq> Some True) keys);
          gained = length (filter (\<lambda>k. map_of a k \<noteq> Some True \<and> map_of b k = Some True) keys)
      in \<lparr>c_candidate = name, c_lost = lost, c_gained = gained, c_unchanged = length keys - lost - gained\<rparr>)"

text \<open>\<open>_verdicts\<close>: the row's index is part of the key, so repeats of a case stay apart.\<close>

definition verdicts_of :: "rrow list \<Rightarrow> string \<Rightarrow> (string \<times> bool) list" where
  "verdicts_of rows candidate =
     [(rr_case r @ ''#'' @ decimal i, rr_passed r). (i, r) \<leftarrow> enumerate 0 rows, rr_candidate r = candidate]"

definition cells :: "rrow list \<Rightarrow> rrow list \<Rightarrow> cell list" where
  "cells a b =
     (let shared = filter (\<lambda>c. c \<noteq> [] \<and> c \<in> set (map rr_candidate b)) (sort (remdups (map rr_candidate a)))
      in map (\<lambda>c. compare_verdicts c (verdicts_of a c) (verdicts_of b c)) shared)"

text \<open>\<open>head_to_head\<close>: by case, the last row of a case winning.\<close>

definition by_case :: "rrow list \<Rightarrow> string \<Rightarrow> (string \<times> bool) list" where
  "by_case rows candidate = rev [(rr_case r, rr_passed r). r \<leftarrow> rows, rr_candidate r = candidate]"

definition head_to_head :: "rrow list \<Rightarrow> string \<Rightarrow> string \<Rightarrow> cell" where
  "head_to_head rows incumbent challenger =
     compare_verdicts challenger (by_case rows incumbent) (by_case rows challenger)"

section \<open>The holdout\<close>

definition VERSION :: string where "VERSION = ''1''"
definition FRACTION :: rat where "FRACTION = 3 / 10"
definition MIN_HOLDOUT :: nat where "MIN_HOLDOUT = 3"
definition MIN_DEV :: nat where "MIN_DEV = 3"
definition SATURATED :: rat where "SATURATED = 95 / 100"

definition SIDES :: "string list" where "SIDES = [''all'', ''dev'', ''holdout'']"

record lane_case =
  lc_id :: string
  lc_lane :: string

record split_of =
  sp_lane :: string
  sp_dev :: "string list"
  sp_holdout :: "string list"
  sp_small :: bool

definition base_id :: "string \<Rightarrow> string" where
  "base_id s = fst (partition_at (CHR ''#'') s)"

definition side :: "split_of \<Rightarrow> string \<Rightarrow> string" where
  "side sp case_id =
     (let b = base_id case_id
      in if b \<in> set (sp_holdout sp) then ''holdout'' else if b \<in> set (sp_dev sp) then ''dev'' else [])"

definition drawn :: "(lane_case \<Rightarrow> rat) \<Rightarrow> lane_case list \<Rightarrow> (rat \<times> string) list" where
  "drawn draw cases = sort (map (\<lambda>c. (draw c, lc_id c)) cases)"

definition holdout_size :: "(rat \<times> string) list \<Rightarrow> nat" where
  "holdout_size ds = min (max (length (filter (\<lambda>(d, i). d < FRACTION) ds)) MIN_HOLDOUT) (length ds - MIN_DEV)"

definition assign :: "(lane_case \<Rightarrow> rat) \<Rightarrow> string \<Rightarrow> lane_case list \<Rightarrow> split_of" where
  "assign draw lane cases =
     (let ds = drawn draw cases; ids = map snd ds; n = holdout_size ds in
      if length ids < MIN_HOLDOUT + MIN_DEV
      then \<lparr>sp_lane = lane, sp_dev = sort ids, sp_holdout = sort ids, sp_small = True\<rparr>
      else \<lparr>sp_lane = lane, sp_dev = sort (drop n ids), sp_holdout = sort (take n ids), sp_small = False\<rparr>)"

text \<open>\<open>_splits\<close> and \<open>for_lane\<close>, over the cases loaded from disk.\<close>

definition lanes_of :: "lane_case list \<Rightarrow> string list" where
  "lanes_of cases = rev (remdups (rev (map lc_lane cases)))"

definition splits :: "(lane_case \<Rightarrow> rat) \<Rightarrow> lane_case list \<Rightarrow> (string \<times> split_of) list" where
  "splits draw cases = map (\<lambda>l. (l, assign draw l (filter (\<lambda>c. lc_lane c = l) cases))) (lanes_of cases)"

definition for_lane :: "(lane_case \<Rightarrow> rat) \<Rightarrow> lane_case list \<Rightarrow> string \<Rightarrow> split_of" where
  "for_lane draw cases lane =
     (let key = lower (strip lane)
      in get_or \<lparr>sp_lane = key, sp_dev = [], sp_holdout = [], sp_small = True\<rparr> (splits draw cases) key)"

definition sp_side :: "split_of \<Rightarrow> string \<Rightarrow> string list" where
  "sp_side sp s = (if s = ''holdout'' then sp_holdout sp else sp_dev sp)"

definition only_side :: "(lane_case \<Rightarrow> rat) \<Rightarrow> lane_case list \<Rightarrow> string \<Rightarrow> lane_case list option" where
  "only_side draw cases s =
     (if s = ''all'' then Some cases
      else if s \<notin> set SIDES then None
      else (let keep = concat (map (\<lambda>(l, sp). sp_side sp s) (splits draw cases))
            in Some (filter (\<lambda>c. lc_id c \<in> set keep) cases)))"

definition rows_on :: "rrow list \<Rightarrow> split_of \<Rightarrow> string \<Rightarrow> rrow list" where
  "rows_on rows sp s = filter (\<lambda>r. side sp (rr_case r) = s) rows"

definition saturated :: "rat option \<Rightarrow> bool" where
  "saturated rate \<longleftrightarrow> (case rate of None \<Rightarrow> False | Some x \<Rightarrow> x \<ge> SATURATED)"

section \<open>Facts about the sign test\<close>

lemma lower_tail_sum: "lower_tail n k = (\<Sum>i\<le>k. n choose i)"
  unfolding lower_tail_def
  by (simp only: interv_sum_list_conv_sum_set_nat atLeast0LessThan lessThan_Suc_atMost set_upt)

lemma lower_tail_mono: "k \<le> k' \<Longrightarrow> lower_tail n k \<le> lower_tail n k'"
  unfolding lower_tail_sum by (rule sum_mono2) auto

lemma lower_tail_pos: "0 < lower_tail n k"
proof -
  have "1 \<le> lower_tail n 0" by (simp add: lower_tail_def)
  then show ?thesis using lower_tail_mono [of 0 k n] by simp
qed

text \<open>
  The exact test is a probability, two-sided, and strictly positive: the more lopsided the discordant cells
  the smaller it is, and two runs in which no cell changed can never be told apart.
\<close>

theorem sign_test_two_sided:
  "0 < sign_test k n \<and> sign_test k n \<le> 1 \<and> sign_test 0 0 = 1
   \<and> (k \<le> n \<longrightarrow> sign_test (n - k) n = sign_test k n)
   \<and> (k \<le> k' \<longrightarrow> 2 * k' \<le> n \<longrightarrow> sign_test k n \<le> sign_test k' n)"
proof (intro conjI impI)
  show "0 < sign_test k n" "sign_test k n \<le> 1" "sign_test 0 0 = 1"
    using lower_tail_pos by (simp_all add: sign_test_def)
  show "sign_test (n - k) n = sign_test k n" if "k \<le> n"
    using that by (simp add: sign_test_def min.commute)
  assume "k \<le> k'" "2 * k' \<le> n"
  then have "min k (n - k) = k" "min k' (n - k') = k'" by auto
  moreover have "of_nat (lower_tail n k) / 2 ^ n \<le> (of_nat (lower_tail n k') / 2 ^ n :: rat)"
    using lower_tail_mono [OF \<open>k \<le> k'\<close>] by (simp add: divide_right_mono)
  ultimately show "sign_test k n \<le> sign_test k' n"
    unfolding sign_test_def by (auto intro!: min.mono mult_left_mono)
qed

theorem sign_test_witness: "sign_test 5 7 = sign_test 2 7 \<and> sign_test 1 7 \<le> sign_test 2 7"
  using sign_test_two_sided [of 2 7 2] sign_test_two_sided [of 1 7 2] by simp

section \<open>Facts about paired cells\<close>

lemma shared_keys_set: "set (shared_keys a b) = set (map fst a) \<inter> set (map fst b)"
  by (auto simp: shared_keys_def map_of_eq_None_iff)

lemma distinct_shared_keys [simp]: "distinct (shared_keys a b)"
  by (simp add: shared_keys_def)

lemma moved_le:
  "c_lost (compare_verdicts n a b) + c_gained (compare_verdicts n a b) \<le> length (shared_keys a b)"
proof -
  have "length (filter P ks) + length (filter Q ks) \<le> length ks" if "\<And>k. \<not> (P k \<and> Q k)" for P Q and ks :: "string list"
    using that by (induction ks) auto
  then show ?thesis by (auto simp: compare_verdicts_def Let_def)
qed

lemma card_moved:
  "length (filter P (shared_keys a b)) = card {k \<in> set (map fst a) \<inter> set (map fst b). P k}"
  using distinct_card [of "filter P (shared_keys a b)"] by (simp add: shared_keys_set)

text \<open>
  Head to head, every shared case is counted once, as lost, gained or unchanged; asking the other way round
  swaps lost and gained and nothing else, so the evidence and the verdict do not depend on who is called the
  incumbent.
\<close>

theorem head_to_head_antisymmetric:
  "c_lost (head_to_head rows a b) = c_gained (head_to_head rows b a)
   \<and> c_gained (head_to_head rows a b) = c_lost (head_to_head rows b a)
   \<and> c_unchanged (head_to_head rows a b) = c_unchanged (head_to_head rows b a)
   \<and> cell_verdict (head_to_head rows a b) = cell_verdict (head_to_head rows b a)
   \<and> discordant (head_to_head rows a b) + c_unchanged (head_to_head rows a b)
       = card ({rr_case r | r. r \<in> set rows \<and> rr_candidate r = a} \<inter> {rr_case r | r. r \<in> set rows \<and> rr_candidate r = b})"
proof -
  let ?x = "by_case rows a" and ?y = "by_case rows b"
  let ?c = "head_to_head rows a b" and ?d = "head_to_head rows b a"
  have keys: "set (map fst (by_case rows c)) = {rr_case r | r. r \<in> set rows \<and> rr_candidate r = c}" for c
    by (force simp: by_case_def)
  have n: "length (shared_keys ?x ?y) = card (set (map fst ?x) \<inter> set (map fst ?y))"
    by (metis shared_keys_set distinct_card distinct_shared_keys)
  have n': "length (shared_keys ?y ?x) = length (shared_keys ?x ?y)"
    by (metis shared_keys_set distinct_card distinct_shared_keys Int_commute)
  have lost: "c_lost ?c = c_gained ?d" and gained: "c_gained ?c = c_lost ?d"
    unfolding head_to_head_def compare_verdicts_def Let_def cell.simps card_moved
    by (rule arg_cong [where f = card], auto)+
  have un: "c_unchanged ?c = length (shared_keys ?x ?y) - c_lost ?c - c_gained ?c"
    by (simp add: head_to_head_def compare_verdicts_def Let_def)
  have un': "c_unchanged ?d = length (shared_keys ?y ?x) - c_lost ?d - c_gained ?d"
    by (simp add: head_to_head_def compare_verdicts_def Let_def)
  have same: "c_unchanged ?c = c_unchanged ?d" using lost gained by (simp add: un un' n' diff_commute)
  have "cell_verdict ?c = cell_verdict ?d"
    using lost gained by (simp add: cell_verdict_def cell_p_def discordant_def add.commute min.commute)
  moreover have "discordant ?c + c_unchanged ?c = card (set (map fst ?x) \<inter> set (map fst ?y))"
    using moved_le [of b ?x ?y, folded head_to_head_def] un n unfolding discordant_def by linarith
  ultimately show ?thesis using lost gained same by (simp only: keys)
qed

section \<open>Facts about the holdout\<close>

lemma drawn_mset: "mset (drawn draw cases) = image_mset (\<lambda>c. (draw c, lc_id c)) (mset cases)"
  by (simp add: drawn_def)

lemma drawn_perm: "mset cases = mset cases' \<Longrightarrow> drawn draw cases = drawn draw cases'"
  unfolding drawn_def by (rule properties_for_sort) (simp_all add: mset_map)

lemma drawn_ids: "set (map snd (drawn draw cases)) = lc_id ` set cases"
  by (force simp: drawn_def)

lemma drawn_distinct: "distinct (map lc_id cases) \<Longrightarrow> distinct (map snd (drawn draw cases))"
proof -
  have "mset (map snd (drawn draw cases)) = mset (map lc_id cases)"
    by (simp add: drawn_mset multiset.map_comp o_def)
  then show "distinct (map lc_id cases) \<Longrightarrow> distinct (map snd (drawn draw cases))" by (metis mset_eq_imp_distinct_iff)
qed

lemma length_drawn [simp]: "length (drawn draw cases) = length cases"
  by (simp add: drawn_def)

lemma holdout_size_bounds:
  "MIN_HOLDOUT + MIN_DEV \<le> length ds \<Longrightarrow> MIN_HOLDOUT \<le> holdout_size ds \<and> holdout_size ds + MIN_DEV \<le> length ds"
  by (auto simp: holdout_size_def MIN_HOLDOUT_def MIN_DEV_def)

lemma take_drop_order:
  "sorted xs \<Longrightarrow> x \<in> set (take n xs) \<Longrightarrow> y \<in> set (drop n xs) \<Longrightarrow> x \<le> (y :: 'a :: linorder)"
  by (metis append_take_drop_id sorted_append)

text \<open>
  The split of a lane is a partition: with enough cases, each is on exactly one side, both sides keep their
  minimum, and no dev case draws below a holdout case; a lane too small to split is decided on all its cases on
  either side. The split depends on the cases only, not on the order they are read in.
\<close>

theorem holdout_partition:
  assumes "distinct (map lc_id cases)"
  shows "(sp_small (assign draw lane cases) \<longleftrightarrow> length cases < MIN_HOLDOUT + MIN_DEV)
    \<and> set (sp_dev (assign draw lane cases)) \<union> set (sp_holdout (assign draw lane cases)) = lc_id ` set cases
    \<and> (\<not> sp_small (assign draw lane cases) \<longrightarrow>
         set (sp_dev (assign draw lane cases)) \<inter> set (sp_holdout (assign draw lane cases)) = {}
         \<and> MIN_HOLDOUT \<le> length (sp_holdout (assign draw lane cases))
         \<and> MIN_DEV \<le> length (sp_dev (assign draw lane cases))
         \<and> (\<forall>c \<in> set cases. \<forall>c' \<in> set cases. lc_id c \<in> set (sp_holdout (assign draw lane cases)) \<longrightarrow>
              lc_id c' \<in> set (sp_dev (assign draw lane cases)) \<longrightarrow> draw c \<le> draw c'))
    \<and> (mset cases' = mset cases \<longrightarrow> assign draw lane cases' = assign draw lane cases)"
proof -
  define ds where "ds = drawn draw cases"
  define n where "n = holdout_size ds"
  have ids: "set (map snd ds) = lc_id ` set cases" and dist: "distinct (map snd ds)" and len: "length ds = length cases"
    using drawn_ids drawn_distinct [OF assms] by (simp_all add: ds_def)
  have perm: "mset cases' = mset cases \<longrightarrow> assign draw lane cases' = assign draw lane cases"
    using drawn_perm [of cases' cases draw] by (simp add: assign_def)
  show ?thesis
  proof (cases "length cases < MIN_HOLDOUT + MIN_DEV")
    case True
    then show ?thesis using perm ids len by (simp add: assign_def ds_def [symmetric] Let_def)
  next
    case False
    note bounds = holdout_size_bounds [of ds, folded n_def]
    have a: "assign draw lane cases = \<lparr>sp_lane = lane, sp_dev = sort (drop n (map snd ds)),
        sp_holdout = sort (take n (map snd ds)), sp_small = False\<rparr>"
      using False by (simp add: assign_def ds_def [symmetric] n_def [symmetric] Let_def len)
    have whole: "set (drop n (map snd ds)) \<union> set (take n (map snd ds)) = lc_id ` set cases"
      unfolding ids [symmetric] by (metis Un_commute append_take_drop_id set_append)
    have apart: "set (drop n (map snd ds)) \<inter> set (take n (map snd ds)) = {}"
      using set_take_disj_set_drop_if_distinct [OF dist, of n n] by blast
    have below: "draw c \<le> draw c'" if here: "c \<in> set cases" "c' \<in> set cases"
      "lc_id c \<in> set (take n (map snd ds))" "lc_id c' \<in> set (drop n (map snd ds))" for c c'
    proof -
      have "sorted ds" by (simp add: ds_def drawn_def)
      have one: "x = (draw k, lc_id k)" if "x \<in> set ds" "snd x = lc_id k" "k \<in> set cases" for x k
        using that assms by (auto simp: ds_def drawn_def distinct_map inj_on_def)
      obtain x y where "x \<in> set (take n ds)" "snd x = lc_id c" "y \<in> set (drop n ds)" "snd y = lc_id c'"
        using here(3,4) unfolding take_map drop_map by auto
      moreover from this have "x = (draw c, lc_id c)" "y = (draw c', lc_id c')"
        using one [of x c] one [of y c'] here(1,2) in_set_takeD in_set_dropD by metis+
      ultimately have "(draw c, lc_id c) \<le> (draw c', lc_id c')" using take_drop_order [OF \<open>sorted ds\<close>] by metis
      then show ?thesis by (auto simp: less_eq_prod_def)
    qed
    show ?thesis
      unfolding a split_of.simps set_sort length_sort
      using False perm [unfolded a] whole apart bounds below by (auto simp: len)
  qed
qed

definition sample_cases :: "lane_case list" where
  "sample_cases = map (\<lambda>i. \<lparr>lc_id = [digit i], lc_lane = ''code''\<rparr>) [4, 0, 5, 1, 3, 2]"

definition sample_draw :: "lane_case \<Rightarrow> rat" where
  "sample_draw c = of_nat (nat_of_digits (lc_id c)) / 5"

theorem holdout_partition_witness:
  "set (sp_dev (assign sample_draw ''code'' sample_cases)) \<inter> set (sp_holdout (assign sample_draw ''code'' sample_cases)) = {}
   \<and> sp_holdout (assign sample_draw ''code'' sample_cases) = [''0'', ''1'', ''2'']"
proof -
  have "distinct (map lc_id sample_cases)" "\<not> length sample_cases < MIN_HOLDOUT + MIN_DEV"
    "sp_holdout (assign sample_draw ''code'' sample_cases) = [''0'', ''1'', ''2'']" by code_simp+
  with holdout_partition [of sample_cases sample_draw "''code''"] show ?thesis by blast
qed

end
