(* ===== verification/GatePower.thy ===== *)
theory GatePower
  imports Paired
begin

text \<open>
  How many repeats the adopt gate needs: \<open>harness/power.py\<close>. Probabilities are exact rationals, so
  \<open>_pmf\<close>, which the code computes through \<open>lgamma\<close>, is the binomial probability itself, and the window of
  twelve standard deviations is compared squared instead of through \<open>sqrt\<close>. The sentences a plan says are the
  constructors of \<open>why\<close>, with the numbers they quote.
\<close>

definition TARGET :: rat where "TARGET = 8 / 10"
definition CAP :: nat where "CAP = 16"
definition DEFAULT_EFFECT :: rat where "DEFAULT_EFFECT = 2 / 10"
definition UNSEEN :: rat where "UNSEEN = 1 / 2"
definition DEFAULT_RHO :: rat where "DEFAULT_RHO = 1"
definition MAX_CASES :: nat where "MAX_CASES = 2000"
definition FALLBACK_REPEAT :: nat where "FALLBACK_REPEAT = 3"
definition MEASURING_REPEAT :: nat where "MEASURING_REPEAT = 2"
definition PLATEAU :: rat where "PLATEAU = 95 / 100"
definition PLATEAU_ABS :: rat where "PLATEAU_ABS = 1 / 100"
definition ALPHA :: rat where "ALPHA = 5 / 100"

definition EFFECT :: "(string \<times> rat) list" where "EFFECT = []"

definition effect_for :: "string \<Rightarrow> rat" where
  "effect_for lane = get_or DEFAULT_EFFECT EFFECT (lower (strip lane))"

section \<open>The rejection threshold\<close>

text \<open>The loop of \<open>_critical\<close> over the \<open>ks\<close> still to look at, with the tail summed so far.\<close>

fun critical_loop :: "nat \<Rightarrow> rat \<Rightarrow> nat list \<Rightarrow> nat \<Rightarrow> nat" where
  "critical_loop d alpha [] tail = d - d div 2"
| "critical_loop d alpha (k # ks) tail =
     (let tail' = tail + (d choose k)
      in if 2 * of_nat tail' > alpha * 2 ^ d then (if k \<noteq> 0 then d - k + 1 else d + 1)
         else critical_loop d alpha ks tail')"

definition critical :: "nat \<Rightarrow> rat \<Rightarrow> nat" where
  "critical d alpha = critical_loop d alpha [0..<d div 2 + 1] 0"

section \<open>Power\<close>

definition design_effect :: "rat \<Rightarrow> rat \<Rightarrow> rat" where
  "design_effect repeat rho = 1 + max 0 (repeat - 1) * min 1 (max 0 rho)"

definition effective_cells :: "nat \<Rightarrow> nat \<Rightarrow> rat \<Rightarrow> nat" where
  "effective_cells cases repeat rho =
     (if cases < 1 \<or> repeat < 1 then 0
      else nat \<lfloor>of_nat (cases * repeat) / design_effect (of_nat repeat) rho + 1 / 10 ^ 9\<rfloor>)"

definition pmf :: "nat \<Rightarrow> nat \<Rightarrow> rat \<Rightarrow> rat" where
  "pmf n k p =
     (if k > n then 0
      else if p = 0 then (if k = 0 then 1 else 0)
      else if p = 1 then (if k = n then 1 else 0)
      else of_nat (n choose k) * p ^ k * (1 - p) ^ (n - k))"

text \<open>\<open>d\<close> lies between \<open>floor(mean - 12 sd) - 1\<close> and \<open>ceil(mean + 12 sd) + 1\<close>, where \<open>sd\<^sup>2\<close> is \<open>var\<close>.\<close>

definition in_window :: "rat \<Rightarrow> rat \<Rightarrow> nat \<Rightarrow> bool" where
  "in_window mean var d \<longleftrightarrow>
     (let a = mean - of_nat d - 2; b = of_nat d - 2 - mean
      in (a < 0 \<or> a ^ 2 < 144 * var) \<and> (b < 0 \<or> b ^ 2 < 144 * var))"

definition power_cells :: "rat \<Rightarrow> rat \<Rightarrow> nat \<Rightarrow> rat \<Rightarrow> rat" where
  "power_cells gain lose n alpha =
     (let disc = gain + lose in
      if n < 1 \<or> disc \<le> 0 \<or> gain \<le> 0 then 0
      else
        (let r = gain / disc; mean = of_nat n * disc; var = of_nat n * disc * (1 - disc);
             term = (\<lambda>d. let need = critical d alpha in
                if need > d then 0 else pmf n d disc * sum_list (map (\<lambda>j. pmf d j r) [need..<d + 1]))
         in min 1 (sum_list (map term (filter (in_window mean var) [1..<n + 1])))))"

definition cell_odds :: "rat list \<Rightarrow> rat \<Rightarrow> rat \<times> rat" where
  "cell_odds rates effect =
     (sum_list (map (\<lambda>p. (1 - p) * min 1 (p + effect)) rates) / of_nat (length rates),
      sum_list (map (\<lambda>p. p * (1 - min 1 (p + effect))) rates) / of_nat (length rates))"

definition gate_power :: "rat list \<Rightarrow> rat \<Rightarrow> nat \<Rightarrow> rat \<Rightarrow> rat \<Rightarrow> rat" where
  "gate_power rates effect repeat alpha rho =
     (if rates = [] \<or> repeat < 1 then 0
      else (let (gain, lose) = cell_odds rates effect
            in power_cells gain lose (effective_cells (length rates) repeat rho) alpha))"

text \<open>\<open>range(1, cap + 1)\<close>.\<close>

definition repeats_upto :: "nat \<Rightarrow> nat list" where
  "repeats_upto cap = [1..<cap + 1]"

definition cases_needed :: "rat list \<Rightarrow> rat \<Rightarrow> rat \<Rightarrow> bool \<Rightarrow> rat \<Rightarrow> rat \<Rightarrow> nat \<Rightarrow> nat \<Rightarrow> nat option" where
  "cases_needed rates effect rho stochastic alpha target cap most =
     (if rates = [] then None
      else (let (gain, lose) = cell_odds rates effect; repeats = (if stochastic then repeats_upto cap else [1]) in
            if gain \<le> 0 then None
            else find (\<lambda>k. list_ex (\<lambda>r. power_cells gain lose (effective_cells k r rho) alpha \<ge> target) repeats)
                   [length rates..<most + 1]))"

section \<open>The correlation of repeats\<close>

text \<open>One candidate's groups: between-group and within-group sums of squares, their degrees of freedom, the
  groups and the draws.\<close>

definition mean_of :: "rat list \<Rightarrow> rat" where
  "mean_of xs = sum_list xs / of_nat (length xs)"

definition candidate_squares :: "rat list list \<Rightarrow> rat \<times> rat" where
  "candidate_squares groups =
     (let centre = mean_of (concat groups)
      in (sum_list (map (\<lambda>g. of_nat (length g) * (mean_of g - centre) ^ 2) groups),
          sum_list (map (\<lambda>g. sum_list (map (\<lambda>y. (y - mean_of g) ^ 2) g)) groups)))"

definition icc :: "rat list list list \<Rightarrow> rat option" where
  "icc by_candidate =
     (let seen = filter (\<lambda>gs. gs \<noteq> []) (map (filter (\<lambda>g. g \<noteq> [])) by_candidate);
          ssb = sum_list (map (\<lambda>gs. fst (candidate_squares gs)) seen);
          ssw = sum_list (map (\<lambda>gs. snd (candidate_squares gs)) seen);
          groups = length (concat seen);
          draws = length (concat (concat seen));
          dfb = groups - length seen;
          dfw = draws - groups
      in if dfb = 0 \<or> dfw = 0 then None
         else (let msb = ssb / of_nat dfb; msw = ssw / of_nat dfw;
                   denom = msb + (of_nat draws / of_nat groups - 1) * msw
               in if denom = 0 then None else Some (max 0 (min 1 ((msb - msw) / denom)))))"

text \<open>\<open>by.setdefault(case, []).append(x)\<close>: groups in the order their first row came.\<close>

fun dict_append :: "'k \<Rightarrow> 'v \<Rightarrow> ('k \<times> 'v list) list \<Rightarrow> ('k \<times> 'v list) list" where
  "dict_append k v [] = [(k, [v])]"
| "dict_append k v ((k', vs) # d) = (if k = k' then (k', vs @ [v]) # d else (k', vs) # dict_append k v d)"

definition draws_of :: "rrow list \<Rightarrow> string \<Rightarrow> (string \<times> rat list) list" where
  "draws_of rows key =
     fold (\<lambda>r d. if rr_candidate r = key then dict_append (base_id (rr_case r)) (if rr_passed r then 1 else 0) d else d)
       rows []"

definition rows_icc :: "rrow list \<Rightarrow> string list \<Rightarrow> rat option \<times> rat" where
  "rows_icc rows names =
     (let cands = map (\<lambda>n. map snd (draws_of rows n)) (rev (remdups (rev names)));
          groups = concat cands
      in (icc cands, if groups = [] then 1 else of_nat (length (concat groups)) / of_nat (length groups)))"

section \<open>The plan\<close>

datatype more_cases = Saturated | NoHoldoutReaches nat rat | AlreadyEnough nat | CasesWouldReach nat nat int

definition more_cases_text :: "rat list \<Rightarrow> rat \<Rightarrow> nat \<Rightarrow> nat option \<Rightarrow> rat \<Rightarrow> more_cases" where
  "more_cases_text rates effect k need target =
     (case need of
        None \<Rightarrow> if rates = [] \<or> fst (cell_odds rates effect) \<le> 0 then Saturated else NoHoldoutReaches MAX_CASES target
      | Some n \<Rightarrow> if n \<le> k then AlreadyEnough k
                  else CasesWouldReach n (n - k) \<lceil>of_nat (n - k) / FRACTION\<rceil>)"

datatype why =
    Enough
  | NoRepeatsHere nat rat more_cases
  | ChosenRepeat nat rat more_cases
  | Correlated rat bool nat rat rat nat more_cases
  | Capped nat rat more_cases
  | CostUnknown nat nat why
  | OverBudget nat rat rat rat nat why

record plan =
  pl_repeat :: nat
  pl_power :: rat
  pl_cells :: nat
  pl_cases :: nat
  pl_effect :: rat
  pl_alpha :: rat
  pl_target :: rat
  pl_cap :: nat
  pl_capped :: bool
  pl_stochastic :: bool
  pl_observed :: nat
  pl_why :: why
  pl_rho :: rat
  pl_measured :: bool
  pl_needed_cases :: "nat option"
  pl_needed_repeat :: "nat option"
  pl_projected :: "rat option"
  pl_budget :: "rat option"

definition plan_enough :: "plan \<Rightarrow> bool" where
  "plan_enough p \<longleftrightarrow> pl_power p \<ge> pl_target p"

definition powers_upto :: "(nat \<Rightarrow> rat) \<Rightarrow> nat \<Rightarrow> (nat \<times> rat) list" where
  "powers_upto at_repeat cap = map (\<lambda>r. (r, at_repeat r)) (repeats_upto cap)"

text \<open>
  The repeat at which the power levels off, when none up to the cap reaches the target. The cap is at least 1
  wherever the code plans.
\<close>

definition plateau :: "(nat \<times> rat) list \<Rightarrow> rat \<Rightarrow> nat" where
  "plateau powers best =
     (case find (\<lambda>(r, got). got \<ge> best * PLATEAU \<or> best - got \<le> PLATEAU_ABS) powers of
        None \<Rightarrow> 0 | Some (r, got) \<Rightarrow> r)"

definition make_plan :: "rat list \<Rightarrow> rat \<Rightarrow> bool \<Rightarrow> rat \<Rightarrow> rat \<Rightarrow> nat \<Rightarrow> nat option \<Rightarrow> nat \<Rightarrow> rat option \<Rightarrow> plan" where
  "make_plan rates effect stochastic alpha target cap chosen observed rho_opt =
     (let k = length rates;
          measured = (rho_opt \<noteq> None);
          rho = (case rho_opt of None \<Rightarrow> DEFAULT_RHO | Some x \<Rightarrow> x);
          need = cases_needed rates effect rho stochastic alpha target cap MAX_CASES;
          at_repeat = (\<lambda>r. gate_power rates effect r alpha rho);
          made = (\<lambda>r got capped why.
            \<lparr>pl_repeat = r, pl_power = got, pl_cells = effective_cells k r rho, pl_cases = k, pl_effect = effect,
             pl_alpha = alpha, pl_target = target, pl_cap = cap, pl_capped = capped, pl_stochastic = stochastic,
             pl_observed = observed, pl_why = why, pl_rho = rho, pl_measured = measured, pl_needed_cases = need,
             pl_needed_repeat = None, pl_projected = None, pl_budget = None\<rparr>);
          more = more_cases_text rates effect k need target
      in if \<not> stochastic then
           (let got = at_repeat 1 in made 1 got False (if got \<ge> target then Enough else NoRepeatsHere k got more))
         else (case (if chosen = Some 0 then None else chosen) of
           Some r \<Rightarrow> (let got = at_repeat r in made r got False (if got \<ge> target then Enough else ChosenRepeat r got more))
         | None \<Rightarrow>
             (let powers = powers_upto at_repeat cap in
              case find (\<lambda>(r, got). got \<ge> target) powers of
                Some (r, got) \<Rightarrow> made r got False Enough
              | None \<Rightarrow>
                  (let best = foldl max (snd (hd powers)) (map snd powers);
                       p = plateau powers best;
                       r = (if measured then p else max p (min MEASURING_REPEAT cap))
                   in if r < cap \<and> rho > 0 then
                        made r (at_repeat r) False (Correlated rho measured cap target best r more)
                      else made cap (at_repeat cap) True (Capped cap (at_repeat cap) more)))))"

definition projected_seconds :: "nat \<Rightarrow> nat \<Rightarrow> rat option \<Rightarrow> nat \<Rightarrow> rat option" where
  "projected_seconds cases repeat median_s candidates =
     map_option (\<lambda>m. of_nat (cases * repeat * candidates) * m) median_s"

text \<open>\<open>within_budget\<close>: \<open>explicit\<close> is a repeat somebody asked for.\<close>

definition within_budget_plan :: "plan \<Rightarrow> rat list \<Rightarrow> nat \<Rightarrow> rat option \<Rightarrow> rat \<Rightarrow> bool \<Rightarrow> plan" where
  "within_budget_plan chosen rates cases_run median_s budget explicit =
     (let cost = (\<lambda>r. projected_seconds cases_run r median_s 2);
          kept = chosen\<lparr>pl_projected := cost (pl_repeat chosen), pl_budget := Some budget,
                        pl_needed_repeat := Some (pl_repeat chosen)\<rparr>;
          cut = (\<lambda>r note.
            (let got = make_plan rates (pl_effect chosen) True (pl_alpha chosen) (pl_target chosen) (pl_cap chosen)
                         (Some r) (pl_observed chosen) (if pl_measured chosen then Some (pl_rho chosen) else None)
             in got\<lparr>pl_needed_repeat := Some (pl_repeat chosen), pl_projected := cost r, pl_budget := Some budget,
                   pl_why := note (pl_why got)\<rparr>))
      in if explicit \<or> \<not> pl_stochastic chosen then kept
         else (case cost (pl_repeat chosen) of
             None \<Rightarrow> (let r = min (pl_repeat chosen) FALLBACK_REPEAT
                      in cut r (CostUnknown (pl_repeat chosen) r))
           | Some c \<Rightarrow>
               if c \<le> budget then kept
               else (let one = (case cost 1 of None \<Rightarrow> 1 | Some x \<Rightarrow> x);
                         r = max 1 (min (min FALLBACK_REPEAT (pl_repeat chosen)) (nat \<lfloor>budget / one\<rfloor>))
                     in cut r (OverBudget (pl_repeat chosen) (pl_power chosen) c budget r))))"

section \<open>Rates\<close>

definition median :: "rat list \<Rightarrow> rat" where
  "median xs =
     (let s = sort xs; n = length xs
      in if odd n then s ! (n div 2) else (s ! (n div 2 - 1) + s ! (n div 2)) / 2)"

definition draws_from :: "rrow list \<Rightarrow> string \<Rightarrow> (string \<times> rat list) list \<times> rat option" where
  "draws_from rows key =
     (let secs = List.map_filter rr_seconds (filter (\<lambda>r. rr_candidate r = key) rows)
      in (draws_of rows key, if secs = [] then None else Some (median secs)))"

text \<open>\<open>control_of\<close>: how many receipts hold a name and how many rows, then the first of the largest by name.\<close>

definition control_count :: "rrow list list \<Rightarrow> string \<Rightarrow> nat \<times> nat" where
  "control_count receipts name =
     (length (filter (\<lambda>rows. name \<in> set (map rr_candidate rows)) receipts),
      length (filter (\<lambda>r. rr_candidate r = name) (concat receipts)))"

definition control_of :: "rrow list list \<Rightarrow> string list \<Rightarrow> string" where
  "control_of receipts prefer =
     (let seen = sort (remdups (map rr_candidate (concat receipts))) in
      case find (\<lambda>n. n \<in> set seen) prefer of
        Some n \<Rightarrow> n
      | None \<Rightarrow>
          (case seen of
             [] \<Rightarrow> []
           | n # ns \<Rightarrow> foldl (\<lambda>best x. if control_count receipts best < control_count receipts x then x else best) n ns))"

definition stratified :: "rat list \<Rightarrow> nat \<Rightarrow> rat list" where
  "stratified values n =
     (let ordered = sort values
      in map (\<lambda>j. ordered ! nat \<lfloor>(of_nat j + 1 / 2) * of_nat (length ordered) / (of_nat n :: rat)\<rfloor>) [0..<n])"

definition draws_at :: "(string \<times> rat list) list \<Rightarrow> string \<Rightarrow> rat list" where
  "draws_at draws c = get_or [] draws c"

definition unmeasured :: "(string \<times> rat list) list \<Rightarrow> string list \<Rightarrow> string list" where
  "unmeasured draws case_ids = filter (\<lambda>c. draws_at draws c = []) case_ids"

definition rates_from :: "(string \<times> rat list) list \<Rightarrow> string list \<Rightarrow> (string \<times> rat) list \<times> nat" where
  "rates_from draws case_ids =
     (let measured = map (\<lambda>(c, v). mean_of v) (filter (\<lambda>(c, v). v \<noteq> []) draws);
          missing = sort (unmeasured draws case_ids);
          fill = (if measured = [] then replicate (length missing) UNSEEN else stratified measured (length missing));
          known = map (\<lambda>c. (c, mean_of (draws_at draws c))) (filter (\<lambda>c. draws_at draws c \<noteq> []) case_ids);
          out = rev (zip missing fill) @ known
      in (map (\<lambda>c. (c, get_or UNSEEN out c)) case_ids, length (concat (map (draws_at draws) case_ids))))"

end
