(* ===== verification/GatePowerFacts.thy ===== *)
theory GatePowerFacts
  imports GatePower
begin

text \<open>
  What the power calculation promises: its rejection threshold is the adopt gate's own sign test, its
  probabilities are probabilities, repeats never count for more than they are worth, and a plan is the
  smallest repeat that reaches the target.
\<close>

section \<open>The threshold is the sign test\<close>

lemma lower_tail_Suc: "lower_tail d (Suc k) = lower_tail d k + (d choose Suc k)"
  by (simp add: lower_tail_sum)

lemma critical_loop_find:
  assumes "tail = (if k = 0 then 0 else lower_tail d (k - 1))"
  shows "critical_loop d alpha [k..<k + n] tail =
    (case find (\<lambda>i. 2 * of_nat (lower_tail d i) > alpha * 2 ^ d) [k..<k + n] of
       None \<Rightarrow> d - d div 2 | Some i \<Rightarrow> if i \<noteq> 0 then d - i + 1 else d + 1)"
  using assms
proof (induction n arbitrary: k tail)
  case (Suc n)
  have upt: "[k..<k + Suc n] = k # [Suc k..<Suc k + n]" by (simp add: upt_rec)
  have tail: "tail + (d choose k) = lower_tail d k"
    using Suc.prems by (cases k) (simp_all add: lower_tail_Suc lower_tail_sum)
  show ?case
    unfolding upt using Suc.IH [of "lower_tail d k" "Suc k"] by (simp add: tail Let_def del: upt_Suc)
qed simp

lemma lower_tail_half: "2 ^ d \<le> 2 * lower_tail d (d div 2)"
proof -
  have "2 ^ d = (\<Sum>i\<le>d. d choose i)" by (rule choose_row_sum [symmetric])
  also have "\<dots> = (\<Sum>i\<le>d div 2. d choose i) + (\<Sum>i \<in> {d div 2 <.. d}. d choose i)"
    by (subst sum.union_disjoint [symmetric]) (auto intro: sum.cong)
  also have "(\<Sum>i \<in> {d div 2 <.. d}. d choose i) = (\<Sum>i \<in> {..< d - d div 2}. d choose i)"
    by (rule sum.reindex_bij_witness [of _ "\<lambda>i. d - i" "\<lambda>i. d - i"]) (auto simp: binomial_symmetric [symmetric])
  also have "\<dots> \<le> (\<Sum>i\<le>d div 2. d choose i)"
    by (rule sum_mono2) auto
  finally show ?thesis by (simp add: lower_tail_sum)
qed

lemma find_upt_least:
  assumes "find P [a..<b] = Some i"
  shows "a \<le> i \<and> i < b \<and> P i \<and> (\<forall>j. a \<le> j \<longrightarrow> j < i \<longrightarrow> \<not> P j)"
proof -
  obtain n where n: "n < b - a" "P (a + n)" "\<forall>j < n. \<not> P (a + j)" "i = a + n"
    using assms by (auto simp: find_Some_iff)
  have "\<not> P j" if "a \<le> j" "j < i" for j
    using n(3,4) that by (metis le_add_diff_inverse nat_add_left_cancel_less)
  then show ?thesis using n by auto
qed

lemma critical_least:
  assumes "alpha < 1"
  obtains k where "k \<le> d div 2" and "critical d alpha = d + 1 - k"
    and "2 * of_nat (lower_tail d k) > alpha * 2 ^ d"
    and "\<And>j. j < k \<Longrightarrow> 2 * of_nat (lower_tail d j) \<le> alpha * 2 ^ d"
proof -
  let ?P = "\<lambda>i. 2 * of_nat (lower_tail d i) > alpha * 2 ^ d"
  have half: "?P (d div 2)"
  proof -
    have "alpha * 2 ^ d < (1 :: rat) * 2 ^ d" using assms by (intro mult_strict_right_mono) simp_all
    also have "\<dots> \<le> 2 * of_nat (lower_tail d (d div 2))"
      using lower_tail_half [of d] by (metis (mono_tags) mult_1 of_nat_le_iff of_nat_mult of_nat_numeral of_nat_power)
    finally show ?thesis .
  qed
  have loop: "critical d alpha = (case find ?P [0..<d div 2 + 1] of
      None \<Rightarrow> d - d div 2 | Some i \<Rightarrow> if i \<noteq> 0 then d - i + 1 else d + 1)"
    using critical_loop_find [of 0 0 d alpha "d div 2 + 1"] by (simp add: critical_def)
  have "find ?P [0..<d div 2 + 1] \<noteq> None" using half by (auto simp: find_None_iff)
  then obtain k where k: "find ?P [0..<d div 2 + 1] = Some k" by auto
  from find_upt_least [OF k] have "k < d div 2 + 1" "?P k" "\<And>j. j < k \<Longrightarrow> \<not> ?P j" by auto
  moreover have "critical d alpha = d + 1 - k" using loop k \<open>k < d div 2 + 1\<close> by (cases "k = 0") simp_all
  ultimately show thesis using that [of k] by (simp add: not_less)
qed

text \<open>
  C10. The threshold the power calculation rejects on is exactly the adopt gate's test, for a level below one and a
  challenger that gained at least as many cells as it lost: with \<open>d\<close> discordant cells, \<open>j\<close> gains (half of them or more) reach \<open>critical d alpha\<close> if and only if the two-sided sign test of those gains is at most \<open>alpha\<close>. (The
  gate's test is two-sided, so with fewer gains than losses it also passes, for losing significantly; the power
  calculation never counts that, see \<open>significant_loss_is_adopted\<close> in \<open>AdoptionFacts\<close>.)
\<close>

theorem critical_is_the_sign_test:
  assumes "alpha < 1" and "d - d div 2 \<le> j" and "j \<le> d"
  shows "critical d alpha \<le> j \<longleftrightarrow> sign_test (d - j) d \<le> alpha"
proof -
  obtain k where k: "k \<le> d div 2" "critical d alpha = d + 1 - k"
    "2 * of_nat (lower_tail d k) > alpha * 2 ^ d" "\<And>i. i < k \<Longrightarrow> 2 * of_nat (lower_tail d i) \<le> alpha * 2 ^ d"
    using critical_least [OF assms(1), of d] by blast
  have "critical d alpha \<le> j \<longleftrightarrow> d - j < k" using k(1,2) assms(2,3) by auto
  also have "\<dots> \<longleftrightarrow> 2 * of_nat (lower_tail d (d - j)) \<le> alpha * 2 ^ d"
  proof
    assume le: "2 * of_nat (lower_tail d (d - j)) \<le> alpha * 2 ^ d"
    show "d - j < k"
    proof (rule ccontr)
      assume "\<not> d - j < k"
      then have "of_nat (lower_tail d k) \<le> (of_nat (lower_tail d (d - j)) :: rat)"
        using lower_tail_mono [of k "d - j" d] by simp
      with le k(3) show False by linarith
    qed
  qed (rule k(4))
  also have "\<dots> \<longleftrightarrow> sign_test (d - j) d \<le> alpha"
  proof (cases "d = 0")
    case True
    then show ?thesis using assms(1) by (simp add: sign_test_def lower_tail_def)
  next
    case False
    have "min (d - j) (d - (d - j)) = d - j" using assms(2,3) by auto
    then show ?thesis using False assms(1) by (auto simp: sign_test_def min_le_iff_disj field_simps)
  qed
  finally show ?thesis .
qed

theorem critical_witness: "critical 8 (5 / 100) = 8 \<and> sign_test 0 8 \<le> 5 / 100 \<and> \<not> sign_test 1 8 \<le> 5 / 100"
proof -
  have "critical 8 (5 / 100) = 8" by code_simp
  with critical_is_the_sign_test [of "5 / 100" 8 8] critical_is_the_sign_test [of "5 / 100" 8 7] show ?thesis by simp
qed

section \<open>Probabilities\<close>

lemma pmf_nonneg: "0 \<le> p \<Longrightarrow> p \<le> 1 \<Longrightarrow> 0 \<le> pmf n k p"
  by (simp add: pmf_def)

lemma sum_list_nonneg': "(\<And>x. x \<in> set xs \<Longrightarrow> 0 \<le> f x) \<Longrightarrow> (0 :: rat) \<le> sum_list (map f xs)"
  by (rule sum_list_nonneg) auto

lemma two_sums_le: "(\<And>x. x \<in> set xs \<Longrightarrow> f x + g x \<le> (1 :: rat)) \<Longrightarrow>
  sum_list (map f xs) + sum_list (map g xs) \<le> of_nat (length xs)"
proof (induction xs)
  case (Cons a xs)
  have "f a + g a \<le> 1" "sum_list (map f xs) + sum_list (map g xs) \<le> of_nat (length xs)"
    using Cons by auto
  then show ?case by simp
qed simp

lemma power_cells_unit:
  assumes "0 \<le> gain" and "0 \<le> lose" and "gain + lose \<le> 1"
  shows "0 \<le> power_cells gain lose n alpha \<and> power_cells gain lose n alpha \<le> 1"
proof (cases "n < 1 \<or> gain + lose \<le> 0 \<or> gain \<le> 0")
  case False
  then have r: "0 \<le> gain / (gain + lose)" "gain / (gain + lose) \<le> 1" using assms by (simp_all add: field_simps)
  have d: "0 \<le> gain + lose" using assms by simp
  show ?thesis
    using False by (auto simp: power_cells_def Let_def simp del: upt_Suc intro!: sum_list_nonneg' mult_nonneg_nonneg pmf_nonneg r d assms(3))
qed (auto simp: power_cells_def Let_def)

lemma cell_odds_unit:
  assumes "rates \<noteq> []" and "\<forall>p \<in> set rates. 0 \<le> p \<and> p \<le> 1" and "0 \<le> effect"
  shows "0 \<le> fst (cell_odds rates effect) \<and> 0 \<le> snd (cell_odds rates effect)
    \<and> fst (cell_odds rates effect) + snd (cell_odds rates effect) \<le> 1"
proof -
  let ?g = "\<lambda>p. (1 - p) * min 1 (p + effect)" and ?l = "\<lambda>p. p * (1 - min 1 (p + effect))"
  have q: "0 \<le> min 1 (p + effect) \<and> min 1 (p + effect) \<le> 1" if "p \<in> set rates" for p
    using assms(2,3) that by auto
  have nonneg: "0 \<le> sum_list (map ?g rates)" "0 \<le> sum_list (map ?l rates)"
    using assms(2) q by (auto intro!: sum_list_nonneg' mult_nonneg_nonneg)
  have each: "?g p + ?l p \<le> 1" if "p \<in> set rates" for p
  proof -
    have "?g p + ?l p = min 1 (p + effect) * (1 - p) + p * (1 - min 1 (p + effect))" by (simp add: algebra_simps)
    also have "\<dots> \<le> 1 * (1 - p) + p * 1"
      using assms(2) that q [OF that] by (intro add_mono mult_mono) auto
    finally show ?thesis by simp
  qed
  have "sum_list (map ?g rates) + sum_list (map ?l rates) \<le> of_nat (length rates)"
    by (rule two_sums_le) (rule each)
  then show ?thesis using nonneg assms(1) by (simp add: cell_odds_def add_divide_distrib [symmetric] field_simps)
qed

lemma power_unit:
  assumes "\<forall>p \<in> set rates. 0 \<le> p \<and> p \<le> 1" and "0 \<le> effect"
  shows "0 \<le> gate_power rates effect repeat alpha rho \<and> gate_power rates effect repeat alpha rho \<le> 1"
proof (cases "rates = [] \<or> repeat < 1")
  case False
  then show ?thesis
    using cell_odds_unit [of rates effect] assms power_cells_unit
    by (cases "cell_odds rates effect") (simp add: gate_power_def)
qed (auto simp: gate_power_def)

lemma design_effect_bounds:
  "1 \<le> repeat \<Longrightarrow> 1 \<le> design_effect repeat rho \<and> design_effect repeat rho \<le> repeat"
proof -
  assume r: "1 \<le> repeat"
  have "(repeat - 1) * min 1 (max 0 rho) \<le> (repeat - 1) * 1" using r by (intro mult_left_mono) auto
  moreover have "0 \<le> (repeat - 1) * min 1 (max 0 rho)" using r by simp
  ultimately show ?thesis using r by (simp add: design_effect_def)
qed

text \<open>
  Repeats of a case are worth something between nothing and themselves: a run of \<open>repeat\<close> draws of each case
  counts for at least the number of cases and at most the number of cells, exactly the former when repeats are
  fully correlated and exactly the latter when they are independent.
\<close>

theorem effective_cells_bounds:
  assumes "1 \<le> repeat" and "1 \<le> cases"
  shows "cases \<le> effective_cells cases repeat rho \<and> effective_cells cases repeat rho \<le> cases * repeat
    \<and> (1 \<le> rho \<longrightarrow> effective_cells cases repeat rho = cases)
    \<and> (rho \<le> 0 \<longrightarrow> effective_cells cases repeat rho = cases * repeat)"
proof -
  define x where "x = of_nat (cases * repeat) / design_effect (of_nat repeat) rho"
  have eff: "effective_cells cases repeat rho = nat \<lfloor>x + 1 / 10 ^ 9\<rfloor>"
    using assms by (simp add: effective_cells_def x_def)
  have d: "1 \<le> design_effect (of_nat repeat) rho" "design_effect (of_nat repeat) rho \<le> of_nat repeat"
    using design_effect_bounds [of "of_nat repeat" rho] assms by simp_all
  have at: "nat \<lfloor>of_nat m + (1 / 10 ^ 9 :: rat)\<rfloor> = m" for m
    by (simp add: floor_add_int [symmetric] floor_eq_iff nat_eq_iff)
  have "of_nat cases \<le> x" using d assms by (simp add: x_def field_simps mult_left_mono)
  moreover have "x \<le> of_nat (cases * repeat)" using d assms by (simp add: x_def field_simps mult_left_mono)
  ultimately have "nat \<lfloor>of_nat cases + (1 / 10 ^ 9 :: rat)\<rfloor> \<le> nat \<lfloor>x + 1 / 10 ^ 9\<rfloor>"
    and "nat \<lfloor>x + 1 / 10 ^ 9\<rfloor> \<le> nat \<lfloor>of_nat (cases * repeat) + (1 / 10 ^ 9 :: rat)\<rfloor>"
    by (intro nat_mono floor_mono add_right_mono; simp)+
  then have bounds: "cases \<le> effective_cells cases repeat rho" "effective_cells cases repeat rho \<le> cases * repeat"
    by (simp_all only: eff at)
  have one: "effective_cells cases repeat rho = cases" if "1 \<le> rho"
  proof -
    have "design_effect (of_nat repeat) rho = of_nat repeat" using that assms by (simp add: design_effect_def)
    then have "x = of_nat cases" using assms by (simp add: x_def)
    then show ?thesis by (simp only: eff at)
  qed
  have zero: "effective_cells cases repeat rho = cases * repeat" if "rho \<le> 0"
  proof -
    have "design_effect (of_nat repeat) rho = 1" using that by (simp add: design_effect_def)
    then have "x = of_nat (cases * repeat)" by (simp add: x_def)
    then show ?thesis by (simp only: eff at)
  qed
  show ?thesis using bounds one zero by blast
qed

theorem effective_cells_witness: "effective_cells 10 4 (1 / 2) = 16 \<and> 10 \<le> effective_cells 10 4 (1 / 2)"
proof -
  have "effective_cells 10 4 (1 / 2) = 16" by code_simp
  with effective_cells_bounds [of 4 10 "1 / 2"] show ?thesis by simp
qed

section \<open>The plan\<close>

lemma find_map_pair:
  "find (\<lambda>(r, got). Q got) (map (\<lambda>r. (r, f r)) rs) = map_option (\<lambda>r. (r, f r)) (find (\<lambda>r. Q (f r)) rs)"
  by (induction rs) auto

lemma foldl_max_member: "foldl max (a :: rat) xs \<in> set (a # xs)"
  by (induction xs arbitrary: a) (auto simp: max_def)

lemma foldl_max_upper: "x \<in> set (a # xs) \<Longrightarrow> (x :: rat) \<le> foldl max a xs"
proof (induction xs arbitrary: a x)
  case (Cons b xs)
  have "a \<le> foldl max (max a b) xs" "b \<le> foldl max (max a b) xs"
    using Cons.IH [of "max a b" "max a b"] by auto
  then show ?case using Cons.IH [of x "max a b"] Cons.prems by auto
qed simp

lemma repeats_upto_iff: "r \<in> set (repeats_upto cap) \<longleftrightarrow> 1 \<le> r \<and> r \<le> cap"
  by (auto simp: repeats_upto_def)

lemma find_repeat_least:
  "find P (repeats_upto cap) = Some i \<Longrightarrow> 1 \<le> i \<and> i \<le> cap \<and> P i \<and> (\<forall>j. 1 \<le> j \<longrightarrow> j < i \<longrightarrow> \<not> P j)"
  using find_upt_least [of P 1 "cap + 1" i] by (auto simp: repeats_upto_def)

lemma plateau_in_range:
  assumes "1 \<le> cap"
  shows "plateau (map (\<lambda>r. (r, f r)) (repeats_upto cap)) (foldl max (f 1) (map f (repeats_upto cap))) \<in> set (repeats_upto cap)"
proof -
  let ?best = "foldl max (f 1) (map f (repeats_upto cap))"
  let ?P = "\<lambda>got. got \<ge> ?best * PLATEAU \<or> ?best - got \<le> PLATEAU_ABS"
  obtain r where "r \<in> set (repeats_upto cap)" "f r = ?best"
    using foldl_max_member [of "f 1" "map f (repeats_upto cap)"] assms by (auto simp: repeats_upto_iff)
  then have "find (\<lambda>r. ?P (f r)) (repeats_upto cap) \<noteq> None" by (auto simp: find_None_iff PLATEAU_ABS_def)
  then obtain i where i: "find (\<lambda>r. ?P (f r)) (repeats_upto cap) = Some i" by auto
  then have "i \<in> set (repeats_upto cap)" using find_repeat_least [OF i] by (auto simp: repeats_upto_iff)
  then show ?thesis unfolding plateau_def find_map_pair i by simp
qed

lemma plan_fields:
  fixes rates effect alpha target rho_opt
  defines "rho \<equiv> (case rho_opt of None \<Rightarrow> DEFAULT_RHO | Some x \<Rightarrow> x)"
  assumes "1 \<le> cap"
  shows "let p = make_plan rates effect True alpha target cap None observed rho_opt;
             reach = find (\<lambda>r. gate_power rates effect r alpha rho \<ge> target) (repeats_upto cap)
         in pl_power p = gate_power rates effect (pl_repeat p) alpha rho \<and> pl_target p = target
            \<and> 1 \<le> pl_repeat p \<and> pl_repeat p \<le> cap
            \<and> (case reach of Some r \<Rightarrow> pl_repeat p = r \<and> pl_why p = Enough | None \<Rightarrow> pl_why p \<noteq> Enough)"
proof -
  let ?at = "\<lambda>r. gate_power rates effect r alpha rho"
  have found: "find (\<lambda>(r, got). got \<ge> target) (powers_upto ?at cap)
      = map_option (\<lambda>r. (r, ?at r)) (find (\<lambda>r. ?at r \<ge> target) (repeats_upto cap))"
    unfolding powers_upto_def by (rule find_map_pair)
  define best where "best = foldl max (?at 1) (map ?at (repeats_upto cap))"
  have hd: "foldl max (snd (hd (powers_upto ?at cap))) (map snd (powers_upto ?at cap)) = best"
    using assms(2) by (simp add: powers_upto_def best_def hd_map o_def repeats_upto_def upt_rec)
  have "plateau (powers_upto ?at cap) best \<in> set (repeats_upto cap)"
    unfolding powers_upto_def best_def by (rule plateau_in_range [OF assms(2)])
  then have p: "1 \<le> plateau (powers_upto ?at cap) best" "plateau (powers_upto ?at cap) best \<le> cap" by (auto simp: repeats_upto_iff)
  show ?thesis
  proof (cases "find (\<lambda>r. ?at r \<ge> target) (repeats_upto cap)")
    case (Some r)
    from find_repeat_least [OF this] have "1 \<le> r" "r \<le> cap" by auto
    then show ?thesis
      unfolding make_plan_def Let_def rho_def [symmetric] by (simp add: found [unfolded Some] Some)
  next
    case None
    then show ?thesis using p assms(2)
      unfolding make_plan_def Let_def rho_def [symmetric]
      by (auto simp: found [unfolded None] None hd)
  qed
qed

text \<open>
  C11. A plan without a chosen repeat takes the smallest repeat up to the cap whose power reaches the target, when
  there is one; when there is none it stays within the cap, reports the power of the repeat it took, and always
  says why. It claims enough power exactly when the repeat it took reaches the target.
\<close>

theorem plan_is_least:
  fixes rates effect alpha target rho_opt cap observed
  defines "rho \<equiv> (case rho_opt of None \<Rightarrow> DEFAULT_RHO | Some x \<Rightarrow> x)"
  defines "p \<equiv> make_plan rates effect True alpha target cap None observed rho_opt"
  assumes "1 \<le> cap"
  shows "1 \<le> pl_repeat p \<and> pl_repeat p \<le> cap
    \<and> pl_power p = gate_power rates effect (pl_repeat p) alpha rho
    \<and> (plan_enough p \<longleftrightarrow> (\<exists>r. 1 \<le> r \<and> r \<le> cap \<and> gate_power rates effect r alpha rho \<ge> target))
    \<and> (plan_enough p \<longrightarrow> (\<forall>r. 1 \<le> r \<longrightarrow> r < pl_repeat p \<longrightarrow> gate_power rates effect r alpha rho < target))
    \<and> (pl_why p = Enough \<longleftrightarrow> plan_enough p)"
proof -
  note f = plan_fields [OF assms(3), of rates effect alpha target observed rho_opt, folded rho_def p_def, unfolded Let_def]
  show ?thesis
  proof (cases "find (\<lambda>r. gate_power rates effect r alpha rho \<ge> target) (repeats_upto cap)")
    case (Some r)
    from find_repeat_least [OF this] f Some show ?thesis by (auto simp: plan_enough_def not_le)
  next
    case None
    then have "\<not> (\<exists>r. 1 \<le> r \<and> r \<le> cap \<and> gate_power rates effect r alpha rho \<ge> target)"
      by (auto simp: find_None_iff repeats_upto_iff)
    with f None show ?thesis by (auto simp: plan_enough_def)
  qed
qed

theorem plan_is_least_witness:
  "1 \<le> pl_repeat (make_plan (replicate 10 (1 / 2)) (1 / 5) True ALPHA TARGET 2 None 0 None)
   \<and> pl_repeat (make_plan (replicate 10 (1 / 2)) (1 / 5) True ALPHA TARGET 2 None 0 None) \<le> 2"
  using plan_is_least [of 2 "replicate 10 (1 / 2)" "1 / 5" ALPHA TARGET 0 None] by simp

section \<open>Rates\<close>

lemma mean_unit: "xs \<noteq> [] \<Longrightarrow> \<forall>x \<in> set xs. 0 \<le> x \<and> x \<le> (1 :: rat) \<Longrightarrow> 0 \<le> mean_of xs \<and> mean_of xs \<le> 1"
proof -
  assume "xs \<noteq> []" "\<forall>x \<in> set xs. 0 \<le> x \<and> x \<le> (1 :: rat)"
  moreover from this(2) have "0 \<le> sum_list xs \<and> sum_list xs \<le> of_nat (length xs)"
    by (induction xs) auto
  ultimately show ?thesis by (simp add: mean_of_def field_simps)
qed

lemma stratified_members: "values \<noteq> [] \<Longrightarrow> set (stratified values n) \<subseteq> set values \<and> length (stratified values n) = n"
proof (rule conjI)
  assume v: "values \<noteq> []"
  have "nat \<lfloor>(of_nat j + 1 / 2) * of_nat (length values) / (of_nat n :: rat)\<rfloor> < length values" if "j < n" for j
  proof -
    have "of_nat (Suc j) \<le> (of_nat n :: rat)" using that by (simp only: of_nat_le_iff Suc_leI)
    then have "(of_nat j + 1 / 2 :: rat) < of_nat n" by simp
    then have "(of_nat j + 1 / 2) * of_nat (length values) < (of_nat n :: rat) * of_nat (length values)"
      using v by (intro mult_strict_right_mono) simp_all
    then have "(of_nat j + 1 / 2) * of_nat (length values) / (of_nat n :: rat) < of_nat (length values)"
      using that by (simp only: pos_divide_less_eq of_nat_0_less_iff mult.commute)
    then show ?thesis using v by (simp add: floor_less_iff nat_less_iff)
  qed
  then have "sort values ! nat \<lfloor>(of_nat j + 1 / 2) * of_nat (length values) / (of_nat n :: rat)\<rfloor> \<in> set (sort values)" if "j < n" for j
    using that by (intro nth_mem) simp
  then show "set (stratified values n) \<subseteq> set values"
    by (auto simp: stratified_def Let_def)
qed (simp add: stratified_def)

lemma map_of_graph: "map_of (map (\<lambda>c. (c, f c)) xs) c = (if c \<in> set xs then Some (f c) else None)"
  by (induction xs) auto

lemma rates_known:
  assumes "c \<in> set case_ids" and "draws_at draws c \<noteq> []"
  shows "map_of (fst (rates_from draws case_ids)) c = Some (mean_of (draws_at draws c))"
proof -
  have "c \<notin> set (sort (unmeasured draws case_ids))" using assms(2) by (simp add: unmeasured_def)
  then have "map_of (rev (zip (sort (unmeasured draws case_ids)) fill)) c = None" for fill :: "rat list"
    by (auto simp: map_of_eq_None_iff dest: set_zip_leftD)
  then show ?thesis using assms by (simp add: rates_from_def Let_def map_of_graph get_or_def map_add_def)
qed

lemma rates_filled:
  assumes "c \<in> set case_ids" and "draws_at draws c = []"
  defines "measured \<equiv> map (\<lambda>(c, v). mean_of v) (filter (\<lambda>(c, v). v \<noteq> []) draws)"
  shows "\<exists>x. map_of (fst (rates_from draws case_ids)) c = Some x
    \<and> (if measured = [] then x = UNSEEN else x \<in> set measured)"
proof -
  define missing where "missing = sort (unmeasured draws case_ids)"
  define fill where "fill = (if measured = [] then replicate (length missing) UNSEEN else stratified measured (length missing))"
  have c: "c \<in> set missing" using assms(1,2) by (simp add: missing_def unmeasured_def)
  have len: "length fill = length missing" using stratified_members [of measured] by (simp add: fill_def)
  have "c \<in> fst ` set (rev (zip missing fill))" using c len by (metis map_fst_zip set_map set_rev)
  then obtain y where y: "map_of (rev (zip missing fill)) c = Some y" by (metis map_of_eq_None_iff not_Some_eq)
  then have "y \<in> set fill" by (auto dest!: map_of_SomeD set_zip_rightD)
  then have "if measured = [] then y = UNSEEN else y \<in> set measured"
    using stratified_members [of measured "length missing"] by (auto simp: fill_def)
  moreover have "map_of (fst (rates_from draws case_ids)) c = Some y"
    using y assms(1) by (simp add: rates_from_def Let_def map_of_graph get_or_def map_add_def
        missing_def [symmetric] measured_def [symmetric] fill_def [symmetric])
  ultimately show ?thesis by blast
qed

text \<open>
  The rates the gate plans on cover exactly the cases asked about, in order, and are rates: a case with draws
  has its own pass rate; one without has the rate of some measured case, or one half when nothing was measured.
\<close>

theorem rates_are_rates:
  assumes "\<forall>(c, v) \<in> set draws. \<forall>x \<in> set v. 0 \<le> x \<and> x \<le> 1" and "distinct (map fst draws)" and "c \<in> set case_ids"
  shows "map fst (fst (rates_from draws case_ids)) = case_ids
    \<and> (\<exists>x. map_of (fst (rates_from draws case_ids)) c = Some x \<and> 0 \<le> x \<and> x \<le> 1
         \<and> (draws_at draws c \<noteq> [] \<longrightarrow> x = mean_of (draws_at draws c))
         \<and> (draws_at draws c = [] \<longrightarrow> x = UNSEEN \<or> (\<exists>(k, v) \<in> set draws. v \<noteq> [] \<and> x = mean_of v)))"
proof (rule conjI)
  show "map fst (fst (rates_from draws case_ids)) = case_ids" by (simp add: rates_from_def Let_def o_def)
  have unit: "0 \<le> mean_of v \<and> mean_of v \<le> 1" if "(k, v) \<in> set draws" "v \<noteq> []" for k v
    using assms(1) that by (intro mean_unit) auto
  show "\<exists>x. map_of (fst (rates_from draws case_ids)) c = Some x \<and> 0 \<le> x \<and> x \<le> 1
         \<and> (draws_at draws c \<noteq> [] \<longrightarrow> x = mean_of (draws_at draws c))
         \<and> (draws_at draws c = [] \<longrightarrow> x = UNSEEN \<or> (\<exists>(k, v) \<in> set draws. v \<noteq> [] \<and> x = mean_of v))"
  proof (cases "draws_at draws c = []")
    case False
    then have "(c, draws_at draws c) \<in> set draws" by (auto simp: draws_at_def get_or_def split: option.splits dest: map_of_SomeD)
    with rates_known [OF assms(3) False] unit False show ?thesis by auto
  next
    case True
    from rates_filled [OF assms(3) True] obtain x where x: "map_of (fst (rates_from draws case_ids)) c = Some x"
      "x = UNSEEN \<or> (\<exists>(k, v) \<in> set draws. v \<noteq> [] \<and> x = mean_of v)" by (auto split: if_splits)
    moreover from x(2) unit have "0 \<le> x \<and> x \<le> 1" by (auto simp: UNSEEN_def)
    ultimately show ?thesis using True by simp
  qed
qed

theorem rates_are_rates_witness:
  "map fst (fst (rates_from [(''a'', [1, 0]), (''b'', [1])] [''c'', ''a''])) = [''c'', ''a'']
   \<and> (\<exists>x. map_of (fst (rates_from [(''a'', [1, 0]), (''b'', [1])] [''c'', ''a''])) ''c'' = Some x \<and> 0 \<le> x \<and> x \<le> 1)"
  using rates_are_rates [of "[(''a'', [1, 0]), (''b'', [1])]" "''c''" "[''c'', ''a'']"] by auto

end
