(* ===== verification/Checks.thy ===== *)
theory Checks
  imports Prelude
begin

text \<open>
  Graders that need no model: personal data by token (\<open>harness/checks/pii.py\<close>), rankings
  (\<open>harness/checks/retrieval.py\<close>) and typed decisions (\<open>harness/checks/decide.py\<close>). A reply arrives parsed:
  reading its JSON is the library's work, and a reply that cannot be read is the error case. \<open>1 / log2 (i + 2)\<close>
  is the parameter \<open>discount i\<close>. The sentences that explain a failure are left to the lists they quote.
\<close>

section \<open>Marked personal data\<close>

definition is_word_char :: "char \<Rightarrow> bool" where
  "is_word_char c \<longleftrightarrow> is_digit c \<or> (CHR ''a'' \<le> c \<and> c \<le> CHR ''z'') \<or> (CHR ''A'' \<le> c \<and> c \<le> CHR ''Z'')"

text \<open>\<open>_TOKEN.finditer\<close>: the start and end of each run of letters and digits, from position \<open>i\<close> on; \<open>start\<close> is the
  beginning of the run being read.\<close>

fun token_spans :: "nat \<Rightarrow> nat option \<Rightarrow> string \<Rightarrow> (nat \<times> nat) list" where
  "token_spans i start [] = (case start of None \<Rightarrow> [] | Some s \<Rightarrow> [(s, i)])"
| "token_spans i start (c # cs) =
     (if is_word_char c then token_spans (Suc i) (Some (case start of None \<Rightarrow> i | Some s \<Rightarrow> s)) cs
      else (case start of None \<Rightarrow> token_spans (Suc i) None cs | Some s \<Rightarrow> (s, i) # token_spans (Suc i) None cs))"

definition hits :: "(int \<times> int) list \<Rightarrow> nat \<times> nat \<Rightarrow> bool" where
  "hits spans t \<longleftrightarrow> list_ex (\<lambda>(s, e). s < int (snd t) \<and> e > int (fst t)) spans"

definition pii_counts :: "string \<Rightarrow> (int \<times> int) list \<Rightarrow> (int \<times> int) list \<Rightarrow> nat \<times> nat \<times> nat" where
  "pii_counts said gold predicted =
     (let ts = token_spans 0 None said
      in (length (filter (\<lambda>t. hits gold t \<and> hits predicted t) ts),
          length (filter (\<lambda>t. hits predicted t \<and> \<not> hits gold t) ts),
          length (filter (\<lambda>t. hits gold t \<and> \<not> hits predicted t) ts)))"

definition PASS_F1 :: rat where "PASS_F1 = 8 / 10"

record pii_result =
  pii_ok :: bool
  pii_f1 :: rat
  pii_tp :: nat
  pii_pred :: nat
  pii_gold :: nat
  pii_precision :: rat
  pii_recall :: rat

definition pii_check :: "(int \<times> int) list option \<Rightarrow> string \<Rightarrow> (int \<times> int) list \<Rightarrow> pii_result option" where
  "pii_check parsed said gold =
     (case parsed of
        None \<Rightarrow> None
      | Some predicted \<Rightarrow>
          (let (tp, fp, fn) = pii_counts said gold predicted;
               den = 2 * tp + fp + fn;
               f1 = (if den \<noteq> 0 then of_nat (2 * tp) / of_nat den else 1)
           in Some \<lparr>pii_ok = (if tp + fn = 0 then fp = 0 else f1 \<ge> PASS_F1), pii_f1 = round_to 4 f1,
                    pii_tp = tp, pii_pred = tp + fp, pii_gold = tp + fn,
                    pii_precision = (if tp + fp \<noteq> 0 then round_to 4 (of_nat tp / of_nat (tp + fp))
                                     else if tp + fn = 0 then 1 else 0),
                    pii_recall = (if tp + fn \<noteq> 0 then round_to 4 (of_nat tp / of_nat (tp + fn)) else 1)\<rparr>))"

section \<open>Rankings\<close>

definition NDCG_AT :: nat where "NDCG_AT = 10"
definition DEFAULT_K :: nat where "DEFAULT_K = 5"

definition first_seen :: "string list \<Rightarrow> string list" where
  "first_seen listing = rev (remdups (rev listing))"

text \<open>The relevant documents are a set; it is not empty where a case is scored.\<close>

definition recall_at :: "string list \<Rightarrow> string list \<Rightarrow> nat \<Rightarrow> rat" where
  "recall_at listing relevant k =
     of_nat (length (filter (\<lambda>d. d \<in> set (take k (first_seen listing))) (remdups relevant)))
       / of_nat (length (remdups relevant))"

definition ndcg_at :: "(nat \<Rightarrow> rat) \<Rightarrow> string list \<Rightarrow> string list \<Rightarrow> nat \<Rightarrow> rat" where
  "ndcg_at discount listing relevant k =
     sum_list (map (\<lambda>(i, d). if d \<in> set relevant then discount i else 0) (enumerate 0 (take k (first_seen listing))))
       / sum_list (map discount [0..<min k (length (remdups relevant))])"

definition retrieval_check :: "(nat \<Rightarrow> rat) \<Rightarrow> string list option \<Rightarrow> string list \<Rightarrow> nat \<Rightarrow> (bool \<times> rat \<times> rat) option" where
  "retrieval_check discount parsed relevant k =
     (case parsed of
        None \<Rightarrow> None
      | Some listing \<Rightarrow>
          Some (recall_at listing relevant k = 1, round_to 4 (recall_at listing relevant k),
                round_to 4 (ndcg_at discount listing relevant NDCG_AT)))"

section \<open>Typed decisions\<close>

text \<open>A JSON scalar as the checker reads it: nothing, a boolean, or anything else by its text.\<close>

datatype raw = RNone | RBool bool | RText string

record field_spec =
  fd_kind :: string
  fd_choices :: "raw list"
  fd_description :: string
  fd_notes :: "(string \<times> string) list"

datatype schema_error =
    BadBooleanChoices
  | BadEnum "string list"
  | BadKind string
  | EmptySchema
  | NotSnakeCase string
  | NoDescription string
  | NoGold string
  | GoldNotAllowed string
  | ExtraAnswers "string list"

definition CODES :: string where
  "CODES = ''ABCDEFGHIJKLMNOPQRSTUVWXYZ''"

definition raw_text :: "raw \<Rightarrow> string" where
  "raw_text r = (case r of RNone \<Rightarrow> ''None'' | RBool b \<Rightarrow> if b then ''True'' else ''False'' | RText s \<Rightarrow> s)"

definition answer_text :: "raw \<Rightarrow> string" where
  "answer_text r = (case r of RBool b \<Rightarrow> if b then ''true'' else ''false'' | _ \<Rightarrow> strip (raw_text r))"

definition choices :: "field_spec \<Rightarrow> schema_error + raw list" where
  "choices f =
     (if fd_kind f = ''boolean'' then
        (let got = (if fd_choices f = [] then [RBool False, RBool True] else fd_choices f)
         in if got = [RBool False, RBool True] \<or> got = [RBool True, RBool False] then Inr got else Inl BadBooleanChoices)
      else if fd_kind f = ''enum'' then
        (let got = map raw_text (fd_choices f)
         in if 1 < length got \<and> length got \<le> length CODES \<and> distinct got then Inr (map RText got) else Inl (BadEnum got))
      else Inl (BadKind (fd_kind f)))"

definition snake_case :: "string \<Rightarrow> bool" where
  "snake_case s \<longleftrightarrow>
     (case s of
        [] \<Rightarrow> False
      | c # cs \<Rightarrow> CHR ''a'' \<le> c \<and> c \<le> CHR ''z''
          \<and> list_all (\<lambda>x. is_digit x \<or> (CHR ''a'' \<le> x \<and> x \<le> CHR ''z'') \<or> x = CHR ''_'') cs)"

fun validate_fields :: "(string \<times> field_spec) list \<Rightarrow> (string \<times> raw) list \<Rightarrow> schema_error option" where
  "validate_fields [] answers = None"
| "validate_fields ((name, f) # rest) answers =
     (if \<not> snake_case name then Some (NotSnakeCase name)
      else (case choices f of
        Inl e \<Rightarrow> Some e
      | Inr allowed \<Rightarrow>
          if strip (fd_description f) = [] then Some (NoDescription name)
          else (case map_of answers name of
                  None \<Rightarrow> Some (NoGold name)
                | Some gold \<Rightarrow>
                    if answer_text gold \<notin> set (map answer_text allowed) then Some (GoldNotAllowed name)
                    else validate_fields rest answers)))"

definition validate :: "(string \<times> field_spec) list \<Rightarrow> (string \<times> raw) list \<Rightarrow> schema_error option" where
  "validate schema answers =
     (if schema = [] then Some EmptySchema
      else (case validate_fields schema answers of
              Some e \<Rightarrow> Some e
            | None \<Rightarrow>
                (let extra = filter (\<lambda>n. n \<notin> set (map fst schema)) (map fst answers)
                 in if extra \<noteq> [] then Some (ExtraAnswers (sort (remdups extra))) else None)))"

text \<open>\<open>code_map\<close>: the letter of each choice, for a field that validates.\<close>

definition allowed_answers :: "field_spec \<Rightarrow> string list" where
  "allowed_answers f = (case choices f of Inl e \<Rightarrow> [] | Inr cs \<Rightarrow> map answer_text cs)"

definition code_map :: "field_spec \<Rightarrow> (string \<times> string) list" where
  "code_map f = zip (map (\<lambda>c. [c]) CODES) (allowed_answers f)"

text \<open>\<open>json_schema\<close>: the letters a constraining server may produce for each field, and the fields it must give.\<close>

definition json_schema :: "(string \<times> field_spec) list \<Rightarrow> (string \<times> string list) list \<times> string list" where
  "json_schema schema = (map (\<lambda>(n, f). (n, map fst (code_map f))) schema, map fst schema)"

definition render_field :: "string \<Rightarrow> field_spec \<Rightarrow> string list" where
  "render_field name f =
     (name @ '': '' @ strip (fd_description f))
       # map (\<lambda>(code, v). ''  '' @ code @ '' = '' @ v
            @ (case map_of (fd_notes f) v of None \<Rightarrow> [] | Some n \<Rightarrow> if n = [] then [] else '': '' @ n)) (code_map f)"

definition quoted :: "string \<Rightarrow> string" where
  "quoted s = CHR 0x22 # s @ [CHR 0x22]"

definition render :: "(string \<times> field_spec) list \<Rightarrow> string" where
  "render schema =
     ''Answer every field below with the letter of exactly one of its choices.'' @ [CHR 0x0A, CHR 0x0A]
       @ join [CHR 0x0A] (concat (map (\<lambda>(n, f). render_field n f) schema))
       @ [CHR 0x0A, CHR 0x0A] @ ''Reply with only a JSON object mapping each field to its letter, like {''
       @ join '', '' (map (\<lambda>(n, f). quoted n @ '': '' @ quoted ''A'') schema) @ ''}.''"

definition upper_char :: "char \<Rightarrow> char" where
  "upper_char c = (if CHR ''a'' \<le> c \<and> c \<le> CHR ''z'' then char_of (of_char c - (32 :: nat)) else c)"

definition strip_quotes :: "string \<Rightarrow> string" where
  "strip_quotes s = rev (dropWhile (\<lambda>c. c = CHR 0x22) (rev (dropWhile (\<lambda>c. c = CHR 0x22) s)))"

definition answer_key :: "raw \<Rightarrow> field_spec \<Rightarrow> string option" where
  "answer_key r f =
     (let codes = code_map f; allowed = map snd codes in
      case r of
        RBool b \<Rightarrow> (let got = answer_text r in if got \<in> set allowed then Some got else None)
      | _ \<Rightarrow>
          (let t = strip (strip_quotes (strip (if r = RNone then [] else raw_text r)));
               code = map_of codes (map upper_char t);
               low = lower t
           in if length t = 1 \<and> code \<noteq> None then code
              else if t \<in> set allowed then Some t
              else if fd_kind f = ''boolean'' \<and> low \<in> set [''true'', ''yes'', ''y''] then Some ''true''
              else if fd_kind f = ''boolean'' \<and> low \<in> set [''false'', ''no'', ''n''] then Some ''false''
              else find (\<lambda>v. lower v = low) allowed))"

text \<open>A probability in a reply: a finite number, one that is not finite, or not a number at all.\<close>

datatype prob = PNum rat | PInfinite | PBad

definition mass_of :: "(string \<times> prob) list \<Rightarrow> field_spec \<Rightarrow> string \<Rightarrow> rat" where
  "mass_of probs f a =
     sum_list (List.map_filter (\<lambda>(k, p). case p of
         PNum v \<Rightarrow> if answer_key (RText k) f = Some a \<and> v \<ge> 0 then Some v else None
       | _ \<Rightarrow> None) probs)"

definition distribution :: "(string \<times> prob) list option \<Rightarrow> field_spec \<Rightarrow> (string \<times> rat) list option" where
  "distribution dist_opt f =
     (case dist_opt of
        None \<Rightarrow> None
      | Some probs \<Rightarrow>
          if probs = [] \<or> list_ex (\<lambda>(k, p). p = PBad) probs then None
          else
            (let got = map (\<lambda>a. (a, mass_of probs f a)) (remdups (allowed_answers f));
                 whole = sum_list (map snd got)
             in if whole \<le> 0 then None else Some (map (\<lambda>(a, v). (a, v / whole)) got)))"

text \<open>A parsed reply: its answers by field and, where it gave them, its probabilities.\<close>

record reply =
  rp_answers :: "(string \<times> raw) list"
  rp_probs :: "(string \<times> (string \<times> prob) list) list"

definition most_likely :: "(string \<times> rat) list \<Rightarrow> string option" where
  "most_likely probs =
     (case probs of
        [] \<Rightarrow> None
      | d # ds \<Rightarrow> Some (fst (foldl (\<lambda>best x. if snd best < snd x then x else best) d ds)))"

definition parse_field :: "reply \<Rightarrow> string \<Rightarrow> field_spec \<Rightarrow> string option \<times> (string \<times> rat) list option" where
  "parse_field body name f =
     (let answer = (case map_of (rp_answers body) name of None \<Rightarrow> None | Some r \<Rightarrow> answer_key r f);
          probs = distribution (map_of (rp_probs body) name) f
      in (case (answer, probs) of (None, Some d) \<Rightarrow> most_likely d | _ \<Rightarrow> answer, probs))"

record field_score =
  fs_answer :: "string option"
  fs_correct :: bool
  fs_brier :: rat
  fs_confidence :: rat
  fs_calibrated :: bool

definition score_field :: "string option \<times> (string \<times> rat) list option \<Rightarrow> raw \<Rightarrow> field_spec \<Rightarrow> field_score" where
  "score_field parsed gold f =
     (let (answer, dist_opt) = parsed;
          allowed = allowed_answers f;
          want = answer_text gold;
          probs = (case dist_opt of Some d \<Rightarrow> d | None \<Rightarrow> map (\<lambda>a. (a, if Some a = answer then 1 else 0)) allowed)
      in \<lparr>fs_answer = answer, fs_correct = (answer = Some want),
          fs_brier = sum_list (map (\<lambda>a. (get_or 0 probs a - (if a = want then 1 else 0)) ^ 2) allowed),
          fs_confidence = (case answer of None \<Rightarrow> 0 | Some a \<Rightarrow> if a = [] then 0 else get_or 0 probs a),
          fs_calibrated = (dist_opt \<noteq> None)\<rparr>)"

definition field_scores :: "reply \<Rightarrow> (string \<times> raw) list \<Rightarrow> (string \<times> field_spec) list \<Rightarrow> field_score list" where
  "field_scores body gold schema =
     map (\<lambda>(name, f). score_field (parse_field body name f) (get_or RNone gold name) f) schema"

text \<open>A token of a completion with its log probability and the alternatives the server listed; a value that is not
  a finite number is \<^term>\<open>None\<close>. \<open>exp\<close> is the parameter \<open>expf\<close>.\<close>

record top_entry =
  te_token :: string
  te_logprob :: "rat option"

record token = top_entry +
  tk_top :: "top_entry list"

text \<open>\<open>_letter\<close>: the one capital letter or digit run a token amounts to.\<close>

definition letter_of :: "string \<Rightarrow> string" where
  "letter_of s =
     (let got = filter is_word_char s
      in if length got = 1 \<and> list_all (\<lambda>c. CHR ''A'' \<le> c \<and> c \<le> CHR ''Z'') got then got else [])"

definition tokens_after_brace :: "token list \<Rightarrow> token list" where
  "tokens_after_brace ts = rev (takeWhile (\<lambda>t. CHR 0x7B \<notin> set (te_token t)) (rev ts))"

definition seen_entries :: "token \<Rightarrow> top_entry list" where
  "seen_entries t =
     (if list_ex (\<lambda>e. letter_of (te_token e) = letter_of (te_token t)) (tk_top t) then tk_top t
      else tk_top t @ [\<lparr>te_token = te_token t, te_logprob = te_logprob t\<rparr>])"

definition entry_mass :: "(rat \<Rightarrow> rat) \<Rightarrow> (string \<times> string) list \<Rightarrow> top_entry list \<Rightarrow> (string \<times> rat) list" where
  "entry_mass expf codes seen =
     foldl (\<lambda>mass e. case (map_of codes (letter_of (te_token e)), te_logprob e) of
              (Some a, Some lp) \<Rightarrow> dict_put a (get_or 0 mass a + expf lp) mass
            | _ \<Rightarrow> mass) [] seen"

definition logprob_field :: "(rat \<Rightarrow> rat) \<Rightarrow> token list \<Rightarrow> nat \<Rightarrow> field_spec \<Rightarrow> string \<Rightarrow> (string \<times> rat) list" where
  "logprob_field expf letters i f answer =
     (if length letters \<le> i then []
      else if map_of (code_map f) (letter_of (te_token (letters ! i))) \<noteq> Some answer then []
      else entry_mass expf (code_map f) (seen_entries (letters ! i)))"

definition from_logprobs :: "(rat \<Rightarrow> rat) \<Rightarrow> (string \<times> raw) list \<Rightarrow> token list \<Rightarrow> (string \<times> field_spec) list \<Rightarrow> reply" where
  "from_logprobs expf body ts schema =
     (let fields = filter (\<lambda>(n, r). map_of schema n \<noteq> None) body;
          letters = filter (\<lambda>t. letter_of (te_token t) \<noteq> []) (tokens_after_brace ts);
          read = List.map_filter (\<lambda>(i, n, r). case map_of schema n of None \<Rightarrow> None
                   | Some f \<Rightarrow> (case answer_key r f of None \<Rightarrow> None | Some a \<Rightarrow> Some (n, a, logprob_field expf letters i f a)))
                   (enumerate 0 fields)
      in \<lparr>rp_answers = map (\<lambda>(n, a, m). (n, RText a)) read,
          rp_probs = List.map_filter (\<lambda>(n, a, m). if m = [] then None else Some (n, map (\<lambda>(k, v). (k, PNum v)) m)) read\<rparr>)"

definition decide_check :: "reply \<Rightarrow> (string \<times> field_spec) list \<Rightarrow> (string \<times> raw) list \<Rightarrow> bool \<times> rat \<times> rat" where
  "decide_check body schema gold =
     (let rows = field_scores body gold schema; n = length rows;
          right = length (filter fs_correct rows)
      in (right = n, round_to 4 (of_nat right / of_nat n), round_to 4 (sum_list (map fs_brier rows) / of_nat n)))"

definition ECE_BINS :: nat where "ECE_BINS = 10"
definition MIN_ECE_N :: nat where "MIN_ECE_N = 100"

definition in_bin :: "nat \<Rightarrow> nat \<Rightarrow> rat \<Rightarrow> bool" where
  "in_bin bins b c \<longleftrightarrow>
     (of_nat b / of_nat bins \<le> c \<and> c < of_nat (b + 1) / of_nat bins) \<or> (b = bins - 1 \<and> c = 1)"

definition bin_error :: "(rat \<times> bool) list \<Rightarrow> rat" where
  "bin_error inside = \<bar>sum_list (map fst inside) / of_nat (length inside)
     - of_nat (length (filter snd inside)) / of_nat (length inside)\<bar>"

definition ece :: "(rat \<times> bool) list \<Rightarrow> nat \<Rightarrow> rat" where
  "ece pairs bins =
     (if pairs = [] then 0
      else sum_list (map (\<lambda>b. let inside = filter (\<lambda>(c, k). in_bin bins b c) pairs
         in if inside = [] then 0 else of_nat (length inside) / of_nat (length pairs) * bin_error inside) [0..<bins]))"

end
