(* ===== verification/ChecksFacts.thy ===== *)
theory ChecksFacts
  imports Checks
begin

text \<open>
  What the graders of \<open>Checks\<close> promise: token counts that partition the text, a recall no repeated document can
  raise, letters that read back as the answers they stand for, and calibration scores that stay in their range.
\<close>

section \<open>Marked personal data\<close>

lemma length_filter_split:
  "length (filter P xs) = length (filter (\<lambda>x. P x \<and> Q x) xs) + length (filter (\<lambda>x. P x \<and> \<not> Q x) xs)"
  by (induction xs) auto

lemma pii_counts_sums:
  assumes "pii_counts said gold predicted = (tp, fp, fn)"
  shows "tp + fn = length (filter (hits gold) (token_spans 0 None said))"
    and "tp + fp = length (filter (hits predicted) (token_spans 0 None said))"
    and "fp = 0 \<and> fn = 0 \<longleftrightarrow> (\<forall>t \<in> set (token_spans 0 None said). hits predicted t = hits gold t)"
proof -
  let ?ts = "token_spans 0 None said"
  have n: "tp = length (filter (\<lambda>t. hits gold t \<and> hits predicted t) ?ts)"
    "fp = length (filter (\<lambda>t. hits predicted t \<and> \<not> hits gold t) ?ts)"
    "fn = length (filter (\<lambda>t. hits gold t \<and> \<not> hits predicted t) ?ts)"
    using assms by (simp_all add: pii_counts_def Let_def)
  show "tp + fn = length (filter (hits gold) ?ts)"
    using length_filter_split [of "hits gold" ?ts "hits predicted"] n by simp
  show "tp + fp = length (filter (hits predicted) ?ts)"
    using length_filter_split [of "hits predicted" ?ts "hits gold"] n by (simp add: conj_commute)
  show "fp = 0 \<and> fn = 0 \<longleftrightarrow> (\<forall>t \<in> set ?ts. hits predicted t = hits gold t)"
    unfolding n by (auto simp: filter_empty_conv)
qed

lemma f1_bounds:
  fixes tp fp fn :: nat
  assumes "2 * tp + fp + fn \<noteq> 0"
  shows "0 \<le> (of_nat (2 * tp) / of_nat (2 * tp + fp + fn) :: rat)"
    and "(of_nat (2 * tp) / of_nat (2 * tp + fp + fn) :: rat) \<le> 1"
    and "(of_nat (2 * tp) / of_nat (2 * tp + fp + fn) :: rat) = 1 \<longleftrightarrow> fp = 0 \<and> fn = 0"
proof -
  have pos: "(0 :: rat) < of_nat (2 * tp + fp + fn)" using assms by (simp only: of_nat_0_less_iff)
  show "0 \<le> (of_nat (2 * tp) / of_nat (2 * tp + fp + fn) :: rat)" by simp
  show "(of_nat (2 * tp) / of_nat (2 * tp + fp + fn) :: rat) \<le> 1"
    using pos by (subst pos_divide_le_eq) (simp_all only: of_nat_le_iff mult_1)
  have "(of_nat (2 * tp) / of_nat (2 * tp + fp + fn) :: rat) = 1 \<longleftrightarrow> (of_nat (2 * tp) :: rat) = of_nat (2 * tp + fp + fn)"
    using pos by (simp add: divide_eq_eq)
  also have "\<dots> \<longleftrightarrow> 2 * tp = 2 * tp + fp + fn" by (simp only: of_nat_eq_iff)
  finally show "(of_nat (2 * tp) / of_nat (2 * tp + fp + fn) :: rat) = 1 \<longleftrightarrow> fp = 0 \<and> fn = 0" by simp
qed

lemma pii_check_total: "\<exists>r. pii_check (Some predicted) said gold = Some r"
  by (cases "pii_counts said gold predicted") (simp add: pii_check_def Let_def)

text \<open>
  A reply that can be read always gets a verdict: the tokens it marks and the tokens that are personal are each
  counted once, the rates follow from those counts, marking exactly the personal tokens passes however the spans
  are cut, and where nothing is personal a single marked token fails.
\<close>

theorem pii_verdict:
  fixes said gold predicted
  defines "ts \<equiv> token_spans 0 None said"
  assumes "pii_check (Some predicted) said gold = Some r"
  shows "pii_gold r = length (filter (hits gold) ts) \<and> pii_pred r = length (filter (hits predicted) ts)
    \<and> pii_tp r \<le> pii_gold r \<and> pii_tp r \<le> pii_pred r
    \<and> ((\<forall>t \<in> set ts. hits predicted t = hits gold t) \<longrightarrow> pii_ok r \<and> pii_f1 r = 1)
    \<and> (filter (hits gold) ts = [] \<longrightarrow> (pii_ok r \<longleftrightarrow> filter (hits predicted) ts = []))"
proof -
  obtain tp fp fn where c: "pii_counts said gold predicted = (tp, fp, fn)" by (cases "pii_counts said gold predicted")
  define f1 :: rat where "f1 = (if 2 * tp + fp + fn \<noteq> 0 then of_nat (2 * tp) / of_nat (2 * tp + fp + fn) else 1)"
  have r: "pii_gold r = tp + fn" "pii_pred r = tp + fp" "pii_tp r = tp" "pii_f1 r = round_to 4 f1"
    "pii_ok r = (if tp + fn = 0 then fp = 0 else f1 \<ge> PASS_F1)"
    using assms(2) by (auto simp: pii_check_def c f1_def Let_def)
  note s = pii_counts_sums [OF c, folded ts_def]
  have all: "pii_ok r \<and> pii_f1 r = 1" if "\<forall>t \<in> set ts. hits predicted t = hits gold t"
  proof -
    have z: "fp = 0" "fn = 0" using s(3) that by auto
    have "f1 = 1" unfolding f1_def z by simp
    then show ?thesis unfolding r using z by (simp add: PASS_F1_def round_to_def py_round_def)
  qed
  have none: "pii_ok r \<longleftrightarrow> filter (hits predicted) ts = []" if "filter (hits gold) ts = []"
  proof -
    have "tp + fn = 0" using s(1) that by simp
    then show ?thesis unfolding r(5) using s(2) by auto
  qed
  show ?thesis using r(1-3) s(1,2) all none by simp
qed

theorem pii_verdict_witness:
  "\<exists>r. pii_check (Some [(4, 11)]) ''I'm Jo Doe, 7'' [(4, 6), (7, 10)] = Some r \<and> pii_ok r \<and> pii_f1 r = 1"
proof -
  obtain r where r: "pii_check (Some [(4, 11)]) ''I'm Jo Doe, 7'' [(4, 6), (7, 10)] = Some r"
    using pii_check_total by blast
  have "token_spans 0 None ''I'm Jo Doe, 7'' = [(0, 1), (2, 3), (4, 6), (7, 10), (12, 13)]" by code_simp
  then have "\<forall>t \<in> set (token_spans 0 None ''I'm Jo Doe, 7''). hits [(4, 11)] t = hits [(4, 6), (7, 10)] t"
    by (simp add: hits_def)
  then show ?thesis using pii_verdict [OF r] r by blast
qed

section \<open>Rankings\<close>

lemma set_first_seen [simp]: "set (first_seen xs) = set xs"
  by (simp add: first_seen_def)

lemma distinct_first_seen [simp]: "distinct (first_seen xs)"
  by (simp add: first_seen_def)

lemma first_seen_snoc: "first_seen (xs @ [x]) = (if x \<in> set xs then first_seen xs else first_seen xs @ [x])"
  by (simp add: first_seen_def)

lemma first_seen_repeat: "set ys \<subseteq> set xs \<Longrightarrow> first_seen (xs @ ys) = first_seen xs"
proof (induction ys rule: rev_induct)
  case (snoc y ys)
  then show ?case using first_seen_snoc [of "xs @ ys" y] by auto
qed simp

text \<open>
  Recall is the share of the relevant documents among the first \<open>k\<close> different ones: it lies between 0 and 1, it
  only grows with \<open>k\<close>, a case passes exactly when every relevant document is there, and naming a document twice
  changes nothing.
\<close>

theorem recall_is_a_share:
  assumes "relevant \<noteq> []" and "k \<le> k'" and "set again \<subseteq> set listing"
  shows "0 \<le> recall_at listing relevant k \<and> recall_at listing relevant k \<le> recall_at listing relevant k'
    \<and> recall_at listing relevant k' \<le> 1
    \<and> (recall_at listing relevant k = 1 \<longleftrightarrow> set relevant \<subseteq> set (take k (first_seen listing)))
    \<and> recall_at (listing @ again) relevant k = recall_at listing relevant k"
proof -
  let ?rel = "remdups relevant"
  let ?hit = "\<lambda>k. filter (\<lambda>d. d \<in> set (take k (first_seen listing))) ?rel"
  have ne: "0 < length ?rel" using assms(1) by simp
  have grow: "length (?hit k) \<le> length (?hit k')"
  proof -
    have "set (take k (first_seen listing)) \<subseteq> set (take k' (first_seen listing))"
      using assms(2) by (rule set_take_subset_set_take)
    then have "filter (\<lambda>d. d \<in> set (take k (first_seen listing))) (?hit k') = ?hit k"
      by (auto intro!: filter_cong)
    then show ?thesis by (metis length_filter_le)
  qed
  have all: "length (?hit k) = length ?rel \<longleftrightarrow> set relevant \<subseteq> set (take k (first_seen listing))"
    by (metis (no_types, lifting) filter_id_conv length_filter_less less_irrefl set_remdups subset_code(1))
  show ?thesis
    using ne grow all first_seen_repeat [OF assms(3)]
    by (auto simp: recall_at_def divide_right_mono divide_le_eq divide_eq_eq)
qed

theorem recall_witness:
  "recall_at [''b'', ''a'', ''b''] [''a'', ''c''] 2 = 1 / 2
    \<and> recall_at ([''b'', ''a'', ''b''] @ [''a'']) [''a'', ''c''] 2 = recall_at [''b'', ''a'', ''b''] [''a'', ''c''] 2"
proof -
  have "recall_at [''b'', ''a'', ''b''] [''a'', ''c''] 2 = 1 / 2" by code_simp
  then show ?thesis using recall_is_a_share [of "[''a'', ''c'']" 2 2 "[''a'']" "[''b'', ''a'', ''b'']"] by simp
qed

section \<open>Typed decisions\<close>

lemma codes_read:
  "\<forall>c \<in> set CODES. strip (strip_quotes (strip [c])) = [c] \<and> map upper_char [c] = [c]
     \<and> strip (strip_quotes (strip (quoted [c]))) = [c] \<and> strip (strip_quotes (strip (lower [c]))) = lower [c]
     \<and> map upper_char (lower [c]) = [c] \<and> length (lower [c]) = 1"
  by code_simp

lemma distinct_CODES: "distinct CODES" and length_CODES: "length CODES = 26"
  by code_simp+

lemma choices_length:
  assumes "choices f = Inr cs"
  shows "length cs \<le> 26" and "2 \<le> length cs"
  using assms by (auto simp: choices_def Let_def length_CODES split: if_splits)

lemma allowed_choices: "choices f = Inr cs \<Longrightarrow> allowed_answers f = map answer_text cs"
  by (simp add: allowed_answers_def)

lemma code_map_nth:
  assumes "choices f = Inr cs" and "i < length cs"
  shows "map_of (code_map f) [CODES ! i] = Some (answer_text (cs ! i))"
proof -
  have l: "length cs \<le> length CODES" using choices_length(1) [OF assms(1)] by (simp add: length_CODES)
  let ?k = "take (length cs) (map (\<lambda>c. [c]) CODES)"
  have "code_map f = zip ?k (map answer_text cs)"
  proof -
    have "code_map f = take (length cs) (code_map f)" by (simp add: code_map_def allowed_choices [OF assms(1)])
    also have "\<dots> = zip ?k (map answer_text cs)"
      by (simp add: code_map_def allowed_choices [OF assms(1)] take_zip)
    finally show ?thesis .
  qed
  moreover have "distinct ?k"
    using distinct_CODES by (simp add: distinct_map inj_on_def distinct_take)
  moreover have "?k ! i = [CODES ! i]" using assms(2) l by simp
  moreover have "length ?k = length (map answer_text cs)" using l by simp
  ultimately show ?thesis using assms(2) map_of_zip_nth [of ?k "map answer_text cs" i] by simp
qed

lemma code_map_values:
  assumes "choices f = Inr cs"
  shows "map snd (code_map f) = allowed_answers f"
  using choices_length(1) [OF assms] by (simp add: code_map_def allowed_choices [OF assms] length_CODES map_snd_zip_take)

lemma answer_key_text:
  assumes "strip (strip_quotes (strip s)) = t" and "length t = 1" and "map_of (code_map f) (map upper_char t) = Some a"
  shows "answer_key (RText s) f = Some a"
  using assms by (simp add: answer_key_def Let_def raw_text_def)

lemma map_of_snd: "map_of xs k = Some v \<Longrightarrow> v \<in> snd ` set xs"
  by (metis image_eqI map_of_SomeD snd_conv)

text \<open>
  Every field that validates has between 2 and 26 choices, the letter the prompt shows for a choice reads back
  as that choice, in either case and with quotes around it, and whatever a model writes is read as one of the
  choices or as no answer.
\<close>

theorem letters_read_back:
  assumes "choices f = Inr cs" and "i < length cs"
  shows "2 \<le> length cs \<and> length cs \<le> 26
    \<and> answer_key (RText [CODES ! i]) f = Some (answer_text (cs ! i))
    \<and> answer_key (RText (lower [CODES ! i])) f = Some (answer_text (cs ! i))
    \<and> answer_key (RText (quoted [CODES ! i])) f = Some (answer_text (cs ! i))
    \<and> (\<forall>r a. answer_key r f = Some a \<longrightarrow> a \<in> set (map answer_text cs))"
proof -
  have "CODES ! i \<in> set CODES"
    using assms(2) choices_length(1) [OF assms(1)] by (intro nth_mem) (simp add: length_CODES)
  note c = bspec [OF codes_read this] and m = code_map_nth [OF assms]
  have "answer_key (RText [CODES ! i]) f = Some (answer_text (cs ! i))"
    by (rule answer_key_text [where t = "[CODES ! i]"]) (use c m in simp_all)
  moreover have "answer_key (RText (lower [CODES ! i])) f = Some (answer_text (cs ! i))"
    by (rule answer_key_text [where t = "lower [CODES ! i]"]) (use c m in simp_all)
  moreover have "answer_key (RText (quoted [CODES ! i])) f = Some (answer_text (cs ! i))"
    by (rule answer_key_text [where t = "[CODES ! i]"]) (use c m in simp_all)
  moreover have "a \<in> set (map answer_text cs)" if "answer_key r f = Some a" for r a
  proof -
    have v: "set (map snd (code_map f)) = set (map answer_text cs)"
      using code_map_values [OF assms(1)] allowed_choices [OF assms(1)] by simp
    have b: "{''true'', ''false''} \<subseteq> set (map answer_text cs)" if "fd_kind f = ''boolean''"
      using assms(1) that by (auto simp: choices_def answer_text_def Let_def split: if_splits)
    show ?thesis
      using \<open>answer_key r f = Some a\<close> v b map_of_snd [of "code_map f" _ a]
      by (auto simp: answer_key_def Let_def find_Some_iff split: raw.splits if_splits)
  qed
  ultimately show ?thesis using choices_length [OF assms(1)] by blast
qed

definition sample_field :: field_spec where
  "sample_field = \<lparr>fd_kind = ''enum'', fd_choices = [RText ''spam'', RText ''ham''], fd_description = ''What it is'', fd_notes = []\<rparr>"

theorem letters_witness: "answer_key (RText ''b'') sample_field = Some ''ham''"
proof -
  have c: "choices sample_field = Inr [RText ''spam'', RText ''ham'']" by code_simp
  have "lower [CODES ! 1] = ''b''" "answer_text ([RText ''spam'', RText ''ham''] ! 1) = ''ham''" by code_simp+
  then show ?thesis using letters_read_back [OF c, of 1] by simp
qed

text \<open>
  What \<open>from_logprobs\<close> writes is an answer, and reading it back takes a one-letter answer for a letter code: a field whose
  choices are themselves letters out of order changes its answer on the way through.
\<close>

theorem letter_choices_flip:
  "let f = sample_field\<lparr>fd_choices := [RText ''B'', RText ''A'']\<rparr>;
       body = from_logprobs (\<lambda>x. x) [(''kind'', RText ''A'')] [] [(''kind'', f)]
   in rp_answers body = [(''kind'', RText ''B'')] \<and> fst (parse_field body ''kind'' f) = Some ''A''"
  by code_simp

section \<open>Calibration\<close>

text \<open>A distribution over answers as the grader keeps it: one share per allowed answer, none negative, adding up to
  at most one.\<close>

definition shares :: "string list \<Rightarrow> (string \<times> rat) list \<Rightarrow> bool" where
  "shares allowed d \<longleftrightarrow>
     map fst d = allowed \<and> (\<forall>(a, v) \<in> set d. 0 \<le> v) \<and> sum_list (map snd d) \<le> 1"

lemma sum_list_nonneg_rat: "(\<And>x. x \<in> set xs \<Longrightarrow> (0 :: rat) \<le> x) \<Longrightarrow> 0 \<le> sum_list xs"
  by (induction xs) auto

lemma member_le_sum_rat: "(\<And>x. x \<in> set xs \<Longrightarrow> (0 :: rat) \<le> x) \<Longrightarrow> y \<in> set xs \<Longrightarrow> y \<le> sum_list xs"
proof (induction xs)
  case (Cons x xs)
  then show ?case using sum_list_nonneg_rat [of xs] by (cases "y = x") (auto intro: order_trans add_increasing)
qed simp

lemma mass_nonneg: "0 \<le> mass_of probs f a"
  unfolding mass_of_def
  by (rule sum_list_nonneg_rat) (auto simp: List.map_filter_def split: prob.splits if_splits)

lemma sum_list_divide: "sum_list (map (\<lambda>x. g x / c) xs) = sum_list (map g xs) / (c :: rat)"
  by (induction xs) (simp_all add: add_divide_distrib)

lemma distribution_shares:
  assumes "distribution given f = Some d"
  shows "shares (remdups (allowed_answers f)) d" and "sum_list (map snd d) = 1"
proof -
  obtain probs where "given = Some probs" using assms by (cases given) (simp_all add: distribution_def)
  define got where "got = map (\<lambda>a. (a, mass_of probs f a)) (remdups (allowed_answers f))"
  define whole where "whole = sum_list (map snd got)"
  have d: "whole > 0" "d = map (\<lambda>(a, v). (a, v / whole)) got"
    using assms by (auto simp: distribution_def Let_def got_def whole_def \<open>given = _\<close> split: if_splits)
  have "sum_list (map snd d) = whole / whole"
    unfolding d(2) whole_def by (simp add: o_def case_prod_unfold sum_list_divide)
  then show one: "sum_list (map snd d) = 1" using d(1) by simp
  have "map fst d = remdups (allowed_answers f)" unfolding d(2) got_def by (simp add: o_def)
  moreover have "\<forall>(a, v) \<in> set d. 0 \<le> v" using d(1) mass_nonneg unfolding d(2) got_def by auto
  ultimately show "shares (remdups (allowed_answers f)) d" using one by (simp add: shares_def)
qed

lemma onehot_sum:
  "distinct xs \<Longrightarrow> sum_list (map (\<lambda>a. if Some a = answer then 1 else 0) xs) = (if answer \<in> Some ` set xs then 1 else 0 :: rat)"
  by (induction xs) auto

lemma get_or_table: "a \<in> set xs \<Longrightarrow> get_or z (map (\<lambda>a. (a, g a)) xs) a = g a"
  by (simp add: get_or_def map_of_map_restrict)

lemma onehot_shares:
  "distinct allowed \<Longrightarrow> shares allowed (map (\<lambda>a. (a, if Some a = answer then 1 else 0)) allowed)"
  by (auto simp: shares_def o_def onehot_sum)

lemma shares_get:
  assumes "shares allowed d" and "distinct allowed"
  shows "map snd d = map (get_or 0 d) allowed" and "0 \<le> get_or 0 d a" and "get_or 0 d a \<le> 1"
proof -
  have k: "map fst d = allowed" "distinct (map fst d)" using assms by (simp_all add: shares_def)
  have pos: "\<And>x. x \<in> set (map snd d) \<Longrightarrow> 0 \<le> x" using assms(1) by (auto simp: shares_def)
  have val: "get_or 0 d (fst x) = snd x" if "x \<in> set d" for x
    using map_of_eq_Some_iff [OF k(2), of "fst x" "snd x"] that by (simp add: get_or_def)
  show "map snd d = map (get_or 0 d) allowed" unfolding k(1) [symmetric] by (simp add: val)
  show "0 \<le> get_or 0 d a" using pos map_of_snd [of d a] by (auto simp: get_or_def split: option.splits)
  have "x \<le> sum_list (map snd d)" if "x \<in> set (map snd d)" for x
    using pos that by (rule member_le_sum_rat)
  then show "get_or 0 d a \<le> 1"
    using assms(1) map_of_snd [of d a] by (fastforce simp: get_or_def shares_def split: option.splits)
qed

lemma brier_sum:
  fixes p :: "string \<Rightarrow> rat"
  assumes "distinct allowed" and "\<And>a. 0 \<le> p a" and "\<And>a. p a \<le> 1"
  shows "sum_list (map (\<lambda>a. (p a - (if a = want then 1 else 0)) ^ 2) allowed)
    \<le> sum_list (map p allowed) + (if want \<in> set allowed then 1 else 0)"
  using assms(1)
proof (induction allowed)
  case (Cons a as)
  have "(p a - (if a = want then 1 else 0)) ^ 2 \<le> p a + (if a = want then 1 else 0)"
  proof -
    have "p a * p a \<le> p a * 1" by (rule mult_left_mono) (use assms in auto)
    then have "p a * p a \<le> p a * 3" using assms(2) [of a] by linarith
    then show ?thesis using \<open>p a * p a \<le> p a * 1\<close> by (auto simp: power2_eq_square algebra_simps)
  qed
  with Cons show ?case by auto
qed simp

text \<open>
  Scoring a field of a reply: the Brier score of its answer lies between 0 and 2 and the confidence between 0 and
  1, whatever probabilities the reply carried. Without usable probabilities a correct answer scores 0 and no answer at
  all scores 1; with them they have been scaled to add up to 1.
\<close>

theorem brier_in_range:
  assumes "choices f = Inr cs" and "distinct (map answer_text cs)" and "answer_text gold \<in> set (map answer_text cs)"
  shows "let got = parse_field body name f; s = score_field got gold f
    in 0 \<le> fs_brier s \<and> fs_brier s \<le> 2 \<and> 0 \<le> fs_confidence s \<and> fs_confidence s \<le> 1
      \<and> (\<not> fs_calibrated s \<and> fs_correct s \<longrightarrow> fs_brier s = 0)
      \<and> (\<not> fs_calibrated s \<and> fs_answer s = None \<longrightarrow> fs_brier s = 1)
      \<and> (\<forall>d. snd got = Some d \<longrightarrow> map fst d = map answer_text cs \<and> sum_list (map snd d) = 1)"
proof -
  define got where "got = parse_field body name f"
  define answer where "answer = fst got"
  define dist where "dist = (case snd got of Some d \<Rightarrow> d | None \<Rightarrow> map (\<lambda>a. (a, if Some a = answer then 1 else 0)) (map answer_text cs))"
  define want where "want = answer_text gold"
  define s where "s = score_field got gold f"
  have al: "allowed_answers f = map answer_text cs" by (rule allowed_choices [OF assms(1)])
  have s: "fs_answer s = answer" "fs_correct s = (answer = Some want)"
    "fs_brier s = sum_list (map (\<lambda>a. (get_or 0 dist a - (if a = want then 1 else 0)) ^ 2) (map answer_text cs))"
    "fs_confidence s = (case answer of None \<Rightarrow> 0 | Some a \<Rightarrow> if a = [] then 0 else get_or 0 dist a)"
    "fs_calibrated s = (snd got \<noteq> None)"
    unfolding s_def score_field_def answer_def want_def al case_prod_unfold Let_def dist_def by simp_all
  have d: "snd got = distribution (map_of (rp_probs body) name) f" by (simp add: got_def parse_field_def Let_def)
  have one: "map fst p = map answer_text cs \<and> sum_list (map snd p) = 1" if "snd got = Some p" for p
    using distribution_shares [OF that [unfolded d]] by (simp add: al assms(2) distinct_remdups_id shares_def)
  have sh: "shares (map answer_text cs) dist"
  proof (cases "snd got")
    case None
    then show ?thesis using onehot_shares [OF assms(2)] by (simp add: dist_def)
  next
    case (Some p)
    have "shares (remdups (allowed_answers f)) p" by (rule distribution_shares(1) [OF Some [unfolded d]])
    then show ?thesis using Some by (simp add: dist_def al distinct_remdups_id [OF assms(2)])
  qed
  note g = shares_get [OF sh assms(2)]
  have total: "sum_list (map (get_or 0 dist) (map answer_text cs)) \<le> 1"
    using sh unfolding shares_def g(1) [symmetric] by simp
  have "fs_brier s \<le> 2"
    using brier_sum [of "map answer_text cs" "get_or 0 dist" want] g(2,3) assms(2) total unfolding s(3) by (simp split: if_splits)
  moreover have "0 \<le> fs_brier s" unfolding s(3) by (rule sum_list_nonneg_rat) auto
  moreover have "0 \<le> fs_confidence s \<and> fs_confidence s \<le> 1" unfolding s(4) using g(2,3) by (auto split: option.splits)
  moreover have onehot: "get_or 0 dist a = (if Some a = answer then 1 else 0)" if "snd got = None" "a \<in> set (map answer_text cs)" for a
    using that(1) unfolding dist_def by (simp only: option.case get_or_table [OF that(2)])
  have "fs_brier s = 0" if "\<not> fs_calibrated s" "fs_correct s"
  proof -
    have z: "map (\<lambda>a. (get_or 0 dist a - (if a = want then 1 else 0)) ^ 2) (map answer_text cs) = map (\<lambda>a. 0) (map answer_text cs)"
      using onehot that by (intro map_cong) (auto simp: s)
    show ?thesis unfolding s(3) z by (simp only: sum_list_0)
  qed
  moreover have "fs_brier s = 1" if "\<not> fs_calibrated s" "fs_answer s = None"
  proof -
    have z: "map (\<lambda>a. (get_or 0 dist a - (if a = want then 1 else 0)) ^ 2) (map answer_text cs)
        = map (\<lambda>a. if Some a = Some want then 1 else 0) (map answer_text cs)"
      using onehot that by (intro map_cong) (auto simp: s)
    show ?thesis unfolding s(3) z onehot_sum [OF assms(2)] using assms(3) by (simp add: want_def)
  qed
  ultimately show ?thesis using one unfolding got_def [symmetric] s_def [symmetric] Let_def by blast
qed

theorem brier_witness:
  "fs_brier (score_field (parse_field \<lparr>rp_answers = [(''kind'', RText ''A'')], rp_probs = []\<rparr> ''kind'' sample_field)
     (RText ''ham'') sample_field) \<le> 2"
proof -
  have c: "choices sample_field = Inr [RText ''spam'', RText ''ham'']" by code_simp
  have h: "distinct (map answer_text [RText ''spam'', RText ''ham''])"
    "answer_text (RText ''ham'') \<in> set (map answer_text [RText ''spam'', RText ''ham''])" by code_simp+
  show ?thesis
    using brier_in_range [OF c h, of "\<lparr>rp_answers = [(''kind'', RText ''A'')], rp_probs = []\<rparr>" "''kind''"]
    unfolding Let_def by blast
qed

section \<open>Expected calibration error\<close>

lemma bin_unique:
  fixes c :: rat
  assumes "0 < bins" and "0 \<le> c" and "c \<le> 1" and "b < bins"
  shows "in_bin bins b c \<longleftrightarrow> b = (if c = 1 then bins - 1 else nat \<lfloor>c * of_nat bins\<rfloor>)"
proof (cases "c = 1")
  case True
  have "\<not> of_nat bins < (of_nat (b + 1) :: rat)" using assms(4) by (simp only: of_nat_less_iff)
  then have "\<not> c < of_nat (b + 1) / of_nat bins" using True assms(1) by (simp add: pos_less_divide_eq)
  then show ?thesis using True unfolding in_bin_def by simp
next
  case False
  have n: "(0 :: rat) < of_nat bins" using assms(1) by simp
  have "in_bin bins b c \<longleftrightarrow> of_nat b \<le> c * of_nat bins \<and> c * of_nat bins < of_nat b + 1"
    using False n by (simp add: in_bin_def pos_divide_le_eq pos_less_divide_eq add.commute)
  also have "\<dots> \<longleftrightarrow> \<lfloor>c * of_nat bins\<rfloor> = int b" by (simp add: floor_eq_iff)
  also have "\<dots> \<longleftrightarrow> b = nat \<lfloor>c * of_nat bins\<rfloor>"
    using assms(2) by (auto simp: nat_eq_iff)
  finally show ?thesis using False by simp
qed

definition bin_of :: "nat \<Rightarrow> rat \<Rightarrow> nat" where
  "bin_of bins c = (if c = 1 then bins - 1 else nat \<lfloor>c * of_nat bins\<rfloor>)"

lemma bin_of_less: "0 < bins \<Longrightarrow> 0 \<le> c \<Longrightarrow> c \<le> 1 \<Longrightarrow> bin_of bins c < bins"
  unfolding bin_of_def by (auto simp: nat_less_iff floor_less_iff)

lemma sum_lengths_filter:
  "(\<And>x. x \<in> set xs \<Longrightarrow> g x < n) \<Longrightarrow> (\<Sum>b \<leftarrow> [0..<n]. length (filter (\<lambda>x. g x = b) xs)) = length xs"
proof (induction xs)
  case (Cons x xs)
  have "(\<Sum>b \<leftarrow> [0..<n]. if g x = b then 1 else 0) = (1 :: nat)"
    using Cons.prems by (simp add: interv_sum_list_conv_sum_set_nat)
  moreover have "(\<Sum>b \<leftarrow> [0..<n]. length (filter (\<lambda>x. g x = b) (x # xs)))
      = (\<Sum>b \<leftarrow> [0..<n]. if g x = b then 1 else 0) + (\<Sum>b \<leftarrow> [0..<n]. length (filter (\<lambda>x. g x = b) xs))"
    unfolding sum_list_addf [symmetric] by (intro arg_cong [where f = sum_list] map_cong) auto
  ultimately show ?case using Cons by simp
qed (simp add: sum_list_0)

lemma sum_list_of_nat: "(\<Sum>x \<leftarrow> xs. of_nat (g x)) = (of_nat (\<Sum>x \<leftarrow> xs. g x) :: rat)"
  by (induction xs) simp_all

lemma mean_in_unit:
  assumes "\<And>x. x \<in> set xs \<Longrightarrow> 0 \<le> x \<and> x \<le> (1 :: rat)" and "xs \<noteq> []"
  shows "0 \<le> sum_list xs / of_nat (length xs)" and "sum_list xs / of_nat (length xs) \<le> 1"
proof -
  have "0 \<le> sum_list xs \<and> sum_list xs \<le> of_nat (length xs)" using assms(1)
  proof (induction xs)
    case (Cons x xs)
    then have "0 \<le> sum_list xs \<and> sum_list xs \<le> of_nat (length xs)" "0 \<le> x \<and> x \<le> 1" by auto
    then show ?case by simp
  qed simp
  then show "0 \<le> sum_list xs / of_nat (length xs)" and "sum_list xs / of_nat (length xs) \<le> 1"
    using assms(2) by (simp_all add: divide_le_eq)
qed

lemma bin_error_unit:
  assumes "\<And>c k. (c, k) \<in> set inside \<Longrightarrow> 0 \<le> c \<and> c \<le> 1" and "inside \<noteq> []"
  shows "0 \<le> bin_error inside" and "bin_error inside \<le> 1"
proof -
  have acc: "0 \<le> (of_nat (length (filter snd inside)) / of_nat (length inside) :: rat)"
    "(of_nat (length (filter snd inside)) / of_nat (length inside) :: rat) \<le> 1"
    using assms(2) by (simp_all add: divide_le_eq length_filter_le)
  have u: "0 \<le> x \<and> x \<le> 1" if "x \<in> set (map fst inside)" for x using that assms(1) by force
  have "0 \<le> sum_list (map fst inside) / of_nat (length inside)" "sum_list (map fst inside) / of_nat (length inside) \<le> 1"
    using mean_in_unit [of "map fst inside"] u assms(2) by (simp_all del: set_map)
  with acc show "0 \<le> bin_error inside" and "bin_error inside \<le> 1" unfolding bin_error_def by linarith+
qed

text \<open>
  The calibration error of decisions whose confidences are probabilities lies between 0 and 1, every decision
  counted in exactly one bin; decisions that are certain and right, or given no confidence and wrong, add nothing.
\<close>

theorem ece_in_range:
  assumes "0 < bins" and "\<forall>(c, k) \<in> set pairs. 0 \<le> c \<and> c \<le> 1"
  shows "0 \<le> ece pairs bins \<and> ece pairs bins \<le> 1
    \<and> (\<forall>(c, k) \<in> set pairs. length (filter (\<lambda>b. in_bin bins b c) [0..<bins]) = 1)
    \<and> ((\<forall>(c, k) \<in> set pairs. c = (if k then 1 else 0)) \<longrightarrow> ece pairs bins = 0)"
proof -
  let ?in = "\<lambda>b. filter (\<lambda>(c, k). in_bin bins b c) pairs"
  let ?n = "of_nat (length pairs) :: rat"
  define part where "part = (\<lambda>b. if ?in b = [] then 0 else of_nat (length (?in b)) / ?n * bin_error (?in b))"
  have unit: "0 \<le> c \<and> c \<le> 1" if "(c, k) \<in> set pairs" for c k using that assms(2) by auto
  have bin: "in_bin bins b c \<longleftrightarrow> bin_of bins c = b" if "(c, k) \<in> set pairs" "b < bins" for b c k
    using bin_unique [OF assms(1) _ _ that(2)] unit [OF that(1)] unfolding bin_of_def by metis
  have ece: "ece pairs bins = (if pairs = [] then 0 else (\<Sum>b \<leftarrow> [0..<bins]. part b))"
    by (simp add: ece_def part_def Let_def)
  have err: "0 \<le> bin_error (?in b) \<and> bin_error (?in b) \<le> 1" if "?in b \<noteq> []" for b
    using bin_error_unit [of "?in b"] that unit by auto
  have t: "0 \<le> part b \<and> part b \<le> of_nat (length (?in b)) / ?n" for b
  proof (cases "?in b = []")
    case True
    then show ?thesis unfolding part_def by simp
  next
    case False
    have w: "0 \<le> of_nat (length (?in b)) / ?n" by simp
    have "of_nat (length (?in b)) / ?n * bin_error (?in b) \<le> of_nat (length (?in b)) / ?n * 1"
      by (rule mult_left_mono [OF _ w]) (use err [OF False] in simp)
    then show ?thesis using False w err [OF False] by (simp add: part_def)
  qed
  have b: "map (\<lambda>b. length (?in b)) [0..<bins] = map (\<lambda>b. length (filter (\<lambda>p. bin_of bins (fst p) = b) pairs)) [0..<bins]"
    by (auto intro!: arg_cong [where f = length] filter_cong simp: bin)
  have whole: "(\<Sum>b \<leftarrow> [0..<bins]. length (?in b)) = length pairs"
    unfolding b by (rule sum_lengths_filter) (use bin_of_less [OF assms(1)] unit in force)
  have "(\<Sum>b \<leftarrow> [0..<bins]. part b) \<le> (\<Sum>b \<leftarrow> [0..<bins]. of_nat (length (?in b)) / ?n)"
    using t by (intro sum_list_mono) simp
  also have "\<dots> = of_nat (\<Sum>b \<leftarrow> [0..<bins]. length (?in b)) / ?n"
    by (simp only: sum_list_divide sum_list_of_nat)
  also have "\<dots> \<le> 1" unfolding whole by simp
  finally have "ece pairs bins \<le> 1" by (simp add: ece)
  moreover have "0 \<le> ece pairs bins" using t by (auto simp: ece intro!: sum_list_nonneg_rat)
  moreover have "length (filter (\<lambda>b. in_bin bins b c) [0..<bins]) = 1" if "(c, k) \<in> set pairs" for c k
  proof -
    have "set (filter (\<lambda>b. in_bin bins b c) [0..<bins]) = {bin_of bins c}"
      using bin [OF that] bin_of_less [OF assms(1)] unit [OF that] by auto
    then show ?thesis using distinct_card [of "filter (\<lambda>b. in_bin bins b c) [0..<bins]"] by simp
  qed
  moreover have "ece pairs bins = 0" if sure: "\<forall>(c, k) \<in> set pairs. c = (if k then 1 else 0)"
  proof -
    have "bin_error (?in b) = 0" for b
    proof -
      have "sum_list (map fst xs) = of_nat (length (filter snd xs))" if "\<forall>(c, k) \<in> set xs. c = (if k then 1 else (0 :: rat))" for xs
        using that by (induction xs) auto
      from this [of "?in b"] show ?thesis using sure by (auto simp: bin_error_def)
    qed
    then have "part = (\<lambda>b. 0)" unfolding part_def by (intro ext) (simp only: mult_zero_right if_cancel)
    then show ?thesis by (simp add: ece sum_list_0)
  qed
  ultimately show ?thesis by auto
qed

theorem ece_witness:
  "ece [(9 / 10, True), (9 / 10, False), (1, True), (0, False)] 10 = 1 / 5
    \<and> ece [(9 / 10, True), (9 / 10, False), (1, True), (0, False)] 10 \<le> 1"
proof -
  have "ece [(9 / 10, True), (9 / 10, False), (1, True), (0, False)] 10 = 1 / 5" by code_simp
  then show ?thesis using ece_in_range [of 10 "[(9 / 10, True), (9 / 10, False), (1, True), (0, False)]"] by simp
qed

end
