(* ===== verification/Claims.thy ===== *)
theory Claims
  imports Prelude
begin

text \<open>
  The claims lane (\<open>harness/checks/claims.py\<close>): the words of a claim, the weight of a word among the reviewed
  claims of a case, the similarity of two claims, the one-to-one matching of emitted claims with reviewed ones, and
  the score of a reply. The natural logarithm and the population standard deviation are the parameters \<open>ln_of\<close> and
  \<open>pstdev\<close>; a reply arrives parsed and validated, \<^term>\<open>None\<close> being one the schema refuses.
\<close>

definition CLAIM_VERDICTS :: "string list" where "CLAIM_VERDICTS = [''good'', ''not_useful'', ''made_up'', ''wrong'']"
definition NEGATIVE :: "string list" where "NEGATIVE = [''made_up'', ''wrong'']"
definition LEGACY :: string where "LEGACY = ''legacy''"
definition INTERFACES :: "string list" where "INTERFACES = [''cited-only'', ''conversation'', LEGACY]"
definition MATCH_THRESHOLD :: rat where "MATCH_THRESHOLD = 1 / 2"
definition MIN_RECALL :: rat where "MIN_RECALL = 1 / 2"
definition NEAR_MISS :: rat where "NEAR_MISS = 15 / 100"

record review =
  rv_user :: string
  rv_claim :: string
  rv_refs :: "int list"
  rv_verdict :: string
  rv_interface :: string

definition interface_of :: "review \<Rightarrow> string" where
  "interface_of r = (if rv_interface r = [] then LEGACY else rv_interface r)"

datatype case_error = NoSystem | NoRefs nat | UnknownVerdict nat string | UnknownInterface nat string
  | EmptyWithReviews | NoReviews

definition validate_review :: "nat \<Rightarrow> review \<Rightarrow> case_error option" where
  "validate_review n r =
     (if rv_verdict r \<notin> set CLAIM_VERDICTS then Some (UnknownVerdict n (rv_verdict r))
      else if rv_refs r = [] then Some (NoRefs n)
      else if interface_of r \<notin> set INTERFACES then Some (UnknownInterface n (rv_interface r))
      else None)"

definition validate_case :: "string \<Rightarrow> review list \<Rightarrow> bool \<Rightarrow> case_error option" where
  "validate_case system reviews expect_empty =
     (if strip system = [] then Some NoSystem
      else (case List.map_filter (\<lambda>(n, r). validate_review n r) (enumerate 0 reviews) of
              e # _ \<Rightarrow> Some e
            | [] \<Rightarrow> if expect_empty \<and> reviews \<noteq> [] then Some EmptyWithReviews
                    else if \<not> expect_empty \<and> reviews = [] then Some NoReviews else None))"

section \<open>Words\<close>

definition word_char :: "char \<Rightarrow> bool" where
  "word_char c \<longleftrightarrow> is_digit c \<or> (CHR ''a'' \<le> c \<and> c \<le> CHR ''z'')"

text \<open>\<open>_WORD.split\<close> without its empty parts; \<open>acc\<close> is the word being read, reversed.\<close>

fun word_runs :: "string \<Rightarrow> string \<Rightarrow> string list" where
  "word_runs acc [] = (if acc = [] then [] else [rev acc])"
| "word_runs acc (c # cs) =
     (if word_char c then word_runs (c # acc) cs
      else if acc = [] then word_runs [] cs else rev acc # word_runs [] cs)"

definition tokens :: "string \<Rightarrow> string list" where
  "tokens s = word_runs [] (lower s)"

definition STOPWORDS :: "string list" where
  "STOPWORDS = split_words ''a an and are as at be been by did do does for from has have in into is it its of on or rather than that the their there these this those to was were which with''"

definition FRAMING :: "string list" where
  "FRAMING = split_words ''i me my mine we our us you your they them he him his she her member members user users say says said mention mentions mentioned note notes noted state states stated report reports reported''"

definition NUMBERS :: "(string \<times> string) list" where
  "NUMBERS = zip (split_words ''zero one two three four five six seven eight nine ten eleven twelve thirteen fourteen fifteen sixteen seventeen eighteen nineteen twenty'') (map decimal [0..<21])"

definition NEGATIONS :: "(string \<times> string list) list" where
  "NEGATIONS = [(''lacks'', [''not'']), (''lack'', [''not'']), (''no'', [''not'']), (''t'', [])]
     @ map (\<lambda>w. (w, [''not''])) (split_words ''aren didn doesn don hasn haven isn wasn weren won'')"

text \<open>\<open>_HANDLE\<close>: four hex digits, at least one a letter and at least one a digit.\<close>

definition is_handle :: "string \<Rightarrow> bool" where
  "is_handle t \<longleftrightarrow> length t = 4 \<and> list_all (\<lambda>c. is_digit c \<or> (CHR ''a'' \<le> c \<and> c \<le> CHR ''f'')) t
     \<and> list_ex is_digit t \<and> list_ex (\<lambda>c. \<not> is_digit c) t"

definition stem_suffix :: "string \<Rightarrow> string \<Rightarrow> bool" where
  "stem_suffix t sx \<longleftrightarrow> suffix sx t \<and> \<not> suffix ''ss'' t \<and> 3 \<le> length t - length sx"

definition stem :: "string \<Rightarrow> string" where
  "stem t =
     (if list_ex is_digit t then t
      else
        let u = (case find (stem_suffix t) [''ing'', ''ed'', ''es'', ''s''] of
                   None \<Rightarrow> t | Some sx \<Rightarrow> take (length t - length sx) t)
        in if suffix ''e'' u \<and> 3 < length u then butlast u else u)"

definition content_token :: "string \<Rightarrow> string list" where
  "content_token t0 =
     (let t = get_or t0 NUMBERS t0 in
      case map_of NEGATIONS t of
        Some ws \<Rightarrow> ws
      | None \<Rightarrow> if t \<in> set STOPWORDS \<or> t \<in> set FRAMING \<or> is_handle t then [] else [stem t])"

definition content_tokens :: "string \<Rightarrow> string list" where
  "content_tokens s = concat (map content_token (tokens s))"

section \<open>Similarity\<close>

definition shared_count :: "string list \<Rightarrow> string list \<Rightarrow> string \<Rightarrow> nat" where
  "shared_count a b t = min (count_list a t) (count_list b t)"

definition dice :: "string \<Rightarrow> string \<Rightarrow> rat" where
  "dice a b =
     (let ta = tokens a; tb = tokens b
      in if ta = [] \<and> tb = [] then 0
         else 2 * of_nat (sum_list (map (shared_count ta tb) (remdups ta))) / of_nat (length ta + length tb))"

definition first_of_each :: "'a list \<Rightarrow> 'a list" where
  "first_of_each xs = rev (remdups (rev xs))"

definition weights :: "(rat \<Rightarrow> rat) \<Rightarrow> string list \<Rightarrow> string \<Rightarrow> rat" where
  "weights ln_of corpus t =
     (let docs = map content_tokens (first_of_each corpus);
          df = length (filter (\<lambda>d. t \<in> set d) docs)
      in ln_of (1 + of_nat (length docs) / of_nat (max df 1)))"

definition weigh :: "(string \<Rightarrow> rat) \<Rightarrow> (string \<Rightarrow> nat) \<Rightarrow> string list \<Rightarrow> rat" where
  "weigh w n ts = sum_list (map (\<lambda>t. w t * of_nat (n t)) (remdups ts))"

definition similarity :: "(string \<Rightarrow> rat) \<Rightarrow> string \<Rightarrow> string \<Rightarrow> rat" where
  "similarity w a b =
     (let ca = content_tokens a; cb = content_tokens b;
          whole = weigh w (\<lambda>t. count_list ca t + count_list cb t) (ca @ cb)
      in if whole = 0 then 0 else 2 * weigh w (shared_count ca cb) (ca @ cb) / whole)"

section \<open>Matching\<close>

type_synonym emitted_claim = "string \<times> string \<times> int list"
type_synonym scored_pair = "rat \<times> nat \<times> nat"

definition may_match :: "emitted_claim \<Rightarrow> review \<Rightarrow> bool" where
  "may_match e r \<longleftrightarrow> fst e = rv_user r \<and> set (snd (snd e)) \<inter> set (rv_refs r) \<noteq> {}"

definition candidate_pairs :: "emitted_claim list \<Rightarrow> review list \<Rightarrow> rat \<Rightarrow> (string \<Rightarrow> string \<Rightarrow> rat) \<Rightarrow> scored_pair list" where
  "candidate_pairs emitted reviewed threshold sim =
     concat (map (\<lambda>(i, e). List.map_filter (\<lambda>(j, r).
         if may_match e r \<and> sim (fst (snd e)) (rv_claim r) \<ge> threshold
         then Some (sim (fst (snd e)) (rv_claim r), i, j) else None) (enumerate 0 reviewed)) (enumerate 0 emitted))"

definition best_first :: "scored_pair list \<Rightarrow> scored_pair list" where
  "best_first ps = sort_key (\<lambda>(s, i, j). (- s, i, j)) ps"

fun take_pairs :: "nat list \<Rightarrow> nat list \<Rightarrow> scored_pair list \<Rightarrow> (nat \<times> nat \<times> rat) list" where
  "take_pairs used_i used_j [] = []"
| "take_pairs used_i used_j ((s, i, j) # ps) =
     (if i \<in> set used_i \<or> j \<in> set used_j then take_pairs used_i used_j ps
      else (i, j, s) # take_pairs (i # used_i) (j # used_j) ps)"

definition match :: "emitted_claim list \<Rightarrow> review list \<Rightarrow> rat \<Rightarrow> (string \<Rightarrow> string \<Rightarrow> rat) \<Rightarrow> (nat \<times> nat \<times> rat) list" where
  "match emitted reviewed threshold sim =
     sort (take_pairs [] [] (best_first (candidate_pairs emitted reviewed threshold sim)))"

definition near_misses :: "emitted_claim list \<Rightarrow> review list \<Rightarrow> (nat \<times> nat \<times> rat) list \<Rightarrow> (string \<Rightarrow> rat) \<Rightarrow> nat" where
  "near_misses emitted reviews pairs w =
     (let used_i = map fst pairs; used_j = map (fst \<circ> snd) pairs; floor = MATCH_THRESHOLD - NEAR_MISS
      in length (filter (\<lambda>(j, r). j \<notin> set used_j \<and> rv_verdict r = ''good''
           \<and> list_ex (\<lambda>(i, e). i \<notin> set used_i \<and> may_match e r \<and> similarity w (fst (snd e)) (rv_claim r) \<ge> floor)
               (enumerate 0 emitted)) (enumerate 0 reviews)))"

section \<open>The score\<close>

datatype claims_reason = EmittedRejected "(nat \<times> string) list" | UnderRecall rat nat
datatype claims_knob = MatchThresholdKnob | MinRecallKnob

record claims_score =
  cs_reviewed_matched :: nat
  cs_unreviewed :: nat
  cs_good_found :: nat
  cs_good_total :: nat
  cs_bad_matched :: nat
  cs_recall :: rat
  cs_precision :: rat
  cs_pass :: bool
  cs_near_miss :: nat
  cs_verbatim :: nat

definition score_interface :: "emitted_claim list \<Rightarrow> review list \<Rightarrow> (string \<Rightarrow> rat) \<Rightarrow> claims_score \<times> (claims_reason \<times> claims_knob option) option" where
  "score_interface emitted reviews w =
     (let pairs = match emitted reviews MATCH_THRESHOLD (similarity w);
          verdicts = map (\<lambda>(i, j, s). rv_verdict (reviews ! j)) pairs;
          good_total = length (filter (\<lambda>r. rv_verdict r = ''good'') reviews);
          good = count_list verdicts ''good'';
          bad = sum_list (map (count_list verdicts) NEGATIVE);
          recall = (if good_total \<noteq> 0 then of_nat good / of_nat good_total else 1);
          near = near_misses emitted reviews pairs w;
          why = (if bad \<noteq> 0 then
                   Some (EmittedRejected (filter (\<lambda>(n, v). n \<noteq> 0) (map (\<lambda>v. (count_list verdicts v, v)) NEGATIVE)), None)
                 else if good_total \<noteq> 0 \<and> recall < MIN_RECALL then
                   Some (UnderRecall recall good_total, Some (if near \<noteq> 0 then MatchThresholdKnob else MinRecallKnob))
                 else None)
      in (\<lparr>cs_reviewed_matched = length pairs, cs_unreviewed = length emitted - length pairs, cs_good_found = good,
           cs_good_total = good_total, cs_bad_matched = bad, cs_recall = round_to 4 recall,
           cs_precision = (if pairs = [] then 0 else round_to 4 (of_nat good / of_nat (length pairs))),
           cs_pass = (why = None), cs_near_miss = near,
           cs_verbatim = length (filter (\<lambda>(i, j, s). s \<ge> 1) pairs)\<rparr>, why))"

datatype claims_verdict =
    SchemaInvalid
  | EmptyCase bool nat
  | Reviewed bool "(string \<times> claims_reason \<times> claims_knob option) option" "(string \<times> claims_score) list"

definition claims_check :: "(rat \<Rightarrow> rat) \<Rightarrow> emitted_claim list option \<Rightarrow> review list \<Rightarrow> bool \<Rightarrow> claims_verdict" where
  "claims_check ln_of parsed reviews expect_empty =
     (case parsed of
        None \<Rightarrow> SchemaInvalid
      | Some emitted \<Rightarrow>
          if expect_empty then EmptyCase (emitted = []) (length emitted)
          else
            (let w = weights ln_of (map rv_claim reviews);
                 scored = map (\<lambda>k. (k, score_interface emitted (filter (\<lambda>r. interface_of r = k) reviews) w))
                            (sort (remdups (map interface_of reviews)));
                 reasons = List.map_filter (\<lambda>(k, m, why). case why of None \<Rightarrow> None | Some (r, l) \<Rightarrow> Some (k, r, l)) scored
             in Reviewed (reasons = []) (case reasons of [] \<Rightarrow> None | x # _ \<Rightarrow> Some x) (map (\<lambda>(k, m, why). (k, m)) scored)))"

definition claims_ok :: "claims_verdict \<Rightarrow> bool" where
  "claims_ok v = (case v of SchemaInvalid \<Rightarrow> False | EmptyCase kept n \<Rightarrow> kept | Reviewed ok why by \<Rightarrow> ok)"

section \<open>The paraphrase control\<close>

record control_item =
  ci_case :: string
  ci_reviewed :: string
  ci_reword :: string
  ci_different :: string

definition control_sim :: "(rat \<Rightarrow> rat) \<Rightarrow> control_item list \<Rightarrow> bool \<Rightarrow> control_item \<Rightarrow> string \<Rightarrow> string \<Rightarrow> rat" where
  "control_sim ln_of items plain it =
     (if plain then dice
      else similarity (weights ln_of (map ci_reviewed (filter (\<lambda>x. ci_case x = ci_case it) items))))"

definition control_hits :: "(rat \<Rightarrow> rat) \<Rightarrow> control_item list \<Rightarrow> rat \<Rightarrow> bool \<Rightarrow> (control_item \<Rightarrow> string) \<Rightarrow> nat" where
  "control_hits ln_of items threshold plain kind =
     length (filter (\<lambda>it. match [(''u'', kind it, [1])]
         [\<lparr>rv_user = ''u'', rv_claim = ci_reviewed it, rv_refs = [1], rv_verdict = [], rv_interface = []\<rparr>]
         threshold (control_sim ln_of items plain it) \<noteq> []) items)"

definition control_scores :: "(rat \<Rightarrow> rat) \<Rightarrow> control_item list \<Rightarrow> bool \<Rightarrow> (control_item \<Rightarrow> string) \<Rightarrow> rat list" where
  "control_scores ln_of items plain kind = map (\<lambda>it. control_sim ln_of items plain it (kind it) (ci_reviewed it)) items"

record control_report =
  cr_n :: nat
  cr_reword_matched :: nat
  cr_different_matched :: nat
  cr_reword_min :: rat
  cr_different_max :: rat
  cr_gap :: rat
  cr_spread :: rat

definition paraphrase_control :: "(rat \<Rightarrow> rat) \<Rightarrow> (rat list \<Rightarrow> rat) \<Rightarrow> control_item list \<Rightarrow> rat \<Rightarrow> bool \<Rightarrow> control_report option" where
  "paraphrase_control ln_of pstdev items threshold plain =
     (if items = [] then None
      else
        (let re = control_scores ln_of items plain ci_reword; di = control_scores ln_of items plain ci_different;
             lo = round_to 4 (fold min (tl re) (hd re)); hi = round_to 4 (fold max (tl di) (hd di))
         in Some \<lparr>cr_n = length items, cr_reword_matched = control_hits ln_of items threshold plain ci_reword,
              cr_different_matched = control_hits ln_of items threshold plain ci_different,
              cr_reword_min = lo, cr_different_max = hi, cr_gap = round_to 4 (lo - hi),
              cr_spread = round_to 4 (max (pstdev re) (pstdev di))\<rparr>))"

end
