(* ===== verification/ClaimsFacts.thy ===== *)
theory ClaimsFacts
  imports Claims
begin

text \<open>
  What the claims lane promises: a symmetric similarity between 0 and 1, a one-to-one matching no pair of claims could
  improve on, and a score that counts every emitted claim once. A positive word weight is the interface
  \<open>word_weight\<close>; the weight used when none is given is one.
\<close>

section \<open>Similarity\<close>

lemma weigh_sum: "weigh w n ts = (\<Sum>t \<in> set ts. w t * of_nat (n t))"
  using sum.distinct_set_conv_list [of "remdups ts" "\<lambda>t. w t * of_nat (n t)"] by (simp add: weigh_def)

locale word_weight =
  fixes w :: "string \<Rightarrow> rat"
  assumes positive: "0 < w t"
begin

lemma weigh_mono:
  assumes "\<And>t. t \<in> set ts \<Longrightarrow> m t \<le> n t"
  shows "weigh w m ts \<le> weigh w n ts"
  unfolding weigh_sum by (rule sum_mono) (use positive assms less_imp_le in \<open>simp add: mult_left_mono less_imp_le\<close>)

lemma weigh_eq_iff:
  assumes "\<And>t. t \<in> set ts \<Longrightarrow> m t \<le> n t"
  shows "weigh w m ts = weigh w n ts \<longleftrightarrow> (\<forall>t \<in> set ts. m t = n t)"
proof
  assume eq: "weigh w m ts = weigh w n ts"
  have "w t * of_nat (m t) = w t * of_nat (n t)" if "t \<in> set ts" for t
    using sum_mono_inv [OF eq [unfolded weigh_sum] _ that] assms positive by (simp add: mult_left_mono less_imp_le)
  then show "\<forall>t \<in> set ts. m t = n t" using positive by (metis less_irrefl mult_cancel_left of_nat_eq_iff)
qed (simp add: weigh_sum)

lemma weigh_nonneg: "0 \<le> weigh w n ts"
  unfolding weigh_sum by (rule sum_nonneg) (use positive in \<open>simp add: less_imp_le\<close>)

lemma weigh_zero_iff: "weigh w n ts = 0 \<longleftrightarrow> (\<forall>t \<in> set ts. n t = 0)"
  using weigh_eq_iff [of ts "\<lambda>t. 0" n] by (auto simp: weigh_sum)

lemma whole_zero: "weigh w (\<lambda>t. count_list a t + count_list b t) (a @ b) = 0 \<longleftrightarrow> a = [] \<and> b = []"
proof
  assume "weigh w (\<lambda>t. count_list a t + count_list b t) (a @ b) = 0"
  then have "\<forall>t \<in> set (a @ b). count_list a t = 0 \<and> count_list b t = 0" by (simp add: weigh_zero_iff)
  then show "a = [] \<and> b = []" by (cases a; cases b) auto
qed (simp add: weigh_sum)

lemma weigh_double: "2 * weigh w n ts = weigh w (\<lambda>t. 2 * n t) ts"
  by (simp add: weigh_sum sum_distrib_left algebra_simps)

lemma counts_agree: "(\<forall>t \<in> set (a @ b). 2 * shared_count a b t = count_list a t + count_list b t) \<longleftrightarrow> mset a = mset b"
proof -
  have "2 * shared_count a b t = count_list a t + count_list b t \<longleftrightarrow> count_list a t = count_list b t" for t
    by (auto simp: shared_count_def min_def)
  moreover have "mset a = mset b \<longleftrightarrow> (\<forall>t. count_list a t = count_list b t)"
    by (simp add: multiset_eq_iff count_mset)
  moreover have "count_list a t = count_list b t" if "t \<notin> set (a @ b)" for t
    using that by (simp add: count_notin)
  ultimately show ?thesis by blast
qed

lemma similarity_range:
  "0 \<le> similarity w x y \<and> similarity w x y \<le> 1
    \<and> (similarity w x y = 1 \<longleftrightarrow> content_tokens x \<noteq> [] \<and> mset (content_tokens x) = mset (content_tokens y))"
proof (cases "content_tokens x = [] \<and> content_tokens y = []")
  case True
  then show ?thesis by (simp add: similarity_def weigh_sum)
next
  case False
  let ?a = "content_tokens x" and ?b = "content_tokens y"
  define whole where "whole = weigh w (\<lambda>t. count_list ?a t + count_list ?b t) (?a @ ?b)"
  define shared where "shared = weigh w (\<lambda>t. 2 * shared_count ?a ?b t) (?a @ ?b)"
  have le: "2 * shared_count ?a ?b t \<le> count_list ?a t + count_list ?b t" for t by (simp add: shared_count_def)
  have pos: "0 < whole" using False whole_zero weigh_nonneg unfolding whole_def by (metis order_less_le)
  have s: "similarity w x y = shared / whole"
    using pos unfolding similarity_def Let_def whole_def [symmetric] weigh_double shared_def [symmetric] by simp
  have "shared \<le> whole" unfolding shared_def whole_def by (rule weigh_mono) (rule le)
  moreover have "0 \<le> shared" unfolding shared_def by (rule weigh_nonneg)
  moreover have "shared = whole \<longleftrightarrow> mset ?a = mset ?b"
    unfolding shared_def whole_def by (subst weigh_eq_iff) (simp_all only: le counts_agree)
  moreover have "?a \<noteq> []" if "mset ?a = mset ?b" using that False by auto
  ultimately show ?thesis using pos unfolding s by (auto simp: divide_le_eq divide_eq_eq)
qed

end

lemma similarity_sym: "similarity w x y = similarity w y x"
proof -
  have "shared_count a b = shared_count b a" for a b by (simp add: fun_eq_iff shared_count_def min.commute)
  then show ?thesis
    unfolding similarity_def Let_def weigh_sum set_append by (simp add: Un_commute add.commute mult.commute)
qed

interpretation uniform_weight: word_weight "\<lambda>t. 1"
  by unfold_locales simp

lemma content_weight:
  assumes "\<And>x. 1 < x \<Longrightarrow> 0 < ln_of x" and "corpus \<noteq> []"
  shows "0 < weights ln_of corpus t"
proof -
  have "first_of_each corpus \<noteq> []" using assms(2) by (metis first_of_each_def remdups_eq_nil_iff rev_is_Nil_conv)
  then show ?thesis unfolding weights_def Let_def by (intro assms(1)) simp
qed

text \<open>
  The similarity of two claims under the weights of a case is symmetric, lies between 0 and 1, and is 1 exactly
  when both claims say the same content words the same number of times and at least one. The logarithm is only
  required to be positive above 1.
\<close>

theorem similarity_is_a_share:
  assumes "\<And>x. 1 < x \<Longrightarrow> 0 < ln_of x" and "corpus \<noteq> []"
  shows "similarity (weights ln_of corpus) x y = similarity (weights ln_of corpus) y x
    \<and> 0 \<le> similarity (weights ln_of corpus) x y \<and> similarity (weights ln_of corpus) x y \<le> 1
    \<and> (similarity (weights ln_of corpus) x y = 1
       \<longleftrightarrow> content_tokens x \<noteq> [] \<and> mset (content_tokens x) = mset (content_tokens y))"
proof -
  have "word_weight (weights ln_of corpus)" by unfold_locales (rule content_weight [OF assms])
  then show ?thesis using word_weight.similarity_range similarity_sym by blast
qed

theorem similarity_witness: "similarity (weights (\<lambda>x. x) [''patched kernel'']) ''Noted kernels'' ''kernel'' = 1"
proof -
  have "content_tokens ''Noted kernels'' = [''kernel'']" "content_tokens ''kernel'' = [''kernel'']" by code_simp+
  then show ?thesis using similarity_is_a_share [of "\<lambda>x. x" "[''patched kernel'']" "''Noted kernels''" "''kernel''"] by simp
qed

section \<open>Matching\<close>

lemma take_pairs_sound:
  "set (take_pairs ui uj ps) \<subseteq> (\<lambda>(s, i, j). (i, j, s)) ` set ps
    \<and> distinct (map fst (take_pairs ui uj ps)) \<and> distinct (map (fst \<circ> snd) (take_pairs ui uj ps))
    \<and> set (map fst (take_pairs ui uj ps)) \<inter> set ui = {} \<and> set (map (fst \<circ> snd) (take_pairs ui uj ps)) \<inter> set uj = {}"
proof (induction ui uj ps rule: take_pairs.induct)
  case (2 ui uj s i j ps)
  show ?case
  proof (cases "i \<in> set ui \<or> j \<in> set uj")
    case True
    then show ?thesis using 2(1) by auto
  next
    case False
    then show ?thesis using 2(2) by (auto simp: image_iff)
  qed
qed simp

lemma take_pairs_stable:
  assumes "sorted (map (\<lambda>p. - fst p) ps)" and "(s, i, j) \<in> set ps"
  shows "i \<in> set ui \<or> j \<in> set uj
    \<or> (\<exists>(i', j', s') \<in> set (take_pairs ui uj ps). (i' = i \<or> j' = j) \<and> s \<le> (s' :: rat))"
  using assms
proof (induction ui uj ps rule: take_pairs.induct)
  case (2 ui uj s1 i1 j1 ps)
  show ?case
  proof (cases "i1 \<in> set ui \<or> j1 \<in> set uj")
    case True
    show ?thesis
    proof (cases "(s, i, j) = (s1, i1, j1)")
      case False
      then have "(s, i, j) \<in> set ps" and "sorted (map (\<lambda>p. - fst p) ps)" using 2(3,4) by auto
      from 2(1) [OF True this(2,1)] show ?thesis using True by simp
    qed (use True in auto)
  next
    case False
    have low: "s \<le> s1" using 2(3,4) by auto
    show ?thesis
    proof (cases "(s, i, j) = (s1, i1, j1)")
      case True
      then show ?thesis using False by simp
    next
      case neq: False
      have "i \<in> set (i1 # ui) \<or> j \<in> set (j1 # uj)
        \<or> (\<exists>(i', j', s') \<in> set (take_pairs (i1 # ui) (j1 # uj) ps). (i' = i \<or> j' = j) \<and> s \<le> s')"
      proof -
        have "(s, i, j) \<in> set ps" and "sorted (map (\<lambda>p. - fst p) ps)" using neq 2(3,4) by auto
        from 2(2) [OF False this(2,1)] show ?thesis .
      qed
      then show ?thesis using False low by fastforce
    qed
  qed
qed simp

lemma best_first_sorted: "sorted (map (\<lambda>p. - fst p) (best_first ps))"
proof -
  have "sorted (map (\<lambda>(s, i, j). (- s, i, j)) (best_first ps))" unfolding best_first_def by (rule sorted_sort_key)
  then have "sorted_wrt (\<lambda>x y. (\<lambda>(s, i, j). (- s, i, j)) x \<le> (\<lambda>(s, i, j). (- s, i, j)) y) (best_first ps)"
    by (simp only: sorted_map)
  then have "sorted_wrt (\<lambda>x y. (\<lambda>p. - fst p) x \<le> (\<lambda>p. - fst p) y) (best_first ps)"
    by (rule sorted_wrt_mono_rel [rotated]) (auto simp: less_eq_prod_def)
  then show ?thesis by (simp only: sorted_map)
qed

lemma map_filter_iff: "y \<in> set (List.map_filter f xs) \<longleftrightarrow> (\<exists>x \<in> set xs. f x = Some y)"
  by (force simp: List.map_filter_def)

lemma enumerate_iff: "(\<exists>p \<in> set (enumerate 0 xs). P p) \<longleftrightarrow> (\<exists>i < length xs. P (i, xs ! i))"
  by (force simp: in_set_enumerate_eq)

lemma candidate_iff:
  "(s, i, j) \<in> set (candidate_pairs emitted reviewed threshold sim) \<longleftrightarrow>
     i < length emitted \<and> j < length reviewed \<and> may_match (emitted ! i) (reviewed ! j)
       \<and> s = sim (fst (snd (emitted ! i))) (rv_claim (reviewed ! j)) \<and> threshold \<le> s"
proof -
  have "(s, i, j) \<in> set (candidate_pairs emitted reviewed threshold sim) \<longleftrightarrow>
    (\<exists>i' < length emitted. \<exists>j' < length reviewed.
       (if may_match (emitted ! i') (reviewed ! j') \<and> sim (fst (snd (emitted ! i'))) (rv_claim (reviewed ! j')) \<ge> threshold
        then Some (sim (fst (snd (emitted ! i'))) (rv_claim (reviewed ! j')), i', j') else None) = Some (s, i, j))"
    unfolding candidate_pairs_def by (simp only: set_concat set_map UN_iff bex_simps(7) case_prod_conv map_filter_iff enumerate_iff)
  then show ?thesis by (auto split: if_splits)
qed

text \<open>
  C12. The matching is one-to-one, takes only pairs of the same user with overlapping lines at or above the threshold,
  and is stable: a pair it could have taken and did not shares a claim with a pair it did take whose similarity is
  at least as high.
\<close>

theorem match_is_stable:
  fixes emitted reviewed threshold sim
  defines "m \<equiv> match emitted reviewed threshold sim"
  shows "distinct (map fst m) \<and> distinct (map (fst \<circ> snd) m)
    \<and> (\<forall>(i, j, s) \<in> set m. i < length emitted \<and> j < length reviewed \<and> may_match (emitted ! i) (reviewed ! j)
         \<and> s = sim (fst (snd (emitted ! i))) (rv_claim (reviewed ! j)) \<and> threshold \<le> s)
    \<and> (\<forall>i < length emitted. \<forall>j < length reviewed.
         may_match (emitted ! i) (reviewed ! j) \<and> threshold \<le> sim (fst (snd (emitted ! i))) (rv_claim (reviewed ! j))
         \<longrightarrow> (\<exists>(i', j', s') \<in> set m. (i' = i \<or> j' = j) \<and> sim (fst (snd (emitted ! i))) (rv_claim (reviewed ! j)) \<le> s'))"
proof -
  let ?c = "candidate_pairs emitted reviewed threshold sim"
  let ?t = "take_pairs [] [] (best_first ?c)"
  have m: "set m = set ?t" "mset m = mset ?t" by (simp_all add: m_def match_def)
  have b: "set (best_first ?c) = set ?c" by (simp add: best_first_def)
  note sound = take_pairs_sound [of "[]" "[]" "best_first ?c"]
  have "distinct (map fst m) \<and> distinct (map (fst \<circ> snd) m)"
    using sound mset_eq_imp_distinct_iff [of "map fst m" "map fst ?t"] mset_eq_imp_distinct_iff [of "map (fst \<circ> snd) m" "map (fst \<circ> snd) ?t"] m(2)
    by (simp del: mset_map add: mset_map)
  moreover have "(s, i, j) \<in> set ?c" if "(i, j, s) \<in> set m" for i j s
    using sound that m(1) b by auto
  moreover have "\<exists>(i', j', s') \<in> set m. (i' = i \<or> j' = j) \<and> s \<le> s'" if "(s, i, j) \<in> set ?c" for s i j
    using take_pairs_stable [OF best_first_sorted, of s i j ?c "[]" "[]"] that m(1) b by simp
  ultimately show ?thesis unfolding candidate_iff by auto
qed

definition sample_review :: "string \<Rightarrow> review" where
  "sample_review c = \<lparr>rv_user = ''u'', rv_claim = c, rv_refs = [1], rv_verdict = ''good'', rv_interface = []\<rparr>"

theorem match_witness:
  "match [(''u'', ''a'', [1]), (''u'', ''b'', [1, 2])] [sample_review ''b'', sample_review ''c''] (1 / 2)
     (\<lambda>a b. if a = b then 1 else 1 / 2) = [(0, 1, 1 / 2), (1, 0, 1)]
    \<and> distinct (map fst (match [(''u'', ''a'', [1]), (''u'', ''b'', [1, 2])] [sample_review ''b'', sample_review ''c''] (1 / 2)
     (\<lambda>a b. if a = b then 1 else 1 / 2)))"
proof -
  have "match [(''u'', ''a'', [1]), (''u'', ''b'', [1, 2])] [sample_review ''b'', sample_review ''c''] (1 / 2)
     (\<lambda>a b. if a = b then 1 else 1 / 2) = [(0, 1, 1 / 2), (1, 0, 1)]" by code_simp
  then show ?thesis using match_is_stable by blast
qed

section \<open>The score\<close>

lemma count_list_filter: "count_list xs v = length (filter (\<lambda>x. x = v) xs)"
  by (induction xs) auto

lemma indices_bound:
  "distinct is \<Longrightarrow> set is \<subseteq> {..<n} \<Longrightarrow> length (filter (\<lambda>i. P (xs ! i)) is) \<le> length (filter (\<lambda>i. P (xs ! i)) [0..<n])"
proof -
  assume "distinct is" "set is \<subseteq> {..<n}"
  then have "card (set (filter (\<lambda>i. P (xs ! i)) is)) \<le> card (set (filter (\<lambda>i. P (xs ! i)) [0..<n]))"
    by (intro card_mono) auto
  then show ?thesis using \<open>distinct is\<close> by (simp add: distinct_card del: set_filter)
qed

lemma filter_nth: "length (filter (\<lambda>i. P (xs ! i)) [0..<length xs]) = length (filter P xs)"
proof -
  have "length (filter P (map ((!) xs) [0..<length xs])) = length (filter (\<lambda>i. P (xs ! i)) [0..<length xs])"
    by (simp add: filter_map o_def del: map_nth)
  then show ?thesis by (simp add: map_nth)
qed

lemma match_counts:
  fixes emitted reviews th sim
  defines "m \<equiv> match emitted reviews th sim"
  shows "length m \<le> length emitted"
    and "count_list (map (\<lambda>(i, j, s). rv_verdict (reviews ! j)) m) v \<le> length (filter (\<lambda>r. rv_verdict r = v) reviews)"
proof -
  note sound = take_pairs_sound [of "[]" "[]" "best_first (candidate_pairs emitted reviews th sim)"]
  let ?t = "take_pairs [] [] (best_first (candidate_pairs emitted reviews th sim))"
  have m: "mset m = mset ?t" "set m = set ?t" "length m = length ?t" by (simp_all add: m_def match_def)
  have in_range: "i < length emitted \<and> j < length reviews" if "(i, j, s) \<in> set ?t" for i j s
  proof -
    have "(s, i, j) \<in> set (candidate_pairs emitted reviews th sim)" using sound that by (auto simp: best_first_def)
    then show ?thesis by (simp add: candidate_iff)
  qed
  have "card (set (map fst ?t)) \<le> card {..<length emitted}" by (rule card_mono) (auto dest: in_range)
  then show "length m \<le> length emitted" using sound distinct_card [of "map fst ?t"] m(3) by simp
  have "count_list (map (\<lambda>(i, j, s). rv_verdict (reviews ! j)) m) v = count_list (map (\<lambda>(i, j, s). rv_verdict (reviews ! j)) ?t) v"
    by (metis m(1) count_mset mset_map)
  also have "\<dots> = length (filter (\<lambda>j. rv_verdict (reviews ! j) = v) (map (fst \<circ> snd) ?t))"
    by (simp add: count_list_filter filter_map o_def case_prod_unfold)
  also have "\<dots> \<le> length (filter (\<lambda>j. rv_verdict (reviews ! j) = v) [0..<length reviews])"
    by (rule indices_bound) (use sound in \<open>auto dest: in_range\<close>)
  also have "\<dots> = length (filter (\<lambda>r. rv_verdict r = v) reviews)" by (rule filter_nth)
  finally show "count_list (map (\<lambda>(i, j, s). rv_verdict (reviews ! j)) m) v \<le> length (filter (\<lambda>r. rv_verdict r = v) reviews)" .
qed

lemma map_filter_empty: "List.map_filter f xs = [] \<longleftrightarrow> (\<forall>x \<in> set xs. f x = None)"
  by (auto simp: List.map_filter_def filter_empty_conv)

lemma reason_none:
  "(case p of (m, why) \<Rightarrow> (case why of None \<Rightarrow> None | Some (r, l) \<Rightarrow> Some (k, r, l))) = None \<longleftrightarrow> snd p = None"
  by (auto split: option.splits prod.splits)

text \<open>
  The score of an interface counts every emitted claim once, matched or not, and finds no more good claims than
  were reviewed good; it passes exactly when no claim a reviewer rejected was emitted and at least half of the good
  ones were found, and a reply passes exactly when it passes under every interface that reviewed the case.
\<close>

theorem claims_score_accounts:
  fixes emitted reviews w
  defines "s \<equiv> fst (score_interface emitted reviews w)"
  shows "cs_reviewed_matched s + cs_unreviewed s = length emitted
    \<and> cs_good_found s \<le> cs_good_total s
    \<and> cs_good_found s + cs_bad_matched s \<le> cs_reviewed_matched s
    \<and> (cs_pass s \<longleftrightarrow> cs_bad_matched s = 0 \<and> cs_good_total s \<le> 2 * cs_good_found s)
    \<and> (claims_ok (claims_check ln_of (Some emitted) rs False) \<longleftrightarrow>
         (\<forall>k \<in> interface_of ` set rs.
            cs_pass (fst (score_interface emitted (filter (\<lambda>r. interface_of r = k) rs) (weights ln_of (map rv_claim rs))))))"
proof -
  define m where "m = match emitted reviews MATCH_THRESHOLD (similarity w)"
  define vs where "vs = map (\<lambda>(i, j, s). rv_verdict (reviews ! j)) m"
  have s: "cs_reviewed_matched s = length m" "cs_unreviewed s = length emitted - length m"
    "cs_good_found s = count_list vs ''good''" "cs_good_total s = length (filter (\<lambda>r. rv_verdict r = ''good'') reviews)"
    "cs_bad_matched s = count_list vs ''made_up'' + count_list vs ''wrong''"
    by (simp_all add: s_def score_interface_def Let_def m_def vs_def NEGATIVE_def)
  have pass: "cs_pass t \<longleftrightarrow> why = None" if "score_interface e r w' = (t, why)" for e r w' t why
    using that by (auto simp: score_interface_def Let_def)
  have "cs_pass s \<longleftrightarrow> \<not> (cs_bad_matched s \<noteq> 0
      \<or> cs_good_total s \<noteq> 0 \<and> of_nat (cs_good_found s) / of_nat (cs_good_total s) < MIN_RECALL)"
    by (simp add: s_def score_interface_def Let_def NEGATIVE_def)
  also have "\<dots> \<longleftrightarrow> cs_bad_matched s = 0 \<and> cs_good_total s \<le> 2 * cs_good_found s"
  proof (cases "cs_good_total s = 0")
    case False
    have "of_nat (cs_good_found s) / of_nat (cs_good_total s) < MIN_RECALL
        \<longleftrightarrow> (of_nat (2 * cs_good_found s) :: rat) < of_nat (cs_good_total s)"
      using False by (simp add: MIN_RECALL_def divide_less_eq mult.commute)
    then show ?thesis using False by (simp only: of_nat_less_iff) auto
  qed simp
  finally have p: "cs_pass s \<longleftrightarrow> cs_bad_matched s = 0 \<and> cs_good_total s \<le> 2 * cs_good_found s" .
  have three: "count_list vs ''good'' + (count_list vs ''made_up'' + count_list vs ''wrong'') \<le> length vs"
    by (induction vs) auto
  have "claims_ok (claims_check ln_of (Some emitted) rs False) \<longleftrightarrow>
      (\<forall>k \<in> interface_of ` set rs. snd (score_interface emitted (filter (\<lambda>r. interface_of r = k) rs) (weights ln_of (map rv_claim rs))) = None)"
    by (simp add: claims_check_def claims_ok_def Let_def map_filter_empty reason_none)
  also have "\<dots> \<longleftrightarrow> (\<forall>k \<in> interface_of ` set rs.
      cs_pass (fst (score_interface emitted (filter (\<lambda>r. interface_of r = k) rs) (weights ln_of (map rv_claim rs)))))"
    using pass [OF prod.collapse [symmetric]] by simp
  finally have all: "claims_ok (claims_check ln_of (Some emitted) rs False) \<longleftrightarrow> (\<forall>k \<in> interface_of ` set rs.
      cs_pass (fst (score_interface emitted (filter (\<lambda>r. interface_of r = k) rs) (weights ln_of (map rv_claim rs)))))" .
  have "length m \<le> length emitted" "cs_good_found s \<le> cs_good_total s" "length vs = length m"
    using match_counts [where emitted = emitted and reviews = reviews and th = MATCH_THRESHOLD and sim = "similarity w", folded m_def] s(3,4) by (simp_all add: vs_def)
  then have "cs_reviewed_matched s + cs_unreviewed s = length emitted" "cs_good_found s \<le> cs_good_total s"
    "cs_good_found s + cs_bad_matched s \<le> cs_reviewed_matched s"
    using three s by simp_all
  then show ?thesis using p all by blast
qed

theorem claims_score_witness:
  "\<not> cs_pass (fst (score_interface [] [sample_review ''kernel''] (\<lambda>t. 1)))"
proof -
  let ?s = "fst (score_interface [] [sample_review ''kernel''] (\<lambda>t. 1))"
  have "cs_good_total ?s = 1"
    by (simp add: score_interface_def sample_review_def Let_def)
  moreover have "cs_good_found ?s + cs_bad_matched ?s \<le> cs_reviewed_matched ?s" "cs_reviewed_matched ?s + cs_unreviewed ?s = 0"
    "cs_pass ?s \<longleftrightarrow> cs_bad_matched ?s = 0 \<and> cs_good_total ?s \<le> 2 * cs_good_found ?s"
    using claims_score_accounts [of "[]" "[sample_review ''kernel'']" "\<lambda>t. 1"] unfolding list.size by blast+
  ultimately show ?thesis by simp
qed

end
