(* ===== verification/Receipts.thy ===== *)
theory Receipts
  imports Prelude
begin

text \<open>
  What a run was (\<open>Receipt\<close> in \<open>evals/core.py\<close>): the record, its stored form and the reading of it, and when two runs
  may be ranked in one table. Dictionaries are association lists compared by what they map; the knob settings an old
  run is taken to have had (\<open>harness/knobs.py\<close>) are the parameter \<open>settings\<close>.
\<close>

section \<open>Receipts\<close>

type_synonym dict = "(string \<times> string) list"

record router_swap =
  sw_case :: string
  sw_at :: string
  sw_resident :: "string list"

record receipt =
  rc_modality :: string
  rc_case_ids :: "string list"
  rc_repeat :: int
  rc_sampling :: dict
  rc_gateway :: string
  rc_adherence :: string
  rc_tier :: string
  rc_accelerator :: string
  rc_instruments :: dict
  rc_engines :: dict
  rc_where :: string
  rc_swap_used_mb :: int
  rc_pressure :: dict
  rc_cases_digest :: string
  rc_split :: string
  rc_split_version :: string
  rc_methods :: dict
  rc_devices :: dict
  rc_launch :: dict
  rc_max_tokens :: int
  rc_knobs :: dict
  rc_router_swaps :: "(string \<times> router_swap list) list"
  rc_budget_ladder :: "int list"

text \<open>The stored form: every key may be missing or null (\<^term>\<open>None\<close>), the modality apart.\<close>

record stored_receipt =
  sr_modality :: string
  sr_case_ids :: "string list option"
  sr_repeat :: "int option"
  sr_sampling :: "dict option"
  sr_gateway :: "string option"
  sr_adherence :: "string option"
  sr_tier :: "string option"
  sr_accelerator :: "string option"
  sr_instruments :: "dict option"
  sr_engines :: "dict option"
  sr_where :: "string option"
  sr_swap_used_mb :: "int option"
  sr_pressure :: "dict option"
  sr_cases_digest :: "string option"
  sr_split :: "string option"
  sr_split_version :: "string option"
  sr_methods :: "dict option"
  sr_devices :: "dict option"
  sr_launch :: "dict option"
  sr_max_tokens :: "int option"
  sr_knobs :: "dict option option"
  sr_router_swaps :: "(string \<times> router_swap list) list option"
  sr_budget_ladder :: "int list option"

definition as_dict :: "receipt \<Rightarrow> stored_receipt" where
  "as_dict r =
     \<lparr>sr_modality = rc_modality r, sr_case_ids = Some (rc_case_ids r), sr_repeat = Some (rc_repeat r),
      sr_sampling = Some (rc_sampling r), sr_gateway = Some (rc_gateway r), sr_adherence = Some (rc_adherence r),
      sr_tier = Some (rc_tier r), sr_accelerator = Some (rc_accelerator r), sr_instruments = Some (rc_instruments r),
      sr_engines = Some (rc_engines r), sr_where = Some (rc_where r), sr_swap_used_mb = Some (rc_swap_used_mb r),
      sr_pressure = Some (rc_pressure r), sr_cases_digest = Some (rc_cases_digest r), sr_split = Some (rc_split r),
      sr_split_version = Some (rc_split_version r), sr_methods = Some (rc_methods r), sr_devices = Some (rc_devices r),
      sr_launch = Some (rc_launch r), sr_max_tokens = Some (rc_max_tokens r), sr_knobs = Some (Some (rc_knobs r)),
      sr_router_swaps = Some (rc_router_swaps r), sr_budget_ladder = Some (rc_budget_ladder r)\<rparr>"

definition AGENT_MODALITIES :: "string list" where "AGENT_MODALITIES = [''agent'']"
definition TEXT_MODALITIES :: "string list" where
  "TEXT_MODALITIES = [''svg'', ''web'', ''code'', ''extract'', ''decide'', ''claims'']"

definition legacy_budget :: "string \<Rightarrow> int" where
  "legacy_budget modality =
     (if modality \<in> set AGENT_MODALITIES then 8000 else if modality \<in> set TEXT_MODALITIES then 4000 else 0)"

definition legacy_knobs :: "(string \<Rightarrow> dict) \<Rightarrow> stored_receipt \<Rightarrow> dict" where
  "legacy_knobs settings raw =
     (case sr_knobs raw of None \<Rightarrow> settings (sr_modality raw) | Some None \<Rightarrow> [] | Some (Some d) \<Rightarrow> d)"

text \<open>\<open>raw.get(k) or z\<close>.\<close>

definition said_list :: "'a list option \<Rightarrow> 'a list" where
  "said_list x = (case x of None \<Rightarrow> [] | Some xs \<Rightarrow> xs)"

definition said_int :: "int option \<Rightarrow> int \<Rightarrow> int" where
  "said_int x z = (case x of None \<Rightarrow> z | Some n \<Rightarrow> if n = 0 then z else n)"

definition from_dict :: "(string \<Rightarrow> dict) \<Rightarrow> stored_receipt \<Rightarrow> receipt" where
  "from_dict settings raw =
     \<lparr>rc_modality = sr_modality raw, rc_case_ids = said_list (sr_case_ids raw), rc_repeat = said_int (sr_repeat raw) 1,
      rc_sampling = said_list (sr_sampling raw), rc_gateway = said_list (sr_gateway raw),
      rc_adherence = said_list (sr_adherence raw),
      rc_tier = (if said_list (sr_tier raw) = [] then ''measure'' else said_list (sr_tier raw)),
      rc_accelerator = said_list (sr_accelerator raw), rc_instruments = said_list (sr_instruments raw),
      rc_engines = said_list (sr_engines raw), rc_where = said_list (sr_where raw),
      rc_swap_used_mb = said_int (sr_swap_used_mb raw) 0, rc_pressure = said_list (sr_pressure raw),
      rc_cases_digest = said_list (sr_cases_digest raw), rc_split = said_list (sr_split raw),
      rc_split_version = said_list (sr_split_version raw), rc_methods = said_list (sr_methods raw),
      rc_devices = said_list (sr_devices raw), rc_launch = said_list (sr_launch raw),
      rc_max_tokens = (case sr_max_tokens raw of None \<Rightarrow> legacy_budget (sr_modality raw) | Some n \<Rightarrow> n),
      rc_knobs = legacy_knobs settings raw, rc_router_swaps = said_list (sr_router_swaps raw),
      rc_budget_ladder = said_list (sr_budget_ladder raw)\<rparr>"

section \<open>Comparability\<close>

definition contaminated :: "receipt \<Rightarrow> (string \<times> nat \<times> router_swap) option" where
  "contaminated r =
     (case filter (\<lambda>(k, s). s \<noteq> []) (sort_key fst (rc_router_swaps r)) of
        [] \<Rightarrow> None
      | (k, s) # _ \<Rightarrow> Some (k, length s, hd s))"

datatype difference =
    Contaminated "string \<times> nat \<times> router_swap"
  | DifferentTier string string
  | DifferentModality string string
  | DifferentCases nat nat
  | EditedCases string string
  | DifferentSplit "string \<times> string" "string \<times> string"
  | DifferentRepeat int int
  | DifferentLadder "int list" "int list"
  | DifferentBudget int int
  | DifferentKnobs "string list"
  | DifferentSampling dict dict
  | DifferentAdherence string string
  | DifferentAccelerator string string
  | DifferentPlace string string
  | DifferentDevice string
  | DifferentLaunch string
  | DifferentInstrument string

definition dict_keys :: "dict \<Rightarrow> dict \<Rightarrow> string list" where
  "dict_keys a b = sort (remdups (map fst a @ map fst b))"

definition moved_keys :: "dict \<Rightarrow> dict \<Rightarrow> string list" where
  "moved_keys a b = filter (\<lambda>k. map_of a k \<noteq> map_of b k) (dict_keys a b)"

definition shared_dict_keys :: "dict \<Rightarrow> dict \<Rightarrow> string list" where
  "shared_dict_keys a b = filter (\<lambda>k. map_of a k \<noteq> None \<and> map_of b k \<noteq> None) (dict_keys a b)"

text \<open>The first key both name with different values; \<open>blank\<close> says whether an empty value is a difference.\<close>

definition first_clash :: "bool \<Rightarrow> dict \<Rightarrow> dict \<Rightarrow> string option" where
  "first_clash blank a b =
     find (\<lambda>k. map_of a k \<noteq> map_of b k \<and> (blank \<or> map_of a k \<noteq> Some [] \<and> map_of b k \<noteq> Some []))
       (shared_dict_keys a b)"

definition both_say :: "string \<Rightarrow> string \<Rightarrow> bool" where
  "both_say x y \<longleftrightarrow> x \<noteq> [] \<and> y \<noteq> [] \<and> x \<noteq> y"

definition optional_axes :: "receipt \<Rightarrow> receipt \<Rightarrow> difference option" where
  "optional_axes a b =
     (if both_say (rc_accelerator a) (rc_accelerator b) then Some (DifferentAccelerator (rc_accelerator a) (rc_accelerator b))
      else if both_say (rc_where a) (rc_where b) then Some (DifferentPlace (rc_where a) (rc_where b))
      else (case first_clash True (rc_devices a) (rc_devices b) of
        Some k \<Rightarrow> Some (DifferentDevice k)
      | None \<Rightarrow> (case first_clash True (rc_launch a) (rc_launch b) of
          Some k \<Rightarrow> Some (DifferentLaunch k)
        | None \<Rightarrow> (case first_clash False (rc_instruments a) (rc_instruments b) of
            Some k \<Rightarrow> Some (DifferentInstrument k)
          | None \<Rightarrow> None))))"

definition comparable :: "receipt \<Rightarrow> receipt \<Rightarrow> difference option" where
  "comparable a b =
     (case contaminated a of Some w \<Rightarrow> Some (Contaminated w) | None \<Rightarrow>
      case contaminated b of Some w \<Rightarrow> Some (Contaminated w) | None \<Rightarrow>
      if rc_tier a \<noteq> rc_tier b then Some (DifferentTier (rc_tier a) (rc_tier b))
      else if rc_modality a \<noteq> rc_modality b then Some (DifferentModality (rc_modality a) (rc_modality b))
      else if rc_case_ids a \<noteq> rc_case_ids b then Some (DifferentCases (length (rc_case_ids a)) (length (rc_case_ids b)))
      else if both_say (rc_cases_digest a) (rc_cases_digest b) then Some (EditedCases (rc_cases_digest a) (rc_cases_digest b))
      else if rc_split a \<noteq> [] \<and> rc_split b \<noteq> [] \<and> (rc_split a, rc_split_version a) \<noteq> (rc_split b, rc_split_version b)
        then Some (DifferentSplit (rc_split a, rc_split_version a) (rc_split b, rc_split_version b))
      else if rc_repeat a \<noteq> rc_repeat b then Some (DifferentRepeat (rc_repeat a) (rc_repeat b))
      else if rc_budget_ladder a \<noteq> rc_budget_ladder b then Some (DifferentLadder (rc_budget_ladder a) (rc_budget_ladder b))
      else if rc_max_tokens a \<noteq> rc_max_tokens b then Some (DifferentBudget (rc_max_tokens a) (rc_max_tokens b))
      else if moved_keys (rc_knobs a) (rc_knobs b) \<noteq> [] then Some (DifferentKnobs (moved_keys (rc_knobs a) (rc_knobs b)))
      else if moved_keys (rc_sampling a) (rc_sampling b) \<noteq> [] then Some (DifferentSampling (rc_sampling a) (rc_sampling b))
      else if rc_adherence a \<noteq> rc_adherence b then Some (DifferentAdherence (rc_adherence a) (rc_adherence b))
      else optional_axes a b)"

section \<open>What they promise\<close>

lemma dict_keys_sym: "dict_keys a b = dict_keys b a"
proof -
  have "set (dict_keys a b) = set (dict_keys b a)" by (auto simp: dict_keys_def)
  moreover have "sorted (dict_keys x y) \<and> distinct (dict_keys x y)" for x y by (simp add: dict_keys_def)
  ultimately show ?thesis by (metis sorted_distinct_set_unique)
qed

lemma key_in_dict_keys: "map_of a k \<noteq> None \<or> map_of b k \<noteq> None \<Longrightarrow> k \<in> set (dict_keys a b)"
  by (auto simp: dict_keys_def map_of_eq_None_iff)

lemma moved_keys_empty: "moved_keys a b = [] \<longleftrightarrow> map_of a = map_of b"
proof
  assume h: "moved_keys a b = []"
  show "map_of a = map_of b"
  proof
    fix k
    show "map_of a k = map_of b k"
    proof (cases "k \<in> set (dict_keys a b)")
      case True
      then show ?thesis using h by (auto simp: moved_keys_def filter_empty_conv)
    next
      case False
      then show ?thesis using key_in_dict_keys [of a k b] by (metis not_None_eq)
    qed
  qed
qed (simp add: moved_keys_def)

lemma first_clash_none:
  "first_clash blank a b = None \<longleftrightarrow>
     (\<forall>k x y. map_of a k = Some x \<and> map_of b k = Some y \<and> (blank \<or> x \<noteq> [] \<and> y \<noteq> []) \<longrightarrow> x = y)"
proof -
  have "k \<in> set (shared_dict_keys a b) \<longleftrightarrow> map_of a k \<noteq> None \<and> map_of b k \<noteq> None" for k
    using key_in_dict_keys [of a k b] by (auto simp: shared_dict_keys_def)
  then show ?thesis by (simp add: first_clash_def find_None_iff) (metis option.inject not_None_eq)
qed

lemma first_clash_self: "first_clash blank a a = None"
  unfolding first_clash_none by auto

lemma optional_axes_none:
  "optional_axes a b = None \<longleftrightarrow>
     \<not> both_say (rc_accelerator a) (rc_accelerator b) \<and> \<not> both_say (rc_where a) (rc_where b)
       \<and> first_clash True (rc_devices a) (rc_devices b) = None \<and> first_clash True (rc_launch a) (rc_launch b) = None
       \<and> first_clash False (rc_instruments a) (rc_instruments b) = None"
  by (auto simp: optional_axes_def split: option.splits)

lemma comparable_none:
  "comparable a b = None \<longleftrightarrow>
     contaminated a = None \<and> contaminated b = None \<and> rc_tier a = rc_tier b \<and> rc_modality a = rc_modality b
       \<and> rc_case_ids a = rc_case_ids b \<and> \<not> both_say (rc_cases_digest a) (rc_cases_digest b)
       \<and> (rc_split a = [] \<or> rc_split b = [] \<or> (rc_split a, rc_split_version a) = (rc_split b, rc_split_version b))
       \<and> rc_repeat a = rc_repeat b \<and> rc_budget_ladder a = rc_budget_ladder b \<and> rc_max_tokens a = rc_max_tokens b
       \<and> map_of (rc_knobs a) = map_of (rc_knobs b) \<and> map_of (rc_sampling a) = map_of (rc_sampling b)
       \<and> rc_adherence a = rc_adherence b \<and> optional_axes a b = None"
  unfolding comparable_def moved_keys_empty by (cases "contaminated a"; cases "contaminated b") auto

lemma both_say_sym: "both_say x y = both_say y x"
  by (auto simp: both_say_def)

lemma first_clash_sym: "first_clash blank a b = None \<longleftrightarrow> first_clash blank b a = None"
  unfolding first_clash_none by metis

lemma contaminated_none: "contaminated r = None \<longleftrightarrow> (\<forall>(k, s) \<in> set (rc_router_swaps r). s = [])"
proof -
  have "contaminated r = None \<longleftrightarrow> filter (\<lambda>(k, s). s \<noteq> []) (sort_key fst (rc_router_swaps r)) = []"
    by (auto simp: contaminated_def split: list.splits)
  then show ?thesis by (auto simp: filter_empty_conv)
qed

text \<open>A receipt that answers every axis the comparison may skip.\<close>

definition says_all :: "string set \<Rightarrow> receipt \<Rightarrow> bool" where
  "says_all ks r \<longleftrightarrow> rc_cases_digest r \<noteq> [] \<and> rc_split r \<noteq> [] \<and> rc_accelerator r \<noteq> [] \<and> rc_where r \<noteq> []
     \<and> dom (map_of (rc_devices r)) = ks \<and> dom (map_of (rc_launch r)) = ks \<and> dom (map_of (rc_instruments r)) = ks
     \<and> [] \<notin> ran (map_of (rc_instruments r))"

lemma first_clash_full:
  assumes "dom (map_of a) = dom (map_of b)" and "\<not> blank \<Longrightarrow> [] \<notin> ran (map_of a) \<and> [] \<notin> ran (map_of b)"
  shows "first_clash blank a b = None \<longleftrightarrow> map_of a = map_of b"
proof
  assume h: "first_clash blank a b = None"
  show "map_of a = map_of b"
  proof
    fix k
    show "map_of a k = map_of b k"
    proof (cases "map_of a k")
      case None
      then show ?thesis using assms(1) by (metis domIff)
    next
      case (Some x)
      then obtain y where y: "map_of b k = Some y" using assms(1) by (metis domD domI)
      have "blank \<or> x \<noteq> [] \<and> y \<noteq> []" using assms(2) Some y by (metis ranI)
      then show ?thesis using h Some y unfolding first_clash_none by metis
    qed
  qed
qed (auto simp: first_clash_none)

text \<open>
  Whether two runs may be ranked together does not depend on which is named first, a run may be ranked with itself
  exactly when it is not contaminated, and ranking together forces the exam to agree on tier, lane, cases, repeat,
  budget, ladder, knobs, sampling and grader. Among runs that answer every axis it is transitive; a run that leaves
  one blank can sit between two that may not be compared.
\<close>

theorem comparable_is_an_equivalence:
  shows "(comparable a b = None \<longleftrightarrow> comparable b a = None)
    \<and> (comparable a a = None \<longleftrightarrow> (\<forall>(k, s) \<in> set (rc_router_swaps a). s = []))
    \<and> (comparable a b = None \<longrightarrow> rc_tier a = rc_tier b \<and> rc_modality a = rc_modality b \<and> rc_case_ids a = rc_case_ids b
         \<and> rc_repeat a = rc_repeat b \<and> rc_max_tokens a = rc_max_tokens b \<and> rc_budget_ladder a = rc_budget_ladder b
         \<and> map_of (rc_knobs a) = map_of (rc_knobs b) \<and> map_of (rc_sampling a) = map_of (rc_sampling b)
         \<and> rc_adherence a = rc_adherence b)
    \<and> (says_all ks a \<and> says_all ks b \<and> says_all ks c \<and> comparable a b = None \<and> comparable b c = None
         \<longrightarrow> comparable a c = None)"
proof (intro conjI)
  have opt: "optional_axes a b = None \<longleftrightarrow> optional_axes b a = None"
    unfolding optional_axes_none
    by (simp only: both_say_sym [of "rc_accelerator a"] both_say_sym [of "rc_where a"]
        first_clash_sym [of _ "rc_devices a"] first_clash_sym [of _ "rc_launch a"] first_clash_sym [of _ "rc_instruments a"])
  show "comparable a b = None \<longleftrightarrow> comparable b a = None"
    unfolding comparable_none opt both_say_sym [of "rc_cases_digest a"] by metis
  have "optional_axes a a = None" by (simp add: optional_axes_none both_say_def first_clash_self)
  then show "comparable a a = None \<longleftrightarrow> (\<forall>(k, s) \<in> set (rc_router_swaps a). s = [])"
    unfolding comparable_none contaminated_none by (simp add: both_say_def)
  show "comparable a b = None \<longrightarrow> rc_tier a = rc_tier b \<and> rc_modality a = rc_modality b \<and> rc_case_ids a = rc_case_ids b
         \<and> rc_repeat a = rc_repeat b \<and> rc_max_tokens a = rc_max_tokens b \<and> rc_budget_ladder a = rc_budget_ladder b
         \<and> map_of (rc_knobs a) = map_of (rc_knobs b) \<and> map_of (rc_sampling a) = map_of (rc_sampling b)
         \<and> rc_adherence a = rc_adherence b"
    unfolding comparable_none by simp
  have full: "comparable x y = None \<longleftrightarrow>
      contaminated x = None \<and> contaminated y = None \<and> rc_tier x = rc_tier y \<and> rc_modality x = rc_modality y
       \<and> rc_case_ids x = rc_case_ids y \<and> rc_cases_digest x = rc_cases_digest y
       \<and> (rc_split x, rc_split_version x) = (rc_split y, rc_split_version y)
       \<and> rc_repeat x = rc_repeat y \<and> rc_budget_ladder x = rc_budget_ladder y \<and> rc_max_tokens x = rc_max_tokens y
       \<and> map_of (rc_knobs x) = map_of (rc_knobs y) \<and> map_of (rc_sampling x) = map_of (rc_sampling y)
       \<and> rc_adherence x = rc_adherence y \<and> rc_accelerator x = rc_accelerator y \<and> rc_where x = rc_where y
       \<and> map_of (rc_devices x) = map_of (rc_devices y) \<and> map_of (rc_launch x) = map_of (rc_launch y)
       \<and> map_of (rc_instruments x) = map_of (rc_instruments y)" if "says_all ks x" "says_all ks y" for x y
  proof -
    have "first_clash True (rc_devices x) (rc_devices y) = None \<longleftrightarrow> map_of (rc_devices x) = map_of (rc_devices y)"
      "first_clash True (rc_launch x) (rc_launch y) = None \<longleftrightarrow> map_of (rc_launch x) = map_of (rc_launch y)"
      "first_clash False (rc_instruments x) (rc_instruments y) = None \<longleftrightarrow> map_of (rc_instruments x) = map_of (rc_instruments y)"
      by (rule first_clash_full; use that in \<open>simp add: says_all_def\<close>)+
    then show ?thesis
      using that unfolding comparable_none optional_axes_none both_say_def says_all_def by (simp add: conj_ac)
  qed
  show "says_all ks a \<and> says_all ks b \<and> says_all ks c \<and> comparable a b = None \<and> comparable b c = None
      \<longrightarrow> comparable a c = None"
  proof (intro impI, elim conjE)
    assume sa: "says_all ks a" "says_all ks b" "says_all ks c" and eq: "comparable a b = None" "comparable b c = None"
    show "comparable a c = None"
      using eq unfolding full [OF sa(1,2)] full [OF sa(2,3)] full [OF sa(1,3)] by simp
  qed
qed

definition sample_receipt :: "string \<Rightarrow> receipt" where
  "sample_receipt digest =
     \<lparr>rc_modality = ''svg'', rc_case_ids = [''a'', ''b''], rc_repeat = 1, rc_sampling = [], rc_gateway = [], rc_adherence = [],
      rc_tier = ''measure'', rc_accelerator = ''unified:arm64'', rc_instruments = [], rc_engines = [], rc_where = ''gpu-node'',
      rc_swap_used_mb = 0, rc_pressure = [], rc_cases_digest = digest, rc_split = ''dev'', rc_split_version = ''1'',
      rc_methods = [], rc_devices = [], rc_launch = [], rc_max_tokens = 4000, rc_knobs = [], rc_router_swaps = [],
      rc_budget_ladder = []\<rparr>"

theorem comparable_witness:
  "comparable (sample_receipt ''x'') (sample_receipt []) = None \<and> comparable (sample_receipt []) (sample_receipt ''y'') = None
    \<and> comparable (sample_receipt ''y'') (sample_receipt ''x'') \<noteq> None \<and> comparable (sample_receipt ''x'') (sample_receipt ''x'') = None"
proof -
  have blank: "comparable (sample_receipt ''x'') (sample_receipt []) = None" "comparable (sample_receipt []) (sample_receipt ''y'') = None"
    and edited: "comparable (sample_receipt ''x'') (sample_receipt ''y'') = Some (EditedCases ''x'' ''y'')" by code_simp+
  have swap: "comparable (sample_receipt ''x'') (sample_receipt ''y'') = None \<longleftrightarrow> comparable (sample_receipt ''y'') (sample_receipt ''x'') = None"
    by (rule conjunct1 [OF comparable_is_an_equivalence])
  have "comparable (sample_receipt ''x'') (sample_receipt ''x'') = None \<longleftrightarrow> (\<forall>(k, s) \<in> set (rc_router_swaps (sample_receipt ''x'')). s = [])"
    by (rule conjunct1 [OF conjunct2 [OF comparable_is_an_equivalence]])
  then have "comparable (sample_receipt ''x'') (sample_receipt ''x'') = None" by (simp add: sample_receipt_def)
  then show ?thesis using blank edited swap by simp
qed

text \<open>
  C13. A receipt written and read back is the receipt, provided it names a tier and repeats at least once; one from
  before budgets and knobs were recorded reads as what the lane ran at then.
\<close>

theorem receipt_roundtrip:
  assumes "rc_repeat r \<noteq> 0" and "rc_tier r \<noteq> []"
  shows "from_dict settings (as_dict r) = r
    \<and> rc_max_tokens (from_dict settings ((as_dict r)\<lparr>sr_max_tokens := None\<rparr>)) = legacy_budget (rc_modality r)
    \<and> rc_knobs (from_dict settings ((as_dict r)\<lparr>sr_knobs := None\<rparr>)) = settings (rc_modality r)"
  using assms by (cases r) (simp add: from_dict_def as_dict_def said_list_def said_int_def legacy_knobs_def)

theorem receipt_roundtrip_witness:
  "from_dict (\<lambda>m. []) (as_dict (sample_receipt ''x'')) = sample_receipt ''x''"
  using receipt_roundtrip [of "sample_receipt ''x''"] by (simp add: sample_receipt_def)

end
