(* ===== verification/Scoring.thy ===== *)
theory Scoring
  imports Checks Claims GatePower Receipts Reasons
begin

text \<open>
  Judging and summing up (\<open>evals/core.py\<close>): which way each metric runs, how a failure reads, the verdict of one
  artifact against its case's assertions, and the roll-up of a run per candidate. What a checker found arrives as a
  \<open>check_result\<close>. Metrics are the numbers of a row; the \<open>[confidence, correct]\<close> pairs of the decide lane are kept
  beside them.
\<close>

section \<open>Metrics\<close>

definition PER_INTERFACE :: "(string \<times> string) list" where
  "PER_INTERFACE = [(''recall'', ''higher''), (''precision'', ''higher''), (''bad_matched'', ''lower''),
     (''unreviewed'', ''neutral''), (''pass'', ''higher''), (''verbatim'', ''neutral''), (''near_miss'', ''neutral'')]"

definition PER_INTERFACE_RATIOS :: "(string \<times> string \<times> string) list" where
  "PER_INTERFACE_RATIOS = [(''recall'', ''good_found'', ''good_total''), (''precision'', ''good_found'', ''reviewed_matched'')]"

definition claims_metric :: "string \<Rightarrow> string \<Rightarrow> string" where
  "claims_metric name interface = ''claims_'' @ name @ ''_'' @ map (\<lambda>c. if c = CHR ''-'' then CHR ''_'' else c) interface"

definition METRIC_DIRECTION :: "(string \<times> string) list" where
  "METRIC_DIRECTION =
     [(''wer'', ''lower''), (''cer'', ''lower''), (''ink'', ''neutral''), (''motion'', ''higher''), (''adherence'', ''higher''),
      (''speaker_similarity'', ''higher''), (''tokens_per_s'', ''higher''), (''duration_error_s'', ''lower''),
      (''seconds'', ''neutral''), (''completion_tokens'', ''neutral''), (''code_pass'', ''higher''), (''svg_bytes'', ''neutral''),
      (''decide_accuracy'', ''higher''), (''decide_brier'', ''lower''), (''decide_ece'', ''lower''), (''calibrated'', ''neutral''),
      (''per_option'', ''neutral''), (''needle_withheld_calls'', ''neutral''), (''needle_peak_mb'', ''lower''),
      (''agent_valid_call_rate'', ''higher''), (''agent_steps'', ''neutral''), (''agent_tool_calls'', ''neutral''),
      (''agent_valid_calls'', ''neutral''), (''agent_ttft_sum_s'', ''neutral''), (''agent_model_s'', ''neutral''),
      (''agent_tool_s'', ''neutral''), (''agent_wall_s'', ''neutral''), (''agent_no_tool_steps'', ''neutral''),
      (''agent_ctx'', ''neutral''), (''prompt_tokens'', ''neutral''), (''method_calls'', ''neutral''),
      (''method_samples'', ''neutral''), (''method_chosen'', ''neutral''), (''retrieval_recall'', ''higher''),
      (''retrieval_ndcg'', ''higher''), (''pii_f1'', ''higher''), (''pii_precision'', ''higher''), (''pii_recall'', ''higher''),
      (''claims_schema_valid'', ''higher''), (''claims_empty_rate'', ''higher''), (''claims_emitted'', ''neutral''),
      (''claims_judge_calibrated'', ''neutral''), (''claims_matcher_version'', ''neutral'')]
     @ concat (map (\<lambda>i. map (\<lambda>(n, way). (claims_metric n i, way)) PER_INTERFACE) INTERFACES)"

definition direction_of :: "string \<Rightarrow> string" where
  "direction_of m = get_or ''lower'' METRIC_DIRECTION m"

definition RATIO_METRICS :: "(string \<times> string \<times> string) list" where
  "RATIO_METRICS =
     [(''wer'', ''wer_errors'', ''wer_words''), (''agent_valid_call_rate'', ''agent_valid_calls'', ''agent_tool_calls''),
      (''decide_accuracy'', ''decide_correct'', ''decide_fields''), (''decide_brier'', ''decide_brier_sum'', ''decide_fields''),
      (''cer'', ''cer_errors'', ''cer_chars''), (''pii_f1'', ''pii_2tp'', ''pii_f1_den''),
      (''pii_precision'', ''pii_tp'', ''pii_pred''), (''pii_recall'', ''pii_tp'', ''pii_gold''),
      (''claims_empty_rate'', ''claims_empty_kept'', ''claims_empty_cases'')]
     @ concat (map (\<lambda>i. map (\<lambda>(name, n, d). (claims_metric name i, claims_metric n i, claims_metric d i)) PER_INTERFACE_RATIOS) INTERFACES)"

definition COMPANIONS :: "string list" where
  "COMPANIONS = concat (map (\<lambda>(name, n, d). [n, d]) RATIO_METRICS)"

section \<open>How a failure reads\<close>

definition EMPTY_MARKS :: "string list" where
  "EMPTY_MARKS = [''empty completion'', ''no answer'', ''left no output'', ''no output'', ''wrote nothing'', ''returned no text'']"

definition ERROR_MARKS :: "string list" where
  "ERROR_MARKS = [''timed out'', ''timeout'', ''unreachable'', ''not installed'', ''could not launch'', ''connection'',
     ''http 5'', ''server error'', ''[metal]'', ''out of memory'', ''traceback'']"

definition nonzero_exit :: "string \<Rightarrow> bool" where
  "nonzero_exit low \<longleftrightarrow> list_ex (\<lambda>d. sublist (''exited '' @ [d]) low) ''123456789''"

definition failure_kind :: "string \<Rightarrow> string" where
  "failure_kind detail =
     (let low = lower detail in
      if detail = [] then []
      else if nonzero_exit low \<or> list_ex (\<lambda>m. sublist m low) ERROR_MARKS then ''error''
      else if list_ex (\<lambda>m. sublist m low) EMPTY_MARKS then ''empty'' else ''wrong'')"

section \<open>One artifact against its case\<close>

definition regex_word :: "char \<Rightarrow> bool" where
  "regex_word c \<longleftrightarrow> is_word_char c \<or> c = CHR ''_''"

text \<open>\<open>^\w+$\<close>: the dollar also stands before a final newline.\<close>

definition wordy :: "string \<Rightarrow> bool" where
  "wordy s \<longleftrightarrow> (let t = (if s \<noteq> [] \<and> last s = CHR 0x0A then butlast s else s) in t \<noteq> [] \<and> list_all regex_word t)"

definition word_boundary :: "string \<Rightarrow> nat \<Rightarrow> bool" where
  "word_boundary s p \<longleftrightarrow> (0 < p \<and> regex_word (s ! (p - 1))) \<noteq> (p < length s \<and> regex_word (s ! p))"

definition contains :: "string \<Rightarrow> string \<Rightarrow> bool" where
  "contains artifact needle =
     (if wordy needle then
        list_ex (\<lambda>p. prefix (lower needle) (drop p (lower artifact)) \<and> word_boundary artifact p
            \<and> word_boundary artifact (p + length needle)) [0..<Suc (length artifact - length needle)]
      else sublist (lower needle) (lower artifact))"

record check_result =
  ck_ok :: bool
  ck_reason :: string
  ck_warnings :: "string list"
  ck_shape_count :: nat
  ck_metrics :: "(string \<times> rat) list"
  ck_decisions :: "(rat \<times> bool) list"
  ck_failure_class :: string
  ck_limit :: string

datatype exact = One string | AnyOf "string list"

record assertions =
  as_min_shapes :: "nat option"
  as_must_contain :: "string list list"
  as_must_not_contain :: "string list"
  as_equals :: "exact option"

record rung_attempt =
  at_max_tokens :: int
  at_passed :: bool
  at_seconds :: rat

record result =
  rs_case_id :: string
  rs_candidate :: string
  rs_passed :: bool
  rs_seconds :: rat
  rs_peak_kb :: nat
  rs_detail :: string
  rs_warnings :: "string list"
  rs_metrics :: "(string \<times> rat) list"
  rs_decisions :: "(rat \<times> bool) list"
  rs_failure_class :: string
  rs_limit :: string
  rs_ttft_s :: "rat option"
  rs_first_reasoning_s :: "rat option"
  rs_prefill_s :: "rat option"
  rs_cold :: "bool option"
  rs_attempts :: "rung_attempt list"

text \<open>\<open>repr\<close> of a printable string.\<close>

definition py_repr :: "string \<Rightarrow> string" where
  "py_repr s =
     (let q = (if CHR 0x27 \<in> set s \<and> CHR 0x22 \<notin> set s then CHR 0x22 else CHR 0x27)
      in q # concat (map (\<lambda>c. if c = CHR 0x5C \<or> c = q then [CHR 0x5C, c]
                           else if c = CHR 0x0A then [CHR 0x5C, CHR ''n''] else if c = CHR 0x0D then [CHR 0x5C, CHR ''r'']
                           else if c = CHR 0x09 then [CHR 0x5C, CHR ''t''] else [c]) s) @ [q])"

definition exact_repr :: "exact \<Rightarrow> string" where
  "exact_repr e = (case e of One s \<Rightarrow> py_repr s | AnyOf xs \<Rightarrow> ''['' @ join '', '' (map py_repr xs) @ '']'')"

definition exact_options :: "exact \<Rightarrow> string list" where
  "exact_options e = (case e of One s \<Rightarrow> [s] | AnyOf xs \<Rightarrow> xs)"

definition verdict_row :: "string \<Rightarrow> bool \<Rightarrow> string \<Rightarrow> result" where
  "verdict_row cid passed detail =
     \<lparr>rs_case_id = cid, rs_candidate = [], rs_passed = passed, rs_seconds = 0, rs_peak_kb = 0, rs_detail = detail,
      rs_warnings = [], rs_metrics = [], rs_decisions = [], rs_failure_class = [], rs_limit = [], rs_ttft_s = None,
      rs_first_reasoning_s = None, rs_prefill_s = None, rs_cold = None, rs_attempts = []\<rparr>"

definition with_metrics :: "check_result \<Rightarrow> result \<Rightarrow> result" where
  "with_metrics r out = out\<lparr>rs_metrics := ck_metrics r, rs_decisions := ck_decisions r\<rparr>"

text \<open>The text assertions in their order; rows they fail carry the warnings and no metrics, \<open>equals\<close> apart.\<close>

definition text_verdict :: "string \<Rightarrow> assertions \<Rightarrow> string \<Rightarrow> check_result \<Rightarrow> result" where
  "text_verdict cid a artifact r =
     (let out = (\<lambda>ok detail. (verdict_row cid ok detail)\<lparr>rs_warnings := ck_warnings r\<rparr>);
          missing = filter (\<lambda>alts. \<not> list_ex (contains artifact) alts) (as_must_contain a);
          forbidden = filter (\<lambda>n. sublist (lower n) (lower artifact)) (as_must_not_contain a)
      in if missing \<noteq> [] then out False (''missing required content: '' @ join '' or '' (hd missing))
         else if forbidden \<noteq> [] then out False (''contains forbidden content: '' @ hd forbidden)
         else (case as_equals a of
                 None \<Rightarrow> with_metrics r (out True [])
               | Some e \<Rightarrow>
                   if lower (strip artifact) \<notin> set (map (\<lambda>o'. lower (strip o')) (exact_options e)) then
                     with_metrics r (out False (''expected exactly '' @ exact_repr e @ '', got '' @ py_repr (strip artifact)))
                   else with_metrics r (out True [])))"

definition score :: "string \<Rightarrow> string \<Rightarrow> assertions \<Rightarrow> string \<Rightarrow> check_result option \<Rightarrow> result" where
  "score cid modality a artifact found =
     (case found of
        None \<Rightarrow> verdict_row cid False (''no checker for modality '' @ py_repr modality)
      | Some r \<Rightarrow>
          if \<not> ck_ok r then
            (with_metrics r ((verdict_row cid False (ck_reason r))\<lparr>rs_warnings := ck_warnings r\<rparr>))
              \<lparr>rs_failure_class := ck_failure_class r, rs_limit := ck_limit r\<rparr>
          else (case as_min_shapes a of
                  None \<Rightarrow> text_verdict cid a artifact r
                | Some k \<Rightarrow>
                    if ck_shape_count r < k then
                      (verdict_row cid False (''expected at least '' @ decimal k @ '' shapes, drew '' @ decimal (ck_shape_count r)))
                        \<lparr>rs_warnings := ck_warnings r\<rparr>
                    else text_verdict cid a artifact r))"

section \<open>A run per candidate\<close>

definition gather_metrics :: "result list \<Rightarrow> (string \<times> rat list) list" where
  "gather_metrics rows = foldl (\<lambda>d (name, v). dict_append name v d) [] (concat (map rs_metrics rows))"

definition mean_metric :: "(string \<times> rat list) list \<Rightarrow> string \<Rightarrow> rat list \<Rightarrow> rat" where
  "mean_metric gathered name vals =
     (case map_of RATIO_METRICS name of
        None \<Rightarrow> round_to 4 (mean_of vals)
      | Some (n, d) \<Rightarrow>
          (case (map_of gathered n, map_of gathered d) of
             (Some ns, Some ds) \<Rightarrow> if sum_list ds \<noteq> 0 then round_to 4 (sum_list ns / sum_list ds) else 0
           | _ \<Rightarrow> round_to 4 (mean_of vals)))"

definition mean_metrics :: "result list \<Rightarrow> (string \<times> rat) list" where
  "mean_metrics rows =
     (let g = gather_metrics rows
      in map (\<lambda>(name, vals). (name, mean_metric g name vals)) (filter (\<lambda>(name, vals). name \<notin> set COMPANIONS) g))"

definition worst_of :: "string \<Rightarrow> rat list \<Rightarrow> rat" where
  "worst_of name vals = round_to 4 (if direction_of name = ''lower'' then Max (set vals) else Min (set vals))"

definition worst_metrics :: "result list \<Rightarrow> (string \<times> rat) list" where
  "worst_metrics rows =
     map (\<lambda>(name, vals). (name, worst_of name vals)) (filter (\<lambda>(name, vals). name \<notin> set COMPANIONS) (gather_metrics rows))"

definition decisions_of :: "result list \<Rightarrow> (rat \<times> bool) list" where
  "decisions_of rows = concat (map rs_decisions rows)"

definition decide_calibration :: "result list \<Rightarrow> (string \<times> rat) list" where
  "decide_calibration rows =
     (if length (decisions_of rows) < MIN_ECE_N then []
      else [(''decide_ece'', round_to 4 (ece (decisions_of rows) ECE_BINS))])"

definition over_budget :: "result \<Rightarrow> bool" where
  "over_budget r \<longleftrightarrow> \<not> rs_passed r \<and> rs_failure_class r = ''token_budget_exhausted''"

definition fails_as :: "string \<Rightarrow> result \<Rightarrow> bool" where
  "fails_as kind r \<longleftrightarrow> \<not> over_budget r \<and> \<not> rs_passed r \<and> failure_kind (rs_detail r) = kind"

definition count_of :: "string list \<Rightarrow> (string \<times> nat) list" where
  "count_of items = foldl (\<lambda>d x. dict_put x (get_or 0 d x + 1) d) [] items"

definition p95 :: "rat list \<Rightarrow> rat option" where
  "p95 values =
     (let v = sort values; n = length v
      in if v = [] then None else Some (v ! min (n - 1) (nat \<lfloor>of_nat n * (95 / 100) :: rat\<rfloor>)))"

record first_token_roll =
  ft_ttft_median :: "rat option"
  ft_ttft_p95 :: "rat option"
  ft_ttft_n :: nat
  ft_ttft_cold :: "rat option"
  ft_first_reasoning_median :: "rat option"
  ft_prefill_median :: "rat option"

definition warm :: "(result \<Rightarrow> rat option) \<Rightarrow> result list \<Rightarrow> rat list" where
  "warm field rows = List.map_filter (\<lambda>r. if rs_cold r = Some True then None else field r) rows"

definition rounded_median :: "rat list \<Rightarrow> rat option" where
  "rounded_median v = (if v = [] then None else Some (round_to 3 (median v)))"

definition first_token :: "result list \<Rightarrow> first_token_roll" where
  "first_token rows =
     (let ttft = warm rs_ttft_s rows;
          cold = List.map_filter (\<lambda>r. if rs_cold r = Some True then rs_ttft_s r else None) rows
      in \<lparr>ft_ttft_median = rounded_median ttft, ft_ttft_p95 = map_option (round_to 3) (p95 ttft), ft_ttft_n = length ttft,
          ft_ttft_cold = (case cold of [] \<Rightarrow> None | c # cs \<Rightarrow> Some (round_to 3 c)),
          ft_first_reasoning_median = rounded_median (warm rs_first_reasoning_s rows),
          ft_prefill_median = rounded_median (warm rs_prefill_s rows)\<rparr>)"

record agent_roll =
  ag_completed :: nat
  ag_cases :: nat
  ag_valid_call_rate :: rat
  ag_steps_median :: rat
  ag_total_s :: rat
  ag_ttft_sum_s :: rat
  ag_model_s :: rat

datatype agent_summary = NotAgent | OnlyContext rat | AgentRows agent_roll "rat option"

definition metric_sum :: "string \<Rightarrow> (string \<times> rat) list list \<Rightarrow> rat" where
  "metric_sum name ms = sum_list (map (\<lambda>m. get_or 0 m name) ms)"

definition agent_summary_of :: "result list \<Rightarrow> agent_summary" where
  "agent_summary_of rows =
     (let got = map rs_metrics (filter (\<lambda>r. map_of (rs_metrics r) ''agent_steps'' \<noteq> None) rows);
          ctx = foldl max 0 (map (\<lambda>r. get_or 0 (rs_metrics r) ''agent_ctx'') rows);
          calls = metric_sum ''agent_tool_calls'' got
      in if got = [] then (if ctx \<noteq> 0 then OnlyContext ctx else NotAgent)
         else AgentRows
           \<lparr>ag_completed = length (filter (\<lambda>r. rs_passed r \<and> map_of (rs_metrics r) ''agent_steps'' \<noteq> None) rows),
            ag_cases = length got,
            ag_valid_call_rate = (if calls \<noteq> 0 then round_to 4 (metric_sum ''agent_valid_calls'' got / calls) else 0),
            ag_steps_median = median (map (\<lambda>m. get_or 0 m ''agent_steps'') got),
            ag_total_s = round_to 1 (metric_sum ''agent_wall_s'' got),
            ag_ttft_sum_s = round_to 1 (metric_sum ''agent_ttft_sum_s'' got),
            ag_model_s = round_to 1 (metric_sum ''agent_model_s'' got)\<rparr>
           (if ctx \<noteq> 0 then Some ctx else None))"

definition by_rung :: "result list \<Rightarrow> (int \<times> nat \<times> nat \<times> rat) list" where
  "by_rung rows =
     sort_key fst (foldl (\<lambda>d a. let (tried, ok, secs) = get_or (0, 0, 0) d (at_max_tokens a)
         in dict_put (at_max_tokens a) (tried + 1, ok + (if at_passed a then 1 else 0), round_to 3 (secs + at_seconds a)) d)
       [] (concat (map rs_attempts rows)))"

record summary =
  su_total :: nat
  su_passed :: nat
  su_pass_rate :: rat
  su_median_s :: rat
  su_first_s :: rat
  su_first_is_cold :: bool
  su_total_s :: rat
  su_peak_kb :: nat
  su_warnings :: nat
  su_metrics :: "(string \<times> rat) list"
  su_metrics_worst :: "(string \<times> rat) list"
  su_failures :: "string list"
  su_failure_classes :: "(string \<times> nat) list"
  su_limits :: "string list"
  su_budget :: nat
  su_wrong :: nat
  su_empty :: nat
  su_errored :: nat
  su_metric_n :: "(string \<times> nat) list"
  su_case_ids :: "string list"
  su_first_token :: first_token_roll
  su_agent :: agent_summary
  su_by_rung :: "(int \<times> nat \<times> nat \<times> rat) list"

definition summary_of :: "bool \<Rightarrow> result list \<Rightarrow> summary" where
  "summary_of is_first rows =
     (let times = map rs_seconds rows; passed = length (filter rs_passed rows); pooled = decide_calibration rows;
          failed = filter (\<lambda>r. \<not> rs_passed r) rows
      in \<lparr>su_total = length rows, su_passed = passed, su_pass_rate = round_to 3 (of_nat passed / of_nat (length rows)),
          su_median_s = (if times = [] then 0 else round_to 3 (median times)),
          su_first_s = (case times of [] \<Rightarrow> 0 | t # ts \<Rightarrow> round_to 3 t), su_first_is_cold = is_first,
          su_total_s = round_to 1 (sum_list times), su_peak_kb = foldl max 0 (map rs_peak_kb rows),
          su_warnings = sum_list (map (length \<circ> rs_warnings) rows),
          su_metrics = foldl (\<lambda>d (k, v). dict_put k v d) (mean_metrics rows) pooled,
          su_metrics_worst = worst_metrics rows,
          su_failures = map (\<lambda>r. rs_case_id r @ '': '' @ rs_detail r) failed,
          su_failure_classes = count_of (filter (\<lambda>c. c \<noteq> []) (map rs_failure_class failed)),
          su_limits = sort (remdups (filter (\<lambda>l. l \<noteq> []) (map rs_limit failed))),
          su_budget = length (filter over_budget rows), su_wrong = length (filter (fails_as ''wrong'') rows),
          su_empty = length (filter (fails_as ''empty'') rows), su_errored = length (filter (fails_as ''error'') rows),
          su_metric_n = (let n = map (\<lambda>(k, v). (k, length v)) (gather_metrics rows)
                         in if pooled = [] then n else dict_put ''decide_ece'' (length (decisions_of rows)) n),
          su_case_ids = sort (remdups (map (\<lambda>r. fst (partition_at (CHR ''#'') (rs_case_id r))) rows)),
          su_first_token = first_token rows, su_agent = agent_summary_of rows, su_by_rung = by_rung rows\<rparr>)"

definition candidates_of :: "result list \<Rightarrow> string list" where
  "candidates_of results = first_of_each (map rs_candidate results)"

definition rows_of :: "result list \<Rightarrow> string \<Rightarrow> result list" where
  "rows_of results c = filter (\<lambda>r. rs_candidate r = c) results"

definition summarize :: "result list \<Rightarrow> (string \<times> summary) list" where
  "summarize results =
     map (\<lambda>c. (c, summary_of (c = hd (candidates_of results)) (rows_of results c))) (candidates_of results)"

end
