(* ===== verification/ScoringFacts.thy ===== *)
theory ScoringFacts
  imports Scoring
begin

text \<open>
  What judging and summing up promise: a case passes exactly when its checker and every assertion agree, every row of
  a run is counted once and in one class, and the worst value of a metric is never better than its mean.
\<close>

section \<open>One artifact\<close>

lemma text_verdict_passed:
  "rs_passed (text_verdict cid a artifact r) \<longleftrightarrow>
     (\<forall>alts \<in> set (as_must_contain a). \<exists>n \<in> set alts. contains artifact n)
       \<and> (\<forall>n \<in> set (as_must_not_contain a). \<not> sublist (lower n) (lower artifact))
       \<and> (\<forall>e. as_equals a = Some e \<longrightarrow> lower (strip artifact) \<in> (\<lambda>x. lower (strip x)) ` set (exact_options e))"
proof -
  have "filter (\<lambda>alts. \<not> list_ex (contains artifact) alts) (as_must_contain a) \<noteq> []
      \<longleftrightarrow> \<not> (\<forall>alts \<in> set (as_must_contain a). \<exists>n \<in> set alts. contains artifact n)"
    by (auto simp: filter_empty_conv list_ex_iff)
  moreover have "filter (\<lambda>n. sublist (lower n) (lower artifact)) (as_must_not_contain a) \<noteq> []
      \<longleftrightarrow> \<not> (\<forall>n \<in> set (as_must_not_contain a). \<not> sublist (lower n) (lower artifact))"
    by (auto simp: filter_empty_conv)
  ultimately show ?thesis
    unfolding text_verdict_def Let_def
    by (simp only: if_distrib [of rs_passed] with_metrics_def verdict_row_def option.case_distrib [of rs_passed])
       (cases "as_equals a"; simp add: image_iff)
qed

lemma text_verdict_detail:
  "rs_detail (text_verdict cid a artifact r) = [] \<longleftrightarrow> rs_passed (text_verdict cid a artifact r)"
  unfolding text_verdict_def Let_def by (simp add: with_metrics_def verdict_row_def split: option.splits)

lemma text_verdict_metrics:
  "rs_passed (text_verdict cid a artifact r) \<Longrightarrow> rs_metrics (text_verdict cid a artifact r) = ck_metrics r"
  unfolding text_verdict_def Let_def by (auto simp: with_metrics_def verdict_row_def split: option.splits if_splits)

text \<open>
  C14. A case passes exactly when something checks its modality, the checker accepts the artifact, and every assertion
  holds: enough shapes, one of the alternatives of each required text, no forbidden text, an exact answer among those
  allowed. A passing row carries the checker's numbers and no detail, and a failing row always says why when its
  checker does.
\<close>

theorem score_passes_iff:
  fixes cid modality a artifact found
  defines "out \<equiv> score cid modality a artifact found"
  shows "(rs_passed out \<longleftrightarrow>
      (\<exists>r. found = Some r \<and> ck_ok r \<and> (\<forall>k. as_min_shapes a = Some k \<longrightarrow> k \<le> ck_shape_count r)
        \<and> (\<forall>alts \<in> set (as_must_contain a). \<exists>n \<in> set alts. contains artifact n)
        \<and> (\<forall>n \<in> set (as_must_not_contain a). \<not> sublist (lower n) (lower artifact))
        \<and> (\<forall>e. as_equals a = Some e \<longrightarrow> lower (strip artifact) \<in> (\<lambda>x. lower (strip x)) ` set (exact_options e))))
    \<and> (rs_passed out \<longrightarrow> rs_detail out = [] \<and> (\<exists>r. found = Some r \<and> rs_metrics out = ck_metrics r))
    \<and> (\<not> rs_passed out \<and> (\<forall>r. found = Some r \<and> \<not> ck_ok r \<longrightarrow> ck_reason r \<noteq> []) \<longrightarrow> rs_detail out \<noteq> [])"
proof (intro conjI)
  note ds = out_def score_def with_metrics_def verdict_row_def
  show "rs_passed out \<longleftrightarrow>
      (\<exists>r. found = Some r \<and> ck_ok r \<and> (\<forall>k. as_min_shapes a = Some k \<longrightarrow> k \<le> ck_shape_count r)
        \<and> (\<forall>alts \<in> set (as_must_contain a). \<exists>n \<in> set alts. contains artifact n)
        \<and> (\<forall>n \<in> set (as_must_not_contain a). \<not> sublist (lower n) (lower artifact))
        \<and> (\<forall>e. as_equals a = Some e \<longrightarrow> lower (strip artifact) \<in> (\<lambda>x. lower (strip x)) ` set (exact_options e)))"
    by (cases found; cases "as_min_shapes a") (simp_all add: ds text_verdict_passed not_less)
  show "rs_passed out \<longrightarrow> rs_detail out = [] \<and> (\<exists>r. found = Some r \<and> rs_metrics out = ck_metrics r)"
    by (cases found; cases "as_min_shapes a") (auto simp: ds text_verdict_detail text_verdict_metrics split: if_splits)
  show "\<not> rs_passed out \<and> (\<forall>r. found = Some r \<and> \<not> ck_ok r \<longrightarrow> ck_reason r \<noteq> []) \<longrightarrow> rs_detail out \<noteq> []"
    by (cases found; cases "as_min_shapes a") (auto simp: ds text_verdict_detail split: if_splits)
qed

definition sample_check :: "nat \<Rightarrow> check_result" where
  "sample_check shapes = \<lparr>ck_ok = True, ck_reason = [], ck_warnings = [], ck_shape_count = shapes, ck_metrics = [(''ink'', 1 / 2)],
     ck_decisions = [], ck_failure_class = [], ck_limit = []\<rparr>"

definition sample_assertions :: assertions where
  "sample_assertions = \<lparr>as_min_shapes = Some 3, as_must_contain = [[''text'', ''title'']], as_must_not_contain = [''script''],
     as_equals = None\<rparr>"

theorem score_witness:
  "rs_passed (score ''c'' ''svg'' sample_assertions ''<svg><title>x</title></svg>'' (Some (sample_check 3)))
    \<and> rs_detail (score ''c'' ''svg'' sample_assertions ''<svg><title>x</title></svg>'' (Some (sample_check 3))) = []
    \<and> \<not> rs_passed (score ''c'' ''svg'' sample_assertions ''<svg><context/></svg>'' (Some (sample_check 3)))
    \<and> rs_detail (score ''c'' ''svg'' sample_assertions ''<svg><context/></svg>'' (Some (sample_check 3))) \<noteq> []"
proof -
  have p: "rs_passed (score ''c'' ''svg'' sample_assertions ''<svg><title>x</title></svg>'' (Some (sample_check 3)))" by code_simp
  have f: "\<not> rs_passed (score ''c'' ''svg'' sample_assertions ''<svg><context/></svg>'' (Some (sample_check 3)))" by code_simp
  have "rs_detail (score ''c'' ''svg'' sample_assertions ''<svg><title>x</title></svg>'' (Some (sample_check 3))) = []"
    using p score_passes_iff by blast
  moreover have "rs_detail (score ''c'' ''svg'' sample_assertions ''<svg><context/></svg>'' (Some (sample_check 3))) \<noteq> []"
    using f score_passes_iff [of "''c''" "''svg''" sample_assertions "''<svg><context/></svg>''" "Some (sample_check 3)"]
    by (simp add: sample_check_def)
  ultimately show ?thesis using p f by blast
qed

section \<open>A run per candidate\<close>

lemma failure_kind_values: "failure_kind d = (if d = [] then [] else failure_kind d)" "failure_kind d \<in> {[], ''error'', ''empty'', ''wrong''}"
  "failure_kind d = [] \<longleftrightarrow> d = []"
  by (auto simp: failure_kind_def Let_def)

lemma row_class:
  assumes "rs_passed r \<or> rs_detail r \<noteq> []"
  shows "(if rs_passed r then 1 else 0 :: nat) + (if over_budget r then 1 else 0) + (if fails_as ''wrong'' r then 1 else 0)
    + (if fails_as ''empty'' r then 1 else 0) + (if fails_as ''error'' r then 1 else 0) = 1"
  using assms failure_kind_values(2,3) [of "rs_detail r"] by (auto simp: fails_as_def over_budget_def)

lemma length_filter_sum: "length (filter P xs) = (\<Sum>x \<leftarrow> xs. if P x then 1 else 0)"
  by (induction xs) auto

lemma classes_count:
  assumes "\<forall>r \<in> set rows. rs_passed r \<or> rs_detail r \<noteq> []"
  shows "length (filter rs_passed rows) + length (filter over_budget rows) + length (filter (fails_as ''wrong'') rows)
    + length (filter (fails_as ''empty'') rows) + length (filter (fails_as ''error'') rows) = length rows"
  using assms
proof (induction rows)
  case (Cons r rows)
  then show ?case using row_class [of r] by (simp split: if_splits)
qed simp

lemma candidates_distinct: "distinct (candidates_of results)" and candidates_set: "set (candidates_of results) = rs_candidate ` set results"
  by (simp_all add: candidates_of_def first_of_each_def)

lemma rows_partition:
  assumes "distinct cs"
  shows "(\<Sum>c \<leftarrow> cs. length (rows_of results c)) = length (filter (\<lambda>r. rs_candidate r \<in> set cs) results)"
proof (induction results)
  case (Cons r results)
  have "(\<Sum>c \<leftarrow> cs. length (rows_of (r # results) c))
      = (\<Sum>c \<leftarrow> cs. if rs_candidate r = c then 1 else 0) + (\<Sum>c \<leftarrow> cs. length (rows_of results c))"
    unfolding sum_list_addf [symmetric] by (intro arg_cong [where f = sum_list] map_cong) (auto simp: rows_of_def)
  moreover have "(\<Sum>c \<leftarrow> cs. if rs_candidate r = c then 1 else 0) = (if rs_candidate r \<in> set cs then 1 else 0 :: nat)"
    using assms by (induction cs) auto
  ultimately show ?case using Cons by simp
qed (simp add: rows_of_def sum_list_0)

text \<open>
  The roll-up of a run names each candidate that has a row, once; the totals add up to the rows of the run; and
  where every failing row says why, a candidate's rows are its passes, its budget cut-offs, its wrong answers, its empty
  answers and its broken instruments, each row in exactly one of them.
\<close>

theorem summary_partitions:
  assumes "\<forall>r \<in> set results. rs_passed r \<or> rs_detail r \<noteq> []"
  shows "distinct (map fst (summarize results)) \<and> set (map fst (summarize results)) = rs_candidate ` set results
    \<and> sum_list (map (su_total \<circ> snd) (summarize results)) = length results
    \<and> (\<forall>(c, s) \<in> set (summarize results). 0 < su_total s
         \<and> su_total s = su_passed s + su_budget s + su_wrong s + su_empty s + su_errored s)"
proof -
  have fst: "map fst (summarize results) = candidates_of results" by (simp add: summarize_def o_def)
  have tot: "map (su_total \<circ> snd) (summarize results) = map (\<lambda>c. length (rows_of results c)) (candidates_of results)"
    by (simp add: summarize_def summary_of_def Let_def o_def)
  have "sum_list (map (su_total \<circ> snd) (summarize results)) = length (filter (\<lambda>r. rs_candidate r \<in> set (candidates_of results)) results)"
    unfolding tot by (rule rows_partition [OF candidates_distinct])
  also have "filter (\<lambda>r. rs_candidate r \<in> set (candidates_of results)) results = results"
    unfolding candidates_set by (simp add: filter_id_conv)
  finally have sum: "sum_list (map (su_total \<circ> snd) (summarize results)) = length results" .
  have "0 < su_total s \<and> su_total s = su_passed s + su_budget s + su_wrong s + su_empty s + su_errored s"
    if "(c, s) \<in> set (summarize results)" for c s
  proof -
    have c: "c \<in> rs_candidate ` set results" and s: "s = summary_of (c = hd (candidates_of results)) (rows_of results c)"
      using that candidates_set [of results] by (auto simp: summarize_def)
    have "rows_of results c \<noteq> []" using c by (auto simp: rows_of_def filter_empty_conv)
    moreover have "\<forall>r \<in> set (rows_of results c). rs_passed r \<or> rs_detail r \<noteq> []" using assms by (simp add: rows_of_def)
    ultimately show ?thesis
      using classes_count [of "rows_of results c"] unfolding s by (simp add: summary_of_def Let_def)
  qed
  then show ?thesis using fst sum candidates_distinct candidates_set by auto
qed

definition sample_rows :: "result list" where
  "sample_rows = [verdict_row ''a#1'' True [], verdict_row ''a#2'' False ''timed out after 60s'', verdict_row ''b#1'' False ''expected 3'']"

theorem summary_witness: "sum_list (map (su_total \<circ> snd) (summarize sample_rows)) = 3"
proof -
  have "\<forall>r \<in> set sample_rows. rs_passed r \<or> rs_detail r \<noteq> []" by (simp add: sample_rows_def verdict_row_def)
  from summary_partitions [OF this] show ?thesis by (simp add: sample_rows_def)
qed

lemma dict_append_nonempty: "\<forall>(k, vs) \<in> set d. vs \<noteq> [] \<Longrightarrow> (k, vs) \<in> set (dict_append x v d) \<Longrightarrow> vs \<noteq> []"
  by (induction x v d rule: dict_append.induct) (auto split: if_splits)

lemma dict_append_keys: "set (map fst (dict_append x v d)) = insert x (set (map fst d))"
  by (induction x v d rule: dict_append.induct) auto

lemma dict_append_distinct: "distinct (map fst d) \<Longrightarrow> distinct (map fst (dict_append x v d))"
proof (induction x v d rule: dict_append.induct)
  case (2 k v k' vs d)
  then show ?case using dict_append_keys [of k v d] by auto
qed simp

lemma gathered:
  "distinct (map fst (gather_metrics rows)) \<and> (\<forall>(k, vs) \<in> set (gather_metrics rows). vs \<noteq> [])"
proof -
  have "distinct (map fst (foldl (\<lambda>d (name, v). dict_append name v d) acc ms))
      \<and> (\<forall>(k, vs) \<in> set (foldl (\<lambda>d (name, v). dict_append name v d) acc ms). vs \<noteq> [])"
    if "distinct (map fst acc)" "\<forall>(k, vs) \<in> set acc. vs \<noteq> []" for acc and ms :: "(string \<times> rat) list"
    using that
  proof (induction ms arbitrary: acc)
    case (Cons m ms)
    obtain n v where m: "m = (n, v)" by (cases m)
    have "distinct (map fst (dict_append n v acc))" "\<forall>(k, vs) \<in> set (dict_append n v acc). vs \<noteq> []"
      using dict_append_distinct [OF Cons.prems(1)] dict_append_nonempty [OF Cons.prems(2)] by blast+
    from Cons.IH [OF this] show ?case by (simp add: m)
  qed simp
  from this [of "[]"] show ?thesis unfolding gather_metrics_def by simp
qed

lemma mean_between:
  assumes "xs \<noteq> []"
  shows "Min (set xs) \<le> mean_of xs" and "mean_of xs \<le> Max (set xs)"
proof -
  have n: "(0 :: rat) < of_nat (length xs)" using assms by simp
  have "of_nat (length ys) * Min (set xs) \<le> sum_list ys \<and> sum_list ys \<le> of_nat (length ys) * Max (set xs)"
    if "set ys \<subseteq> set xs" for ys
    using that
  proof (induction ys)
    case (Cons y ys)
    then have "Min (set xs) \<le> y" "y \<le> Max (set xs)" by simp_all
    with Cons show ?case by (simp add: algebra_simps add_mono)
  qed simp
  from this [of xs] show "Min (set xs) \<le> mean_of xs" and "mean_of xs \<le> Max (set xs)"
    using n by (simp_all add: mean_of_def pos_le_divide_eq pos_divide_le_eq mult.commute)
qed

lemma round_to_mono: "x \<le> y \<Longrightarrow> round_to k x \<le> round_to k y"
  unfolding round_to_def by (intro divide_right_mono) (simp_all add: py_round_mono mult_right_mono)

lemma map_of_map_filter:
  "distinct (map fst d) \<Longrightarrow> map_of (map (\<lambda>(k, v). (k, f k v)) (filter (\<lambda>(k, v). P k) d)) k
     = (if P k then map_option (f k) (map_of d k) else None)"
  by (induction d) (auto simp: map_of_eq_None_iff image_iff)

text \<open>
  A run's means and its worst values are given for the same metrics, none of them mere bookkeeping, and the worst
  value of a metric that is not a ratio is never better than its mean: not below it where lower is better, not above
  it otherwise.
\<close>

theorem worst_bounds_mean:
  assumes "map_of (mean_metrics rows) name = Some m" and "map_of (worst_metrics rows) name = Some w"
    and "map_of RATIO_METRICS name = None"
  shows "name \<notin> set COMPANIONS \<and> map fst (mean_metrics rows) = map fst (worst_metrics rows)
    \<and> (if direction_of name = ''lower'' then m \<le> w else w \<le> m)"
proof -
  let ?g = "gather_metrics rows"
  note d = conjunct1 [OF gathered, of rows] and ne = conjunct2 [OF gathered, of rows]
  have mean: "map_of (mean_metrics rows) name = (if name \<notin> set COMPANIONS then map_option (mean_metric ?g name) (map_of ?g name) else None)"
    unfolding mean_metrics_def Let_def by (rule map_of_map_filter [OF d])
  have worst: "map_of (worst_metrics rows) name = (if name \<notin> set COMPANIONS then map_option (worst_of name) (map_of ?g name) else None)"
    unfolding worst_metrics_def by (rule map_of_map_filter [OF d])
  obtain vals where v: "name \<notin> set COMPANIONS" "map_of ?g name = Some vals" "m = mean_metric ?g name vals" "w = worst_of name vals"
    using assms(1,2) unfolding mean worst by (auto split: if_splits)
  have "vals \<noteq> []" using ne v(2) by (auto dest!: map_of_SomeD)
  then have "if direction_of name = ''lower'' then m \<le> w else w \<le> m"
    using mean_between [of vals] assms(3) v(3,4) by (simp add: mean_metric_def worst_of_def round_to_mono)
  moreover have "map fst (mean_metrics rows) = map fst (worst_metrics rows)"
    by (simp add: mean_metrics_def worst_metrics_def Let_def o_def case_prod_unfold)
  ultimately show ?thesis using v(1) by blast
qed

theorem worst_witness:
  "map_of (worst_metrics [with_metrics (sample_check 3) (verdict_row ''a'' True [])]) ''ink'' = Some (1 / 2) \<and> ''ink'' \<notin> set COMPANIONS"
proof -
  let ?rows = "[with_metrics (sample_check 3) (verdict_row ''a'' True [])]"
  have "map_of (mean_metrics ?rows) ''ink'' = Some (1 / 2)" "map_of (worst_metrics ?rows) ''ink'' = Some (1 / 2)"
    "map_of RATIO_METRICS ''ink'' = None" by code_simp+
  from worst_bounds_mean [OF this] this(2) show ?thesis by blast
qed

end
