(* ===== verification/Votes.thy ===== *)
theory Votes
  imports Claims Lanes
begin

text \<open>
  Verdicts a person gives (\<open>harness/human.py\<close>): the pairings of a run, the table of votes, the tally of a pairing, and
  who won a lane. The clock, the account name and the machine's id are arguments. Sentences are left out; what they quote is kept.
\<close>

definition ENOUGH :: nat where "ENOUGH = 3"
definition ANSWERS :: "string list" where "ANSWERS = [''a'', ''b'', ''tie'']"

section \<open>Pairings\<close>

record run_row =
  rn_case :: string
  rn_candidate :: string
  rn_passed :: bool
  rn_output :: string
  rn_artifact :: string

record pairing =
  pg_case :: string
  pg_a :: string
  pg_b :: string
  pg_a_file :: string
  pg_b_file :: string
  pg_a_text :: string
  pg_b_text :: string

definition file_of :: "(string \<Rightarrow> bool) \<Rightarrow> run_row \<Rightarrow> string" where
  "file_of is_file r = (if rn_artifact r \<noteq> [] \<and> is_file (rn_artifact r) then rn_artifact r else [])"

fun pairs_in_order :: "string list \<Rightarrow> (string \<times> string) list" where
  "pairs_in_order [] = []"
| "pairs_in_order (a # bs) = map (\<lambda>b. (a, b)) bs @ pairs_in_order bs"

definition judged_rows :: "run_row list \<Rightarrow> run_row list" where
  "judged_rows rows = filter (\<lambda>r. (rn_output r \<noteq> [] \<or> rn_artifact r \<noteq> []) \<and> rn_passed r) rows"

definition case_base :: "run_row \<Rightarrow> string" where
  "case_base r = fst (partition_at (CHR ''#'') (rn_case r))"

definition pairings_of_case :: "(string \<Rightarrow> bool) \<Rightarrow> string \<Rightarrow> run_row list \<Rightarrow> pairing list" where
  "pairings_of_case is_file c rows =
     (let first_row = (\<lambda>n. the (find (\<lambda>r. rn_candidate r = n) rows));
          names = sort (remdups (map rn_candidate rows))
      in map (\<lambda>(a, b). \<lparr>pg_case = c, pg_a = a, pg_b = b, pg_a_file = file_of is_file (first_row a),
             pg_b_file = file_of is_file (first_row b), pg_a_text = rn_output (first_row a), pg_b_text = rn_output (first_row b)\<rparr>)
           (pairs_in_order names))"

definition pairings :: "(string \<Rightarrow> bool) \<Rightarrow> run_row list \<Rightarrow> pairing list" where
  "pairings is_file rows =
     (let js = judged_rows rows
      in concat (map (\<lambda>c. pairings_of_case is_file c (filter (\<lambda>r. case_base r = c) js)) (sort (remdups (map case_base js)))))"

section \<open>Votes\<close>

record vote =
  vt_lane :: string
  vt_run :: string
  vt_case :: string
  vt_left :: string
  vt_right :: string
  vt_winner :: string
  vt_shown_first :: string
  vt_voter :: string
  vt_machine :: "nat option"
  vt_at :: rat

definition record_vote :: "rat \<Rightarrow> nat option \<Rightarrow> string \<Rightarrow> string \<Rightarrow> string \<Rightarrow> string \<Rightarrow> string \<Rightarrow> string \<Rightarrow> string \<Rightarrow> string
    \<Rightarrow> vote list \<Rightarrow> string + vote list" where
  "record_vote now machine lane c a b answer shown run voter votes =
     (if answer \<notin> set ANSWERS then Inl answer
      else Inr (votes @ [\<lparr>vt_lane = canonical lane, vt_run = run, vt_case = c, vt_left = min a b, vt_right = max a b,
          vt_winner = get_or [] [(''a'', a), (''b'', b)] answer, vt_shown_first = shown, vt_voter = voter,
          vt_machine = machine, vt_at = now\<rparr>]))"

text \<open>A \<open>Counter\<close> is its counted values in the order they came.\<close>

definition tally :: "vote list \<Rightarrow> string \<Rightarrow> string \<Rightarrow> string \<Rightarrow> string \<Rightarrow> string list" where
  "tally votes lane c a b =
     map vt_winner (filter (\<lambda>v. vt_lane v = canonical lane \<and> vt_case v = c \<and> vt_left v = min a b \<and> vt_right v = max a b) votes)"

definition most_common :: "string list \<Rightarrow> (string \<times> nat) list" where
  "most_common ws = sort_key (\<lambda>(w, n). - int n) (map (\<lambda>w. (w, count_list ws w)) (first_of_each ws))"

definition plurality :: "string list \<Rightarrow> string" where
  "plurality ws =
     (case most_common ws of
        [] \<Rightarrow> []
      | (w, n) # rest \<Rightarrow> (case rest of [] \<Rightarrow> w | (w2, n2) # _ \<Rightarrow> if n = n2 then [] else w))"

text \<open>\<^term>\<open>None\<close>: not asked enough; the empty string: a tie.\<close>

definition decided :: "vote list \<Rightarrow> string \<Rightarrow> string \<Rightarrow> string \<Rightarrow> string \<Rightarrow> string option" where
  "decided votes lane c a b =
     (let ws = tally votes lane c a b in if length ws < ENOUGH then None else Some (plurality ws))"

definition largest_count :: "string list \<Rightarrow> nat" where
  "largest_count ws = foldl max 0 (map (count_list ws) ws)"

definition agreement :: "string list list \<Rightarrow> nat \<times> rat option" where
  "agreement counts =
     (let n = sum_list (map length counts)
      in (n, if n = 0 then None else Some (of_nat (sum_list (map largest_count counts)) / of_nat n)))"

definition vote_stats :: "vote list \<Rightarrow> string \<Rightarrow> pairing list \<Rightarrow> nat \<times> rat option" where
  "vote_stats votes lane pairs = agreement (map (\<lambda>p. tally votes lane (pg_case p) (pg_a p) (pg_b p)) pairs)"

section \<open>The lane\<close>

datatype lane_why =
    ShortOfAnswers string
  | NothingToJudge
  | NoPreference "(string \<times> string) list"
  | CasesDisagree nat "(string \<times> string) list"
  | WonCases nat nat nat "(string \<times> string) list"

text \<open>The answers by case, in the order of the pairings: a later pairing of a case replaces an earlier one's.\<close>

fun decided_by :: "vote list \<Rightarrow> string \<Rightarrow> (string \<times> string) list \<Rightarrow> pairing list \<Rightarrow> string + (string \<times> string) list" where
  "decided_by votes lane got [] = Inr got"
| "decided_by votes lane got (p # ps) =
     (case decided votes lane (pg_case p) (pg_a p) (pg_b p) of
        None \<Rightarrow> Inl (pg_case p)
      | Some w \<Rightarrow> decided_by votes lane (dict_put (pg_case p) w got) ps)"

definition lane_verdict :: "vote list \<Rightarrow> string \<Rightarrow> pairing list \<Rightarrow> string option \<times> lane_why" where
  "lane_verdict votes lane pairs =
     (case decided_by votes lane [] pairs of
        Inl c \<Rightarrow> (None, ShortOfAnswers c)
      | Inr got \<Rightarrow>
          (if got = [] then (None, NothingToJudge)
           else
             (let winners = filter (\<lambda>w. w \<noteq> []) (map snd got); ties = length (filter (\<lambda>w. w = []) (map snd got));
                  detail = sort_key fst got
              in case most_common winners of
                   [] \<Rightarrow> (Some [], NoPreference detail)
                 | (w, n) # rest \<Rightarrow>
                     (case rest of
                        [] \<Rightarrow> (Some w, WonCases n (length got) ties detail)
                      | (w2, n2) # _ \<Rightarrow> if n = n2 then (Some [], CasesDisagree n detail)
                                       else (Some w, WonCases n (length got) ties detail)))))"

text \<open>\<open>pending\<close>: the pairings still short of answers, what each still needs, and the side shown first; \<open>coin\<close> is the draw.\<close>

definition pending_pairs :: "(nat \<Rightarrow> bool) \<Rightarrow> vote list \<Rightarrow> string \<Rightarrow> pairing list \<Rightarrow> (pairing \<times> nat \<times> string \<times> string) list" where
  "pending_pairs coin votes lane pairs =
     List.map_filter (\<lambda>(i, p).
        let asked = length (tally votes lane (pg_case p) (pg_a p) (pg_b p))
        in if ENOUGH \<le> asked then None
           else Some (p, ENOUGH - asked, if coin i then pg_a p else pg_b p, if coin i then pg_b p else pg_a p))
       (enumerate 0 pairs)"

end
