(* ===== verification/Adoption.thy ===== *)
theory Adoption
  imports Scoring VerdictStore Votes
begin

text \<open>
  The loop's closing step (\<open>harness/adopt.py\<close>, with \<open>order_key\<close> of \<open>harness/winners.py\<close>): the metric gate and the
  paired gate, the gate a person's votes replace, the written verdict with its row of \<open>adoptions\<close>, and what a machine
  serves. The verdict itself is written by \<open>VerdictStore\<close>. Which engine enforces a reply schema and what
  \<open>candidates.ensure\<close> maps a spec to are parameters; a method's cost note and the gateway's refresh are left out.
\<close>

section \<open>The metric gate\<close>

record lane_row =
  lw_candidate :: string
  lw_pass_rate :: rat
  lw_metrics :: "(string \<times> rat) list"
  lw_median_s :: rat

definition order_key :: "lane_row \<Rightarrow> rat \<times> rat list \<times> rat" where
  "order_key r =
     (lw_pass_rate r,
      List.map_filter (\<lambda>name. if direction_of name = ''neutral'' then None
          else Some (if direction_of name = ''higher'' then get_or 0 (lw_metrics r) name else - get_or 0 (lw_metrics r) name))
        (sort (remdups (map fst (lw_metrics r)))),
      - lw_median_s r)"

definition better :: "lane_row \<Rightarrow> lane_row \<Rightarrow> bool" where
  "better incumbent challenger \<longleftrightarrow> order_key incumbent < order_key challenger"

definition lane_row_of :: "result list \<Rightarrow> string \<Rightarrow> lane_row option" where
  "lane_row_of rows name =
     (let mine = rows_of rows name; s = summary_of True mine
      in if mine = [] then None
         else Some \<lparr>lw_candidate = name, lw_pass_rate = su_pass_rate s, lw_metrics = su_metrics s, lw_median_s = su_median_s s\<rparr>)"

section \<open>The paired gate\<close>

definition rrow_of :: "result \<Rightarrow> rrow" where
  "rrow_of r = \<lparr>rr_candidate = rs_candidate r, rr_case = rs_case_id r, rr_passed = rs_passed r, rr_seconds = Some (rs_seconds r)\<rparr>"

definition paired_p :: "result list \<Rightarrow> string \<Rightarrow> string \<Rightarrow> cell \<times> rat \<times> (nat \<times> nat) option" where
  "paired_p rows name_i name_c =
     (let rr = map rrow_of rows;
          c = head_to_head rr name_i name_c;
          (rho, repeat) = rows_icc rr [name_i, name_c];
          used = (case rho of None \<Rightarrow> DEFAULT_RHO | Some x \<Rightarrow> x);
          deff = design_effect repeat used
      in if deff \<le> 1 + 1 / 10 ^ 9 then (c, cell_p c, None)
         else
           (let gained = nat \<lfloor>of_nat (c_gained c) / deff + 1 / 10 ^ 9\<rfloor>;
                lost = nat \<lceil>of_nat (c_lost c) / deff - 1 / 10 ^ 9\<rceil>
            in (c, sign_test (min gained lost) (gained + lost), Some (gained, lost))))"

datatype gate_why =
    NotBetter
  | NoPairedRows
  | NoSharedCase
  | NotEstablished cell rat
  | Beats cell rat
  | WorseThan gate_why cell rat
  | Underpowered plan gate_why
  | NotJudged lane_why
  | IncumbentStays lane_why
  | IncumbentPreferred lane_why
  | PreferredByHand lane_why
  | ReferenceModel gate_why
  | NoSchemaEngine gate_why

record adopt_verdict =
  av_lane :: string
  av_incumbent :: string
  av_challenger :: string
  av_adopt :: bool
  av_why :: gate_why
  av_how :: string
  av_failure_class :: string
  av_dev :: "(cell \<times> rat) option"
  av_split :: "split_of option"
  av_plan :: "plan option"
  av_votes :: "nat option"
  av_agreement :: "rat option"
  av_forced :: bool
  av_all_machines :: bool
  av_held :: "(nat \<times> nat) option"

definition MEASURED :: string where "MEASURED = ''measured''"
definition BY_HAND :: string where "BY_HAND = ''by-hand''"
definition MIN_VOTES :: nat where "MIN_VOTES = 10"
definition UNDERPOWERED :: string where "UNDERPOWERED = ''underpowered''"

definition plain_verdict :: "string \<Rightarrow> string \<Rightarrow> string \<Rightarrow> bool \<Rightarrow> gate_why \<Rightarrow> string \<Rightarrow> adopt_verdict" where
  "plain_verdict lane i c ok why how =
     \<lparr>av_lane = lane, av_incumbent = i, av_challenger = c, av_adopt = ok, av_why = why, av_how = how, av_failure_class = [],
      av_dev = None, av_split = None, av_plan = None, av_votes = None, av_agreement = None, av_forced = False,
      av_all_machines = False, av_held = None\<rparr>"

definition gates :: "lane_row \<Rightarrow> lane_row \<Rightarrow> string \<Rightarrow> string \<Rightarrow> result list \<Rightarrow> bool \<times> gate_why" where
  "gates incumbent challenger name_i name_c rows =
     (if \<not> better incumbent challenger then (False, NotBetter)
      else if rows = [] then (False, NoPairedRows)
      else (let (c, p, shrunk) = paired_p rows name_i name_c
            in if discordant c = 0 \<and> c_unchanged c = 0 then (False, NoSharedCase)
               else if p > ALPHA then (False, NotEstablished c p) else (True, Beats c p)))"

definition worse_than :: "result list \<Rightarrow> string \<Rightarrow> string \<Rightarrow> (cell \<times> rat) option" where
  "worse_than rows name_i name_c =
     (let (c, p, shrunk) = paired_p rows name_i name_c
      in if c_lost c \<le> c_gained c \<or> p > ALPHA then None else Some (c, p))"

text \<open>The rows and summaries the gates read: those of the holdout side where a split is given.\<close>

definition on_side :: "split_of \<Rightarrow> string \<Rightarrow> result list \<Rightarrow> result list" where
  "on_side sp s rows = filter (\<lambda>r. side sp (rs_case_id r) = s) rows"

definition gated_input :: "lane_row \<Rightarrow> lane_row \<Rightarrow> result list \<Rightarrow> split_of option \<Rightarrow> lane_row \<times> lane_row \<times> result list" where
  "gated_input incumbent challenger rows split =
     (case split of
        None \<Rightarrow> (incumbent, challenger, rows)
      | Some sp \<Rightarrow>
          if rows = [] then (incumbent, challenger, rows)
          else (let h = on_side sp ''holdout'' rows in
                (case lane_row_of h (lw_candidate incumbent) of None \<Rightarrow> incumbent | Some r \<Rightarrow> r,
                 case lane_row_of h (lw_candidate challenger) of None \<Rightarrow> challenger | Some r \<Rightarrow> r, h)))"

definition dev_evidence :: "lane_row \<Rightarrow> lane_row \<Rightarrow> result list \<Rightarrow> split_of option \<Rightarrow> (cell \<times> rat) option" where
  "dev_evidence incumbent challenger rows split =
     (case split of
        None \<Rightarrow> None
      | Some sp \<Rightarrow>
          (let dev = on_side sp ''dev'' rows
           in if dev = [] then None
              else (let (c, p, shrunk) = paired_p dev (lw_candidate incumbent) (lw_candidate challenger) in Some (c, p))))"

definition decide_adoption :: "string \<Rightarrow> lane_row \<Rightarrow> lane_row \<Rightarrow> result list \<Rightarrow> split_of option \<Rightarrow> plan option \<Rightarrow> adopt_verdict" where
  "decide_adoption lane incumbent challenger rows split plan_opt =
     (let name_i = lw_candidate incumbent; name_c = lw_candidate challenger;
          (inc, cha, rs) = gated_input incumbent challenger rows split;
          (ok, why) = gates inc cha name_i name_c rs;
          worse = (if rs \<noteq> [] \<and> \<not> ok then worse_than rs name_i name_c else None);
          short = (case plan_opt of None \<Rightarrow> False | Some p \<Rightarrow> \<not> ok \<and> \<not> plan_enough p \<and> rs \<noteq> []);
          (why', failure) = (case worse of
             Some (c, p) \<Rightarrow> (WorseThan why c p, [])
           | None \<Rightarrow> (case plan_opt of
                       Some p \<Rightarrow> if short then (Underpowered p why, UNDERPOWERED) else (why, [])
                     | None \<Rightarrow> (why, [])))
      in (plain_verdict lane name_i name_c ok why' MEASURED)
           \<lparr>av_failure_class := failure, av_dev := dev_evidence incumbent challenger rows split, av_split := split,
            av_plan := plan_opt\<rparr>)"

section \<open>The gate a person's votes replace\<close>

definition decide_by_hand :: "vote list \<Rightarrow> string \<Rightarrow> string \<Rightarrow> string \<Rightarrow> pairing list \<Rightarrow> bool \<Rightarrow> bool \<Rightarrow> nat \<Rightarrow> adopt_verdict" where
  "decide_by_hand votes lane incumbent challenger pairs force all_machines min_votes =
     (case lane_verdict votes lane pairs of
        (None, why) \<Rightarrow> plain_verdict lane incumbent challenger False (NotJudged why) BY_HAND
      | (Some won, why) \<Rightarrow>
          if won = [] then plain_verdict lane incumbent challenger False (IncumbentStays why) BY_HAND
          else if won \<noteq> challenger then plain_verdict lane incumbent challenger False (IncumbentPreferred why) BY_HAND
          else
            (let (n, agree) = vote_stats votes lane pairs; short = n < min_votes
             in if short \<and> \<not> force then
                  (plain_verdict lane incumbent challenger False (PreferredByHand why) BY_HAND)
                    \<lparr>av_votes := Some n, av_agreement := agree, av_held := Some (n, min_votes)\<rparr>
                else
                  (plain_verdict lane incumbent challenger True (PreferredByHand why) BY_HAND)
                    \<lparr>av_votes := Some n, av_agreement := agree, av_forced := short, av_all_machines := all_machines\<rparr>))"

section \<open>What fits a machine\<close>

record stored_result =
  st_candidate :: nat
  st_machine :: "nat option"
  st_seconds :: rat
  st_peak_kb :: nat
  st_passed :: bool

record machine_facts =
  mf_results :: "stored_result list"
  mf_size_bytes :: "(nat \<times> nat) list"
  mf_ceiling_gb :: "(nat \<times> rat) list"
  mf_this_ceiling :: rat

datatype fit_why = RanHere nat rat | SizeUnknown | NoCeiling rat | FitsCeiling rat rat | OverCeiling rat rat

definition GIB_KB :: rat where "GIB_KB = 1048576"
definition GIB_BYTES :: rat where "GIB_BYTES = 1073741824"

definition ceiling_gb :: "machine_facts \<Rightarrow> nat option \<Rightarrow> rat" where
  "ceiling_gb m mid =
     (case mid of
        None \<Rightarrow> mf_this_ceiling m
      | Some i \<Rightarrow> (case map_of (mf_ceiling_gb m) i of None \<Rightarrow> mf_this_ceiling m | Some c \<Rightarrow> c))"

definition fit :: "machine_facts \<Rightarrow> nat \<Rightarrow> nat option \<Rightarrow> bool \<times> fit_why" where
  "fit m cid mid =
     (let ran_here = filter (\<lambda>x. st_candidate x = cid \<and> mid \<noteq> None \<and> st_machine x = mid \<and> st_passed x) (mf_results m);
          peaks = filter (\<lambda>p. p > 0) (map st_peak_kb (filter (\<lambda>x. st_candidate x = cid) (mf_results m)));
          size = get_or 0 (mf_size_bytes m) cid;
          ceil = ceiling_gb m mid
      in if ran_here \<noteq> [] then (True, RanHere (length ran_here) (of_nat (foldl max 0 (map st_peak_kb ran_here)) / GIB_KB))
         else if peaks = [] \<and> size = 0 then (True, SizeUnknown)
         else (let need = (if peaks \<noteq> [] then of_nat (foldl max 0 peaks) / GIB_KB else of_nat size / GIB_BYTES)
               in if ceil = 0 then (True, NoCeiling need)
                  else if need \<le> ceil then (True, FitsCeiling need ceil) else (False, OverCeiling need ceil)))"

record cost_of =
  co_median_s :: "rat option"
  co_peak_gb :: "rat option"
  co_rows :: nat
  co_passed :: nat

definition measured_cost :: "machine_facts \<Rightarrow> nat option \<Rightarrow> nat option \<Rightarrow> cost_of" where
  "measured_cost m cid mid =
     (case cid of
        None \<Rightarrow> \<lparr>co_median_s = None, co_peak_gb = None, co_rows = 0, co_passed = 0\<rparr>
      | Some c \<Rightarrow>
          (let rows = filter (\<lambda>x. st_candidate x = c \<and> mid \<noteq> None \<and> st_machine x = mid) (mf_results m);
               ok = filter st_passed rows; peak = of_nat (foldl max 0 (map st_peak_kb ok)) / GIB_KB
           in \<lparr>co_median_s = (if ok = [] then None else Some (round_to 3 (median (map st_seconds ok)))),
               co_peak_gb = (if peak = 0 then None else Some (round_to 3 peak)),
               co_rows = length rows, co_passed = length ok\<rparr>))"

section \<open>Recording\<close>

record adoption =
  ad_id :: nat
  ad_lane :: string
  ad_candidate :: nat
  ad_spec :: string
  ad_incumbent :: "nat option"
  ad_run :: "nat option"
  ad_verdict :: nat
  ad_machine :: "nat option"
  ad_how :: string
  ad_at :: rat
  ad_all_machines :: bool
  ad_votes :: "nat option"
  ad_agreement :: "rat option"
  ad_forced :: bool
  ad_cost :: "cost_of \<times> cost_of"

definition REFERENCE_PREFIXES :: "string list" where "REFERENCE_PREFIXES = [''claude-code:'', ''cloud-'']"

definition is_reference :: "string \<Rightarrow> bool" where
  "is_reference candidate \<longleftrightarrow> list_ex (\<lambda>p. prefix p candidate) REFERENCE_PREFIXES"

definition SCHEMA_LANES :: "string list" where "SCHEMA_LANES = [''decide'', ''claims'']"

definition schema_guard :: "(string \<Rightarrow> bool) \<Rightarrow> adopt_verdict \<Rightarrow> string \<Rightarrow> adopt_verdict" where
  "schema_guard enforces v spec =
     (let lane = lower (strip (av_lane v))
      in if \<not> av_adopt v \<or> lane \<notin> set SCHEMA_LANES \<or> enforces spec then v
         else (plain_verdict (av_lane v) (av_incumbent v) (av_challenger v) False (NoSchemaEngine (av_why v)) (av_how v))
                \<lparr>av_failure_class := ''refused_by_gateway'', av_dev := av_dev v, av_split := av_split v, av_plan := av_plan v\<rparr>)"

definition reference_guard :: "adopt_verdict \<Rightarrow> string \<Rightarrow> adopt_verdict" where
  "reference_guard v spec =
     (if is_reference (av_challenger v) \<or> is_reference spec then
        plain_verdict (av_lane v) (av_incumbent v) (av_challenger v) False (ReferenceModel (av_why v)) (av_how v)
      else v)"

definition outcome_of :: "adopt_verdict \<Rightarrow> string \<times> string" where
  "outcome_of v =
     (let (outcome, reason) = get_or (''declined'', if av_failure_class v = UNDERPOWERED then ''limit'' else ''candidate'')
                                CLASSES (av_failure_class v)
      in (if av_adopt v then ''measured'' else outcome, reason))"

datatype record_error = VotesHeld nat nat | NotASpec string | DoesNotFit fit_why | StoreRefused store_error | UnknownHow string

record adopt_store =
  as_db :: db
  as_adoptions :: "adoption list"

definition adoption_row ::
    "(string \<Rightarrow> string \<Rightarrow> nat option) \<Rightarrow> rat \<Rightarrow> machine_facts \<Rightarrow> adopt_verdict \<Rightarrow> string \<Rightarrow> nat \<Rightarrow> nat option \<Rightarrow> nat \<Rightarrow> db
     \<Rightarrow> adoption list \<Rightarrow> adoption" where
  "adoption_row incumbent_of now m v spec cid run_id vid d as =
     (let mid = (case row v_id vid (verdicts d) of None \<Rightarrow> None | Some w \<Rightarrow> v_machine w);
          inc = incumbent_of (av_lane v) (av_incumbent v)
      in \<lparr>ad_id = next_id ad_id as, ad_lane = lower (strip (av_lane v)), ad_candidate = cid, ad_spec = spec,
          ad_incumbent = inc, ad_run = run_id, ad_verdict = vid, ad_machine = mid, ad_how = av_how v, ad_at = now,
          ad_all_machines = av_all_machines v, ad_votes = av_votes v, ad_agreement = av_agreement v, ad_forced = av_forced v,
          ad_cost = (measured_cost m (Some cid) mid, measured_cost m inc mid)\<rparr>)"

text \<open>
  \<open>ensure\<close> gives a spec's candidate row and the proposal it belongs to; \<open>incumbent_of\<close> the row of what the lane served;
  \<open>env\<close>, \<open>now\<close> and \<open>machine\<close> are those of \<open>decide\<close>.
\<close>

definition record_adoption ::
    "(string \<Rightarrow> bool) \<Rightarrow> (string \<Rightarrow> (nat \<times> string) option) \<Rightarrow> (string \<Rightarrow> string \<Rightarrow> nat option) \<Rightarrow> (gate_why \<Rightarrow> string)
     \<Rightarrow> (nat \<Rightarrow> db \<Rightarrow> db) \<Rightarrow> rat \<Rightarrow> nat option \<Rightarrow> machine_facts \<Rightarrow> adopt_verdict \<Rightarrow> string \<Rightarrow> nat option \<Rightarrow> adopt_store
     \<Rightarrow> (record_error + nat) \<times> adopt_store" where
  "record_adoption enforces ensure incumbent_of say env now machine m v0 spec0 run_id s =
     (case av_held v0 of
        Some (n, k) \<Rightarrow> (Inl (VotesHeld n k), s)
      | None \<Rightarrow>
          (let spec = (if spec0 = [] then av_challenger v0 else spec0);
               v = schema_guard enforces (reference_guard v0 spec0) spec;
               (outcome, reason) = outcome_of v;
               detail = av_lane v @ '': '' @ say (av_why v)
           in case ensure spec of
                None \<Rightarrow> (Inl (NotASpec spec), s)
              | Some (cid, proposal) \<Rightarrow>
                  if av_adopt v \<and> av_how v = BY_HAND \<and> \<not> fst (fit m cid machine) then
                    (Inl (DoesNotFit (snd (fit m cid machine))), s)
                  else
                    (case decide env now machine proposal outcome
                            (no_decision\<lparr>k_tier := ''adopt'', k_detail := take 200 detail, k_candidate := Some cid,
                               k_run := run_id, k_reason := reason\<rparr>) (as_db s) of
                       (Inl e, d') \<Rightarrow> (Inl (StoreRefused e), s\<lparr>as_db := d'\<rparr>)
                     | (Inr vid, d') \<Rightarrow>
                         if \<not> av_adopt v then (Inr vid, s\<lparr>as_db := d'\<rparr>)
                         else if av_how v \<notin> {MEASURED, BY_HAND} then (Inl (UnknownHow (av_how v)), s\<lparr>as_db := d'\<rparr>)
                         else if vid \<in> set (map ad_verdict (as_adoptions s)) then (Inr vid, s\<lparr>as_db := d'\<rparr>)
                         else
                           (Inr vid, s\<lparr>as_db := d', as_adoptions := as_adoptions s @
                              [adoption_row incumbent_of now m v spec cid run_id vid d' (as_adoptions s)]\<rparr>))))"

section \<open>What a machine serves\<close>

definition visible :: "nat list \<Rightarrow> adoption list \<Rightarrow> adoption list" where
  "visible ids as =
     sort_key (\<lambda>a. (ad_at a, ad_id a))
       (filter (\<lambda>a. ad_all_machines a \<or> (case ad_machine a of None \<Rightarrow> True | Some i \<Rightarrow> i \<in> set ids)) as)"

definition first_of_ids :: "nat list \<Rightarrow> nat option" where
  "first_of_ids ids = (case ids of [] \<Rightarrow> None | i # is \<Rightarrow> Some i)"

text \<open>The lanes' served rows and the by-hand rows refused for not fitting, each lane to its row.\<close>

fun resolve_each :: "(adoption \<Rightarrow> bool) \<Rightarrow> (string \<times> adoption) list \<Rightarrow> (string \<times> adoption) list \<Rightarrow> adoption list
    \<Rightarrow> (string \<times> adoption) list \<times> (string \<times> adoption) list" where
  "resolve_each fits out refused [] = (out, refused)"
| "resolve_each fits out refused (a # as) =
     (if is_reference (ad_spec a) then resolve_each fits out refused as
      else if ad_how a = BY_HAND \<and> \<not> fits a then resolve_each fits out (dict_put (ad_lane a) a refused) as
      else resolve_each fits (dict_put (ad_lane a) a out) (filter (\<lambda>(l, x). l \<noteq> ad_lane a) refused) as)"

definition resolve :: "machine_facts \<Rightarrow> nat list \<Rightarrow> adoption list \<Rightarrow> (string \<times> adoption) list \<times> (string \<times> adoption) list" where
  "resolve m ids as = resolve_each (\<lambda>a. fst (fit m (ad_candidate a) (first_of_ids ids))) [] [] (visible ids as)"

definition current_adoptions :: "machine_facts \<Rightarrow> nat list \<Rightarrow> adoption list \<Rightarrow> (string \<times> adoption) list" where
  "current_adoptions m ids as = fst (resolve m ids as)"

definition refused_adoptions :: "machine_facts \<Rightarrow> nat list \<Rightarrow> adoption list \<Rightarrow> adoption list" where
  "refused_adoptions m ids as = map snd (sort_key fst (snd (resolve m ids as)))"

definition lane_defaults :: "machine_facts \<Rightarrow> nat list \<Rightarrow> (string \<times> string) list \<Rightarrow> adoption list option \<Rightarrow> (string \<times> string) list" where
  "lane_defaults m ids typed as_opt =
     (case as_opt of
        None \<Rightarrow> typed
      | Some as \<Rightarrow> foldl (\<lambda>d (l, a). dict_put l (ad_spec a) d) typed (current_adoptions m ids as))"

definition default_for :: "machine_facts \<Rightarrow> nat list \<Rightarrow> string \<Rightarrow> string \<Rightarrow> adoption list option \<Rightarrow> string" where
  "default_for m ids lane fallback as_opt =
     (if lane = [] then fallback
      else (let key = lower (strip lane); got = get_or [] (lane_defaults m ids [(key, fallback)] as_opt) key
            in if got = [] then fallback else got))"

definition everywhere :: "machine_facts \<Rightarrow> adoption list \<Rightarrow> (string \<times> string) list" where
  "everywhere m as =
     remdups (concat (map (\<lambda>mid. map (\<lambda>(l, a). (l, ad_spec a)) (current_adoptions m (case mid of None \<Rightarrow> [] | Some i \<Rightarrow> [i]) as))
       (remdups (map ad_machine as))))"

end
