(* ===== verification/AdoptionFacts.thy ===== *)
theory AdoptionFacts
  imports Adoption
begin

text \<open>
  What adoption promises: both gates or none, a person's choice only when every pairing was judged and the votes
  suffice, a row of \<open>adoptions\<close> only behind its guards, and a lane that serves its newest eligible adoption.
\<close>

section \<open>The measured gates\<close>

lemma gates_adopt:
  "fst (gates inc cha name_i name_c rows) \<longleftrightarrow>
     better inc cha \<and> rows \<noteq> [] \<and> fst (snd (paired_p rows name_i name_c)) \<le> ALPHA
       \<and> (discordant (fst (paired_p rows name_i name_c)) \<noteq> 0 \<or> c_unchanged (fst (paired_p rows name_i name_c)) \<noteq> 0)"
  by (cases "paired_p rows name_i name_c") (auto simp: gates_def Let_def not_le)

lemma decide_adopt:
  "av_adopt (decide_adoption lane incumbent challenger rows split plan_opt) \<longleftrightarrow>
     (case gated_input incumbent challenger rows split of
        (inc, cha, rs) \<Rightarrow> fst (gates inc cha (lw_candidate incumbent) (lw_candidate challenger) rs))"
  by (auto simp: decide_adoption_def plain_verdict_def Let_def split: prod.splits)

lemma decide_failure:
  "av_failure_class (decide_adoption lane incumbent challenger rows split plan_opt) =
     (case gated_input incumbent challenger rows split of (inc, cha, rs) \<Rightarrow>
        if \<not> fst (gates inc cha (lw_candidate incumbent) (lw_candidate challenger) rs) \<and> rs \<noteq> []
           \<and> worse_than rs (lw_candidate incumbent) (lw_candidate challenger) = None
           \<and> (\<exists>p. plan_opt = Some p \<and> \<not> plan_enough p) then UNDERPOWERED else [])"
  by (auto simp: decide_adoption_def plain_verdict_def Let_def split: prod.splits option.splits if_splits)

text \<open>
  C15. A challenger is adopted exactly when it is better on the lane's own metric and the two shared at least one case
  whose discordant cells are significant, both read on the holdout rows where a split is given; a loss is called
  underpowered only when it is not significantly worse and the plan could not have seen the effect.
\<close>

theorem adoption_needs_both_gates:
  assumes "gated_input incumbent challenger rows split = (inc, cha, rs)"
  shows "(av_adopt (decide_adoption lane incumbent challenger rows split plan_opt) \<longleftrightarrow>
      order_key inc < order_key cha \<and> rs \<noteq> []
        \<and> fst (snd (paired_p rs (lw_candidate incumbent) (lw_candidate challenger))) \<le> ALPHA
        \<and> (let c = fst (paired_p rs (lw_candidate incumbent) (lw_candidate challenger))
            in c_lost c + c_gained c + c_unchanged c \<noteq> 0))
    \<and> (\<forall>sp. split = Some sp \<longrightarrow> (\<forall>r \<in> set rs. r \<in> set rows \<and> side sp (rs_case_id r) = ''holdout''))
    \<and> (av_failure_class (decide_adoption lane incumbent challenger rows split plan_opt) = UNDERPOWERED \<longrightarrow>
        \<not> av_adopt (decide_adoption lane incumbent challenger rows split plan_opt)
        \<and> (\<exists>p. plan_opt = Some p \<and> pl_power p < pl_target p))"
proof (intro conjI)
  let ?c = "fst (paired_p rs (lw_candidate incumbent) (lw_candidate challenger))"
  have "c_lost ?c + c_gained ?c + c_unchanged ?c \<noteq> 0 \<longleftrightarrow> discordant ?c \<noteq> 0 \<or> c_unchanged ?c \<noteq> 0"
    by (simp add: discordant_def)
  then show "av_adopt (decide_adoption lane incumbent challenger rows split plan_opt) \<longleftrightarrow>
      order_key inc < order_key cha \<and> rs \<noteq> []
        \<and> fst (snd (paired_p rs (lw_candidate incumbent) (lw_candidate challenger))) \<le> ALPHA
        \<and> (let c = fst (paired_p rs (lw_candidate incumbent) (lw_candidate challenger))
            in c_lost c + c_gained c + c_unchanged c \<noteq> 0)"
    unfolding decide_adopt assms Let_def by (simp only: prod.case gates_adopt better_def)
  show "\<forall>sp. split = Some sp \<longrightarrow> (\<forall>r \<in> set rs. r \<in> set rows \<and> side sp (rs_case_id r) = ''holdout'')"
    using assms by (auto simp: gated_input_def on_side_def Let_def split: if_splits)
  show "av_failure_class (decide_adoption lane incumbent challenger rows split plan_opt) = UNDERPOWERED \<longrightarrow>
        \<not> av_adopt (decide_adoption lane incumbent challenger rows split plan_opt)
        \<and> (\<exists>p. plan_opt = Some p \<and> pl_power p < pl_target p)"
    unfolding decide_failure decide_adopt assms
    by (auto simp: UNDERPOWERED_def plan_enough_def not_le split: if_splits)
qed

definition sample_result :: "string \<Rightarrow> string \<Rightarrow> bool \<Rightarrow> result" where
  "sample_result candidate cid ok = (verdict_row cid ok (if ok then [] else ''wrong''))\<lparr>rs_candidate := candidate\<rparr>"

definition sample_lane_row :: "string \<Rightarrow> rat \<Rightarrow> lane_row" where
  "sample_lane_row c rate = \<lparr>lw_candidate = c, lw_pass_rate = rate, lw_metrics = [], lw_median_s = 1\<rparr>"

definition sample_run :: "result list" where
  "sample_run = concat (map (\<lambda>c. [sample_result ''old'' [c] False, sample_result ''new'' [c] True]) ''abcdefg'')"

theorem adoption_witness:
  "av_adopt (decide_adoption ''code'' (sample_lane_row ''old'' 0) (sample_lane_row ''new'' 1) sample_run None None)"
proof -
  have g: "gated_input (sample_lane_row ''old'' 0) (sample_lane_row ''new'' 1) sample_run None
      = (sample_lane_row ''old'' 0, sample_lane_row ''new'' 1, sample_run)" by (simp add: gated_input_def)
  have "order_key (sample_lane_row ''old'' 0) < order_key (sample_lane_row ''new'' 1)" by code_simp
  moreover have "paired_p sample_run ''old'' ''new'' = (\<lparr>c_candidate = ''new'', c_lost = 0, c_gained = 7, c_unchanged = 0\<rparr>, 1 / 64, None)"
    by code_simp
  moreover have "sample_run \<noteq> []" by (simp add: sample_run_def)
  ultimately show ?thesis
    using adoption_needs_both_gates [OF g, of "''code''" None] by (simp add: sample_lane_row_def ALPHA_def)
qed

text \<open>
  The paired gate asks only whether the discordant cells are significant, not which way they point. Where the two
  candidates sat different cases, one that lost every shared case is adopted on the strength of the others.
\<close>

definition lopsided_run :: "result list" where
  "lopsided_run =
     concat (map (\<lambda>c. [sample_result ''old'' [c] True, sample_result ''new'' [c] False]) ''abcdef'')
       @ map (\<lambda>c. sample_result ''old'' [c] False) ''ghijklm'' @ map (\<lambda>c. sample_result ''new'' [c] True) ''nopqrst''"

text \<open>Without repeats nothing is known of their correlation.\<close>

lemma length_singles: "\<forall>g \<in> set gs. length g = 1 \<Longrightarrow> length (concat gs) = length gs"
  by (induction gs) auto

lemma icc_single:
  assumes "\<forall>gs \<in> set bc. \<forall>g \<in> set gs. length g = 1"
  shows "icc bc = None"
proof -
  let ?seen = "filter (\<lambda>gs. gs \<noteq> []) (map (filter (\<lambda>g. g \<noteq> [])) bc)"
  have "length (concat (concat ?seen)) = length (concat ?seen)"
    by (rule length_singles) (use assms in auto)
  then show ?thesis by (simp add: icc_def Let_def)
qed

lemma rows_icc_single:
  assumes "\<forall>n \<in> set names. \<forall>g \<in> set (map snd (draws_of rows n)). length g = 1"
  shows "rows_icc rows names = (None, 1)"
proof -
  let ?c = "map (\<lambda>n. map snd (draws_of rows n)) (rev (remdups (rev names)))"
  have "icc ?c = None" by (rule icc_single) (use assms in auto)
  moreover have "length (concat (concat ?c)) = length (concat ?c)" by (rule length_singles) (use assms in auto)
  ultimately show ?thesis unfolding rows_icc_def Let_def by (simp del: concat_eq_Nil_conv)
qed
lemma dict_append_new: "k \<notin> set (map fst d) \<Longrightarrow> dict_append k v d = d @ [(k, [v])]"
  by (induction k v d rule: dict_append.induct) auto

lemma draws_single:
  assumes "distinct (map (\<lambda>r. base_id (rr_case r)) (filter (\<lambda>r. rr_candidate r = key) rows))"
  shows "\<forall>g \<in> set (map snd (draws_of rows key)). length g = 1"
proof -
  have "\<forall>g \<in> set (map snd (fold (\<lambda>r d. if rr_candidate r = key then dict_append (base_id (rr_case r)) (if rr_passed r then 1 else (0 :: rat)) d else d) rows acc)).
      length g = 1"
    if "distinct (map (\<lambda>r. base_id (rr_case r)) (filter (\<lambda>r. rr_candidate r = key) rows))"
      "set (map fst acc) \<inter> set (map (\<lambda>r. base_id (rr_case r)) (filter (\<lambda>r. rr_candidate r = key) rows)) = {}"
      "\<forall>g \<in> set (map snd acc). length g = 1" for acc
    using that
  proof (induction rows arbitrary: acc)
    case (Cons r rows)
    show ?case
    proof (cases "rr_candidate r = key")
      case True
      have new: "dict_append (base_id (rr_case r)) (if rr_passed r then 1 else (0 :: rat)) acc
          = acc @ [(base_id (rr_case r), [if rr_passed r then 1 else 0])]"
        by (rule dict_append_new) (use Cons.prems(2) True in auto)
      have "\<forall>g \<in> set (map snd (fold (\<lambda>r d. if rr_candidate r = key then dict_append (base_id (rr_case r)) (if rr_passed r then 1 else (0 :: rat)) d else d) rows
          (acc @ [(base_id (rr_case r), [if rr_passed r then 1 else 0])]))). length g = 1"
        by (rule Cons.IH) (use Cons.prems True in auto)
      then show ?thesis using True new by simp
    next
      case False
      then show ?thesis using Cons by simp
    qed
  qed simp
  from this [OF assms, of "[]"] show ?thesis by (simp add: draws_of_def)
qed

lemma lane_row_rate:
  "rows_of rows n \<noteq> [] \<Longrightarrow> lw_candidate (the (lane_row_of rows n)) = n \<and> lw_pass_rate (the (lane_row_of rows n)) =
     round_to 3 (of_nat (length (filter rs_passed (rows_of rows n))) / of_nat (length (rows_of rows n)))"
  by (simp add: lane_row_of_def summary_of_def Let_def)

theorem significant_loss_is_adopted:
  "let inc = the (lane_row_of lopsided_run ''old''); cha = the (lane_row_of lopsided_run ''new'');
       c = fst (paired_p lopsided_run ''old'' ''new'')
   in av_adopt (decide_adoption ''code'' inc cha lopsided_run None None) \<and> c_lost c = 6 \<and> c_gained c = 0"
proof -
  have p: "paired_p lopsided_run ''old'' ''new'' = (\<lparr>c_candidate = ''new'', c_lost = 6, c_gained = 0, c_unchanged = 0\<rparr>, 1 / 32, None)"
  proof -
    have h: "head_to_head (map rrow_of lopsided_run) ''old'' ''new'' = \<lparr>c_candidate = ''new'', c_lost = 6, c_gained = 0, c_unchanged = 0\<rparr>"
      by code_simp
    have "\<forall>n \<in> set [''old'', ''new'']. distinct (map (\<lambda>r. base_id (rr_case r)) (filter (\<lambda>r. rr_candidate r = n) (map rrow_of lopsided_run)))"
      by code_simp
    then have i: "rows_icc (map rrow_of lopsided_run) [''old'', ''new''] = (None, 1)"
      by (intro rows_icc_single ballI) (use draws_single in blast)
    have "cell_p \<lparr>c_candidate = ''new'', c_lost = 6, c_gained = 0, c_unchanged = 0\<rparr> = 1 / 32" by code_simp
    then show ?thesis unfolding paired_p_def Let_def h i by (simp add: design_effect_def DEFAULT_RHO_def)
  qed
  define inc where "inc = the (lane_row_of lopsided_run ''old'')"
  define cha where "cha = the (lane_row_of lopsided_run ''new'')"
  have r: "lw_candidate inc = ''old''" "lw_candidate cha = ''new''" "lw_pass_rate inc = 462 / 1000" "lw_pass_rate cha = 538 / 1000"
  proof -
    have l: "length (rows_of lopsided_run ''old'') = 13" "length (rows_of lopsided_run ''new'') = 13"
      "length (filter rs_passed (rows_of lopsided_run ''old'')) = 6" "length (filter rs_passed (rows_of lopsided_run ''new'')) = 7"
      by code_simp+
    then have ne: "rows_of lopsided_run ''old'' \<noteq> []" "rows_of lopsided_run ''new'' \<noteq> []" by auto
    have "round_to 3 (6 / 13) = 462 / 1000" "round_to 3 (7 / 13) = 538 / 1000" by code_simp+
    then show "lw_candidate inc = ''old''" "lw_candidate cha = ''new''" "lw_pass_rate inc = 462 / 1000" "lw_pass_rate cha = 538 / 1000"
      using lane_row_rate [OF ne(1)] lane_row_rate [OF ne(2)] unfolding inc_def cha_def l by simp_all
  qed
  have "better inc cha" using r(3,4) by (simp add: better_def order_key_def less_prod_def)
  then have "fst (gates inc cha ''old'' ''new'' lopsided_run)"
    unfolding gates_adopt p by (simp add: ALPHA_def discordant_def lopsided_run_def)
  then have "av_adopt (decide_adoption ''code'' inc cha lopsided_run None None)"
    unfolding decide_adopt by (simp add: gated_input_def r)
  then show ?thesis by (simp add: p Let_def inc_def cha_def)
qed

section \<open>The gate a person's votes replace\<close>

lemma first_of_each_set: "set (first_of_each xs) = set xs" and first_of_each_distinct: "distinct (first_of_each xs)"
  by (simp_all add: first_of_each_def)

text \<open>The head of a most-common list that no second matches is the strict plurality.\<close>

lemma most_common_strict:
  assumes "most_common ws = (w, n) # rest" and "rest = [] \<or> snd (hd rest) \<noteq> n"
  shows "n = count_list ws w \<and> w \<in> set ws \<and> (\<forall>x. x \<noteq> w \<longrightarrow> count_list ws x < count_list ws w)"
proof -
  let ?m = "map (\<lambda>w. (w, count_list ws w)) (first_of_each ws)"
  have set: "set ((w, n) # rest) = (\<lambda>w. (w, count_list ws w)) ` set ws"
    unfolding assms(1) [symmetric] most_common_def by (simp add: first_of_each_set)
  have sorted: "sorted (map (\<lambda>p. - int (snd p)) ((w, n) # rest))"
    unfolding assms(1) [symmetric] most_common_def by (simp add: case_prod_unfold)
  have "mset (map fst ((w, n) # rest)) = mset (first_of_each ws)"
    unfolding assms(1) [symmetric] most_common_def by (simp add: case_prod_unfold image_mset.compositionality o_def)
  then have dist: "distinct (map fst ((w, n) # rest))"
    using first_of_each_distinct mset_eq_imp_distinct_iff by blast
  have wn: "n = count_list ws w" "w \<in> set ws" using set by auto
  have "count_list ws x < n" if "x \<noteq> w" for x
  proof (cases "x \<in> set ws")
    case True
    then have x: "(x, count_list ws x) \<in> set rest" using set that by auto
    then obtain y k rest' where r: "rest = (y, k) # rest'" by (cases rest) auto
    have "k \<le> n" "k \<noteq> n" using sorted assms(2) by (auto simp: r)
    moreover have "count_list ws x \<le> k" using x sorted by (fastforce simp: r)
    ultimately show ?thesis by simp
  next
    case False
    then have "count_list ws x = 0" by (simp add: count_notin)
    moreover have "0 < count_list ws w" using wn(2) by (metis count_list_0_iff neq0_conv)
    ultimately show ?thesis using wn(1) by simp
  qed
  then show ?thesis using wn by blast
qed

lemma decided_by_all:
  "decided_by votes lane got pairs = Inr out \<Longrightarrow> p \<in> set pairs \<Longrightarrow> decided votes lane (pg_case p) (pg_a p) (pg_b p) \<noteq> None"
  by (induction votes lane got pairs rule: decided_by.induct) (auto split: option.splits)

lemma lane_verdict_won:
  assumes "lane_verdict votes lane pairs = (Some w, why)" and "w \<noteq> []"
  obtains got where "decided_by votes lane [] pairs = Inr got"
    and "\<forall>x. x \<noteq> w \<and> x \<noteq> [] \<longrightarrow> count_list (map snd got) x < count_list (map snd got) w"
proof -
  obtain got where got: "decided_by votes lane [] pairs = Inr got" "got \<noteq> []"
    using assms(1) by (auto simp: lane_verdict_def split: sum.splits if_splits)
  let ?ws = "filter (\<lambda>w. w \<noteq> []) (map snd got)"
  have lv: "(case most_common ?ws of
        [] \<Rightarrow> (Some [], NoPreference (sort_key fst got))
      | (w, n) # rest \<Rightarrow> (case rest of
            [] \<Rightarrow> (Some w, WonCases n (length got) (length (filter (\<lambda>w. w = []) (map snd got))) (sort_key fst got))
          | (w2, n2) # _ \<Rightarrow> if n = n2 then (Some [], CasesDisagree n (sort_key fst got))
              else (Some w, WonCases n (length got) (length (filter (\<lambda>w. w = []) (map snd got))) (sort_key fst got))))
      = (Some w, why)"
    using assms(1) got unfolding lane_verdict_def Let_def by simp
  obtain v n rest where mc: "most_common ?ws = (v, n) # rest"
    using lv assms(2) by (cases "most_common ?ws") auto
  have strict: "rest = [] \<or> snd (hd rest) \<noteq> n" and v: "v = w"
    using lv assms(2) unfolding mc by (auto split: list.splits if_splits)
  have "count_list ?ws x < count_list ?ws w" if "x \<noteq> w" for x
    using most_common_strict [OF mc strict] that v by blast
  moreover have "count_list ?ws x = count_list (map snd got) x" if "x \<noteq> []" for x
    using that by (induction got) auto
  ultimately show thesis using that got(1) assms(2) by metis
qed

text \<open>
  A person's verdict adopts a challenger only when every pairing of the lane was answered often enough, more cases
  went to the challenger than to anyone else, and the votes reach the minimum or the adoption was forced, which is
  then recorded; and a challenger held back for too few votes is not adopted.
\<close>

theorem by_hand_needs_votes:
  assumes "av_adopt (decide_by_hand votes lane incumbent challenger pairs force all_machines min_votes)"
  shows "challenger \<noteq> []
    \<and> (\<forall>p \<in> set pairs. decided votes lane (pg_case p) (pg_a p) (pg_b p) \<noteq> None)
    \<and> (\<exists>got. decided_by votes lane [] pairs = Inr got
         \<and> (\<forall>x. x \<noteq> challenger \<and> x \<noteq> [] \<longrightarrow> count_list (map snd got) x < count_list (map snd got) challenger))
    \<and> (min_votes \<le> fst (vote_stats votes lane pairs) \<or> force)
    \<and> av_forced (decide_by_hand votes lane incumbent challenger pairs force all_machines min_votes)
        = (fst (vote_stats votes lane pairs) < min_votes)
    \<and> av_held (decide_by_hand votes lane incumbent challenger pairs force all_machines min_votes) = None"
proof -
  obtain won why where lv: "lane_verdict votes lane pairs = (Some won, why)"
    using assms by (cases "lane_verdict votes lane pairs"; cases "fst (lane_verdict votes lane pairs)")
      (auto simp: decide_by_hand_def plain_verdict_def)
  obtain n agree where vs: "vote_stats votes lane pairs = (n, agree)" by (cases "vote_stats votes lane pairs")
  have w: "won = challenger" "won \<noteq> []"
    using assms by (auto simp: decide_by_hand_def lv plain_verdict_def split: if_splits)
  have short: "\<not> (n < min_votes \<and> \<not> force)"
    using assms w unfolding decide_by_hand_def lv vs by (auto simp: plain_verdict_def Let_def split: if_splits)
  obtain got where got: "decided_by votes lane [] pairs = Inr got"
    "\<forall>x. x \<noteq> won \<and> x \<noteq> [] \<longrightarrow> count_list (map snd got) x < count_list (map snd got) won"
    by (rule lane_verdict_won [OF lv w(2)])
  have "decided votes lane (pg_case p) (pg_a p) (pg_b p) \<noteq> None" if "p \<in> set pairs" for p
    by (rule decided_by_all [OF got(1) that])
  moreover have "av_forced (decide_by_hand votes lane incumbent challenger pairs force all_machines min_votes) = (n < min_votes)"
    "av_held (decide_by_hand votes lane incumbent challenger pairs force all_machines min_votes) = None"
    using w short by (auto simp: decide_by_hand_def lv vs plain_verdict_def)
  ultimately show ?thesis using got w short vs by auto
qed

definition sample_vote :: "string \<Rightarrow> string \<Rightarrow> string \<Rightarrow> string \<Rightarrow> vote" where
  "sample_vote c a b w = \<lparr>vt_lane = ''music'', vt_run = [], vt_case = c, vt_left = a, vt_right = b, vt_winner = w, vt_shown_first = [],
     vt_voter = [], vt_machine = None, vt_at = 0\<rparr>"

definition sample_pairing :: "string \<Rightarrow> string \<Rightarrow> string \<Rightarrow> pairing" where
  "sample_pairing c a b = \<lparr>pg_case = c, pg_a = a, pg_b = b, pg_a_file = [], pg_b_file = [], pg_a_text = [], pg_b_text = []\<rparr>"

theorem by_hand_witness:
  "decided (replicate 3 (sample_vote ''c1'' ''a'' ''b'' ''b'')) ''music'' ''c1'' ''a'' ''b'' \<noteq> None
    \<and> fst (vote_stats (replicate 3 (sample_vote ''c1'' ''a'' ''b'' ''b'')) ''music'' [sample_pairing ''c1'' ''a'' ''b'']) \<ge> 3"
proof -
  have a: "av_adopt (decide_by_hand (replicate 3 (sample_vote ''c1'' ''a'' ''b'' ''b'')) ''music'' ''a'' ''b''
      [sample_pairing ''c1'' ''a'' ''b''] False False 3)" by code_simp
  show ?thesis using by_hand_needs_votes [OF a] by (simp add: sample_pairing_def)
qed

text \<open>
  The answers are kept by case, so of a case with several pairings only the last one counts. With three candidates the
  one that beat both others in every case does not win the lane.
\<close>

theorem last_pairing_decides:
  "let votes = replicate 3 (sample_vote ''c1'' ''a'' ''b'' ''a'') @ replicate 3 (sample_vote ''c1'' ''a'' ''c'' ''a'')
         @ replicate 3 (sample_vote ''c1'' ''b'' ''c'' ''c'');
       pairs = map (\<lambda>(a, b). sample_pairing ''c1'' a b) (pairs_in_order [''a'', ''b'', ''c''])
   in decided votes ''music'' ''c1'' ''a'' ''b'' = Some ''a'' \<and> decided votes ''music'' ''c1'' ''a'' ''c'' = Some ''a''
      \<and> fst (lane_verdict votes ''music'' pairs) = Some ''c''"
  by code_simp

end
