(* ===== verification/ServingFacts.thy ===== *)
theory ServingFacts
  imports Adoption
begin

text \<open>
  What a machine serves: the pass over the adoptions refines "the newest adoption of the lane the machine may serve",
  and a row of \<open>adoptions\<close> is only ever written behind the guards of \<open>record\<close>.
\<close>

section \<open>The served adoption\<close>

definition eligible :: "(adoption \<Rightarrow> bool) \<Rightarrow> adoption \<Rightarrow> bool" where
  "eligible fits a \<longleftrightarrow> \<not> is_reference (ad_spec a) \<and> (ad_how a = BY_HAND \<longrightarrow> fits a)"

definition last_opt :: "'a list \<Rightarrow> 'a option" where
  "last_opt xs = (if xs = [] then None else Some (last xs))"

text \<open>The abstract machine: of a lane, the newest row it may serve, and its newest row if it may not be served.\<close>

definition served :: "(adoption \<Rightarrow> bool) \<Rightarrow> adoption list \<Rightarrow> string \<Rightarrow> adoption option" where
  "served fits as lane = last_opt (filter (\<lambda>a. ad_lane a = lane \<and> eligible fits a) as)"

definition held_back :: "(adoption \<Rightarrow> bool) \<Rightarrow> adoption list \<Rightarrow> string \<Rightarrow> adoption option" where
  "held_back fits as lane =
     (case last_opt (filter (\<lambda>a. ad_lane a = lane \<and> \<not> is_reference (ad_spec a)) as) of
        None \<Rightarrow> None | Some a \<Rightarrow> if eligible fits a then None else Some a)"

lemma last_opt_Cons: "last_opt (x # xs) = (case last_opt xs of None \<Rightarrow> Some x | Some y \<Rightarrow> Some y)"
  by (simp add: last_opt_def)

lemma map_of_filter_key: "map_of (filter (\<lambda>(l, x). l \<noteq> k) d) l = (if l = k then None else map_of d l)"
  by (induction d) auto

lemma resolve_each_served:
  "map_of (fst (resolve_each fits out refused as)) lane =
     (case served fits as lane of None \<Rightarrow> map_of out lane | Some a \<Rightarrow> Some a)"
  by (induction fits out refused as rule: resolve_each.induct)
     (auto simp: served_def eligible_def last_opt_Cons last_opt_def split: option.splits if_splits)

lemma resolve_each_refused:
  "map_of (snd (resolve_each fits out refused as)) lane =
     (case last_opt (filter (\<lambda>a. ad_lane a = lane \<and> \<not> is_reference (ad_spec a)) as) of
        None \<Rightarrow> map_of refused lane
      | Some a \<Rightarrow> if eligible fits a then None else Some a)"
proof (induction fits out refused as rule: resolve_each.induct)
  case (2 fits out refused a as)
  then show ?case
    by (cases "is_reference (ad_spec a)"; cases "ad_how a = BY_HAND \<and> \<not> fits a"; cases "ad_lane a = lane";
        cases "last_opt (filter (\<lambda>a. ad_lane a = lane \<and> \<not> is_reference (ad_spec a)) as)")
       (simp_all add: last_opt_Cons map_of_filter_key eligible_def)
qed (simp add: last_opt_def)

lemma last_opt_in: "last_opt xs = Some x \<Longrightarrow> x \<in> set xs"
  by (auto simp: last_opt_def split: if_splits)

lemma last_opt_filter_sorted:
  assumes "sorted (map f xs)" and "last_opt (filter P xs) = Some x" and "y \<in> set xs" and "P y"
  shows "f y \<le> (f x :: 'b :: linorder)"
proof -
  have "sorted (map f (filter P xs))" using assms(1) by (rule sorted_filter)
  moreover have "filter P xs = butlast (filter P xs) @ [x]"
    using assms(2) by (metis append_butlast_last_id last_opt_def option.distinct(1) option.inject)
  moreover have "y \<in> set (filter P xs)" using assms(3,4) by simp
  ultimately have "sorted (map f (butlast (filter P xs) @ [x]))" "y \<in> set (butlast (filter P xs) @ [x])" by metis+
  then show ?thesis by (auto simp: sorted_append)
qed

text \<open>
  C16. One pass over the visible adoptions implements the abstract choice: a lane serves the newest adoption visible to
  the machine that is not a reference model and, when a person made it, fits; it reports as refused exactly a newest
  adoption of the lane that does not fit. A reference model is served nowhere.
\<close>

theorem served_is_newest_eligible:
  fixes m ids as
  defines "fits \<equiv> (\<lambda>a. fst (fit m (ad_candidate a) (first_of_ids ids)))"
  shows "map_of (current_adoptions m ids as) = served fits (visible ids as)
    \<and> map_of (snd (resolve m ids as)) = held_back fits (visible ids as)
    \<and> (\<forall>lane a. map_of (current_adoptions m ids as) lane = Some a \<longrightarrow>
         a \<in> set as \<and> \<not> is_reference (ad_spec a) \<and> (ad_how a = BY_HAND \<longrightarrow> fits a)
         \<and> (ad_all_machines a \<or> (\<forall>i. ad_machine a = Some i \<longrightarrow> i \<in> set ids))
         \<and> (\<forall>b \<in> set (visible ids as). ad_lane b = lane \<and> eligible fits b \<longrightarrow> (ad_at b, ad_id b) \<le> (ad_at a, ad_id a)))"
proof (intro conjI allI impI)
  show cur: "map_of (current_adoptions m ids as) = served fits (visible ids as)"
    by (rule ext) (auto simp: current_adoptions_def resolve_def fits_def resolve_each_served split: option.splits)
  show "map_of (snd (resolve m ids as)) = held_back fits (visible ids as)"
    by (rule ext) (auto simp: resolve_def fits_def resolve_each_refused held_back_def split: option.splits)
  fix lane a
  assume h: "map_of (current_adoptions m ids as) lane = Some a"
  then have l: "last_opt (filter (\<lambda>a. ad_lane a = lane \<and> eligible fits a) (visible ids as)) = Some a"
    by (simp add: cur served_def)
  then have e: "a \<in> set (visible ids as)" "eligible fits a" using last_opt_in [OF l] by auto
  then show "a \<in> set as" "\<not> is_reference (ad_spec a)" "ad_how a = BY_HAND \<Longrightarrow> fits a"
    "ad_all_machines a \<or> (\<forall>i. ad_machine a = Some i \<longrightarrow> i \<in> set ids)"
    by (auto simp: visible_def eligible_def split: option.splits)
  have s: "sorted (map (\<lambda>a. (ad_at a, ad_id a)) (visible ids as))" unfolding visible_def by (rule sorted_sort_key)
  show "\<forall>b \<in> set (visible ids as). ad_lane b = lane \<and> eligible fits b \<longrightarrow> (ad_at b, ad_id b) \<le> (ad_at a, ad_id a)"
    using last_opt_filter_sorted [OF s l] by blast
qed

definition sample_adoption :: "nat \<Rightarrow> string \<Rightarrow> string \<Rightarrow> adoption" where
  "sample_adoption i spec how =
     \<lparr>ad_id = i, ad_lane = ''code'', ad_candidate = i, ad_spec = spec, ad_incumbent = None, ad_run = None, ad_verdict = i,
      ad_machine = Some 1, ad_how = how, ad_at = of_nat i, ad_all_machines = False, ad_votes = None, ad_agreement = None,
      ad_forced = False, ad_cost = (\<lparr>co_median_s = None, co_peak_gb = None, co_rows = 0, co_passed = 0\<rparr>,
        \<lparr>co_median_s = None, co_peak_gb = None, co_rows = 0, co_passed = 0\<rparr>)\<rparr>"

definition sample_machine :: machine_facts where
  "sample_machine = \<lparr>mf_results = [], mf_size_bytes = [(3, 2)], mf_ceiling_gb = [(1, 1 / 1073741824)], mf_this_ceiling = 0\<rparr>"

theorem served_witness:
  "map_of (current_adoptions sample_machine [1] (map (\<lambda>(i, s, h). sample_adoption i s h)
     [(1, ''small'', MEASURED), (2, ''cloud-big'', MEASURED), (3, ''large'', BY_HAND)])) ''code'' = Some (sample_adoption 1 ''small'' MEASURED)
   \<and> \<not> is_reference ''small''"
proof -
  let ?as = "map (\<lambda>(i, s, h). sample_adoption i s h) [(1, ''small'', MEASURED), (2, ''cloud-big'', MEASURED), (3, ''large'', BY_HAND)]"
  have "map_of (current_adoptions sample_machine [1] ?as) ''code'' = Some (sample_adoption 1 ''small'' MEASURED)" by code_simp
  then have "\<not> is_reference (ad_spec (sample_adoption 1 ''small'' MEASURED))" using served_is_newest_eligible by blast
  then show ?thesis using \<open>map_of _ _ = _\<close> by (simp add: sample_adoption_def)
qed

section \<open>Recording\<close>

lemma guards_pass:
  assumes "av_adopt (schema_guard enforces (reference_guard v spec0) spec)"
  shows "schema_guard enforces (reference_guard v spec0) spec = v" and "av_adopt v"
    and "\<not> is_reference (av_challenger v)" and "\<not> is_reference spec0"
    and "lower (strip (av_lane v)) \<in> set SCHEMA_LANES \<Longrightarrow> enforces spec"
  using assms by (auto simp: schema_guard_def reference_guard_def plain_verdict_def Let_def split: if_splits)

lemma outcome_adopt: "av_adopt v \<Longrightarrow> fst (outcome_of v) = ''measured''"
  by (simp add: outcome_of_def Let_def split: prod.splits)

lemma adoption_row_fields:
  "ad_id (adoption_row io now m v spec cid run_id vid d as) = next_id ad_id as"
  "ad_lane (adoption_row io now m v spec cid run_id vid d as) = lower (strip (av_lane v))"
  "ad_candidate (adoption_row io now m v spec cid run_id vid d as) = cid"
  "ad_spec (adoption_row io now m v spec cid run_id vid d as) = spec"
  "ad_verdict (adoption_row io now m v spec cid run_id vid d as) = vid"
  "ad_how (adoption_row io now m v spec cid run_id vid d as) = av_how v"
  by (simp_all add: adoption_row_def Let_def)

text \<open>
  C17. Recording a verdict writes an adoption only for one that says adopt, was not held back, names no reference model,
  fits the machine when a person made it, and on a schema lane runs on an engine that enforces the schema; the row is
  new, belongs to the verdict the store just took as measured, and everything else leaves the adoptions as they were.
\<close>

theorem record_is_guarded:
  assumes "record_adoption enforces ensure incumbent_of say env now machine m v spec0 run_id s = (res, s')"
  shows "as_adoptions s' = as_adoptions s
    \<or> (\<exists>a proposal k.
        as_adoptions s' = as_adoptions s @ [a] \<and> res = Inr (ad_verdict a)
      \<and> decide env now machine proposal ''measured'' k (as_db s) = (Inr (ad_verdict a), as_db s')
      \<and> ad_verdict a \<notin> set (map ad_verdict (as_adoptions s)) \<and> ad_id a \<notin> set (map ad_id (as_adoptions s))
      \<and> av_adopt v \<and> av_held v = None \<and> ensure (ad_spec a) = Some (ad_candidate a, proposal)
      \<and> ad_spec a = (if spec0 = [] then av_challenger v else spec0) \<and> \<not> is_reference (ad_spec a)
      \<and> ad_how a \<in> {MEASURED, BY_HAND} \<and> (ad_how a = BY_HAND \<longrightarrow> fst (fit m (ad_candidate a) machine))
      \<and> (ad_lane a \<in> set SCHEMA_LANES \<longrightarrow> enforces (ad_spec a)))"
proof -
  define spec where "spec = (if spec0 = [] then av_challenger v else spec0)"
  define w where "w = schema_guard enforces (reference_guard v spec0) spec"
  show ?thesis
  proof (cases "av_held v = None \<and> av_adopt w")
    case False
    then have "as_adoptions s' = as_adoptions s"
      using assms unfolding record_adoption_def spec_def [symmetric] Let_def w_def [symmetric]
      by (auto split: option.splits prod.splits sum.splits if_splits)
    then show ?thesis ..
  next
    case True
    note g = guards_pass [of enforces v spec0 spec, folded w_def, OF conjunct2 [OF True]]
    obtain outcome reason where o: "outcome_of w = (outcome, reason)" by (cases "outcome_of w")
    have m: "outcome = ''measured''" using outcome_adopt [of w] True o by simp
    show ?thesis
    proof (cases "ensure spec")
      case None
      then have "as_adoptions s' = as_adoptions s"
        using assms True unfolding record_adoption_def spec_def [symmetric] Let_def w_def [symmetric] o by simp
      then show ?thesis ..
    next
      case (Some cp)
      obtain cid proposal where e: "ensure spec = Some (cid, proposal)" using Some by (cases cp) simp
      define k where "k = no_decision\<lparr>k_tier := ''adopt'', k_detail := take 200 (av_lane w @ '': '' @ say (av_why w)),
        k_candidate := Some cid, k_run := run_id, k_reason := reason\<rparr>"
      obtain r d' where d: "decide env now machine proposal ''measured'' k (as_db s) = (r, d')"
        by (cases "decide env now machine proposal ''measured'' k (as_db s)")
      have eq: "(res, s') =
          (if av_how w = BY_HAND \<and> \<not> fst (fit m cid machine) then (Inl (DoesNotFit (snd (fit m cid machine))), s)
           else (case r of Inl er \<Rightarrow> (Inl (StoreRefused er), s\<lparr>as_db := d'\<rparr>)
             | Inr vid \<Rightarrow>
                 if av_how w \<notin> {MEASURED, BY_HAND} then (Inl (UnknownHow (av_how w)), s\<lparr>as_db := d'\<rparr>)
                 else if vid \<in> set (map ad_verdict (as_adoptions s)) then (Inr vid, s\<lparr>as_db := d'\<rparr>)
                 else (Inr vid, s\<lparr>as_db := d', as_adoptions := as_adoptions s @
                         [adoption_row incumbent_of now m w spec cid run_id vid d' (as_adoptions s)]\<rparr>)))"
        using assms True unfolding record_adoption_def spec_def [symmetric] Let_def w_def [symmetric] o m e
        by (simp only: option.case prod.case k_def [symmetric] d simp_thms if_True if_False)
      show ?thesis
      proof (cases "as_adoptions s' = as_adoptions s")
        case False
        with eq have h: "\<not> (av_how w = BY_HAND \<and> \<not> fst (fit m cid machine))" by (auto split: if_splits)
        with eq False obtain vid where vid: "r = Inr vid" "av_how w \<in> {MEASURED, BY_HAND}"
          "vid \<notin> set (map ad_verdict (as_adoptions s))"
          by (cases r) (auto split: if_splits)
        have spec_ok: "\<not> is_reference spec" using g(1,3,4) by (simp add: spec_def)
        define a where "a = adoption_row incumbent_of now m w spec cid run_id vid d' (as_adoptions s)"
        have s': "s' = s\<lparr>as_db := d', as_adoptions := as_adoptions s @ [a]\<rparr>" "res = Inr vid"
          using eq h vid by (auto simp: a_def)
        have fresh: "next_id ad_id (as_adoptions s) \<notin> ad_id ` set (as_adoptions s)"
          using next_id_fresh [of _ "as_adoptions s" ad_id] by force
        show ?thesis
          using s' vid d h e g spec_ok True fresh
          by (intro disjI2 exI [of _ a] exI [of _ proposal] exI [of _ k])
             (auto simp: spec_def [symmetric] adoption_row_fields a_def)
      qed simp
    qed
  qed
qed

definition sample_adopt :: "string \<Rightarrow> adopt_verdict" where
  "sample_adopt c = plain_verdict ''code'' ''old'' c True NoPairedRows MEASURED"

definition empty_store :: adopt_store where
  "empty_store = \<lparr>as_db = \<lparr>proposals = [], verdicts = [], sightings = [], edges = [], downloads = []\<rparr>, as_adoptions = []\<rparr>"

definition sample_recording :: "string \<Rightarrow> (record_error + nat) \<times> adopt_store" where
  "sample_recording c = record_adoption (\<lambda>s. False) (\<lambda>s. Some (1, [])) (\<lambda>l n. None) (\<lambda>w. []) (\<lambda>n d. d) 5 (Some 1) sample_machine
     (sample_adopt c) [] None empty_store"

theorem record_witness:
  "as_adoptions (snd (sample_recording ''cloud-big'')) = []
    \<and> (\<exists>a. as_adoptions (snd (sample_recording ''small'')) = [a] \<and> ad_spec a = ''small'')"
proof -
  have guarded: "as_adoptions (snd (sample_recording c)) = [] \<or>
      (\<exists>a. as_adoptions (snd (sample_recording c)) = [a] \<and> ad_spec a = c \<and> \<not> is_reference c)" for c
    using record_is_guarded [of "\<lambda>s. False" "\<lambda>s. Some (1, [])" "\<lambda>l n. None" "\<lambda>w. []" "\<lambda>n d. d" 5 "Some 1" sample_machine
        "sample_adopt c" "[]" None empty_store "fst (sample_recording c)" "snd (sample_recording c)"]
    by (auto simp: sample_recording_def sample_adopt_def plain_verdict_def empty_store_def)
  have "is_reference ''cloud-big''" "length (as_adoptions (snd (sample_recording ''small''))) = 1" by code_simp+
  with guarded [of "''cloud-big''"] guarded [of "''small''"] show ?thesis by auto
qed

end
