(* ===== verification/Exclusive.thy ===== *)
theory Exclusive
  imports Prelude
begin

text \<open>
  The machine lock of \<open>harness/exclusive.py\<close>: one large working set at a time, across processes. The lock is a
  kernel file lock; the environment variable \<open>LH_GPU_LOCK_HELD\<close> tells a process, and every child that
  inherits its environment, that the lock is already theirs. A process is the stack of its open \<open>with\<close>
  blocks; between two statements of one process any other may move, so the machine is a step relation. The
  laws of the kernel's lock are the locale \<open>kernel_lock\<close>, interpreted on \<open>take_lock\<close> and \<open>release_lock\<close>.
\<close>

section \<open>What a waiter says\<close>

text \<open>The JSON of the holder file; \<^term>\<open>None\<close> is a key that is absent, and \<open>{}\<close> has none.\<close>

record holder_record =
  hr_kind :: "string option"
  hr_pid :: "nat option"
  hr_since :: "rat option"

definition no_holder :: holder_record where
  "no_holder = \<lparr>hr_kind = None, hr_pid = None, hr_since = None\<rparr>"

text \<open>\<open>holder\<close>: the file may be missing or unreadable.\<close>

definition read_holder :: "holder_record option \<Rightarrow> holder_record" where
  "read_holder file = (case file of None \<Rightarrow> no_holder | Some r \<Rightarrow> r)"

definition holder_identity :: "holder_record \<Rightarrow> string option \<times> nat option" where
  "holder_identity r = (hr_kind r, hr_pid r)"

definition decimal_int :: "int \<Rightarrow> string" where
  "decimal_int i = (if i < 0 then ''-'' @ decimal (nat (- i)) else decimal (nat i))"

definition describe_holder :: "rat \<Rightarrow> holder_record \<Rightarrow> string" where
  "describe_holder now r =
     (let kind = (case hr_kind r of None \<Rightarrow> ''something'' | Some k \<Rightarrow> if k = [] then ''something'' else k);
          since = (case hr_since r of None \<Rightarrow> [] | Some t \<Rightarrow> '' for '' @ decimal_int (py_round (now - t)) @ ''s'')
      in kind @ since @ (case hr_pid r of None \<Rightarrow> []
                        | Some p \<Rightarrow> if p = 0 then [] else '' (pid '' @ decimal p @ '')''))"

text \<open>One failed attempt: the new \<open>said\<close>, and the record announced when it differs from the last.\<close>

type_synonym said = "(string option \<times> nat option) option"

definition announce_once :: "said \<Rightarrow> holder_record \<Rightarrow> said \<times> holder_record option" where
  "announce_once said r =
     (if Some (holder_identity r) \<noteq> said then (Some (holder_identity r), Some r) else (said, None))"

text \<open>The announcements of a whole wait, from the records its attempts read.\<close>

fun announcements :: "said \<Rightarrow> holder_record list \<Rightarrow> holder_record list" where
  "announcements said [] = []"
| "announcements said (r # rs) =
     (case announce_once said r of (said', told) \<Rightarrow>
        (case told of None \<Rightarrow> [] | Some x \<Rightarrow> [x]) @ announcements said' rs)"

lemma announcements_adj:
  "map holder_identity (announcements said rs) =
     (case said of None \<Rightarrow> remdups_adj (map holder_identity rs)
      | Some i \<Rightarrow> tl (remdups_adj (i # map holder_identity rs)))"
proof (induction rs arbitrary: said)
  case (Cons r rs)
  show ?case
    by (cases said) (auto simp: announce_once_def Cons remdups_adj_Cons split: list.splits)
qed (simp split: option.splits)

section \<open>The lock of the kernel\<close>

definition EXCLUSIVE :: "string list" where
  "EXCLUSIVE = [''image'', ''video'']"

definition BATCH :: "string list" where
  "BATCH = [''eval'', ''ramp'', ''external'', ''chaos'']"

text \<open>\<open>_take\<close> and \<open>_release\<close> on the owner of the file lock: non-blocking, and an unlock by another is nothing.\<close>

definition take_lock :: "nat \<Rightarrow> nat option \<Rightarrow> bool \<times> nat option" where
  "take_lock p owner = (if owner = None then (True, Some p) else (False, owner))"

definition release_lock :: "nat \<Rightarrow> nat option \<Rightarrow> nat option" where
  "release_lock p owner = (if owner = Some p then None else owner)"

locale kernel_lock =
  fixes take :: "nat \<Rightarrow> 'l \<Rightarrow> bool \<times> 'l" and release :: "nat \<Rightarrow> 'l \<Rightarrow> 'l" and owner :: "'l \<Rightarrow> nat option"
  assumes take_iff: "fst (take p l) \<longleftrightarrow> owner l = None"
    and take_owner: "owner (snd (take p l)) = (case owner l of None \<Rightarrow> Some p | Some q \<Rightarrow> Some q)"
    and release_owner: "owner (release p l) = (if owner l = Some p then None else owner l)"
begin

lemma taken_owns: "fst (take p l) \<Longrightarrow> owner (snd (take p l)) = Some p"
  by (simp add: take_iff take_owner)

lemma refused_keeps: "\<not> fst (take p l) \<Longrightarrow> owner (snd (take p l)) = owner l"
  by (auto simp: take_iff take_owner)

lemma one_taker: "fst (take p l) \<Longrightarrow> \<not> fst (take q (snd (take p l)))"
  by (simp add: take_iff take_owner)

lemma released_is_free: "owner l = Some p \<Longrightarrow> fst (take q (release p l))"
  by (simp add: take_iff release_owner)

end

interpretation file_lock: kernel_lock take_lock release_lock "\<lambda>l. l"
  by unfold_locales (auto simp: take_lock_def release_lock_def split: option.splits)

text \<open>\<open>busy\<close> of \<open>harness/delegate.py\<close>: takes and releases at once; what holds the lock, or nothing.\<close>

definition busy :: "bool \<Rightarrow> nat \<Rightarrow> nat option \<Rightarrow> rat \<Rightarrow> holder_record option \<Rightarrow> string \<times> nat option" where
  "busy flag p l now file =
     (if flag then ([], l)
      else (case take_lock p l of (got, l') \<Rightarrow>
        if got then ([], release_lock p l') else (describe_holder now (read_holder file), l')))"

section \<open>Processes and their blocks\<close>

text \<open>
  Where an open \<open>with\<close> block stands. \<open>Through kind y\<close>: the body runs without taking the lock and got \<open>y\<close>.
  \<open>Refused\<close>: \<open>try_held\<close> found the lock taken. \<open>Waiting\<close>: in the loop of \<open>held\<close>. \<open>Taken\<close>, \<open>Written\<close>: the lock is
  taken, the holder file written. \<open>Body\<close>: the variable is set and the body runs. \<open>Unset\<close>, \<open>Unlinked\<close>: the body
  ended, however it did; the variable is gone, then the holder file.
\<close>

datatype block =
    Through string bool
  | Refused string
  | Waiting string bool said
  | Taken string bool
  | Written string bool
  | Body string bool
  | Unset
  | Unlinked

record process =
  flag :: bool
  blocks :: "block list"

record machine =
  procs :: "nat \<Rightarrow> process option"
  lock_owner :: "nat option"
  holder_file :: "holder_record option"

definition put_proc :: "nat \<Rightarrow> process \<Rightarrow> machine \<Rightarrow> machine" where
  "put_proc p w m = m\<lparr>procs := (procs m)(p \<mapsto> w)\<rparr>"

definition push :: "block \<Rightarrow> process \<Rightarrow> process" where
  "push b w = w\<lparr>blocks := b # blocks w\<rparr>"

definition replace_top :: "block \<Rightarrow> process \<Rightarrow> process" where
  "replace_top b w = w\<lparr>blocks := b # tl (blocks w)\<rparr>"

text \<open>The process runs code of its own, not of the context manager.\<close>

fun body_block :: "block \<Rightarrow> bool" where
  "body_block (Through k y) = True"
| "body_block (Refused k) = True"
| "body_block (Body k y) = True"
| "body_block b = False"

definition in_body :: "process \<Rightarrow> bool" where
  "in_body w \<longleftrightarrow> (case blocks w of [] \<Rightarrow> True | b # bs \<Rightarrow> body_block b)"

text \<open>\<open>held\<close> up to its loop, one turn of the loop, and \<open>try_held\<close> up to its body.\<close>

definition held_enter :: "string \<Rightarrow> process \<Rightarrow> process" where
  "held_enter kind w =
     (if kind \<notin> set (EXCLUSIVE @ BATCH) \<or> flag w then push (Through kind False) w
      else push (Waiting kind False None) w)"

definition held_poll :: "nat \<Rightarrow> string \<Rightarrow> bool \<Rightarrow> said \<Rightarrow> holder_record \<Rightarrow> process \<Rightarrow> machine \<Rightarrow> machine" where
  "held_poll p kind waited said seen w m =
     (case take_lock p (lock_owner m) of (got, l) \<Rightarrow>
        put_proc p (replace_top (if got then Taken kind waited
                                 else Waiting kind True (fst (announce_once said seen))) w)
          (m\<lparr>lock_owner := l\<rparr>))"

definition try_enter :: "nat \<Rightarrow> string \<Rightarrow> process \<Rightarrow> machine \<Rightarrow> machine" where
  "try_enter p kind w m =
     (if flag w then put_proc p (push (Through kind True) w) m
      else (case take_lock p (lock_owner m) of (got, l) \<Rightarrow>
        put_proc p (push (if got then Taken kind True else Refused kind) w) (m\<lparr>lock_owner := l\<rparr>)))"

text \<open>\<open>_write_holder\<close>: a failed write is ignored and leaves the old file or an unreadable one.\<close>

datatype written = Wrote rat | Kept | Torn

fun write_holder :: "nat \<Rightarrow> string \<Rightarrow> written \<Rightarrow> holder_record option \<Rightarrow> holder_record option" where
  "write_holder p kind (Wrote now) file = Some \<lparr>hr_kind = Some kind, hr_pid = Some p, hr_since = Some now\<rparr>"
| "write_holder p kind Kept file = file"
| "write_holder p kind Torn file = None"

text \<open>
  The end of a body: a block without the lock just closes; the lock's own block gives up the variable, then
  the file, then the lock.
\<close>

definition leave_body :: "process \<Rightarrow> process" where
  "leave_body w = (case blocks w of
       Body k y # bs \<Rightarrow> w\<lparr>flag := False, blocks := Unset # bs\<rparr>
     | _ # bs \<Rightarrow> w\<lparr>blocks := bs\<rparr>
     | [] \<Rightarrow> w)"

definition unlink_holder :: "bool \<Rightarrow> holder_record option \<Rightarrow> holder_record option" where
  "unlink_holder ok file = (if ok then None else file)"

definition close_block :: "nat \<Rightarrow> process \<Rightarrow> machine \<Rightarrow> machine" where
  "close_block p w m =
     put_proc p (w\<lparr>blocks := tl (blocks w)\<rparr>) (m\<lparr>lock_owner := release_lock p (lock_owner m)\<rparr>)"

text \<open>A process that dies, however it does, takes its memory and its file lock with it.\<close>

definition die :: "nat \<Rightarrow> machine \<Rightarrow> machine" where
  "die p m = m\<lparr>procs := (procs m)(p := None), lock_owner := release_lock p (lock_owner m)\<rparr>"

section \<open>The machine\<close>

text \<open>
  One step of the process whose number is the label. A child starts with its parent's environment, or with it
  stripped of the variable, as \<open>waiter\<close> of \<open>harness/gateway_switch.py\<close> does.
\<close>

inductive machine_step :: "machine \<Rightarrow> nat \<Rightarrow> machine \<Rightarrow> bool" where
  start: "procs m p = None \<Longrightarrow> machine_step m p (put_proc p \<lparr>flag = False, blocks = []\<rparr> m)"
| spawn: "procs m p = Some w \<Longrightarrow> in_body w \<Longrightarrow> procs m q = None \<Longrightarrow> f \<longrightarrow> flag w \<Longrightarrow>
     machine_step m p (put_proc q \<lparr>flag = f, blocks = []\<rparr> m)"
| held: "procs m p = Some w \<Longrightarrow> in_body w \<Longrightarrow> machine_step m p (put_proc p (held_enter kind w) m)"
| poll: "procs m p = Some w \<Longrightarrow> blocks w = Waiting kind waited said # bs \<Longrightarrow>
     seen = no_holder \<or> seen = read_holder (holder_file m) \<Longrightarrow>
     machine_step m p (held_poll p kind waited said seen w m)"
| tries: "procs m p = Some w \<Longrightarrow> in_body w \<Longrightarrow> machine_step m p (try_enter p kind w m)"
| writes: "procs m p = Some w \<Longrightarrow> blocks w = Taken kind y # bs \<Longrightarrow>
     machine_step m p (put_proc p (replace_top (Written kind y) w)
       (m\<lparr>holder_file := write_holder p kind how (holder_file m)\<rparr>))"
| sets: "procs m p = Some w \<Longrightarrow> blocks w = Written kind y # bs \<Longrightarrow>
     machine_step m p (put_proc p (replace_top (Body kind y) (w\<lparr>flag := True\<rparr>)) m)"
| leaves: "procs m p = Some w \<Longrightarrow> in_body w \<Longrightarrow> blocks w \<noteq> [] \<Longrightarrow>
     machine_step m p (put_proc p (leave_body w) m)"
| unlinks: "procs m p = Some w \<Longrightarrow> blocks w = Unset # bs \<Longrightarrow>
     machine_step m p (put_proc p (replace_top Unlinked w) (m\<lparr>holder_file := unlink_holder ok (holder_file m)\<rparr>))"
| closes: "procs m p = Some w \<Longrightarrow> blocks w = Unlinked # bs \<Longrightarrow> machine_step m p (close_block p w m)"
| gives_up: "procs m p = Some w \<Longrightarrow> blocks w = Waiting kind waited said # bs \<Longrightarrow>
     machine_step m p (put_proc p (w\<lparr>blocks := bs\<rparr>) m)"
| dies: "procs m p = Some w \<Longrightarrow> machine_step m p (die p m)"

inductive_cases machine_stepE: "machine_step m p m'"

definition boot :: machine where
  "boot = \<lparr>procs = (\<lambda>_. None), lock_owner = None, holder_file = None\<rparr>"

inductive machine_run :: "machine \<Rightarrow> nat list \<Rightarrow> machine \<Rightarrow> bool" where
  stop: "machine_run m [] m"
| move: "machine_step m p m' \<Longrightarrow> machine_run m' ps m'' \<Longrightarrow> machine_run m (p # ps) m''"

definition reachable_machine :: "machine \<Rightarrow> bool" where
  "reachable_machine m \<longleftrightarrow> (\<exists>ps. machine_run boot ps m)"

end
