(* ===== verification/ExclusiveFacts.thy ===== *)
theory ExclusiveFacts
  imports Exclusive
begin

text \<open>
  What the machine lock promises in every reachable machine: the kernel's owner is the one process with a
  block of its own, a waiter can always get in, and what happens when a holder is outlived by its child.
\<close>

section \<open>The invariant\<close>

fun owning :: "block \<Rightarrow> bool" where
  "owning (Through k y) = False"
| "owning (Refused k) = False"
| "owning (Waiting k y s) = False"
| "owning b = True"

fun is_body :: "block \<Rightarrow> bool" where
  "is_body (Body k y) = True"
| "is_body b = False"

fun is_through :: "block \<Rightarrow> bool" where
  "is_through (Through k y) = True"
| "is_through b = False"

fun idle :: "block \<Rightarrow> bool" where
  "idle (Through k y) = True"
| "idle (Refused k) = True"
| "idle b = False"

text \<open>A process without the lock has idle blocks, or waits, without the variable, in the innermost.\<close>

definition guest_ok :: "process \<Rightarrow> bool" where
  "guest_ok w \<longleftrightarrow> list_all idle (blocks w) \<or>
     (\<exists>k y s bs. blocks w = Waiting k y s # bs \<and> list_all idle bs \<and> \<not> flag w)"

text \<open>The owner has one block of its own, the variable exactly while its body runs, and enters nothing but
  bodies that need no lock inside it.\<close>

definition owner_ok :: "process \<Rightarrow> bool" where
  "owner_ok w \<longleftrightarrow> (\<exists>inner b outer. blocks w = inner @ b # outer \<and> list_all is_through inner \<and>
     (inner \<noteq> [] \<longrightarrow> is_body b) \<and> owning b \<and> list_all idle outer \<and> flag w = is_body b)"

definition proc_ok :: "machine \<Rightarrow> nat \<Rightarrow> bool" where
  "proc_ok m p \<longleftrightarrow> (case procs m p of None \<Rightarrow> lock_owner m \<noteq> Some p
     | Some w \<Rightarrow> if lock_owner m = Some p then owner_ok w else guest_ok w)"

definition machine_ok :: "machine \<Rightarrow> bool" where
  "machine_ok m \<longleftrightarrow> (\<forall>p. proc_ok m p)"

lemma idle_not_owning: "list_all idle bs \<Longrightarrow> b \<in> set bs \<Longrightarrow> \<not> owning b"
  by (cases b) (auto simp: list_all_iff)

lemma guest_no_owning: "guest_ok w \<Longrightarrow> b \<in> set (blocks w) \<Longrightarrow> \<not> owning b"
  by (auto simp: guest_ok_def dest: idle_not_owning)

lemma through_idle: "list_all is_through bs \<Longrightarrow> list_all idle bs"
  by (erule list.pred_mono_strong) (auto elim: is_through.elims)

lemma guest_idle: "in_body w \<Longrightarrow> guest_ok w \<Longrightarrow> list_all idle (blocks w)"
  by (auto simp: guest_ok_def in_body_def)

lemma owner_body:
  assumes "owner_ok w" "in_body w"
  obtains inner k y outer where "blocks w = inner @ Body k y # outer" "list_all is_through inner"
    "list_all idle outer" "flag w"
proof -
  from assms(1) obtain inner b outer where *: "blocks w = inner @ b # outer" "list_all is_through inner"
    "inner \<noteq> [] \<longrightarrow> is_body b" "owning b" "list_all idle outer" "flag w = is_body b"
    by (auto simp: owner_ok_def)
  have "is_body b"
    using * assms(2) by (cases inner) (auto simp: in_body_def elim: body_block.elims)
  then show thesis using * that by (cases b) auto
qed

lemma owner_top:
  assumes "owner_ok w" "blocks w = b # bs" "\<not> body_block b"
  shows "owning b \<and> list_all idle bs \<and> \<not> flag w"
proof -
  from assms(1) obtain inner c outer where *: "blocks w = inner @ c # outer" "list_all is_through inner"
    "owning c" "list_all idle outer" "flag w = is_body c"
    by (auto simp: owner_ok_def)
  have "inner = []" using * assms(2,3) by (cases inner; cases b) auto
  then show ?thesis using * assms(2,3) by (cases b) auto
qed

text \<open>A step of \<open>p\<close> that leaves the others and the lock's other owners alone needs only \<open>p\<close> checked.\<close>

lemma machine_ok_put:
  assumes "machine_ok m" "lock_owner m' = lock_owner m \<or> lock_owner m = None \<and> lock_owner m' = Some p
      \<or> lock_owner m = Some p \<and> lock_owner m' = None"
    and "procs m' = procs m" "if lock_owner m' = Some p then owner_ok w else guest_ok w"
  shows "machine_ok (put_proc p w m')"
  unfolding machine_ok_def
proof
  fix q
  have "proc_ok m q" using assms(1) by (simp add: machine_ok_def)
  then show "proc_ok (put_proc p w m') q"
    using assms(2-4) by (cases "q = p") (auto simp: proc_ok_def put_proc_def split: option.splits if_splits)
qed

lemma proc_okD: "machine_ok m \<Longrightarrow> procs m p = Some w \<Longrightarrow> if lock_owner m = Some p then owner_ok w else guest_ok w"
  by (auto simp: machine_ok_def proc_ok_def split: option.splits dest!: spec [of _ p])

lemma guest_ok_start: "guest_ok \<lparr>flag = f, blocks = []\<rparr>"
  by (simp add: guest_ok_def)

lemma pushed_ok:
  assumes "if own then owner_ok w else guest_ok w" "in_body w" "is_through b \<or> \<not> own \<and> idle b"
  shows "if own then owner_ok (push b w) else guest_ok (push b w)"
proof (cases own)
  case True
  then obtain inner k y outer where "blocks w = inner @ Body k y # outer" "list_all is_through inner"
    "list_all idle outer" "flag w" using assms owner_body by metis
  then have "blocks (push b w) = (b # inner) @ Body k y # outer" "list_all is_through (b # inner)"
    "flag (push b w)" using assms(3) True by (auto simp: push_def)
  moreover have "is_body (Body k y)" "owning (Body k y)" by simp_all
  ultimately have "owner_ok (push b w)" unfolding owner_ok_def using \<open>list_all idle outer\<close> by metis
  then show ?thesis using True by simp
next
  case False
  then show ?thesis using assms guest_idle [of w] by (cases b) (auto simp: guest_ok_def push_def)
qed

lemma pushed_owner:
  assumes "guest_ok w" "in_body w" "\<not> flag w"
  shows "owner_ok (push (Taken k y) w)" "guest_ok (push (Waiting k y s) w)"
proof -
  have *: "list_all idle (blocks w)" using assms guest_idle by simp
  have "blocks (push (Taken k y) w) = [] @ Taken k y # blocks w" by (simp add: push_def)
  with * assms(3) show "owner_ok (push (Taken k y) w)" unfolding owner_ok_def
    by (intro exI [of _ "[]"] exI [of _ "Taken k y"] exI [of _ "blocks w"]) (simp add: push_def)
  show "guest_ok (push (Waiting k y s) w)" using * assms(3) by (simp add: guest_ok_def push_def)
qed

text \<open>The owner's own block, while its body does not run, is its innermost.\<close>

lemma top_own:
  assumes "if own then owner_ok w else guest_ok w" "blocks w = b # bs" "owning b" "\<not> is_body b"
  shows "own \<and> list_all idle bs \<and> \<not> flag w"
proof -
  have own using assms guest_no_owning [of w b] by (cases own) auto
  then show ?thesis using owner_top [of w b bs] assms by (cases b) auto
qed

lemma machine_ok_boot: "machine_ok boot"
  by (simp add: machine_ok_def proc_ok_def boot_def)

lemma replaced: "blocks w = b # bs \<Longrightarrow> replace_top b' w = \<lparr>flag = flag w, blocks = b' # bs\<rparr>"
  by (cases w) (simp add: replace_top_def)

lemma owner_okI: "blocks w = b # bs \<Longrightarrow> owning b \<Longrightarrow> list_all idle bs \<Longrightarrow> flag w = is_body b \<Longrightarrow> owner_ok w"
  unfolding owner_ok_def by (intro exI [of _ "[]"] exI [of _ b] exI [of _ bs]) simp

lemma machine_ok_poll:
  assumes ok: "machine_ok m" and w: "procs m p = Some w" "blocks w = Waiting kind waited said # bs"
  shows "machine_ok (held_poll p kind waited said seen w m)"
proof -
  have g: "guest_ok w" "lock_owner m \<noteq> Some p"
    using proc_okD [OF ok w(1)] owner_top [of w "Waiting kind waited said" bs] w(2) by (auto split: if_splits)
  then have *: "list_all idle bs" "\<not> flag w" using w(2) by (auto simp: guest_ok_def)
  show ?thesis
  proof (cases "lock_owner m")
    case None
    have "owner_ok (replace_top (Taken kind waited) w)"
      by (rule owner_okI [of _ "Taken kind waited" bs]) (simp_all add: * replaced [OF w(2)])
    then show ?thesis unfolding held_poll_def take_lock_def using ok None
      by (simp, intro machine_ok_put) auto
  next
    case (Some q)
    have "guest_ok (replace_top (Waiting kind True s) w)" for s
      using * by (auto simp: replaced [OF w(2)] guest_ok_def)
    then show ?thesis unfolding held_poll_def take_lock_def using ok Some g
      by (simp, intro machine_ok_put) auto
  qed
qed

lemma machine_ok_try:
  assumes ok: "machine_ok m" and w: "procs m p = Some w" "in_body w"
  shows "machine_ok (try_enter p kind w m)"
proof (cases "flag w")
  case True
  then show ?thesis unfolding try_enter_def
    using pushed_ok [OF proc_okD [OF ok w(1)] w(2)] ok by (simp, intro machine_ok_put) auto
next
  case False
  have g: "guest_ok w" "lock_owner m \<noteq> Some p"
    using proc_okD [OF ok w(1)] owner_body [of w] w(2) False by (metis)+
  show ?thesis
    using pushed_owner(1) [OF g(1) w(2) False] pushed_ok [of False w "Refused kind"] g w ok False
    unfolding try_enter_def take_lock_def
    by (cases "lock_owner m") (auto intro!: machine_ok_put)
qed

lemma machine_ok_held:
  assumes ok: "machine_ok m" and w: "procs m p = Some w" "in_body w"
  shows "machine_ok (put_proc p (held_enter kind w) m)"
proof (cases "kind \<notin> set (EXCLUSIVE @ BATCH) \<or> flag w")
  case True
  then have "held_enter kind w = push (Through kind False) w" by (simp only: held_enter_def if_True)
  then show ?thesis using pushed_ok [OF proc_okD [OF ok w(1)] w(2)] ok by (auto intro!: machine_ok_put)
next
  case False
  have g: "guest_ok w" "lock_owner m \<noteq> Some p"
    using proc_okD [OF ok w(1)] owner_body [of w] w(2) False by (metis)+
  have "held_enter kind w = push (Waiting kind False None) w" using False by (simp only: held_enter_def if_False)
  then show ?thesis using pushed_owner(2) [OF g(1) w(2)] g ok False by (auto intro!: machine_ok_put)
qed


lemma machine_ok_leave:
  assumes ok: "machine_ok m" and w: "procs m p = Some w" "in_body w" "blocks w \<noteq> []"
  shows "machine_ok (put_proc p (leave_body w) m)"
proof -
  have "if lock_owner m = Some p then owner_ok (leave_body w) else guest_ok (leave_body w)"
  proof (cases "lock_owner m = Some p")
    case True
    then obtain inner k y outer where *: "blocks w = inner @ Body k y # outer" "list_all is_through inner"
      "list_all idle outer" "flag w" using proc_okD [OF ok w(1)] w(2) by (auto elim: owner_body)
    have "owner_ok (leave_body w)"
    proof (cases inner)
      case Nil
      then show ?thesis using * by (intro owner_okI [of _ Unset outer]) (auto simp: leave_body_def)
    next
      case (Cons b bs)
      then have "blocks (leave_body w) = bs @ Body k y # outer" "flag (leave_body w)"
        using * by (cases b; simp add: leave_body_def)+
      moreover have "is_body (Body k y)" "owning (Body k y)" by simp_all
      moreover have "list_all is_through bs" using * Cons by simp
      ultimately show ?thesis using * unfolding owner_ok_def by metis
    qed
    then show ?thesis using True by simp
  next
    case False
    then have "list_all idle (blocks w)" using proc_okD [OF ok w(1)] guest_idle w(2) by simp
    then have "list_all idle (blocks (leave_body w))" by (auto simp: leave_body_def split: list.splits block.splits)
    then show ?thesis using False by (simp add: guest_ok_def)
  qed
  then show ?thesis using ok by (auto intro!: machine_ok_put)
qed

lemma machine_ok_step: "machine_step m p m' \<Longrightarrow> machine_ok m \<Longrightarrow> machine_ok m'"
proof (induction rule: machine_step.induct)
  case (start m p)
  then have "lock_owner m \<noteq> Some p" by (auto simp: machine_ok_def proc_ok_def dest: spec [of _ p])
  then show ?case using start by (intro machine_ok_put) (auto simp: guest_ok_start)
next
  case (spawn m p w q f)
  then have "lock_owner m \<noteq> Some q" by (auto simp: machine_ok_def proc_ok_def dest: spec [of _ q])
  then show ?case using spawn by (intro machine_ok_put) (auto simp: guest_ok_start)
next
  case (held m p w kind)
  then show ?case by (intro machine_ok_held)
next
  case (poll m p w kind waited said bs seen)
  then show ?case by (intro machine_ok_poll)
next
  case (tries m p w kind)
  then show ?case by (intro machine_ok_try)
next
  case (writes m p w kind y bs how)
  then have *: "lock_owner m = Some p \<and> list_all idle bs \<and> \<not> flag w" by (intro top_own [OF proc_okD]) auto
  then have "owner_ok (replace_top (Written kind y) w)"
    by (intro owner_okI [of _ "Written kind y" bs]) (simp_all add: replaced [OF writes.hyps(2)])
  then show ?case using writes * by (intro machine_ok_put) auto
next
  case (sets m p w kind y bs)
  then have *: "lock_owner m = Some p \<and> list_all idle bs \<and> \<not> flag w" by (intro top_own [OF proc_okD]) auto
  then have "owner_ok (replace_top (Body kind y) (w\<lparr>flag := True\<rparr>))"
    by (intro owner_okI [of _ "Body kind y" bs]) (simp_all add: replace_top_def sets.hyps(2))
  then show ?case using sets * by (intro machine_ok_put) auto
next
  case (leaves m p w)
  then show ?case by (intro machine_ok_leave)
next
  case (unlinks m p w bs ok)
  then have *: "lock_owner m = Some p \<and> list_all idle bs \<and> \<not> flag w" by (intro top_own [OF proc_okD]) auto
  then have "owner_ok (replace_top Unlinked w)"
    by (intro owner_okI [of _ Unlinked bs]) (simp_all add: replaced [OF unlinks.hyps(2)])
  then show ?case using unlinks * by (intro machine_ok_put) auto
next
  case (closes m p w bs)
  then have "lock_owner m = Some p \<and> list_all idle bs \<and> \<not> flag w" by (intro top_own [OF proc_okD]) auto
  then show ?case using closes unfolding close_block_def release_lock_def
    by (intro machine_ok_put) (auto simp: guest_ok_def)
next
  case (gives_up m p w kind waited said bs)
  have "lock_owner m \<noteq> Some p" "list_all idle bs"
    using proc_okD [OF gives_up.prems gives_up.hyps(1)] owner_top [of w "Waiting kind waited said" bs] gives_up.hyps(2)
    by (auto simp: guest_ok_def split: if_splits)
  then show ?case using gives_up by (intro machine_ok_put) (auto simp: guest_ok_def)
next
  case (dies m p w)
  show ?case unfolding machine_ok_def
  proof
    fix q
    have "proc_ok m q" using dies by (simp add: machine_ok_def)
    then show "proc_ok (die p m) q"
      by (cases "q = p") (auto simp: proc_ok_def die_def release_lock_def split: option.splits if_splits)
  qed
qed

lemma machine_ok_run: "machine_run m ps m' \<Longrightarrow> machine_ok m \<Longrightarrow> machine_ok m'"
  by (induction rule: machine_run.induct) (auto dest: machine_ok_step)

lemma reachable_ok: "reachable_machine m \<Longrightarrow> machine_ok m"
  using machine_ok_run machine_ok_boot by (auto simp: reachable_machine_def)


section \<open>Progress\<close>

text \<open>The steps an owner still has to take before the lock is free, by its innermost block.\<close>

fun to_go :: "block list \<Rightarrow> nat" where
  "to_go [] = 0"
| "to_go (Taken k y # bs) = 5"
| "to_go (Written k y # bs) = 4"
| "to_go (Body k y # bs) = 3"
| "to_go (Unset # bs) = 2"
| "to_go (Unlinked # bs) = 1"
| "to_go (b # bs) = Suc (to_go bs)"

lemma to_go_bound: "to_go bs \<le> length bs + 4"
  by (induction bs rule: to_go.induct) auto

lemma owner_step:
  assumes ok: "machine_ok m" and q: "lock_owner m = Some q" "procs m q = Some w"
  obtains m' where "machine_step m q m'" "\<And>p. p \<noteq> q \<Longrightarrow> procs m' p = procs m p"
    "lock_owner m' = None \<and> to_go (blocks w) = 1 \<or>
     (\<exists>w'. lock_owner m' = Some q \<and> procs m' q = Some w' \<and> Suc (to_go (blocks w')) = to_go (blocks w))"
proof -
  have o: "owner_ok w" using proc_okD [OF ok q(2)] q(1) by simp
  then obtain b bs where w: "blocks w = b # bs" by (cases "blocks w") (auto simp: owner_ok_def)
  show thesis
  proof (cases b)
    case (Through k y)
    then show ?thesis using that [OF machine_step.leaves [OF q(2)]] w q
      by (simp add: in_body_def leave_body_def put_proc_def)
  next
    case (Refused k)
    then show ?thesis using o w by (auto simp: owner_ok_def Cons_eq_append_conv)
  next
    case (Waiting k y s)
    then show ?thesis using owner_top [OF o w] by simp
  next
    case (Taken k y)
    then show ?thesis using that [OF machine_step.writes [OF q(2), of k y bs Kept]] w q
      by (simp add: put_proc_def replaced [OF w])
  next
    case (Written k y)
    then show ?thesis using that [OF machine_step.sets [OF q(2), of k y bs]] w q
      by (simp add: put_proc_def replace_top_def)
  next
    case (Body k y)
    then show ?thesis using that [OF machine_step.leaves [OF q(2)]] w q
      by (simp add: in_body_def leave_body_def put_proc_def)
  next
    case Unset
    then show ?thesis using that [OF machine_step.unlinks [OF q(2), of bs True]] w q
      by (simp add: put_proc_def replaced [OF w])
  next
    case Unlinked
    then show ?thesis using that [OF machine_step.closes [OF q(2), of bs]] w q
      by (simp add: close_block_def put_proc_def release_lock_def)
  qed
qed

lemma owner_frees:
  assumes "machine_ok m" "lock_owner m = Some q" "procs m q = Some w"
  shows "\<exists>m'. machine_run m (replicate (to_go (blocks w)) q) m' \<and> lock_owner m' = None \<and>
    (\<forall>p. p \<noteq> q \<longrightarrow> procs m' p = procs m p)"
  using assms
proof (induction "to_go (blocks w)" arbitrary: m w rule: less_induct)
  case less
  obtain m1 where m1: "machine_step m q m1" "\<And>p. p \<noteq> q \<Longrightarrow> procs m1 p = procs m p"
    "lock_owner m1 = None \<and> to_go (blocks w) = 1 \<or>
     (\<exists>w'. lock_owner m1 = Some q \<and> procs m1 q = Some w' \<and> Suc (to_go (blocks w')) = to_go (blocks w))"
    using owner_step [OF less.prems] by metis
  from m1(3) show ?case
  proof
    assume "lock_owner m1 = None \<and> to_go (blocks w) = 1"
    then show ?case using m1(1,2) by (auto intro!: exI [of _ m1] machine_run.intros)
  next
    assume "\<exists>w'. lock_owner m1 = Some q \<and> procs m1 q = Some w' \<and> Suc (to_go (blocks w')) = to_go (blocks w)"
    then obtain w' where w': "lock_owner m1 = Some q" "procs m1 q = Some w'" "Suc (to_go (blocks w')) = to_go (blocks w)"
      by auto
    obtain m2 where "machine_run m1 (replicate (to_go (blocks w')) q) m2" "lock_owner m2 = None"
      "\<forall>p. p \<noteq> q \<longrightarrow> procs m2 p = procs m1 p"
      using less.hyps [OF _ machine_ok_step [OF m1(1) less.prems(1)] w'(1,2)] w'(3) by auto
    then show ?case using m1(1,2) w'(3) [symmetric] by (auto intro!: exI [of _ m2] machine_run.move)
  qed
qed

lemma run_append: "machine_run m ps m' \<Longrightarrow> machine_run m' qs m'' \<Longrightarrow> machine_run m (ps @ qs) m''"
  by (induction rule: machine_run.induct) (auto intro: machine_run.intros)


section \<open>The properties\<close>

lemma idle_none: "list_all idle bs \<Longrightarrow> filter owning bs = []"
  by (auto simp: filter_empty_conv dest: idle_not_owning)

lemma owner_one: "owner_ok w \<Longrightarrow> \<exists>b. filter owning (blocks w) = [b]"
  by (auto simp: owner_ok_def idle_none dest!: through_idle)

lemma guest_none: "guest_ok w \<Longrightarrow> filter owning (blocks w) = []"
  by (auto simp: filter_empty_conv dest: guest_no_owning)

text \<open>
  C18. However the processes of a machine interleave, fail, die and spawn children, the kernel's owner of
  the lock is exactly the one living process with a \<open>with\<close> block between taking and releasing it, and that
  process has one such block: two never hold the machine at once, and a dead one never does.
\<close>

theorem one_holder:
  assumes "reachable_machine m"
  shows "(lock_owner m = Some p \<longleftrightarrow> (\<exists>w. procs m p = Some w \<and> filter owning (blocks w) \<noteq> [])) \<and>
    (\<forall>w. procs m p = Some w \<longrightarrow> length (filter owning (blocks w)) \<le> 1)"
proof -
  have ok: "machine_ok m" using assms by (rule reachable_ok)
  show ?thesis
  proof (cases "procs m p")
    case None
    then show ?thesis using ok by (auto simp: machine_ok_def proc_ok_def dest: spec [of _ p])
  next
    case (Some w)
    then show ?thesis using proc_okD [OF ok Some] owner_one [of w] guest_none [of w]
      by (cases "lock_owner m = Some p") auto
  qed
qed

text \<open>
  C19. No deadlock: a process waiting in \<open>held\<close> is never its own holder, the holder never waits, and from every
  reachable machine the holder alone, in at most its open blocks plus four steps, frees the lock, after
  which the waiter's next attempt takes it. A holder that dies frees it at once.
\<close>

theorem waiter_gets_in:
  assumes "reachable_machine m" "procs m p = Some w" "blocks w = Waiting kind y said # bs"
  shows "\<exists>n m'. machine_run m (case lock_owner m of None \<Rightarrow> [p] | Some q \<Rightarrow> replicate n q @ [p]) m' \<and>
      lock_owner m' = Some p \<and> procs m' p = Some (w\<lparr>blocks := Taken kind y # bs\<rparr>) \<and>
      (\<forall>q v. lock_owner m = Some q \<and> procs m q = Some v \<longrightarrow> q \<noteq> p \<and> n \<le> length (blocks v) + 4 \<and>
         lock_owner (die q m) = None)"
proof -
  have ok: "machine_ok m" using assms(1) by (rule reachable_ok)
  have poll: "\<exists>m2. machine_step m1 p m2 \<and> lock_owner m2 = Some p \<and> procs m2 p = Some (w\<lparr>blocks := Taken kind y # bs\<rparr>)"
    if "lock_owner m1 = None" "procs m1 p = Some w" for m1
    using machine_step.poll [OF that(2) assms(3), of no_holder] that assms(3)
    by (intro exI [of _ "held_poll p kind y said no_holder w m1"])
      (simp add: held_poll_def take_lock_def put_proc_def replace_top_def)
  show ?thesis
  proof (cases "lock_owner m")
    case None
    then show ?thesis using poll [OF None assms(2)] by (auto intro: machine_run.intros)
  next
    case (Some q)
    then obtain v where v: "procs m q = Some v" using ok by (auto simp: machine_ok_def proc_ok_def split: option.splits dest: spec [of _ q])
    have "q \<noteq> p" using Some v assms proc_okD [OF ok v] owner_top [of w "Waiting kind y said" bs] by auto
    moreover obtain m1 where m1: "machine_run m (replicate (to_go (blocks v)) q) m1" "lock_owner m1 = None"
      "procs m1 p = procs m p" using owner_frees [OF ok Some v] \<open>q \<noteq> p\<close> by auto
    moreover obtain m2 where "machine_step m1 p m2" "lock_owner m2 = Some p"
      "procs m2 p = Some (w\<lparr>blocks := Taken kind y # bs\<rparr>)" using poll m1 assms(2) by auto
    moreover have "machine_run m1 [p] m2" using calculation by (auto intro: machine_run.intros)
    ultimately show ?thesis using Some v run_append [OF m1(1)] to_go_bound [of "blocks v"]
      by (intro exI [of _ "to_go (blocks v)"] exI [of _ m2]) (auto simp: die_def release_lock_def)
  qed
qed

text \<open>
  A waiter is told what it waits behind exactly when that changes: the announcements of a wait name the
  holders its attempts read, in order, without consecutive repeats, however many attempts it makes.
\<close>

theorem announced_on_change:
  "map holder_identity (announcements None seen) = remdups_adj (map holder_identity seen)"
  by (simp add: announcements_adj)


section \<open>Concrete machines\<close>

lemmas machine_defs = put_proc_def push_def replace_top_def in_body_def held_enter_def held_poll_def take_lock_def
  EXCLUSIVE_def BATCH_def die_def release_lock_def leave_body_def announce_once_def

text \<open>Process 1 has taken the lock for an image and process 2 waits with a video.\<close>

lemma image_and_video:
  "\<exists>m s. reachable_machine m \<and> lock_owner m = Some 1 \<and> procs m 1 = Some \<lparr>flag = False, blocks = [Taken ''image'' False]\<rparr> \<and>
     procs m 2 = Some \<lparr>flag = False, blocks = [Waiting ''video'' True s]\<rparr>"
proof -
  have "\<exists>m. machine_run boot [1, 1, 1, 2, 2, 2] m \<and> lock_owner m = Some 1 \<and>
      procs m 1 = Some \<lparr>flag = False, blocks = [Taken ''image'' False]\<rparr> \<and>
      (\<exists>s. procs m 2 = Some \<lparr>flag = False, blocks = [Waiting ''video'' True s]\<rparr>)"
    apply (rule exI, rule conjI)
     apply (rule machine_run.move, rule machine_step.start [of _ 1], simp add: boot_def)
     apply (rule machine_run.move, rule machine_step.held [of _ 1 _ "''image''"], simp add: machine_defs, simp add: machine_defs)
     apply (rule machine_run.move, rule machine_step.poll [of _ 1 _ "''image''" False None "[]" no_holder],
       simp add: machine_defs, simp add: machine_defs, simp)
     apply (rule machine_run.move, rule machine_step.start [of _ 2], simp add: machine_defs boot_def)
     apply (rule machine_run.move, rule machine_step.held [of _ 2 _ "''video''"], simp add: machine_defs, simp add: machine_defs)
     apply (rule machine_run.move, rule machine_step.poll [of _ 2 _ "''video''" False None "[]" no_holder],
       simp add: machine_defs, simp add: machine_defs, simp)
     apply (rule machine_run.stop)
    apply (simp add: machine_defs boot_def)
    done
  then show ?thesis unfolding reachable_machine_def by blast
qed

theorem one_holder_witness:
  "\<exists>m. reachable_machine m \<and> lock_owner m = Some 1 \<and> procs m 2 \<noteq> None \<and>
     (\<forall>w. procs m 2 = Some w \<longrightarrow> filter owning (blocks w) = [])"
proof -
  obtain m s where m: "reachable_machine m" "lock_owner m = Some 1"
    "procs m 2 = Some \<lparr>flag = False, blocks = [Waiting ''video'' True s]\<rparr>" using image_and_video by blast
  then show ?thesis using one_holder [OF m(1), of 2] by (intro exI [of _ m]) auto
qed

theorem waiter_gets_in_witness:
  "\<exists>m m' n. reachable_machine m \<and> lock_owner m = Some 1 \<and> n \<le> 5 \<and> machine_run m (replicate n 1 @ [2]) m' \<and>
     lock_owner m' = Some 2"
proof -
  obtain m s where m: "reachable_machine m" "lock_owner m = Some 1"
    "procs m 1 = Some \<lparr>flag = False, blocks = [Taken ''image'' False]\<rparr>"
    "procs m 2 = Some \<lparr>flag = False, blocks = [Waiting ''video'' True s]\<rparr>" using image_and_video by blast
  show ?thesis using waiter_gets_in [OF m(1) m(4), of "''video''" True s "[]"] m by fastforce
qed

text \<open>
  The variable a child inherits says its parent holds the lock, and nothing takes it back: when the holder
  dies first, the child's \<open>held\<close> still passes through, so an image can be made under no lock while another
  process holds the machine for a video.
\<close>

theorem child_outlives_the_lock:
  "\<exists>m. reachable_machine m \<and> lock_owner m = Some 3 \<and>
     procs m 2 = Some \<lparr>flag = True, blocks = [Through ''image'' False]\<rparr> \<and>
     procs m 3 = Some \<lparr>flag = True, blocks = [Body ''video'' False]\<rparr>"
proof -
  have "\<exists>m. machine_run boot [1, 1, 1, 1, 1, 1, 1, 2, 3, 3, 3, 3, 3] m \<and> lock_owner m = Some 3 \<and>
     procs m 2 = Some \<lparr>flag = True, blocks = [Through ''image'' False]\<rparr> \<and>
     procs m 3 = Some \<lparr>flag = True, blocks = [Body ''video'' False]\<rparr>"
    apply (rule exI, rule conjI)
     apply (rule machine_run.move, rule machine_step.start [of _ 1], simp add: boot_def)
     apply (rule machine_run.move, rule machine_step.held [of _ 1 _ "''external''"], simp add: machine_defs, simp add: machine_defs)
     apply (rule machine_run.move, rule machine_step.poll [of _ 1 _ "''external''" False None "[]" no_holder],
       simp add: machine_defs, simp add: machine_defs, simp)
     apply (rule machine_run.move, rule machine_step.writes [of _ 1 _ "''external''" False "[]" "Wrote 0"],
       simp add: machine_defs boot_def, simp add: machine_defs boot_def)
     apply (rule machine_run.move, rule machine_step.sets [of _ 1 _ "''external''" False "[]"],
       simp add: machine_defs, simp add: machine_defs boot_def)
     apply (rule machine_run.move, rule machine_step.spawn [of _ 1 _ 2 True],
       simp add: machine_defs, simp add: machine_defs, simp add: machine_defs boot_def, simp add: machine_defs)
     apply (rule machine_run.move, rule machine_step.dies [of _ 1], simp add: machine_defs)
     apply (rule machine_run.move, rule machine_step.held [of _ 2 _ "''image''"], simp add: machine_defs, simp add: machine_defs)
     apply (rule machine_run.move, rule machine_step.start [of _ 3], simp add: machine_defs boot_def)
     apply (rule machine_run.move, rule machine_step.held [of _ 3 _ "''video''"], simp add: machine_defs, simp add: machine_defs)
     apply (rule machine_run.move, rule machine_step.poll [of _ 3 _ "''video''" False None "[]" no_holder],
       simp add: machine_defs, simp add: machine_defs, simp)
     apply (rule machine_run.move, rule machine_step.writes [of _ 3 _ "''video''" False "[]" "Wrote 1"],
       simp add: machine_defs boot_def, simp add: machine_defs boot_def)
     apply (rule machine_run.move, rule machine_step.sets [of _ 3 _ "''video''" False "[]"],
       simp add: machine_defs, simp add: machine_defs boot_def)
     apply (rule machine_run.stop)
    apply (simp add: machine_defs boot_def)
    done
  then show ?thesis unfolding reachable_machine_def by blast
qed

end
