(* ===== verification/Methods.thy ===== *)
theory Methods
  imports Prelude
begin

text \<open>
  The method registry of \<open>harness/methods.py\<close>: a method is a named transform over a base candidate, spelled
  \<open><name>:<args>:<base>\<close>. The parser, the registry, what the loop crosses with an incumbent, and how a method is
  served in text: the two calls of plan and the samples of best-of. The call on the base's route and the lane's own
  check of a reply are arguments; the runners a method builds for an eval are not modelled.
\<close>

datatype serving_kind = NoText | ServePlan | ServeBestOf

record mmethod =
  mt_name :: string
  grammar :: string
  mt_lanes :: "string list"
  takes :: string
  arity :: nat
  mt_defaults :: "nat list"
  minimum :: nat
  mt_modality :: string
  base_lane :: string
  crosses :: bool
  preset :: string
  serves_text :: serving_kind

definition SAMPLED_TEXT_LANES :: "string list" where
  "SAMPLED_TEXT_LANES = [''code'', ''web'', ''svg'']"

definition METHOD_TEXT_LANES :: "string list" where
  "METHOD_TEXT_LANES = [''code'', ''web'', ''svg'', ''extract'']"

text \<open>A method with the fields the dataclass leaves at their defaults.\<close>

definition plain_method :: "string \<Rightarrow> string \<Rightarrow> string list \<Rightarrow> string \<Rightarrow> mmethod" where
  "plain_method name g lanes label = \<lparr>mt_name = name, grammar = g, mt_lanes = lanes, takes = label, arity = 0,
     mt_defaults = [], minimum = 1, mt_modality = [], base_lane = [], crosses = True, preset = [], serves_text = NoText\<rparr>"

definition REGISTRY :: "mmethod list" where
  "REGISTRY =
    [(plain_method ''trace'' ''trace:<image engine>'' [''svg''] ''trace'')
       \<lparr>mt_modality := ''svg'', base_lane := ''image'', preset := ''illustration''\<rparr>,
     (plain_method ''trace-icon'' ''trace-icon:<image engine>'' [''svg''] ''trace'')
       \<lparr>mt_modality := ''svg'', base_lane := ''image'', preset := ''icon'', crosses := False\<rparr>,
     (plain_method ''best-of'' ''best-of:<n>:<base>'' SAMPLED_TEXT_LANES [])
       \<lparr>arity := 1, mt_defaults := [3], minimum := 2, serves_text := ServeBestOf\<rparr>,
     (plain_method ''plan'' ''plan:<base>'' METHOD_TEXT_LANES [])\<lparr>serves_text := ServePlan\<rparr>]"

definition registered :: "string \<Rightarrow> mmethod option" where
  "registered name = find (\<lambda>m. mt_name m = name) REGISTRY"

section \<open>Spelling and parsing\<close>

definition compose_method :: "mmethod \<Rightarrow> string \<Rightarrow> nat list \<Rightarrow> string" where
  "compose_method m base args =
     join '':'' (mt_name m # map decimal (if args = [] then mt_defaults m else args) @ [base])"

record parsed_method =
  pm_method :: mmethod
  pm_args :: "nat list"
  pm_base :: string
  pm_spec :: string

datatype method_error = NeedsWholeNumber string | NeedsAtLeast nat | NamesNoBase

text \<open>The leading arguments: each up to the next colon, a whole number at or above the minimum.\<close>

fun method_args :: "nat \<Rightarrow> nat \<Rightarrow> string \<Rightarrow> method_error + (nat list \<times> string)" where
  "method_args 0 least rest = Inr ([], rest)"
| "method_args (Suc k) least rest =
     (case partition_at CHR '':'' rest of (arg, rest') \<Rightarrow>
        (case py_int arg of
           None \<Rightarrow> Inl (NeedsWholeNumber arg)
         | Some n \<Rightarrow>
             if n < int least then Inl (NeedsAtLeast least)
             else (case method_args k least rest' of Inl e \<Rightarrow> Inl e | Inr (ns, r) \<Rightarrow> Inr (nat n # ns, r))))"

definition parse_method :: "string \<Rightarrow> method_error + parsed_method option" where
  "parse_method spec0 =
     (let spec = strip spec0; (head0, rest) = partition_at CHR '':'' spec;
          head = strip (fst (partition_at CHR '','' head0))
      in case registered head of
           None \<Rightarrow> Inr None
         | Some m \<Rightarrow>
             (case method_args (arity m) (minimum m) rest of
                Inl e \<Rightarrow> Inl e
              | Inr (args, rest') \<Rightarrow>
                  if CHR '':'' \<notin> set spec \<or> strip rest' = [] then Inl NamesNoBase
                  else Inr (Some \<lparr>pm_method = m, pm_args = args, pm_base = strip rest', pm_spec = spec\<rparr>)))"

definition is_method :: "string \<Rightarrow> bool" where
  "is_method spec = (case parse_method spec of Inl e \<Rightarrow> True | Inr got \<Rightarrow> got \<noteq> None)"

definition base_of :: "string \<Rightarrow> string" where
  "base_of spec = (case parse_method spec of Inr (Some p) \<Rightarrow> pm_base p | _ \<Rightarrow> [])"

definition applicable :: "string \<Rightarrow> mmethod list" where
  "applicable lane = filter (\<lambda>m. lane \<in> set (mt_lanes m)) REGISTRY"

definition crossings :: "string \<Rightarrow> (string \<Rightarrow> string) \<Rightarrow> string list" where
  "crossings lane incumbent_of =
     concat (map (\<lambda>m. if \<not> crosses m then []
                      else (let base = incumbent_of (if base_lane m = [] then lane else base_lane m)
                            in if base = [] \<or> is_method base then [] else [compose_method m base []]))
       (applicable lane))"

definition weights_of :: "string \<Rightarrow> string" where
  "weights_of spec =
     (let base = base_of spec; model = strip (fst (partition_at CHR '','' base))
      in if base = [] then [] else if CHR ''/'' \<in> set model \<and> CHR '':'' \<notin> set model then model else [])"

definition text_method :: "string \<Rightarrow> bool" where
  "text_method spec = (case parse_method spec of Inr (Some p) \<Rightarrow> serves_text (pm_method p) \<noteq> NoText | _ \<Rightarrow> False)"

section \<open>Serving in text\<close>

text \<open>
  What a served method cost, and the failures of a call. \<open>ask i prompt lane\<close> is the call of number \<open>i\<close>, counted
  over the whole answer.
\<close>

record method_cost =
  mc_method :: string
  mc_base :: string
  mc_calls :: nat
  mc_samples :: "nat option"
  mc_chosen :: "nat option"

type_synonym 'e asking = "nat \<Rightarrow> string \<Rightarrow> string \<Rightarrow> 'e + string"

definition plan_prompt :: "string \<Rightarrow> string" where
  "plan_prompt task = ''Before answering, write a short numbered plan for the task below.'' @ [CHR 0x0A] @
     ''Do not write the answer itself.'' @ [CHR 0x0A, CHR 0x0A] @ ''TASK:'' @ [CHR 0x0A] @ task"

definition answer_prompt :: "string \<Rightarrow> string \<Rightarrow> string" where
  "answer_prompt task plan = task @ [CHR 0x0A, CHR 0x0A] @ ''Follow this plan:'' @ [CHR 0x0A] @ plan"

definition serve_plan :: "'e asking \<Rightarrow> parsed_method \<Rightarrow> string \<Rightarrow> string \<Rightarrow> 'e + (string \<times> method_cost)" where
  "serve_plan ask p lane prompt =
     (case ask 0 (plan_prompt prompt) [] of
        Inl e \<Rightarrow> Inl e
      | Inr plan \<Rightarrow>
          (case ask 1 (answer_prompt prompt (strip plan)) lane of
             Inl e \<Rightarrow> Inl e
           | Inr answer \<Rightarrow> Inr (answer, \<lparr>mc_method = mt_name (pm_method p), mc_base = pm_base p, mc_calls = 2,
                                  mc_samples = None, mc_chosen = None\<rparr>)))"

text \<open>A reply's rank: passing first, then fewer warnings. A tuple compares by its first difference.\<close>

type_synonym reply_rank = "bool \<times> int"

definition rank_above :: "reply_rank \<Rightarrow> reply_rank \<Rightarrow> bool" where
  "rank_above x y \<longleftrightarrow> (\<not> fst y \<and> fst x) \<or> (fst x = fst y \<and> snd y < snd x)"

record 'e best_state =
  best :: "(string \<times> reply_rank \<times> nat) option"
  last_failed :: "'e option"

definition best_step :: "(string \<Rightarrow> reply_rank) \<Rightarrow> nat \<Rightarrow> 'e + string \<Rightarrow> 'e best_state \<Rightarrow> 'e best_state" where
  "best_step rank i reply st =
     (case reply of
        Inl e \<Rightarrow> st\<lparr>last_failed := Some e\<rparr>
      | Inr txt \<Rightarrow>
          (let key = rank txt
           in case best st of
                None \<Rightarrow> st\<lparr>best := Some (txt, key, i)\<rparr>
              | Some b \<Rightarrow> if rank_above key (fst (snd b)) then st\<lparr>best := Some (txt, key, i)\<rparr> else st))"

fun best_loop :: "(string \<Rightarrow> reply_rank) \<Rightarrow> nat \<Rightarrow> ('e + string) list \<Rightarrow> 'e best_state \<Rightarrow> 'e best_state" where
  "best_loop rank i [] st = st"
| "best_loop rank i (r # rs) st = best_loop rank (Suc i) rs (best_step rank i r st)"

text \<open>\<open>no_sample\<close> is the error when nothing failed and nothing came back.\<close>

definition serve_best_of ::
  "'e \<Rightarrow> (string \<Rightarrow> reply_rank) \<Rightarrow> 'e asking \<Rightarrow> parsed_method \<Rightarrow> string \<Rightarrow> string \<Rightarrow> 'e + (string \<times> method_cost)" where
  "serve_best_of no_sample rank ask p lane prompt =
     (let n = hd (pm_args p);
          st = best_loop rank 1 (map (\<lambda>i. ask i prompt lane) [0..<n]) \<lparr>best = None, last_failed = None\<rparr>
      in case best st of
           None \<Rightarrow> Inl (case last_failed st of None \<Rightarrow> no_sample | Some e \<Rightarrow> e)
         | Some (txt, key, i) \<Rightarrow>
             Inr (txt, \<lparr>mc_method = mt_name (pm_method p), mc_base = pm_base p, mc_calls = n,
                        mc_samples = Some n, mc_chosen = Some i\<rparr>))"

datatype 'e run_error = BadSpec method_error | NotText | CallFailed 'e

definition run_method ::
  "'e \<Rightarrow> (string \<Rightarrow> string \<Rightarrow> reply_rank) \<Rightarrow> 'e asking \<Rightarrow> string \<Rightarrow> string \<Rightarrow> string
    \<Rightarrow> 'e run_error + (string \<times> method_cost option)" where
  "run_method no_sample rank ask spec lane prompt =
     (case parse_method spec of
        Inl e \<Rightarrow> Inl (BadSpec e)
      | Inr None \<Rightarrow> (case ask 0 prompt lane of Inl e \<Rightarrow> Inl (CallFailed e) | Inr txt \<Rightarrow> Inr (txt, None))
      | Inr (Some p) \<Rightarrow>
          (let served = (case serves_text (pm_method p) of
                           NoText \<Rightarrow> None
                         | ServePlan \<Rightarrow> Some (serve_plan ask p lane prompt)
                         | ServeBestOf \<Rightarrow> Some (serve_best_of no_sample (rank lane) ask p lane prompt))
           in case served of None \<Rightarrow> Inl NotText
                | Some (Inl e) \<Rightarrow> Inl (CallFailed e)
                | Some (Inr (txt, c)) \<Rightarrow> Inr (txt, Some c)))"

section \<open>What a method paid\<close>

record paid =
  pd_method :: string
  pd_base :: string
  pd_calls :: rat
  pd_median :: rat
  pd_incumbent :: rat
  pd_ratio :: "rat option"

text \<open>A row's median latency and its \<open>method_calls\<close> metric; \<open>x or 0.0\<close> makes a missing or zero value the default.\<close>

definition or_else :: "rat \<Rightarrow> rat option \<Rightarrow> rat" where
  "or_else z x = (case x of None \<Rightarrow> z | Some v \<Rightarrow> if v = 0 then z else v)"

definition cost_paid :: "rat option \<Rightarrow> rat option \<Rightarrow> rat option \<Rightarrow> string \<Rightarrow> paid option" where
  "cost_paid theirs0 mine0 calls spec =
     (case parse_method spec of
        Inr (Some p) \<Rightarrow>
          (let mine = or_else 0 mine0; theirs = or_else 0 theirs0
           in Some \<lparr>pd_method = mt_name (pm_method p), pd_base = pm_base p, pd_calls = or_else 1 calls,
                    pd_median = mine, pd_incumbent = theirs,
                    pd_ratio = (if theirs > 0 then Some (round_to 2 (mine / theirs)) else None)\<rparr>)
      | _ \<Rightarrow> None)"

end
