(* ===== verification/MethodsFacts.thy ===== *)
theory MethodsFacts
  imports Methods
begin

text \<open>
  What the method registry promises: a composed spec parses back to its parts, the loop never crosses a method
  with a method, and best-of serves the first of the best samples.
\<close>

section \<open>Spelling\<close>

lemma decimal_no_colon: "CHR '':'' \<notin> set (decimal n)"
  using decimal_chars [of "CHR '':''" n] by (auto simp: is_digit_def less_eq_char_def)

lemma py_int_decimal [simp]: "py_int (decimal n) = Some (int n)"
proof -
  obtain d ds where d: "decimal n = d # ds" "is_digit d" using decimal_digits [of n] by (cases "decimal n") auto
  then have "d \<noteq> CHR ''-''" "d \<noteq> CHR ''+''" by (auto simp: is_digit_def less_eq_char_def)
  then show ?thesis using d decimal_digits [of n] nat_of_digits_decimal [of n] strip_decimal [of n]
    by (simp add: py_int_def isdigit_def)
qed

lemma method_args_join:
  "list_all (\<lambda>n. least \<le> n) ns \<Longrightarrow>
   method_args (length ns) least (join '':'' (map decimal ns @ [base])) = Inr (ns, base)"
proof (induction ns)
  case (Cons n ns)
  then show ?case
    using partition_at_append [OF decimal_no_colon, of n "join '':'' (map decimal ns @ [base])"] by (simp add: join_Cons)
qed simp

text \<open>What a caller may compose: the right number of arguments at or above the minimum, or none when the defaults are right.\<close>

definition args_ok :: "mmethod \<Rightarrow> nat list \<Rightarrow> bool" where
  "args_ok m args \<longleftrightarrow> (let ns = (if args = [] then mt_defaults m else args)
     in length ns = arity m \<and> list_all (\<lambda>n. minimum m \<le> n) ns)"

definition registry_entry_ok :: "mmethod \<Rightarrow> bool" where
  "registry_entry_ok m \<longleftrightarrow> registered (mt_name m) = Some m \<and> CHR '':'' \<notin> set (mt_name m) \<and>
     CHR '','' \<notin> set (mt_name m) \<and> mt_name m \<noteq> [] \<and> strip (mt_name m) = mt_name m \<and> args_ok m [] \<and>
     \<not> is_space (hd (mt_name m))"

lemma registry_ok: "list_all registry_entry_ok REGISTRY"
  by code_simp

lemma registry_names:
  "m \<in> set REGISTRY \<Longrightarrow> registered (mt_name m) = Some m \<and> CHR '':'' \<notin> set (mt_name m) \<and> CHR '','' \<notin> set (mt_name m) \<and>
     mt_name m \<noteq> [] \<and> strip (mt_name m) = mt_name m \<and> args_ok m [] \<and> \<not> is_space (hd (mt_name m))"
  using registry_ok by (simp add: list_all_iff registry_entry_ok_def)

lemma strip_keep:
  assumes "a \<noteq> []" "\<not> is_space (hd a)" "b \<noteq> []" "strip b = b"
  shows "strip (a @ b) = a @ b"
proof -
  have "dropWhile is_space (a @ b) = a @ b" using assms(1,2) by (cases a) auto
  moreover have "\<not> is_space (last b)" using strip_ends(2) [of b] assms(3,4) by simp
  then have "dropWhile is_space (rev (a @ b)) = rev (a @ b)" using assms(3) by (cases b rule: rev_cases) auto
  ultimately show ?thesis by (simp add: strip_def)
qed

lemma composed_parses:
  assumes "m \<in> set REGISTRY" "args_ok m args" "base \<noteq> []" "strip base = base"
  shows "parse_method (compose_method m base args) =
      Inr (Some \<lparr>pm_method = m, pm_args = (if args = [] then mt_defaults m else args), pm_base = base,
                 pm_spec = compose_method m base args\<rparr>)"
proof -
  define ns where "ns = (if args = [] then mt_defaults m else args)"
  define tail where "tail = join '':'' (map decimal ns @ [base])"
  have m: "registered (mt_name m) = Some m" "CHR '':'' \<notin> set (mt_name m)" "CHR '','' \<notin> set (mt_name m)"
    "mt_name m \<noteq> []" "strip (mt_name m) = mt_name m" "\<not> is_space (hd (mt_name m))" using registry_names [OF assms(1)] by auto
  have spec: "compose_method m base args = mt_name m @ '':'' @ tail"
    by (simp add: compose_method_def ns_def tail_def join_Cons)
  have "\<exists>front. tail = front @ base" unfolding tail_def by (induction ns) (auto simp: join_Cons)
  then obtain front where "tail = front @ base" by auto
  then have "strip (mt_name m @ '':'' @ tail) = mt_name m @ '':'' @ tail"
    using strip_keep [of "mt_name m @ '':'' @ front" base] assms(3,4) m by simp
  then show ?thesis
    using method_args_join [of "minimum m" ns base] partition_at_append [OF m(2), of tail] partition_at_absent [OF m(3)]
      assms m unfolding parse_method_def spec by (simp add: args_ok_def ns_def [symmetric] tail_def [symmetric])
qed

text \<open>
  A spec composed from a registered method, its arguments (or its defaults) and a base parses back to exactly
  that method, those arguments and that base, whatever colons the base itself holds; so the base a server routes by
  is the one that was composed.
\<close>

theorem method_roundtrip:
  assumes "m \<in> set REGISTRY" "args_ok m args" "base \<noteq> []" "strip base = base"
  shows "parse_method (compose_method m base args) =
      Inr (Some \<lparr>pm_method = m, pm_args = (if args = [] then mt_defaults m else args), pm_base = base,
                 pm_spec = compose_method m base args\<rparr>) \<and>
    base_of (compose_method m base args) = base \<and> is_method (compose_method m base args)"
  using composed_parses [OF assms] by (simp add: base_of_def is_method_def)

theorem method_roundtrip_witness:
  "parse_method ''best-of:3:llamacpp:qwen'' =
     Inr (Some \<lparr>pm_method = REGISTRY ! 2, pm_args = [3], pm_base = ''llamacpp:qwen'', pm_spec = ''best-of:3:llamacpp:qwen''\<rparr>)"
proof -
  have "compose_method (REGISTRY ! 2) ''llamacpp:qwen'' [] = ''best-of:3:llamacpp:qwen''"
    "mt_defaults (REGISTRY ! 2) = [3]" by code_simp+
  moreover have "REGISTRY ! 2 \<in> set REGISTRY" by (rule nth_mem) (simp add: REGISTRY_def)
  moreover have "args_ok (REGISTRY ! 2) []" "strip ''llamacpp:qwen'' = ''llamacpp:qwen''" by code_simp+
  ultimately show ?thesis using method_roundtrip [of "REGISTRY ! 2" "[]" "''llamacpp:qwen''"] by simp
qed

section \<open>Crossings\<close>

text \<open>
  What the loop crosses with the incumbents is always a method that applies to the lane and crosses without
  anyone typing it, over the incumbent of the lane it takes its base from, and that base is never a method itself:
  methods do not stack.
\<close>

theorem crossings_do_not_stack:
  assumes "c \<in> set (crossings lane incumbent_of)" "\<And>l. strip (incumbent_of l) = incumbent_of l"
  shows "\<exists>m base. m \<in> set REGISTRY \<and> crosses m \<and> lane \<in> set (mt_lanes m) \<and>
    base = incumbent_of (if base_lane m = [] then lane else base_lane m) \<and> c = compose_method m base (mt_defaults m) \<and>
    base_of c = base \<and> \<not> is_method (base_of c)"
proof -
  from assms(1) obtain m where m: "m \<in> set REGISTRY" "crosses m" "lane \<in> set (mt_lanes m)"
    and base: "incumbent_of (if base_lane m = [] then lane else base_lane m) \<noteq> []"
      "\<not> is_method (incumbent_of (if base_lane m = [] then lane else base_lane m))"
      "c = compose_method m (incumbent_of (if base_lane m = [] then lane else base_lane m)) []"
    by (auto simp: crossings_def applicable_def Let_def split: if_splits)
  define b where "b = incumbent_of (if base_lane m = [] then lane else base_lane m)"
  have "strip b = b" unfolding b_def by (rule assms(2))
  then have "parse_method c = Inr (Some \<lparr>pm_method = m, pm_args = mt_defaults m, pm_base = b, pm_spec = c\<rparr>)"
    using composed_parses [OF m(1) _ _ \<open>strip b = b\<close>, of "[]"] registry_names [OF m(1)] base by (simp add: b_def)
  then have "base_of c = b" by (simp add: base_of_def)
  moreover have "c = compose_method m b (mt_defaults m)" using base(3) by (simp add: b_def compose_method_def)
  ultimately show ?thesis using m base(2) b_def by (intro exI [of _ m] exI [of _ b]) auto
qed

theorem crossings_witness:
  "''best-of:3:qwen'' \<in> set (crossings ''code'' (\<lambda>_. ''qwen'')) \<and>
   (\<exists>m. crosses m \<and> ''code'' \<in> set (mt_lanes m) \<and> ''best-of:3:qwen'' = compose_method m ''qwen'' (mt_defaults m))"
proof -
  have "''best-of:3:qwen'' \<in> set (crossings ''code'' (\<lambda>_. ''qwen''))" "strip ''qwen'' = ''qwen''" by code_simp+
  then show ?thesis using crossings_do_not_stack [of "''best-of:3:qwen''" "''code''" "\<lambda>_. ''qwen''"] by auto
qed

section \<open>The best of the samples\<close>

lemma rank_above_iff: "rank_above x y \<longleftrightarrow> y < x"
  by (cases x; cases y) (auto simp: rank_above_def less_prod_def less_eq_prod_def)

definition failures_of :: "('e + string) list \<Rightarrow> 'e list" where
  "failures_of rs = concat (map (\<lambda>r. case r of Inl e \<Rightarrow> [e] | Inr t \<Rightarrow> []) rs)"

lemma failures_snoc [simp]: "failures_of (rs @ [r]) = failures_of rs @ (case r of Inl e \<Rightarrow> [e] | Inr t \<Rightarrow> [])"
  by (simp add: failures_of_def)

text \<open>The state after the replies \<open>rs\<close>: the first of the best replies so far, and the last failure.\<close>

definition best_so_far :: "(string \<Rightarrow> reply_rank) \<Rightarrow> ('e + string) list \<Rightarrow> 'e best_state \<Rightarrow> bool" where
  "best_so_far rank rs st \<longleftrightarrow>
     last_failed st = (if failures_of rs = [] then None else Some (last (failures_of rs))) \<and>
     (case best st of
        None \<Rightarrow> (\<forall>r \<in> set rs. isl r)
      | Some (t, k, i) \<Rightarrow> 0 < i \<and> i \<le> length rs \<and> rs ! (i - 1) = Inr t \<and> k = rank t \<and>
          (\<forall>j < length rs. \<forall>u. rs ! j = Inr u \<longrightarrow> rank u \<le> k \<and> (j < i - 1 \<longrightarrow> rank u < k)))"

lemma best_step_so_far:
  assumes "best_so_far rank rs st"
  shows "best_so_far rank (rs @ [r]) (best_step rank (Suc (length rs)) r st)"
proof (cases r)
  case (Inl e)
  then show ?thesis using assms
    by (auto simp: best_so_far_def best_step_def nth_append less_Suc_eq split: option.splits)
next
  case (Inr t)
  show ?thesis
  proof (cases "best st")
    case None
    then have "\<forall>j < length rs. \<forall>u. rs ! j \<noteq> Inr u" using assms nth_mem by (fastforce simp: best_so_far_def)
    then show ?thesis using assms Inr None
      by (auto simp: best_so_far_def best_step_def nth_append less_Suc_eq Let_def)
  next
    case (Some b)
    obtain t' k i where b: "b = (t', k, i)" by (cases b)
    then show ?thesis using assms Inr Some
      by (auto simp: best_so_far_def best_step_def nth_append less_Suc_eq Let_def rank_above_iff
          dest!: le_less_trans [of _ "rank t'" "rank t"] intro: less_imp_le)
  qed
qed

lemma best_loop_so_far:
  "best_so_far rank rs st \<Longrightarrow> best_so_far rank (rs @ rest) (best_loop rank (Suc (length rs)) rest st)"
proof (induction rest arbitrary: rs st)
  case (Cons r rest)
  then show ?case using best_step_so_far [OF Cons.prems, of r] Cons.IH [of "rs @ [r]"] by simp
qed simp


lemma best_of_replies:
  "best_so_far rank (map (\<lambda>i. ask i prompt lane) [0..<n])
     (best_loop rank 1 (map (\<lambda>i. ask i prompt lane) [0..<n]) \<lparr>best = None, last_failed = None\<rparr>)"
  using best_loop_so_far [of rank "[]" "\<lparr>best = None, last_failed = None\<rparr>" "map (\<lambda>i. ask i prompt lane) [0..<n]"]
  by (simp add: best_so_far_def failures_of_def)

text \<open>
  Best-of asks exactly its number of times and serves the earliest of the replies whose rank no other reply
  exceeds, naming which it was; calls that fail are passed over, and it fails itself exactly when every call failed,
  with the last failure.
\<close>

theorem best_of_serves_first_best:
  assumes "pm_args p = n # ns" "0 < n"
  shows "case serve_best_of no_sample rank ask p lane prompt of
      Inr (txt, cost) \<Rightarrow> \<exists>i < n. ask i prompt lane = Inr txt \<and> mc_chosen cost = Some (Suc i) \<and> mc_calls cost = n \<and>
        (\<forall>j < n. \<forall>u. ask j prompt lane = Inr u \<longrightarrow> rank u \<le> rank txt \<and> (j < i \<longrightarrow> rank u < rank txt))
    | Inl e \<Rightarrow> (\<forall>i < n. isl (ask i prompt lane)) \<and> ask (n - 1) prompt lane = Inl e"
proof -
  define st where "st = best_loop rank 1 (map (\<lambda>i. ask i prompt lane) [0..<n]) \<lparr>best = None, last_failed = None\<rparr>"
  have st: "best_so_far rank (map (\<lambda>i. ask i prompt lane) [0..<n]) st" unfolding st_def by (rule best_of_replies)
  have served: "serve_best_of no_sample rank ask p lane prompt =
      (case best st of None \<Rightarrow> Inl (case last_failed st of None \<Rightarrow> no_sample | Some e \<Rightarrow> e)
       | Some (t, k, i) \<Rightarrow> Inr (t, \<lparr>mc_method = mt_name (pm_method p), mc_base = pm_base p, mc_calls = n,
                                mc_samples = Some n, mc_chosen = Some i\<rparr>))"
    unfolding serve_best_of_def st_def assms(1) Let_def list.sel by (rule refl)
  show ?thesis
  proof (cases "best st")
    case None
    then have all: "\<forall>i < n. isl (ask i prompt lane)" using st by (auto simp: best_so_far_def)
    then obtain e where e: "ask (n - 1) prompt lane = Inl e" using assms(2) by (cases "ask (n - 1) prompt lane") (auto dest!: spec [of _ "n - 1"])
    obtain k where "n = Suc k" using assms(2) by (cases n) auto
    then have "last_failed st = Some e" using st e by (simp add: best_so_far_def)
    then show ?thesis using None all e by (simp add: served)
  next
    case (Some b)
    obtain t k i where b: "b = (t, k, i)" by (cases b)
    then have "0 < i" "i \<le> n" "ask (i - 1) prompt lane = Inr t" "k = rank t"
      "\<forall>j < n. \<forall>u. ask j prompt lane = Inr u \<longrightarrow> rank u \<le> rank t \<and> (j < i - 1 \<longrightarrow> rank u < rank t)"
      using st Some by (auto simp: best_so_far_def)
    then show ?thesis using Some b by (auto simp: served intro!: exI [of _ "i - 1"])
  qed
qed

text \<open>Three samples: the first call fails, the second and third pass, the third with fewer warnings.\<close>

theorem best_of_witness:
  "case serve_best_of ''none'' (\<lambda>t. (True, - int (length t)))
      (\<lambda>i _ _. if i = 0 then Inl ''down'' else Inr (if i = 1 then ''long'' else ''ok''))
      \<lparr>pm_method = REGISTRY ! 2, pm_args = [3], pm_base = ''qwen'', pm_spec = ''best-of:3:qwen''\<rparr> ''code'' ''p'' of
     Inr (txt, cost) \<Rightarrow> txt = ''ok'' \<and> mc_chosen cost = Some 3
   | Inl e \<Rightarrow> False"
proof -
  let ?p = "\<lparr>pm_method = REGISTRY ! 2, pm_args = [3], pm_base = ''qwen'', pm_spec = ''best-of:3:qwen''\<rparr>"
  let ?ask = "\<lambda>i _ _. if i = 0 then Inl ''down'' else Inr (if i = (1::nat) then ''long'' else ''ok'')"
  let ?rank = "\<lambda>t :: string. (True, - int (length t))"
  note * = best_of_serves_first_best [where p = ?p and n = 3 and ns = "[]" and no_sample = "''none''" and rank = ?rank
      and ask = ?ask and lane = "''code''" and prompt = "''p''"]
  show ?thesis
  proof (cases "serve_best_of ''none'' ?rank ?ask ?p ''code'' ''p''")
    case (Inl e)
    then show ?thesis using * by auto
  next
    case (Inr r)
    obtain u cost where r: "r = (u, cost)" by (cases r)
    then obtain i where i: "i < 3" "?ask i [] [] = Inr u" "mc_chosen cost = Some (Suc i)" "?rank ''ok'' \<le> ?rank u"
      using * Inr by (auto split: if_splits dest: spec [of _ 2])
    then have "i = 1 \<or> i = 2" by (cases "i = 0") auto
    then show ?thesis using i Inr r by (auto simp: less_eq_prod_def)
  qed
qed

end
