(* ===== verification/Serving.thy ===== *)
theory Serving
  imports Methods Lanes
begin

text \<open>
  Where a text spec is answered: \<open>harness/serving.py\<close>, the spec of a ds4 file (\<open>harness/ds4.py\<close>), the aliases of the
  gateway's configuration as \<open>harness/screen.py\<close> and \<open>harness/gateway.py\<close> read them, and the choice of a file for the
  llama router (\<open>harness/gguf.py\<close>). What the environment, the files on this machine and \<open>float()\<close> say is the record
  \<open>serving_env\<close>; a parsed configuration is its list of entries.
\<close>

section \<open>The configuration\<close>

text \<open>\<open>litellm_params\<close>: the keys the code reads, absent ones \<^term>\<open>None\<close>, and every other key as it stands.\<close>

record lparams =
  lp_model :: "string option"
  lp_api_base :: "string option"
  lp_api_key :: "string option"
  lp_parallel :: "nat option"
  lp_rest :: "(string \<times> string) list"

record gw_entry =
  ge_name :: "string option"
  ge_params :: lparams

definition no_params :: lparams where
  "no_params = \<lparr>lp_model = None, lp_api_base = None, lp_api_key = None, lp_parallel = None, lp_rest = []\<rparr>"

record serving_env =
  e_vllm_port :: string
  e_vllm_engine :: string
  e_text_engine :: string
  e_ds4_port :: string
  e_llamacpp_port :: string
  e_float :: "string \<Rightarrow> rat option"
  e_fetched :: "string \<Rightarrow> string option"
  e_hub_stem :: "string \<Rightarrow> string option"
  e_refusal :: "string \<Rightarrow> string"

definition str_or :: "string option \<Rightarrow> string" where
  "str_or x = (case x of None \<Rightarrow> [] | Some s \<Rightarrow> s)"

definition rstrip_slash :: "string \<Rightarrow> string" where
  "rstrip_slash s = rev (dropWhile ((=) CHR ''/'') (rev s))"

definition removesuffix :: "string \<Rightarrow> string \<Rightarrow> string" where
  "removesuffix suf s = (if suf \<noteq> [] \<and> suffix suf s then take (length s - length suf) s else s)"

text \<open>\<open>base.rstrip("/").removesuffix("/v1")\<close>.\<close>

definition server_base :: "string \<Rightarrow> string" where
  "server_base s = removesuffix ''/v1'' (rstrip_slash s)"

text \<open>\<open>s.rsplit(sep, 1)[0]\<close>: before the last occurrence.\<close>

fun before_last_opt :: "string \<Rightarrow> string \<Rightarrow> string option" where
  "before_last_opt sep [] = None"
| "before_last_opt sep (x # xs) =
     (case before_last_opt sep xs of Some a \<Rightarrow> Some (x # a)
      | None \<Rightarrow> if prefix sep (x # xs) then Some [] else None)"

definition before_last :: "string \<Rightarrow> string \<Rightarrow> string" where
  "before_last sep s = (case before_last_opt sep s of None \<Rightarrow> s | Some a \<Rightarrow> a)"

section \<open>The servers\<close>

definition DEFAULT_GATEWAY :: string where "DEFAULT_GATEWAY = ''http://127.0.0.1:4000''"
definition MLX_URL :: string where "MLX_URL = ''http://127.0.0.1:8081''"
definition MLX_MAX_PARALLEL :: nat where "MLX_MAX_PARALLEL = 16"
definition MLX_SERVER :: string where "MLX_SERVER = ''mlx_lm.server''"
definition LLAMACPP_URL :: string where "LLAMACPP_URL = ''http://127.0.0.1:8082''"
definition LLAMACPP :: string where "LLAMACPP = ''llama-server''"
definition LLAMA_PREFIX :: string where "LLAMA_PREFIX = ''llamacpp:''"
definition VLLM_PREFIX :: string where "VLLM_PREFIX = ''vllm:''"
definition VLLM_URL :: string where "VLLM_URL = ''http://127.0.0.1:8086''"
definition VLLM_ENGINES :: "string list" where "VLLM_ENGINES = [''vllm-mlx'', ''vllm-metal'']"
definition DS4_PREFIX :: string where "DS4_PREFIX = ''ds4:''"
definition DS4 :: string where "DS4 = ''ds4-server''"
definition DS4_URL :: string where "DS4_URL = ''http://127.0.0.1:8087''"

definition on_port :: "string \<Rightarrow> string \<Rightarrow> string" where
  "on_port url port0 = (let port = strip port0 in if isdigit port then before_last '':'' url @ '':'' @ port else url)"

definition vllm_url :: "serving_env \<Rightarrow> string" where
  "vllm_url e = on_port VLLM_URL (e_vllm_port e)"

definition ds4_url :: "serving_env \<Rightarrow> string" where
  "ds4_url e = on_port DS4_URL (e_ds4_port e)"

definition router_url :: "serving_env \<Rightarrow> string" where
  "router_url e = on_port LLAMACPP_URL (e_llamacpp_port e)"

text \<open>Why a spec has no route: the \<open>ValueError\<close>s of \<open>route\<close> and of the parsers it calls.\<close>

datatype route_error =
    UnknownOption string
  | NotANumber string
  | NotServedByText
  | NotServed string string
  | NamesNoModel
  | NoDs4Spec
  | BadStreaming
  | BadCache
  | CacheNeedsStreaming
  | BadContext
  | NoStreamingFor string
  | UnknownEngine string

definition vllm_engine :: "serving_env \<Rightarrow> route_error + string" where
  "vllm_engine e =
     (let got = (if strip (e_vllm_engine e) = [] then VLLM_ENGINES ! 0 else strip (e_vllm_engine e))
      in if got \<in> set VLLM_ENGINES then Inr got else Inl (UnknownEngine got))"

definition text_engine :: "serving_env \<Rightarrow> string" where
  "text_engine e = (if strip (e_text_engine e) = [] then MLX_SERVER else strip (e_text_engine e))"

definition spec_name :: "string \<Rightarrow> string" where
  "spec_name spec = strip (fst (partition_at CHR '','' spec))"

definition PROVIDER_PREFIXES :: "string list" where
  "PROVIDER_PREFIXES = [''openai/'', ''hosted_vllm/'', ''ollama/'', ''anthropic/'']"

definition strip_provider :: "string \<Rightarrow> string" where
  "strip_provider model =
     (let got = strip model
      in case find (\<lambda>p. prefix p got) PROVIDER_PREFIXES of None \<Rightarrow> got | Some p \<Rightarrow> drop (length p) got)"

fun engine_of_entries :: "serving_env \<Rightarrow> string \<Rightarrow> gw_entry list \<Rightarrow> (route_error + string) option" where
  "engine_of_entries e name [] = None"
| "engine_of_entries e name (g # gs) =
     (if lower (str_or (ge_name g)) = lower name
      then (let base = server_base (str_or (lp_api_base (ge_params g)))
            in if base = LLAMACPP_URL then Some (Inr LLAMACPP)
               else if base = vllm_url e then Some (vllm_engine e)
               else if base = ds4_url e then Some (Inr DS4)
               else engine_of_entries e name gs)
      else engine_of_entries e name gs)"

definition engine_for :: "serving_env \<Rightarrow> gw_entry list \<Rightarrow> string \<Rightarrow> route_error + string" where
  "engine_for e config candidate =
     (let name = spec_name candidate
      in if prefix LLAMA_PREFIX name then Inr LLAMACPP
         else if prefix VLLM_PREFIX name then vllm_engine e
         else if prefix DS4_PREFIX name then Inr DS4
         else (case engine_of_entries e name config of Some got \<Rightarrow> got | None \<Rightarrow> Inr (text_engine e)))"

section \<open>Options of a spec\<close>

definition SAMPLING_KEYS :: "string list" where
  "SAMPLING_KEYS = [''temperature'', ''top_p'', ''repetition_penalty'']"

definition option_parts :: "string \<Rightarrow> string list" where
  "option_parts s = filter (\<lambda>p. p \<noteq> []) (map strip (split_at CHR '','' s))"

fun sampling_of :: "serving_env \<Rightarrow> string list \<Rightarrow> (string \<times> rat) list \<Rightarrow> route_error + (string \<times> rat) list" where
  "sampling_of e [] out = Inr out"
| "sampling_of e (p # ps) out =
     (case partition_at CHR ''='' p of (key0, value) \<Rightarrow>
        (let key = strip key0
         in if CHR ''='' \<notin> set p \<or> key \<notin> set SAMPLING_KEYS then Inl (UnknownOption key)
            else (case e_float e value of None \<Rightarrow> Inl (NotANumber key)
                  | Some x \<Rightarrow> sampling_of e ps (dict_put key x out))))"

definition text_spec :: "string \<Rightarrow> bool" where
  "text_spec spec =
     (let name = spec_name spec
      in name \<noteq> [] \<and> (CHR '':'' \<notin> set name \<or> (\<exists>p \<in> set [LLAMA_PREFIX, VLLM_PREFIX, DS4_PREFIX]. prefix p name)))"


section \<open>A ds4 file\<close>

record ds4_model =
  dm_repo :: string
  dm_file :: string
  dm_target :: string
  dm_gib :: rat
  dm_on_disk :: rat
  dm_streams :: bool

definition DS4_MODELS :: "ds4_model list" where
  "DS4_MODELS =
     (let qwen = ''antirez/qwen3.8-flash-next-gguf''; ds4f = ''antirez/deepseek-v4-gguf''; ds41 = ''antirez/deepseek-v4.1-flash-gguf'' in
      [\<lparr>dm_repo = qwen, dm_file = ''Qwen3.8-Flash-Next-Q2.gguf'', dm_target = ''qwen38-q2'',
        dm_gib = 13710 / 100, dm_on_disk = 9537 / 100, dm_streams = False\<rparr>,
       \<lparr>dm_repo = qwen, dm_file = ''Qwen3.8-Flash-Next-Q4.gguf'', dm_target = ''qwen38-q4k'',
        dm_gib = 16511 / 100, dm_on_disk = 9537 / 100, dm_streams = False\<rparr>,
       \<lparr>dm_repo = ds4f, dm_file = ''DeepSeek-V4-Flash-IQ2XXS-w2Q2K-AProjQ8-SExpQ8-OutQ8-chat-v2-imatrix-0731.gguf'',
        dm_target = ''ds4f-q2'', dm_gib = 8076 / 100, dm_on_disk = 0, dm_streams = True\<rparr>,
       \<lparr>dm_repo = ds4f, dm_file = ''DeepSeek-V4-Flash-Layers37-42Q4KExperts-OtherExpertLayersIQ2XXSGateUp-'' @
          ''Q2KDown-AProjQ8-SExpQ8-OutQ8-chat-v2-imatrix-fixed-0731.gguf'',
        dm_target = ''ds4f-q2-q4'', dm_gib = 9089 / 100, dm_on_disk = 0, dm_streams = True\<rparr>,
       \<lparr>dm_repo = ds4f, dm_file = ''DeepSeek-V4-Flash-Q4KExperts-F16HC-F16Compressor-F16Indexer-Q8Attn-Q8Shared-'' @
          ''Q8Out-chat-v2-imatrix-0731.gguf'',
        dm_target = ''ds4f-q4'', dm_gib = 15333 / 100, dm_on_disk = 0, dm_streams = True\<rparr>,
       \<lparr>dm_repo = ds4f, dm_file = ''DeepSeek-V4-Flash-MXFP4Experts-F16HC-F16Compressor-F16Indexer-Q8Attn-'' @
          ''Q8Shared-Q8Out-chat-v2-mxfp4-0731.gguf'',
        dm_target = ''ds4f-mxfp4'', dm_gib = 14526 / 100, dm_on_disk = 0, dm_streams = True\<rparr>,
       \<lparr>dm_repo = ds41, dm_file = ''DeepSeek-V4.1-Flash-Q2.gguf'', dm_target = ''ds41f-q2'',
        dm_gib = 341, dm_on_disk = 189, dm_streams = True\<rparr>,
       \<lparr>dm_repo = ds41, dm_file = ''DeepSeek-V4.1-Flash-Q4.gguf'', dm_target = ''ds41f-q4'',
        dm_gib = 483, dm_on_disk = 189, dm_streams = True\<rparr>])"

definition dm_stem :: "ds4_model \<Rightarrow> string" where
  "dm_stem m = take (length (dm_file m) - length ''.gguf'') (dm_file m)"

definition ds4_model_of :: "string \<Rightarrow> ds4_model option" where
  "ds4_model_of stem = find (\<lambda>m. dm_stem m = stem) DS4_MODELS"

definition ARCH_TAGS :: "string list" where
  "ARCH_TAGS = [''qwen4exp'']"

definition ds4_recognised :: "string \<Rightarrow> string list \<Rightarrow> bool" where
  "ds4_recognised repo tags \<longleftrightarrow>
     lower (strip repo) \<in> set (map (\<lambda>m. lower (dm_repo m)) DS4_MODELS) \<or>
     (\<exists>t \<in> set ARCH_TAGS. t \<in> set (map (\<lambda>x. lower (strip x)) tags))"

record ds4_spec =
  ds_stem :: string
  ds_streaming :: bool
  ds_cache :: string
  ds_ctx :: int
  ds_sampling :: "(string \<times> rat) list"

definition DEFAULT_CTX :: int where
  "DEFAULT_CTX = 32768"

definition DS4_OPTIONS :: "string list" where
  "DS4_OPTIONS = [''ssd_streaming'', ''expert_cache'', ''ctx'']"

text \<open>\<open>_CACHE\<close>: \<open>auto\<close>, a slot count, or a size such as \<open>32GB\<close> or \<open>1.5GB\<close>.\<close>

definition cache_ok :: "string \<Rightarrow> bool" where
  "cache_ok v \<longleftrightarrow> v = ''auto'' \<or> isdigit v \<or>
     (suffix ''GB'' v \<and> (case partition_at CHR ''.'' (removesuffix ''GB'' v) of
        (a, b) \<Rightarrow> isdigit a \<and> (CHR ''.'' \<notin> set v \<or> isdigit b)))"

fun ds4_options :: "serving_env \<Rightarrow> string list \<Rightarrow> (string \<times> string) list \<Rightarrow> (string \<times> rat) list
    \<Rightarrow> route_error + (string \<times> string) list \<times> (string \<times> rat) list" where
  "ds4_options e [] opts samp = Inr (opts, samp)"
| "ds4_options e (p # ps) opts samp =
     (case partition_at CHR ''='' p of (key0, value0) \<Rightarrow>
        (let key = strip key0; value = strip value0
         in if CHR ''='' \<notin> set p \<or> key \<notin> set (DS4_OPTIONS @ SAMPLING_KEYS) then Inl (UnknownOption key)
            else if key \<in> set SAMPLING_KEYS
              then (case e_float e value of None \<Rightarrow> Inl (NotANumber key)
                    | Some x \<Rightarrow> ds4_options e ps opts (dict_put key x samp))
            else ds4_options e ps (dict_put key value opts) samp))"

definition parse_ds4 :: "serving_env \<Rightarrow> string \<Rightarrow> route_error + ds4_spec" where
  "parse_ds4 e spec =
     (let (head0, optstr) = partition_at CHR '','' spec; head = strip head0
      in if \<not> prefix DS4_PREFIX head then Inl NoDs4Spec
         else (let stem = strip (drop (length DS4_PREFIX) head)
         in if stem = [] then Inl NamesNoModel
         else (case ds4_options e (option_parts optstr) [] [] of
             Inl err \<Rightarrow> Inl err
           | Inr (opts, samp) \<Rightarrow>
               (let streaming = lower (get_or ''off'' opts ''ssd_streaming''); cache = get_or ''auto'' opts ''expert_cache'';
                    ctx = (case map_of opts ''ctx'' of None \<Rightarrow> DEFAULT_CTX
                           | Some v \<Rightarrow> (case py_int v of None \<Rightarrow> 0 | Some n \<Rightarrow> n))
                in if streaming \<noteq> ''on'' \<and> streaming \<noteq> ''off'' then Inl BadStreaming
                   else if \<not> cache_ok cache then Inl BadCache
                   else if cache \<noteq> ''auto'' \<and> streaming \<noteq> ''on'' then Inl CacheNeedsStreaming
                   else if ctx \<le> 0 then Inl BadContext
                   else (case ds4_model_of stem of
                       Some m \<Rightarrow> if streaming = ''on'' \<and> \<not> dm_streams m then Inl (NoStreamingFor (dm_target m))
                                 else Inr \<lparr>ds_stem = stem, ds_streaming = (streaming = ''on''), ds_cache = cache, ds_ctx = ctx, ds_sampling = samp\<rparr>
                     | None \<Rightarrow> Inr \<lparr>ds_stem = stem, ds_streaming = (streaming = ''on''), ds_cache = cache, ds_ctx = ctx, ds_sampling = samp\<rparr>)))))"

section \<open>The route\<close>

record text_route =
  r_base :: string
  r_model :: string
  r_sampling :: "(string \<times> rat) list"

definition servable :: "serving_env \<Rightarrow> string \<Rightarrow> route_error + string" where
  "servable e stem = (if e_refusal e stem = [] then Inr stem else Inl (NotServed stem (e_refusal e stem)))"

definition gguf_stem :: "serving_env \<Rightarrow> string \<Rightarrow> string option" where
  "gguf_stem e repo = (if str_or (e_fetched e repo) \<noteq> [] then e_fetched e repo else e_hub_stem e repo)"

text \<open>\<open>gateway_routes\<close> and \<open>upstream_of\<close> of \<open>harness/screen.py\<close>.\<close>

definition gateway_names :: "gw_entry list \<Rightarrow> string list" where
  "gateway_names config = map (\<lambda>g. lower (strip (str_or (ge_name g)))) (filter (\<lambda>g. str_or (ge_name g) \<noteq> []) config)"

definition gateway_base :: "gw_entry list \<Rightarrow> string" where
  "gateway_base config =
     (case find (\<lambda>b. b \<noteq> []) (map (\<lambda>g. str_or (lp_api_base (ge_params g))) config) of None \<Rightarrow> [] | Some b \<Rightarrow> b)"

definition entry_named :: "gw_entry list \<Rightarrow> string \<Rightarrow> gw_entry option" where
  "entry_named config want = find (\<lambda>g. lower (strip (str_or (ge_name g))) = want) config"

definition upstream_of :: "gw_entry list \<Rightarrow> string \<Rightarrow> string" where
  "upstream_of config alias =
     (let want = lower (strip alias)
      in if want = [] then []
         else (case entry_named config want of None \<Rightarrow> []
               | Some g \<Rightarrow> strip_provider (str_or (lp_model (ge_params g)))))"

definition routed_gateway :: "serving_env \<Rightarrow> gw_entry list \<Rightarrow> string \<Rightarrow> string" where
  "routed_gateway e config model0 =
     (let model = (if base_of model0 = [] then model0 else base_of model0)
      in if lower (strip model) \<in> set (gateway_names config) then []
         else if str_or (e_fetched e model) \<noteq> [] \<or> str_or (e_hub_stem e model) \<noteq> [] then []
         else if CHR ''/'' \<notin> set model then []
         else before_last ''/v1'' (gateway_base config))"

text \<open>The route of a name that is neither a llamacpp, a vllm nor a ds4 spec.\<close>

definition route_plain :: "serving_env \<Rightarrow> gw_entry list \<Rightarrow> string \<Rightarrow> string \<Rightarrow> (string \<times> rat) list \<Rightarrow> route_error + text_route" where
  "route_plain e config gateway name samp =
     (let alias = (CHR ''/'' \<notin> set name \<or> lower name \<in> set (gateway_names config));
          own = (if \<not> alias \<and> ds4_recognised name []
                 then (case e_fetched e name of None \<Rightarrow> None | Some s \<Rightarrow> if s \<noteq> [] \<and> ds4_model_of s \<noteq> None then Some s else None)
                 else None);
          stem = (if alias then [] else str_or (gguf_stem e name))
      in case own of
           Some s \<Rightarrow> Inr \<lparr>r_base = ds4_url e, r_model = s, r_sampling = samp\<rparr>
         | None \<Rightarrow>
             if stem \<noteq> [] then (case servable e stem of Inl err \<Rightarrow> Inl err
                               | Inr s \<Rightarrow> Inr \<lparr>r_base = router_url e, r_model = s, r_sampling = samp\<rparr>)
             else if gateway \<noteq> [] then Inr \<lparr>r_base = rstrip_slash gateway, r_model = name, r_sampling = samp\<rparr>
             else if alias then Inr \<lparr>r_base = DEFAULT_GATEWAY, r_model = name, r_sampling = samp\<rparr>
             else (let g = routed_gateway e config name
                   in Inr \<lparr>r_base = (if g = [] then DEFAULT_GATEWAY else g), r_model = name, r_sampling = samp\<rparr>))"

definition route :: "serving_env \<Rightarrow> gw_entry list \<Rightarrow> string \<Rightarrow> string \<Rightarrow> route_error + text_route" where
  "route e config spec gateway =
     (let (name0, optstr) = partition_at CHR '','' spec; name = strip name0
      in if prefix DS4_PREFIX name
         then (case parse_ds4 e spec of Inl err \<Rightarrow> Inl err
               | Inr got \<Rightarrow> Inr \<lparr>r_base = ds4_url e, r_model = ds_stem got, r_sampling = ds_sampling got\<rparr>)
         else (case sampling_of e (option_parts optstr) [] of
             Inl err \<Rightarrow> Inl err
           | Inr samp \<Rightarrow>
               if \<not> text_spec name then Inl NotServedByText
               else if prefix LLAMA_PREFIX name
                 then (case servable e (strip (drop (length LLAMA_PREFIX) name)) of Inl err \<Rightarrow> Inl err
                       | Inr s \<Rightarrow> Inr \<lparr>r_base = router_url e, r_model = s, r_sampling = samp\<rparr>)
               else if prefix VLLM_PREFIX name
                 then (let model = strip (drop (length VLLM_PREFIX) name)
                       in if model = [] then Inl NamesNoModel
                          else Inr \<lparr>r_base = vllm_url e, r_model = model, r_sampling = samp\<rparr>)
               else route_plain e config gateway name samp))"

definition enforces_schema :: "serving_env \<Rightarrow> gw_entry list \<Rightarrow> string \<Rightarrow> route_error + bool" where
  "enforces_schema e config spec =
     (case engine_for e config spec of
        Inl err \<Rightarrow> Inl err
      | Inr eng \<Rightarrow>
          if eng = LLAMACPP then Inr True
          else (case route e config spec [] of
              Inl err \<Rightarrow> Inr False
            | Inr w \<Rightarrow> Inr (server_base (r_base w) \<in> {LLAMACPP_URL, router_url e})))"

definition drops_schema :: "serving_env \<Rightarrow> string \<Rightarrow> bool" where
  "drops_schema e base \<longleftrightarrow> server_base base = MLX_URL \<and> text_engine e = MLX_SERVER"

end
