(* ===== verification/Gateway.thy ===== *)
theory Gateway
  imports Serving
begin

text \<open>
  The generated configuration of the gateway (\<open>harness/gateway.py\<close>): the base entries, an entry for an adopted model
  the base does not list, and an alias \<open>sohot-<lane>\<close> per text lane. And the restart that takes it live
  (\<open>harness/gateway_switch.py\<close>): waiting for quiet, restarting, asking what is served, the rows of the table
  \<open>gateway_switches\<close>, retries, and the restore of the old configuration. What the gateway answers, the clock and
  the restarted service are arguments; a configuration written and read back is taken to be itself.
\<close>

section \<open>The generated configuration\<close>

definition GW_TEXT_LANES :: "string list" where
  "GW_TEXT_LANES = [''code'', ''web'', ''svg'', ''extract'', ''decide'', ''agent'', ''claims'']"

definition lane_alias :: "string \<Rightarrow> string" where
  "lane_alias lane = ''sohot-'' @ lane"

definition entry_of :: "string \<Rightarrow> lparams \<Rightarrow> gw_entry" where
  "entry_of name ps = \<lparr>ge_name = Some name, ge_params = ps\<rparr>"

definition capped :: "gw_entry \<Rightarrow> gw_entry" where
  "capped g =
     (if server_base (str_or (lp_api_base (ge_params g))) \<noteq> MLX_URL \<or> lp_parallel (ge_params g) \<noteq> None then g
      else g\<lparr>ge_params := (ge_params g)\<lparr>lp_parallel := Some MLX_MAX_PARALLEL\<rparr>\<rparr>)"

text \<open>\<open>by_name\<close>: the last entry of each lowered name.\<close>

definition by_name :: "gw_entry list \<Rightarrow> (string \<times> gw_entry) list" where
  "by_name config = foldl (\<lambda>d g. dict_put (lower (strip (str_or (ge_name g)))) g d) [] config"

definition direct_params :: "text_route \<Rightarrow> lparams" where
  "direct_params w = no_params\<lparr>lp_model := Some (''openai/'' @ r_model w), lp_api_base := Some (r_base w @ ''/v1''),
     lp_api_key := Some ''not-needed''\<rparr>"

text \<open>One lane's turn of the loop of \<open>served\<close>, on the known names and the entries added so far.\<close>

definition served_lane :: "serving_env \<Rightarrow> gw_entry list \<Rightarrow> (string \<times> string) list \<Rightarrow> string
    \<Rightarrow> (string \<times> gw_entry) list \<times> gw_entry list \<Rightarrow> (string \<times> gw_entry) list \<times> gw_entry list" where
  "served_lane e config defaults lane st =
     (let spec = get_or [] defaults lane
      in case route e config (if base_of spec = [] then spec else base_of spec) [] of
           Inl err \<Rightarrow> st
         | Inr w \<Rightarrow>
             (let name = lower (r_model w); listed = map_of (fst st) name
              in if r_base w = DEFAULT_GATEWAY
                 then (case listed of None \<Rightarrow> st
                       | Some g \<Rightarrow> (fst st, snd st @ [entry_of (lane_alias lane) (ge_params g)]))
                 else (let params = direct_params w; own = entry_of (r_model w) params
                       in case listed of
                            None \<Rightarrow> (dict_put name own (fst st), snd st @ [own, entry_of (lane_alias lane) params])
                          | Some g \<Rightarrow> (fst st, snd st @ [entry_of (lane_alias lane) params]))))"

definition added_entries :: "serving_env \<Rightarrow> gw_entry list \<Rightarrow> (string \<times> string) list \<Rightarrow> gw_entry list" where
  "added_entries e config defaults =
     snd (foldl (\<lambda>st lane. served_lane e config defaults lane st) (by_name config, []) GW_TEXT_LANES)"

definition served_config :: "serving_env \<Rightarrow> gw_entry list \<Rightarrow> (string \<times> string) list \<Rightarrow> gw_entry list" where
  "served_config e config defaults = map capped (config @ added_entries e config defaults)"

text \<open>\<open>_aliases\<close>: the parameters each lane's alias names, the last entry of a name counting.\<close>

definition lane_of_alias :: "string \<Rightarrow> string option" where
  "lane_of_alias name = find (\<lambda>lane. lane_alias lane = name) GW_TEXT_LANES"

definition aliases :: "gw_entry list \<Rightarrow> (string \<times> lparams) list" where
  "aliases config =
     foldl (\<lambda>d g. case ge_name g of None \<Rightarrow> d
              | Some name \<Rightarrow> (case lane_of_alias name of None \<Rightarrow> d | Some lane \<Rightarrow> dict_put lane (ge_params g) d)) [] config"

text \<open>Two dictionaries compare by what they hold.\<close>

definition same_dict :: "('k \<times> 'v) list \<Rightarrow> ('k \<times> 'v) list \<Rightarrow> bool" where
  "same_dict d d' \<longleftrightarrow> (\<forall>k \<in> set (map fst d @ map fst d'). map_of d k = map_of d' k)"

section \<open>Waiting for quiet\<close>

text \<open>What \<open>/health/backlog\<close> answered; the count includes the probe itself.\<close>

datatype backlog = ConnectFailed | HttpFailed | Backlog nat "int option"

definition in_flight :: "backlog \<Rightarrow> int option" where
  "in_flight answer = (case answer of
       ConnectFailed \<Rightarrow> Some 0
     | HttpFailed \<Rightarrow> None
     | Backlog status told \<Rightarrow> if status \<noteq> 200 then None
         else (case told of None \<Rightarrow> None | Some n \<Rightarrow> Some (max (n - 1) 0)))"

datatype how = Idle | Forced

text \<open>
  The loop of \<open>wait_then_restart\<close> over its probes, each the time and the requests in flight; \<^term>\<open>None\<close> when it still
  waits after the last. The restart follows the last probe read.
\<close>

fun wait_loop :: "rat \<Rightarrow> rat \<Rightarrow> rat \<Rightarrow> rat option \<Rightarrow> (rat \<times> int option) list \<Rightarrow> (how \<times> int option) option" where
  "wait_loop idle_s max_s started quiet [] = None"
| "wait_loop idle_s max_s started quiet ((now, busy) # probes) =
     (let quiet' = (if busy = Some 0 then Some (case quiet of None \<Rightarrow> now | Some q \<Rightarrow> q) else None)
      in if (case quiet' of None \<Rightarrow> False | Some q \<Rightarrow> now - q \<ge> idle_s) then Some (Idle, busy)
         else if now - started \<ge> max_s then Some (Forced, busy)
         else wait_loop idle_s max_s started quiet' probes)"

section \<open>What is served\<close>

datatype info = NoAnswer string | InfoStatus nat | NotJson | Served "(string \<times> string option) list"

text \<open>Why the switch did not take; \<^term>\<open>Serves []\<close>, nothing wrong, is the empty string.\<close>

datatype switch_why =
    NoInfo string
  | InfoHttp nat
  | InfoNotJson
  | Serves "(string \<times> string option \<times> string option) list"
  | RestartFailed "string option"

definition sorted_items :: "(string \<times> 'v) list \<Rightarrow> (string \<times> 'v) list" where
  "sorted_items d = sort_key fst d"

definition not_serving :: "info \<Rightarrow> (string \<times> string option) list \<Rightarrow> switch_why" where
  "not_serving answer want = (case answer of
       NoAnswer what \<Rightarrow> NoInfo what
     | InfoStatus n \<Rightarrow> InfoHttp n
     | NotJson \<Rightarrow> InfoNotJson
     | Served got \<Rightarrow>
         Serves (concat (map (\<lambda>(alias, model). let s = get_or None got alias in if s \<noteq> model then [(alias, s, model)] else [])
           (sorted_items want))))"

text \<open>\<open>_await_serving\<close> over its probes: what was answered and the clock after; the loop ends at the deadline.\<close>

definition SERVE_WAIT_S :: rat where "SERVE_WAIT_S = 120"

fun await_serving :: "rat \<Rightarrow> (string \<times> string option) list \<Rightarrow> (info \<times> rat) list \<Rightarrow> switch_why option" where
  "await_serving deadline want [] = None"
| "await_serving deadline want ((answer, now) # probes) =
     (let why = not_serving answer want
      in if why = Serves [] \<or> now \<ge> deadline then Some why else await_serving deadline want probes)"

section \<open>The table of switches\<close>

record switch_row =
  sw_id :: nat
  sw_lane :: string
  sw_old :: string
  sw_new :: string
  sw_how :: how
  sw_requested :: rat
  sw_at :: rat
  sw_in_flight :: "int option"
  sw_ok :: bool
  sw_reason :: switch_why

definition switches :: "switch_row list \<Rightarrow> switch_row list" where
  "switches t = filter sw_ok t"

definition switch_failures :: "switch_row list \<Rightarrow> switch_row list" where
  "switch_failures t = filter (\<lambda>r. \<not> sw_ok r) t"

record open_failure =
  of_attempts :: nat
  of_new :: string
  of_reason :: switch_why
  of_at :: rat

definition fail_again :: "switch_row \<Rightarrow> (string \<times> open_failure) list \<Rightarrow> (string \<times> open_failure) list" where
  "fail_again r out =
     dict_put (sw_lane r)
       \<lparr>of_attempts = Suc (case map_of out (sw_lane r) of None \<Rightarrow> 0 | Some f \<Rightarrow> of_attempts f), of_new = sw_new r,
        of_reason = sw_reason r, of_at = sw_at r\<rparr> out"

fun unresolved_from :: "switch_row list \<Rightarrow> (string \<times> open_failure) list \<Rightarrow> (string \<times> open_failure) list" where
  "unresolved_from [] out = out"
| "unresolved_from (r # rs) out =
     unresolved_from rs (if sw_ok r then filter (\<lambda>x. fst x \<noteq> sw_lane r) out else fail_again r out)"

definition unresolved :: "switch_row list \<Rightarrow> (string \<times> open_failure) list" where
  "unresolved t = unresolved_from t []"

definition old_spec :: "switch_row list \<Rightarrow> string \<Rightarrow> string \<Rightarrow> string" where
  "old_spec t lane model =
     (case find (\<lambda>r. sw_lane r = lane \<and> sw_ok r) (rev t) of None \<Rightarrow> model | Some r \<Rightarrow> sw_new r)"

text \<open>The lanes that moved: the spec each was given and the model its alias now names.\<close>

type_synonym moved = "(string \<times> (string \<times> string option)) list"

definition moved_lanes :: "(string \<times> string) list \<Rightarrow> (string \<times> lparams) list \<Rightarrow> (string \<times> lparams) list \<Rightarrow> moved" where
  "moved_lanes defaults old new =
     map (\<lambda>(lane, ps). (lane, (get_or [] defaults lane, lp_model ps))) (filter (\<lambda>(lane, ps). map_of old lane \<noteq> Some ps) new)"

definition switch_row_of :: "switch_row list \<Rightarrow> (string \<times> lparams) list \<Rightarrow> how \<times> int option \<Rightarrow> rat \<Rightarrow> rat \<Rightarrow> switch_why
    \<Rightarrow> string \<Rightarrow> string \<Rightarrow> switch_row" where
  "switch_row_of t old got requested now why lane spec =
     \<lparr>sw_id = next_id sw_id t, sw_lane = lane,
      sw_old = old_spec t lane (case map_of old lane of None \<Rightarrow> [] | Some ps \<Rightarrow> str_or (lp_model ps)),
      sw_new = spec, sw_how = fst got, sw_requested = requested, sw_at = now, sw_in_flight = snd got,
      sw_ok = (why = Serves []), sw_reason = why\<rparr>"

fun record_switch :: "(string \<times> lparams) list \<Rightarrow> how \<times> int option \<Rightarrow> rat \<Rightarrow> rat \<Rightarrow> switch_why \<Rightarrow> moved
    \<Rightarrow> switch_row list \<Rightarrow> switch_row list" where
  "record_switch old got requested now why [] t = t"
| "record_switch old got requested now why ((lane, (spec, model)) # ms) t =
     record_switch old got requested now why ms (t @ [switch_row_of t old got requested now why lane spec])"


section \<open>The switch\<close>

datatype restart = RestartOk | RestartNo | RestartRaised string

text \<open>What the world does during one attempt: the adopted defaults when it regenerates, the probes while it waits
  and after the restart, and the clocks.\<close>

record switch_attempt =
  a_start :: rat
  a_probes :: "(rat \<times> int option) list"
  a_defaults :: "(string \<times> string) list"
  a_restart :: restart
  a_switched_at :: rat
  a_info_start :: rat
  a_info :: "(info \<times> rat) list"
  a_failed_at :: rat

record switch_state =
  ss_file :: "gw_entry list option"
  ss_table :: "switch_row list"
  ss_slept :: "rat list"
  ss_restarts :: nat

definition RETRIES :: nat where "RETRIES = 3"
definition BACKOFF_S :: rat where "BACKOFF_S = 30"
definition IDLE_S :: rat where "IDLE_S = 60"
definition MAX_WAIT_S :: rat where "MAX_WAIT_S = 1200"

definition wanted_models :: "moved \<Rightarrow> (string \<times> string option) list" where
  "wanted_models ms = map (\<lambda>m. (lane_alias (fst m), snd (snd m))) ms"

definition restart_why :: "moved \<Rightarrow> switch_attempt \<Rightarrow> switch_why option" where
  "restart_why ms a = (case a_restart a of
       RestartOk \<Rightarrow> await_serving (a_info_start a + SERVE_WAIT_S) (wanted_models ms) (a_info a)
     | RestartNo \<Rightarrow> Some (RestartFailed None)
     | RestartRaised what \<Rightarrow> Some (RestartFailed (Some what)))"

text \<open>One attempt: its reason and the state after it, or \<^term>\<open>None\<close> while it still waits.\<close>

definition attempt_once :: "serving_env \<Rightarrow> gw_entry list \<Rightarrow> (string \<times> lparams) list \<Rightarrow> rat \<Rightarrow> rat \<Rightarrow> rat \<Rightarrow> nat \<Rightarrow> switch_attempt
    \<Rightarrow> switch_state \<Rightarrow> (switch_why \<times> switch_state) option" where
  "attempt_once e config old requested idle_s max_s k a st =
     (case wait_loop idle_s max_s (a_start a) None (a_probes a) of
        None \<Rightarrow> None
      | Some got \<Rightarrow>
          (let new = served_config e config (a_defaults a); ms = moved_lanes (a_defaults a) old (aliases new)
           in case restart_why ms a of
                None \<Rightarrow> None
              | Some why \<Rightarrow>
                  Some (why, \<lparr>ss_file = Some new,
                    ss_table = record_switch old got requested (if why = Serves [] then a_switched_at a else a_failed_at a) why ms (ss_table st),
                    ss_slept = ss_slept st @ (if k = 0 then [] else [BACKOFF_S * 2 ^ (k - 1)]),
                    ss_restarts = Suc (ss_restarts st)\<rparr>)))"

fun attempts_from :: "serving_env \<Rightarrow> gw_entry list \<Rightarrow> (string \<times> lparams) list \<Rightarrow> rat \<Rightarrow> rat \<Rightarrow> rat \<Rightarrow> nat \<Rightarrow> switch_attempt list
    \<Rightarrow> switch_state \<Rightarrow> (bool \<times> switch_state) option" where
  "attempts_from e config old requested idle_s max_s k [] st = Some (False, st)"
| "attempts_from e config old requested idle_s max_s k (a # as) st =
     (case attempt_once e config old requested idle_s max_s k a st of
        None \<Rightarrow> None
      | Some (why, st') \<Rightarrow>
          if why = Serves [] then Some (True, st')
          else attempts_from e config old requested idle_s max_s (Suc k) as st')"

text \<open>\<open>switch\<close>: the rows it returns and the state; the attempts are the first \<open>RETRIES\<close> of the world's.\<close>

definition file_aliases :: "gw_entry list option \<Rightarrow> (string \<times> lparams) list" where
  "file_aliases file = (case file of None \<Rightarrow> [] | Some config \<Rightarrow> aliases config)"

definition restore :: "gw_entry list option \<Rightarrow> switch_state \<Rightarrow> switch_state" where
  "restore before st = (case before of None \<Rightarrow> st
     | Some config \<Rightarrow> st\<lparr>ss_file := Some config, ss_restarts := Suc (ss_restarts st)\<rparr>)"

definition switch :: "serving_env \<Rightarrow> gw_entry list \<Rightarrow> (string \<times> string) list \<Rightarrow> rat \<Rightarrow> rat \<Rightarrow> rat \<Rightarrow> switch_attempt list \<Rightarrow> switch_state
    \<Rightarrow> (switch_row list \<times> switch_state) option" where
  "switch e config defaults requested idle_s max_s as st =
     (let before = ss_file st; old = file_aliases before
      in if same_dict (aliases (served_config e config defaults)) old then Some ([], st)
         else (case attempts_from e config old requested idle_s max_s 0 (take RETRIES as) st of
                 None \<Rightarrow> None
               | Some (True, st') \<Rightarrow> Some (filter sw_ok (drop (length (ss_table st)) (ss_table st')), st')
               | Some (False, st') \<Rightarrow> Some ([], restore before st')))"

end
