(* ===== verification/GatewayFacts.thy ===== *)
theory GatewayFacts
  imports Gateway
begin

text \<open>
  What the gateway's switch promises: it waits for quiet or its limit, a recorded switch is one the restarted gateway
  served, a failed one leaves the last good switch current and the old configuration in place, and what is unresolved
  is what failed since.
\<close>

section \<open>Waiting\<close>

text \<open>The free probes a run of probes ends in, and the two reasons to stop waiting after it.\<close>

definition free_tail :: "(rat \<times> int option) list \<Rightarrow> (rat \<times> int option) list" where
  "free_tail ps = rev (takeWhile (\<lambda>p. snd p = Some 0) (rev ps))"

definition quiet_enough :: "rat \<Rightarrow> (rat \<times> int option) list \<Rightarrow> bool" where
  "quiet_enough idle_s ps \<longleftrightarrow> free_tail ps \<noteq> [] \<and> fst (last ps) - fst (hd (free_tail ps)) \<ge> idle_s"

definition waited_out :: "rat \<Rightarrow> rat \<Rightarrow> (rat \<times> int option) list \<Rightarrow> bool" where
  "waited_out max_s started ps \<longleftrightarrow> fst (last ps) - started \<ge> max_s"

definition quiet_since :: "(rat \<times> int option) list \<Rightarrow> rat option" where
  "quiet_since ps = (if free_tail ps = [] then None else Some (fst (hd (free_tail ps))))"

lemma free_tail_snoc: "free_tail (ps @ [p]) = (if snd p = Some 0 then free_tail ps @ [p] else [])"
  by (simp add: free_tail_def)

lemma quiet_since_snoc:
  "quiet_since (ps @ [(now, b)]) =
     (if b = Some 0 then Some (case quiet_since ps of None \<Rightarrow> now | Some q \<Rightarrow> q) else None)"
  by (auto simp: quiet_since_def free_tail_snoc hd_append)

lemma quiet_enough_since:
  "quiet_enough idle_s (ps @ [(now, b)]) \<longleftrightarrow>
     (case quiet_since (ps @ [(now, b)]) of None \<Rightarrow> False | Some q \<Rightarrow> now - q \<ge> idle_s)"
  by (auto simp: quiet_enough_def quiet_since_def)

lemma proper_prefixes: "tl (prefixes (x # xs)) = [x] # map ((#) x) (tl (prefixes xs))"
  by (cases xs) auto

lemma find_map: "find P (map f xs) = map_option f (find (P \<circ> f) xs)"
  by (induction xs) auto

lemma wait_loop_find:
  "wait_loop idle_s max_s started (quiet_since before) probes =
     map_option (\<lambda>ps. (if quiet_enough idle_s (before @ ps) then Idle else Forced, snd (last ps)))
       (find (\<lambda>ps. quiet_enough idle_s (before @ ps) \<or> waited_out max_s started (before @ ps)) (tl (prefixes probes)))"
proof (induction probes arbitrary: before)
  case (Cons p probes)
  obtain now b where p: "p = (now, b)" by (cases p)
  define q where "q = quiet_since (before @ [(now, b)])"
  let ?ends = "\<lambda>ps. quiet_enough idle_s (before @ ps) \<or> waited_out max_s started (before @ ps)"
  let ?next = "\<lambda>ps. quiet_enough idle_s ((before @ [p]) @ ps) \<or> waited_out max_s started ((before @ [p]) @ ps)"
  have step: "wait_loop idle_s max_s started (quiet_since before) (p # probes) =
      (if quiet_enough idle_s (before @ [p]) then Some (Idle, b)
       else if waited_out max_s started (before @ [p]) then Some (Forced, b)
       else wait_loop idle_s max_s started (quiet_since (before @ [p])) probes)"
    by (simp add: p quiet_enough_since quiet_since_snoc waited_out_def)
  have tail: "find ?ends (map ((#) p) (tl (prefixes probes))) = map_option ((#) p) (find ?next (tl (prefixes probes)))"
    by (simp add: find_map comp_def)
  have ne: "find ?next (tl (prefixes probes)) = Some ps \<Longrightarrow> ps \<noteq> []" for ps
    by (cases probes) (auto simp: find_Some_iff in_set_conv_nth [symmetric] dest!: nth_mem)
  have first: "find ?ends (tl (prefixes (p # probes))) =
      (if ?ends [p] then Some [p] else find ?ends (map ((#) p) (tl (prefixes probes))))"
    unfolding proper_prefixes find.simps by (rule refl)
  show ?case
  proof (cases "?ends [p]")
    case True
    then have "find ?ends (tl (prefixes (p # probes))) = Some [p]" using first by (simp only: if_True)
    then show ?thesis unfolding step using True by (simp only:) (auto simp: p)
  next
    case False
    then have "find ?ends (tl (prefixes (p # probes))) = map_option ((#) p) (find ?next (tl (prefixes probes)))"
      using first tail by (simp only: if_False)
    moreover have "quiet_enough idle_s (before @ p # ps) = quiet_enough idle_s ((before @ [p]) @ ps)" for ps by simp
    ultimately show ?thesis unfolding step using False Cons [of "before @ [p]"] ne
      by (cases "find ?next (tl (prefixes probes))") (simp_all only: option.map if_False de_Morgan_disj, simp_all)
  qed
qed simp

text \<open>
  The restart waits exactly until a run of probes ends in a stretch with nothing in flight lasting the idle time,
  or the limit has passed, whichever is first: it is called idle exactly in the first case, an answer that cannot be
  read counts as busy, and it never waits past the first probe at or after the limit.
\<close>

theorem restart_waits_for_quiet:
  "wait_loop idle_s max_s started None probes =
     map_option (\<lambda>ps. (if quiet_enough idle_s ps then Idle else Forced, snd (last ps)))
       (find (\<lambda>ps. quiet_enough idle_s ps \<or> waited_out max_s started ps) (tl (prefixes probes)))"
  using wait_loop_find [of idle_s max_s started "[]" probes] by (simp add: quiet_since_def free_tail_def)


section \<open>What is unresolved\<close>

definition failures_since :: "switch_row list \<Rightarrow> string \<Rightarrow> switch_row list" where
  "failures_since t lane = takeWhile (\<lambda>r. \<not> sw_ok r) (filter (\<lambda>r. sw_lane r = lane) (rev t))"

lemma unresolved_from_append: "unresolved_from (t @ rs) out = unresolved_from rs (unresolved_from t out)"
  by (induction t arbitrary: out) auto

lemma map_of_drop_key: "map_of (filter (\<lambda>x. fst x \<noteq> k) d) = (map_of d)(k := None)"
  by (induction d) auto

lemma failures_since_snoc:
  "failures_since (t @ [r]) lane =
     (if sw_lane r \<noteq> lane then failures_since t lane else if sw_ok r then [] else r # failures_since t lane)"
  by (simp add: failures_since_def)

text \<open>
  C21. What \<open>soh report\<close> must show of a lane is exactly its failures since its last switch that took: their number, and
  the new spec, reason and time of the latest; a lane whose last attempt took, or that never moved, is not shown.
\<close>

theorem unresolved_since_last_switch:
  "map_of (unresolved t) lane =
     (case failures_since t lane of [] \<Rightarrow> None
      | r # rs \<Rightarrow> Some \<lparr>of_attempts = Suc (length rs), of_new = sw_new r, of_reason = sw_reason r, of_at = sw_at r\<rparr>)"
proof (induction t rule: rev_induct)
  case Nil
  then show ?case by (simp add: unresolved_def failures_since_def)
next
  case (snoc r t)
  then show ?case
    by (auto simp: unresolved_def unresolved_from_append map_of_drop_key fail_again_def failures_since_snoc split: list.splits)
qed

lemma old_spec_snoc: "old_spec (t @ [r]) lane m = (if sw_lane r = lane \<and> sw_ok r then sw_new r else old_spec t lane m)"
  by (simp add: old_spec_def)

lemma old_spec_failed: "list_all (\<lambda>r. \<not> sw_ok r) rs \<Longrightarrow> old_spec (t @ rs) lane m = old_spec t lane m"
  by (induction rs rule: rev_induct) (simp_all add: old_spec_snoc append_assoc [symmetric] del: append_assoc)

section \<open>Attempts\<close>

lemma record_switch_rows:
  "\<exists>rows. record_switch old got requested now why ms t = t @ rows \<and> list_all (\<lambda>r. sw_ok r = (why = Serves [])) rows \<and>
     map (\<lambda>r. (sw_lane r, sw_new r)) rows = map (\<lambda>m. (fst m, fst (snd m))) ms"
proof (induction ms arbitrary: t)
  case (Cons m ms)
  obtain lane spec model where m: "m = (lane, (spec, model))" by (cases m) auto
  define r where "r = switch_row_of t old got requested now why lane spec"
  have r: "sw_ok r = (why = Serves [])" "sw_lane r = lane" "sw_new r = spec" by (simp_all add: r_def switch_row_of_def)
  obtain rows where rows: "record_switch old got requested now why ms (t @ [r]) = (t @ [r]) @ rows"
    "list_all (\<lambda>r. sw_ok r = (why = Serves [])) rows" "map (\<lambda>r. (sw_lane r, sw_new r)) rows = map (\<lambda>m. (fst m, fst (snd m))) ms"
    using Cons.IH [of "t @ [r]"] by blast
  then show ?case unfolding m by (intro exI [of _ "r # rows"]) (simp add: r r_def [symmetric])
qed simp

text \<open>An attempt that took: the service restarted and what answered then serves every moved alias as the new configuration has it.\<close>

definition attempt_moved :: "serving_env \<Rightarrow> gw_entry list \<Rightarrow> (string \<times> lparams) list \<Rightarrow> switch_attempt \<Rightarrow> moved" where
  "attempt_moved e config old a = moved_lanes (a_defaults a) old (aliases (served_config e config (a_defaults a)))"

definition took :: "serving_env \<Rightarrow> gw_entry list \<Rightarrow> (string \<times> lparams) list \<Rightarrow> switch_attempt \<Rightarrow> bool" where
  "took e config old a \<longleftrightarrow> a_restart a = RestartOk \<and>
     (\<exists>got now. (Served got, now) \<in> set (a_info a) \<and>
        (\<forall>m \<in> set (attempt_moved e config old a). get_or None got (lane_alias (fst m)) = snd (snd m)))"

lemma await_serving_took:
  "await_serving deadline want probes = Some (Serves []) \<Longrightarrow>
   \<exists>got now. (Served got, now) \<in> set probes \<and> (\<forall>(alias, model) \<in> set want. get_or None got alias = model)"
proof (induction deadline want probes rule: await_serving.induct)
  case (2 deadline want answer now probes)
  show ?case
  proof (cases "not_serving answer want = Serves []")
    case True
    then obtain got where "answer = Served got" by (auto simp: not_serving_def split: info.splits)
    moreover have "\<forall>x \<in> set (sorted_items want). get_or None got (fst x) = snd x"
      using True calculation by (auto simp: not_serving_def Let_def split: if_splits)
    ultimately show ?thesis by (auto simp: sorted_items_def intro!: exI [of _ got])
  next
    case False
    then show ?thesis using 2 by (auto simp: Let_def split: if_splits)
  qed
qed simp

lemma attempt_once_took:
  assumes "attempt_once e config old requested idle_s max_s k a st = Some (why, st')"
  shows "\<exists>rows. ss_table st' = ss_table st @ rows \<and> list_all (\<lambda>r. sw_ok r = (why = Serves [])) rows \<and>
      map (\<lambda>r. (sw_lane r, sw_new r)) rows = map (\<lambda>m. (fst m, fst (snd m))) (attempt_moved e config old a) \<and>
      ss_file st' = Some (served_config e config (a_defaults a)) \<and> ss_restarts st' = Suc (ss_restarts st) \<and>
      ss_slept st' = ss_slept st @ (if k = 0 then [] else [BACKOFF_S * 2 ^ (k - 1)]) \<and>
      (why = Serves [] \<longrightarrow> took e config old a)"
proof -
  define new where "new = served_config e config (a_defaults a)"
  have ms: "attempt_moved e config old a = moved_lanes (a_defaults a) old (aliases new)" by (simp add: attempt_moved_def new_def)
  from assms obtain got where got: "restart_why (attempt_moved e config old a) a = Some why"
    "st' = \<lparr>ss_file = Some new,
       ss_table = record_switch old got requested (if why = Serves [] then a_switched_at a else a_failed_at a) why
         (attempt_moved e config old a) (ss_table st),
       ss_slept = ss_slept st @ (if k = 0 then [] else [BACKOFF_S * 2 ^ (k - 1)]), ss_restarts = Suc (ss_restarts st)\<rparr>"
    unfolding attempt_once_def Let_def new_def [symmetric] ms [symmetric] by (auto split: option.splits)
  have "took e config old a" if "why = Serves []"
    using got(1) that await_serving_took [of "a_info_start a + SERVE_WAIT_S" "wanted_models (attempt_moved e config old a)" "a_info a"]
    by (auto simp: took_def restart_why_def wanted_models_def split: restart.splits)
  then show ?thesis
    using record_switch_rows [of old got requested "if why = Serves [] then a_switched_at a else a_failed_at a" why
        "attempt_moved e config old a" "ss_table st"] got(2) new_def by auto
qed


definition backoffs :: "nat \<Rightarrow> nat \<Rightarrow> rat list" where
  "backoffs k n = concat (map (\<lambda>i. if i = 0 then [] else [BACKOFF_S * 2 ^ (i - 1)]) [k..<k + n])"

lemma backoffs_Suc: "(if k = 0 then [] else [BACKOFF_S * 2 ^ (k - 1)]) @ backoffs (Suc k) n = backoffs k (Suc n)"
  by (simp add: backoffs_def upt_rec [of k])

text \<open>The configuration in place after some attempts: what the last of them wrote.\<close>

definition last_written :: "serving_env \<Rightarrow> gw_entry list \<Rightarrow> switch_attempt list \<Rightarrow> gw_entry list option \<Rightarrow> gw_entry list option" where
  "last_written e config as before = (if as = [] then before else Some (served_config e config (a_defaults (last as))))"

lemma attempts_from_result:
  assumes "attempts_from e config old requested idle_s max_s k as st = Some (ok, st')"
  shows "\<exists>failed rows. ss_table st' = ss_table st @ failed @ rows \<and> list_all (\<lambda>r. \<not> sw_ok r) failed \<and>
    (if ok then list_all sw_ok rows \<and> (\<exists>a \<in> set as. took e config old a \<and> ss_file st' = Some (served_config e config (a_defaults a)) \<and>
         map (\<lambda>r. (sw_lane r, sw_new r)) rows = map (\<lambda>m. (fst m, fst (snd m))) (attempt_moved e config old a))
     else rows = [] \<and> ss_restarts st' = ss_restarts st + length as \<and> ss_slept st' = ss_slept st @ backoffs k (length as) \<and>
       ss_file st' = last_written e config as (ss_file st))"
  using assms
proof (induction as arbitrary: k st)
  case Nil
  then show ?case by (auto simp: backoffs_def last_written_def)
next
  case (Cons a as)
  obtain why st1 where one: "attempt_once e config old requested idle_s max_s k a st = Some (why, st1)"
    and go_on: "if why = Serves [] then ok \<and> st' = st1
           else attempts_from e config old requested idle_s max_s (Suc k) as st1 = Some (ok, st')"
    using Cons.prems by (auto split: option.splits if_splits)
  obtain rows where rows: "ss_table st1 = ss_table st @ rows" "list_all (\<lambda>r. sw_ok r = (why = Serves [])) rows"
    "map (\<lambda>r. (sw_lane r, sw_new r)) rows = map (\<lambda>m. (fst m, fst (snd m))) (attempt_moved e config old a)"
    "ss_file st1 = Some (served_config e config (a_defaults a))" "ss_restarts st1 = Suc (ss_restarts st)"
    "ss_slept st1 = ss_slept st @ (if k = 0 then [] else [BACKOFF_S * 2 ^ (k - 1)])"
    "why = Serves [] \<longrightarrow> took e config old a"
    using attempt_once_took [OF one] by blast
  show ?case
  proof (cases "why = Serves []")
    case True
    then have "ok" "st' = st1" "list_all sw_ok rows" using go_on rows(2) by auto
    then show ?thesis using rows True by (intro exI [of _ "[]"] exI [of _ rows]) auto
  next
    case False
    then have "attempts_from e config old requested idle_s max_s (Suc k) as st1 = Some (ok, st')"
      "list_all (\<lambda>r. \<not> sw_ok r) rows" using go_on rows(2) by auto
    moreover obtain failed rows' where "ss_table st' = ss_table st1 @ failed @ rows'" "list_all (\<lambda>r. \<not> sw_ok r) failed"
      "if ok then list_all sw_ok rows' \<and> (\<exists>a \<in> set as. took e config old a \<and> ss_file st' = Some (served_config e config (a_defaults a)) \<and>
           map (\<lambda>r. (sw_lane r, sw_new r)) rows' = map (\<lambda>m. (fst m, fst (snd m))) (attempt_moved e config old a))
       else rows' = [] \<and> ss_restarts st' = ss_restarts st1 + length as \<and> ss_slept st' = ss_slept st1 @ backoffs (Suc k) (length as) \<and>
         ss_file st' = last_written e config as (ss_file st1)"
      using Cons.IH [OF calculation(1)] by blast
    ultimately show ?thesis using rows backoffs_Suc [of k "length as"]
      by (intro exI [of _ "rows @ failed"] exI [of _ rows']) (auto simp: last_written_def split: if_splits)
  qed
qed

text \<open>
  C20. A switch that finds the aliases moved either takes or leaves the last good one in force. It takes: the rows it
  returns are those it adds as switched, one per moved lane with the spec it was given, from an attempt whose service
  restarted and then answered that every moved alias serves the model the new configuration names, and that is the
  configuration in place. Or every one of at most \<open>RETRIES\<close> attempts failed: no row is switched, what each lane is
  on record as serving is unchanged, and where there was a configuration before it is back, after one more restart; a first
  switch, which had none, leaves in place what its last attempt wrote, and restarts no more.
\<close>

theorem switch_takes_or_restores:
  assumes "switch e config defaults requested idle_s max_s as st = Some (rows, st')"
    and "\<not> same_dict (aliases (served_config e config defaults)) (file_aliases (ss_file st))"
  shows "(\<exists>a \<in> set (take RETRIES as). took e config (file_aliases (ss_file st)) a \<and>
        ss_file st' = Some (served_config e config (a_defaults a)) \<and>
        map (\<lambda>r. (sw_lane r, sw_new r)) rows =
          map (\<lambda>m. (fst m, fst (snd m))) (attempt_moved e config (file_aliases (ss_file st)) a) \<and>
        switches (ss_table st') = switches (ss_table st) @ rows) \<or>
    (rows = [] \<and> switches (ss_table st') = switches (ss_table st) \<and>
        (\<forall>lane m. old_spec (ss_table st') lane m = old_spec (ss_table st) lane m) \<and>
        (case ss_file st of
           Some before \<Rightarrow> ss_file st' = Some before \<and> ss_restarts st' = ss_restarts st + min RETRIES (length as) + 1
         | None \<Rightarrow> ss_file st' = last_written e config (take RETRIES as) None \<and>
             ss_restarts st' = ss_restarts st + min RETRIES (length as)) \<and>
        ss_slept st' = ss_slept st @ backoffs 0 (min RETRIES (length as)))"
proof -
  define old where "old = file_aliases (ss_file st)"
  obtain ok st1 where ran0: "attempts_from e config old requested idle_s max_s 0 (take RETRIES as) st = Some (ok, st1)"
    and out: "(rows, st') = (if ok then (filter sw_ok (drop (length (ss_table st)) (ss_table st1)), st1) else ([], restore (ss_file st) st1))"
    using assms unfolding switch_def Let_def old_def by (auto split: option.splits bool.splits)
  obtain failed new_rows where t: "ss_table st1 = ss_table st @ failed @ new_rows" "list_all (\<lambda>r. \<not> sw_ok r) failed"
    and others: "if ok then list_all sw_ok new_rows \<and> (\<exists>a \<in> set (take RETRIES as). took e config old a \<and>
           ss_file st1 = Some (served_config e config (a_defaults a)) \<and>
           map (\<lambda>r. (sw_lane r, sw_new r)) new_rows = map (\<lambda>m. (fst m, fst (snd m))) (attempt_moved e config old a))
       else new_rows = [] \<and> ss_restarts st1 = ss_restarts st + length (take RETRIES as) \<and>
            ss_slept st1 = ss_slept st @ backoffs 0 (length (take RETRIES as)) \<and>
            ss_file st1 = last_written e config (take RETRIES as) (ss_file st)"
    using attempts_from_result [OF ran0] by blast
  have none: "filter sw_ok failed = []" using t(2) by (auto simp: list_all_iff filter_empty_conv)
  show ?thesis
  proof (cases ok)
    case True
    then have "filter sw_ok new_rows = new_rows" using others by (simp add: list_all_iff)
    then have "rows = new_rows" "st' = st1" "switches (ss_table st1) = switches (ss_table st) @ rows"
      using out True t(1) none by (auto simp: switches_def)
    then show ?thesis using others True old_def by auto
  next
    case False
    then have "new_rows = []" "rows = []" "st' = restore (ss_file st) st1" using others out by auto
    moreover have "ss_table (restore (ss_file st) st1) = ss_table st @ failed"
      using t(1) \<open>new_rows = []\<close> by (simp add: restore_def split: option.splits)
    ultimately show ?thesis using others False none old_spec_failed [OF t(2)]
      by (auto simp: switches_def restore_def min.commute split: option.splits)
  qed
qed


section \<open>Concrete switches\<close>

text \<open>A machine with nothing fetched, a gateway naming one model, and an attempt on a quiet gateway.\<close>

definition demo_env :: serving_env where
  "demo_env = \<lparr>e_vllm_port = [], e_vllm_engine = [], e_text_engine = [], e_ds4_port = [], e_llamacpp_port = [],
     e_float = (\<lambda>s. None), e_fetched = (\<lambda>s. None), e_hub_stem = (\<lambda>s. None), e_refusal = (\<lambda>s. [])\<rparr>"

definition demo_config :: "gw_entry list" where
  "demo_config = [entry_of ''q4'' (no_params\<lparr>lp_model := Some ''openai/qwen-4b''\<rparr>)]"

definition demo_attempt :: "restart \<Rightarrow> (info \<times> rat) list \<Rightarrow> switch_attempt" where
  "demo_attempt r answers = \<lparr>a_start = 0, a_probes = [(0, Some 0), (60, Some 0)], a_defaults = [(''code'', ''q4'')],
     a_restart = r, a_switched_at = 61, a_info_start = 61, a_info = answers, a_failed_at = 62\<rparr>"

definition demo_state :: "gw_entry list option \<Rightarrow> switch_state" where
  "demo_state file = \<lparr>ss_file = file, ss_table = [], ss_slept = [], ss_restarts = 0\<rparr>"

definition served_now :: info where
  "served_now = Served [(''q4'', Some ''openai/qwen-4b''), (''sohot-code'', Some ''openai/qwen-4b'')]"

text \<open>The first attempt's restart fails, the second is served: one switched row, after one failed one.\<close>

lemma demo_switch:
  "map_option (\<lambda>(rows, st). (map (\<lambda>r. (sw_lane r, sw_new r)) rows, map sw_ok (ss_table st), ss_slept st))
     (switch demo_env demo_config [(''code'', ''q4'')] 0 IDLE_S MAX_WAIT_S
       [demo_attempt RestartNo [], demo_attempt RestartOk [(served_now, 63)]] (demo_state (Some demo_config)))
   = Some ([(''code'', ''q4'')], [False, True], [30])"
  by code_simp

theorem switch_witness:
  "\<exists>rows st'. switch demo_env demo_config [(''code'', ''q4'')] 0 IDLE_S MAX_WAIT_S
       [demo_attempt RestartNo [], demo_attempt RestartOk [(served_now, 63)]] (demo_state (Some demo_config)) = Some (rows, st') \<and>
     rows \<noteq> [] \<and> switches (ss_table st') = switches (ss_table (demo_state (Some demo_config))) @ rows"
proof -
  obtain rows st' where sw: "switch demo_env demo_config [(''code'', ''q4'')] 0 IDLE_S MAX_WAIT_S
       [demo_attempt RestartNo [], demo_attempt RestartOk [(served_now, 63)]] (demo_state (Some demo_config)) = Some (rows, st')"
    "map (\<lambda>r. (sw_lane r, sw_new r)) rows = [(''code'', ''q4'')]" using demo_switch by auto
  have "\<not> same_dict (aliases (served_config demo_env demo_config [(''code'', ''q4'')])) (file_aliases (ss_file (demo_state (Some demo_config))))"
    by code_simp
  from switch_takes_or_restores [OF sw(1) this] sw show ?thesis by auto
qed

text \<open>
  Where there was no generated configuration before, a switch that fails leaves the new one in place, so the next switch
  sees no difference and does not try again, while the lane stays unresolved.
\<close>

theorem first_switch_not_retried:
  "\<exists>st'. switch demo_env demo_config [(''code'', ''q4'')] 0 IDLE_S MAX_WAIT_S
        (replicate 3 (demo_attempt RestartNo [])) (demo_state None) = Some ([], st') \<and>
     map sw_ok (ss_table st') = [False, False, False] \<and> unresolved (ss_table st') \<noteq> [] \<and>
     switch demo_env demo_config [(''code'', ''q4'')] 100 IDLE_S MAX_WAIT_S
        [demo_attempt RestartOk [(served_now, 63)]] st' = Some ([], st')"
proof -
  have "case switch demo_env demo_config [(''code'', ''q4'')] 0 IDLE_S MAX_WAIT_S
        (replicate 3 (demo_attempt RestartNo [])) (demo_state None) of
      None \<Rightarrow> False
    | Some (rows, st') \<Rightarrow> rows = [] \<and> map sw_ok (ss_table st') = [False, False, False] \<and> unresolved (ss_table st') \<noteq> [] \<and>
        switch demo_env demo_config [(''code'', ''q4'')] 100 IDLE_S MAX_WAIT_S
          [demo_attempt RestartOk [(served_now, 63)]] st' = Some ([], st')"
    by code_simp
  then show ?thesis by (auto split: option.splits)
qed

end
