(* ===== verification/Router.thy ===== *)
theory Router
  imports Serving Exclusive Pressure
begin

text \<open>
  The router of llama-server (\<open>harness/router.py\<close>): what it holds in memory, the models a run lost, and giving back
  what discovery loaded; and the admission of a delegated call (\<open>harness/delegate.py\<close>). The answers of the router and
  of the servers are arguments; \<open>protected\<close> is the set of stems a default, a winner or an alias serves.
\<close>

section \<open>What is resident\<close>

definition RESIDENT :: "string list" where
  "RESIDENT = [''loaded'', ''loading'', ''sleeping'']"

text \<open>\<open>statuses\<close>: the answer to \<open>/models\<close> as id and status; no answer is \<^term>\<open>None\<close>, an entry without an id is skipped.\<close>

definition statuses :: "(string \<times> string) list option \<Rightarrow> (string \<times> string) list option" where
  "statuses answer = map_option (\<lambda>data. foldl (\<lambda>d m. if fst m = [] then d else dict_put (fst m) (snd m) d) [] data) answer"

definition resident :: "(string \<times> string) list option \<Rightarrow> string list" where
  "resident answer = (case statuses answer of None \<Rightarrow> []
     | Some d \<Rightarrow> map fst (filter (\<lambda>x. snd x \<in> set RESIDENT) d))"

record swap =
  swp_case :: string
  swp_at :: string
  swp_status :: string
  swp_resident :: "string list"

record watch =
  w_model :: string
  w_swaps :: "swap list"
  w_held :: bool

definition look :: "string \<Rightarrow> string \<Rightarrow> (string \<times> string) list option \<Rightarrow> watch \<Rightarrow> watch" where
  "look case0 at0 answer w = (case statuses answer of
       None \<Rightarrow> w
     | Some s \<Rightarrow>
         (let status = get_or ''absent'' s (w_model w)
          in if status = ''loaded'' \<or> status = ''sleeping'' then w\<lparr>w_held := True\<rparr>
             else if w_held w
               then w\<lparr>w_swaps := w_swaps w @ [\<lparr>swp_case = case0, swp_at = at0, swp_status = status,
                        swp_resident = sort (map fst (filter (\<lambda>x. snd x \<in> set RESIDENT \<and> fst x \<noteq> w_model w) s))\<rparr>],
                      w_held := False\<rparr>
             else w))"

definition stem_of :: "string \<Rightarrow> string" where
  "stem_of spec = (if prefix LLAMA_PREFIX spec then drop (length LLAMA_PREFIX) spec else [])"

text \<open>\<open>model_for\<close>: the stem an upstream names when the router answers it.\<close>

definition model_for :: "serving_env \<Rightarrow> (string \<times> string) option \<Rightarrow> string" where
  "model_for e up = (case up of None \<Rightarrow> []
     | Some (base, model) \<Rightarrow> if model \<noteq> [] \<and> base \<in> {LLAMACPP_URL, router_url e} then model else [])"

section \<open>Giving back\<close>

datatype router_says = DefaultsUnread "string list" string | RunInFlight string | CouldNotUnload string string | Unloaded string string

text \<open>\<open>_no_run_in_flight\<close> takes the machine lock for the body and gives it back; its answer is whether it has it.\<close>

definition no_run_in_flight :: "bool \<Rightarrow> nat \<Rightarrow> nat option \<Rightarrow> bool" where
  "no_run_in_flight held_here p owner = (held_here \<or> fst (take_lock p owner))"

fun release_each :: "(string \<Rightarrow> string option) \<Rightarrow> string \<Rightarrow> string set \<Rightarrow> bool \<Rightarrow> string list \<Rightarrow> router_says list \<times> string list" where
  "release_each post why keepers unheld [] = ([], [])"
| "release_each post why keepers unheld (s # ss) =
     (case release_each post why keepers unheld ss of (said, gone) \<Rightarrow>
        if s \<in> keepers then (said, gone)
        else if \<not> unheld then (RunInFlight s # said, gone)
        else (case post s of Some err \<Rightarrow> (CouldNotUnload s err # said, gone)
              | None \<Rightarrow> (Unloaded s why # said, s # gone)))"

definition release_stems :: "(string \<times> string) list option \<Rightarrow> (string \<Rightarrow> string option) \<Rightarrow> string + string set \<Rightarrow> bool \<Rightarrow> string
    \<Rightarrow> string list \<Rightarrow> router_says list \<times> string list" where
  "release_stems answer post protected unheld why stems =
     (let wanted0 = filter (\<lambda>s. s \<noteq> []) (rev (remdups (rev stems)))
      in if wanted0 = [] then ([], [])
         else (let wanted = filter (\<lambda>s. s \<in> set (resident answer)) wanted0
               in if wanted = [] then ([], [])
                  else (case protected of
                      Inl exc \<Rightarrow> ([DefaultsUnread wanted exc], [])
                    | Inr keepers \<Rightarrow> release_each post why keepers unheld wanted)))"

definition release_spec :: "(string \<times> string) list option \<Rightarrow> (string \<Rightarrow> string option) \<Rightarrow> string + string set \<Rightarrow> bool \<Rightarrow> string
    \<Rightarrow> string \<Rightarrow> router_says list \<times> string list" where
  "release_spec answer post protected unheld why spec = release_stems answer post protected unheld why [stem_of spec]"

definition settle :: "(string \<times> string) list option \<Rightarrow> (string \<Rightarrow> string option) \<Rightarrow> string + string set \<Rightarrow> bool \<Rightarrow> string
    \<Rightarrow> router_says list \<times> string list" where
  "settle answer post protected unheld why = release_stems answer post protected unheld why (resident answer)"

section \<open>Admission of a delegated call\<close>

definition DELEGATED_LANES :: "string list" where
  "DELEGATED_LANES = [''code'', ''web'', ''svg'', ''extract'', ''decide'', ''agent'', ''claims'']"

definition MAX_PROMPT_CHARS :: nat where "MAX_PROMPT_CHARS = 100000"
definition DELEGATE_MAX_TOKENS :: int where "DELEGATE_MAX_TOKENS = 8192"
definition CHARS_PER_TOKEN :: nat where "CHARS_PER_TOKEN = 3"

datatype refused = NotATextLane string | PromptTooLong nat | TokensBelowOne int | OverContext int "int option" | MachineBusy string
  | PressureHigh string int

definition check_lane :: "string \<Rightarrow> refused + string" where
  "check_lane lane0 = (let lane = lower (strip lane0)
     in if lane \<in> set DELEGATED_LANES then Inr lane else Inl (NotATextLane lane))"

definition preflight :: "string list \<Rightarrow> int \<Rightarrow> refused + unit" where
  "preflight texts max_tokens =
     (let size = sum_list (map length texts)
      in if size > MAX_PROMPT_CHARS then Inl (PromptTooLong size)
         else if max_tokens < 1 then Inl (TokensBelowOne max_tokens) else Inr ())"

text \<open>\<open>-(-chars // 3)\<close> is the division rounded up.\<close>

definition token_cap :: "int option \<Rightarrow> string list \<Rightarrow> int" where
  "token_cap ctx texts = (case ctx of None \<Rightarrow> DELEGATE_MAX_TOKENS
     | Some c \<Rightarrow> max 0 (c - - ((- int (sum_list (map length texts))) div int CHARS_PER_TOKEN)))"

definition fits_context :: "int option \<Rightarrow> int \<Rightarrow> string list \<Rightarrow> refused + unit" where
  "fits_context ctx max_tokens texts =
     (if max_tokens > token_cap ctx texts then Inl (OverContext max_tokens ctx) else Inr ())"

datatype admitted = NothingHeld | ResidentBeside string

definition admit :: "string \<Rightarrow> bool \<Rightarrow> int option \<Rightarrow> refused + admitted" where
  "admit holder in_memory lvl =
     (if holder = [] then Inr NothingHeld
      else if \<not> in_memory then Inl (MachineBusy holder)
      else (case lvl of
          Some l \<Rightarrow> if l > NORMAL then Inl (PressureHigh holder l) else Inr (ResidentBeside holder)
        | None \<Rightarrow> Inr (ResidentBeside holder)))"

text \<open>The server and model that answer a route, a gateway alias resolved.\<close>

definition upstream :: "gw_entry list \<Rightarrow> text_route \<Rightarrow> string \<times> string" where
  "upstream config w =
     (let base = server_base (r_base w)
      in if base \<noteq> DEFAULT_GATEWAY then (base, r_model w)
         else (case entry_named config (lower (r_model w)) of
             None \<Rightarrow> ([], [])
           | Some g \<Rightarrow> (server_base (str_or (lp_api_base (ge_params g))), strip_provider (str_or (lp_model (ge_params g))))))"

text \<open>What the server behind a route answered: the router's models, mlx's loaded model, vllm's models.\<close>

record loaded_answers =
  la_router :: "(string \<times> string) list option"
  la_mlx :: "string option"
  la_vllm :: "string list option"

definition loaded_now :: "serving_env \<Rightarrow> gw_entry list \<Rightarrow> text_route \<Rightarrow> loaded_answers \<Rightarrow> bool" where
  "loaded_now e config w answers =
     (case upstream config w of (base, model) \<Rightarrow>
        if model = [] then False
        else if base \<in> {LLAMACPP_URL, router_url e}
          then (case la_router answers of None \<Rightarrow> False | Some ms \<Rightarrow> (model, ''loaded'') \<in> set ms)
        else if base = MLX_URL then la_mlx answers = Some model
        else if base = vllm_url e then (case la_vllm answers of None \<Rightarrow> False | Some ms \<Rightarrow> model \<in> set ms)
        else False)"

text \<open>\<open>_gate\<close>: what a delegated call is told, from the lock, the running job and the server's answers.\<close>

definition delegate_gate :: "serving_env \<Rightarrow> gw_entry list \<Rightarrow> text_route \<Rightarrow> loaded_answers \<Rightarrow> string \<Rightarrow> string \<Rightarrow> int option
    \<Rightarrow> refused + admitted" where
  "delegate_gate e config w answers holding job lvl =
     (if holding = [] then Inr NothingHeld
      else (let holder = (if job = [] then holding else holding @ '' under '' @ job); res = loaded_now e config w answers
            in admit holder res (if res then lvl else None)))"


section \<open>The properties\<close>

lemma release_each_gone:
  "snd (release_each post why keepers unheld ss) = (if unheld then filter (\<lambda>s. s \<notin> keepers \<and> post s = None) ss else [])"
  by (induction ss) (auto split: prod.splits option.splits)

lemma release_each_posted:
  "Unloaded s w \<in> set (fst (release_each post why keepers unheld ss)) \<Longrightarrow> s \<in> set ss \<and> s \<notin> keepers \<and> unheld"
  "CouldNotUnload s err \<in> set (fst (release_each post why keepers unheld ss)) \<Longrightarrow> s \<in> set ss \<and> s \<notin> keepers \<and> unheld"
  by (induction ss) (auto split: prod.splits option.splits if_splits)

text \<open>
  The router is asked to unload only stems that are resident, that nothing protects, while no run is in flight; it
  gives back exactly those of them whose unload succeeded, each once and in the order asked, and when what is protected
  cannot be read it gives back nothing.
\<close>

theorem release_spares:
  "snd (release_stems answer post protected unheld why stems) =
     (case protected of Inl exc \<Rightarrow> []
      | Inr keepers \<Rightarrow> if unheld then filter (\<lambda>s. s \<noteq> [] \<and> s \<in> set (resident answer) \<and> s \<notin> keepers \<and> post s = None)
                                   (rev (remdups (rev stems))) else [])
   \<and> ((\<exists>w. Unloaded s w \<in> set (fst (release_stems answer post protected unheld why stems))) \<or>
      (\<exists>err. CouldNotUnload s err \<in> set (fst (release_stems answer post protected unheld why stems)))
      \<longrightarrow> s \<in> set stems \<and> s \<in> set (resident answer) \<and> unheld \<and> (\<exists>keepers. protected = Inr keepers \<and> s \<notin> keepers))"
proof -
  define named where "named = filter (\<lambda>s. s \<noteq> []) (rev (remdups (rev stems)))"
  define wanted where "wanted = filter (\<lambda>s. s \<in> set (resident answer)) named"
  have got: "release_stems answer post protected unheld why stems =
      (if wanted = [] then ([], []) else (case protected of Inl exc \<Rightarrow> ([DefaultsUnread wanted exc], [])
         | Inr keepers \<Rightarrow> release_each post why keepers unheld wanted))"
    unfolding release_stems_def Let_def named_def [symmetric] wanted_def [symmetric] by (cases "named = []") (simp_all add: wanted_def)
  have eq: "filter (\<lambda>s. s \<notin> keepers \<and> post s = None) wanted =
      filter (\<lambda>s. s \<noteq> [] \<and> s \<in> set (resident answer) \<and> s \<notin> keepers \<and> post s = None) (rev (remdups (rev stems)))" for keepers
    unfolding wanted_def named_def filter_filter by (rule filter_cong) auto
  have sub: "s \<in> set wanted \<Longrightarrow> s \<in> set stems \<and> s \<in> set (resident answer)" by (auto simp: wanted_def named_def)
  show ?thesis
  proof (cases protected)
    case (Inl exc)
    then show ?thesis unfolding got by auto
  next
    case (Inr keepers)
    then show ?thesis
      using release_each_gone [of post why keepers unheld wanted] sub
      unfolding got by (cases "wanted = []") (auto simp: eq [symmetric] dest!: release_each_posted)
  qed
qed

theorem release_witness:
  "snd (release_stems (Some [(''a'', ''loaded''), (''b'', ''loaded'')]) (\<lambda>_. None) (Inr {''a''}) True ''screened'' [''a'', ''b'', ''c'']) = [''b''] \<and>
   ''b'' \<in> set (resident (Some [(''a'', ''loaded''), (''b'', ''loaded'')]))"
proof -
  have "Unloaded ''b'' ''screened'' \<in> set (fst (release_stems (Some [(''a'', ''loaded''), (''b'', ''loaded'')]) (\<lambda>_. None) (Inr {''a''}) True
      ''screened'' [''a'', ''b'', ''c'']))" by code_simp
  moreover have "filter (\<lambda>s. s \<noteq> [] \<and> s \<in> set (resident (Some [(''a'', ''loaded''), (''b'', ''loaded'')])) \<and> s \<notin> {''a''} \<and> None = (None :: string option))
      (rev (remdups (rev [''a'', ''b'', ''c'']))) = [''b'']" by code_simp
  moreover note release_spares [of "Some [(''a'', ''loaded''), (''b'', ''loaded'')]" "\<lambda>_. None" "Inr {''a''}" True "''screened''" "[''a'', ''b'', ''c'']" "''b''"]
  ultimately show ?thesis by (simp only: sum.case if_True) blast
qed

text \<open>
  A delegated call is let through exactly when nobody holds the machine, or its own model is in memory already and
  the memory is not under pressure: it never loads a model beside whoever holds the lock.
\<close>

theorem delegation_never_loads:
  "(\<exists>ok. delegate_gate e config w answers holding job lvl = Inr ok) \<longleftrightarrow>
     holding = [] \<or> (loaded_now e config w answers \<and> (case lvl of None \<Rightarrow> True | Some l \<Rightarrow> l \<le> NORMAL))"
  by (auto simp: delegate_gate_def admit_def Let_def split: option.splits)

text \<open>The evictions a watch recorded: the falls in what the router answered, unanswered looks left out.\<close>

definition holds_model :: "string \<Rightarrow> (string \<times> string) list option \<Rightarrow> bool option" where
  "holds_model model answer = map_option (\<lambda>s. get_or ''absent'' s model \<in> {''loaded'', ''sleeping''}) (statuses answer)"

fun falls :: "bool \<Rightarrow> bool option list \<Rightarrow> nat" where
  "falls held [] = 0"
| "falls held (None # hs) = falls held hs"
| "falls held (Some h # hs) = (if held \<and> \<not> h then 1 else 0) + falls h hs"

theorem watch_counts_evictions:
  "length (w_swaps (foldl (\<lambda>w (c, at0, answer). look c at0 answer w) w looks)) =
     length (w_swaps w) + falls (w_held w) (map (\<lambda>(c, at0, answer). holds_model (w_model w) answer) looks)"
proof (induction looks arbitrary: w)
  case (Cons l looks)
  obtain c at0 answer where l: "l = (c, at0, answer)" by (cases l) auto
  have m: "w_model (look c at0 answer w) = w_model w" by (auto simp: look_def Let_def split: option.splits)
  show ?case
    using Cons [of "look c at0 answer w"] unfolding m
    by (cases "statuses answer") (auto simp: l look_def holds_model_def Let_def)
qed simp

end
