(* ===== verification/Completion.thy ===== *)
theory Completion
  imports Reasons
begin

text \<open>
  One request to the gateway (\<open>harness/completion.py\<close>): the budgets and time limits, the payload and the requests made
  again without what a server refused, the reply or the failure it is reported as, and the assembly of a streamed reply.
  The server is a function of the number of the request and its payload; the parser of JSON is an argument.
\<close>

section \<open>Budgets\<close>

definition MAX_TOKENS :: nat where "MAX_TOKENS = 4000"
definition TIMEOUT_S :: rat where "TIMEOUT_S = 180"
definition MIN_DECODE_TOK_S :: rat where "MIN_DECODE_TOK_S = 25"

definition BUDGET :: "(string \<times> nat) list" where
  "BUDGET = [(''svg'', MAX_TOKENS), (''web'', MAX_TOKENS), (''code'', 32768), (''extract'', MAX_TOKENS),
             (''decide'', MAX_TOKENS), (''agent'', 8000), (''claims'', 400)]"

definition TOKEN_LADDER :: "(string \<times> nat list) list" where
  "TOKEN_LADDER = [(''svg'', [4000, 16000]), (''web'', [4000, 16000]), (''code'', [4000, 16000, 32000, 65536]),
             (''extract'', [4000, 16000]), (''decide'', [4000, 16000]), (''agent'', [8000, 32000]), (''claims'', [400, 1600])]"

definition ladder :: "string \<Rightarrow> nat list" where
  "ladder lane = get_or [] TOKEN_LADDER lane"

definition budget :: "string \<Rightarrow> nat" where
  "budget lane = get_or 0 BUDGET lane"

definition timeout_for :: "nat \<Rightarrow> rat" where
  "timeout_for max_tokens = max TIMEOUT_S (of_nat max_tokens / MIN_DECODE_TOK_S)"

section \<open>The payload\<close>

definition rstrip :: "string \<Rightarrow> string" where
  "rstrip s = rev (dropWhile is_space (rev s))"

definition NL :: string where "NL = [CHR 0x0A]"

definition user_message :: "string \<Rightarrow> string \<Rightarrow> string" where
  "user_message prompt context0 =
     (if context0 = [] then prompt else rstrip context0 @ NL @ NL @ ''---'' @ NL @ NL @ prompt)"

definition SAMPLING :: "(string \<times> (string \<times> rat) list) list" where
  "SAMPLING = [(''svg'', [(''temperature'', 4 / 10), (''repetition_penalty'', 11 / 10)]),
               (''web'', [(''temperature'', 4 / 10), (''repetition_penalty'', 11 / 10)]),
               (''decide'', [(''temperature'', 0)]), (''claims'', [(''temperature'', 0)])]"

definition DEFAULT_TEMPERATURE :: rat where "DEFAULT_TEMPERATURE = 2 / 10"

definition CHAT_TEMPLATE :: "(string \<times> (string \<times> bool) list) list" where
  "CHAT_TEMPLATE = [(''decide'', [(''enable_thinking'', False)])]"

text \<open>\<open>d.update(d')\<close>.\<close>

definition dict_update :: "('k \<times> 'v) list \<Rightarrow> ('k \<times> 'v) list \<Rightarrow> ('k \<times> 'v) list" where
  "dict_update d d' = foldl (\<lambda>a (k, v). dict_put k v a) d d'"

definition knobs_for :: "string \<Rightarrow> rat option \<Rightarrow> (string \<times> rat) list \<Rightarrow> (string \<times> rat) list" where
  "knobs_for modality temperature sampling =
     (let k0 = get_or [] SAMPLING modality;
          k1 = (case temperature of None \<Rightarrow> k0 | Some t \<Rightarrow> dict_put ''temperature'' t k0);
          k2 = dict_update k1 sampling
      in if ''temperature'' \<in> set (map fst k2) then k2 else k2 @ [(''temperature'', DEFAULT_TEMPERATURE)])"

record payload =
  p_model :: string
  p_max_tokens :: nat
  p_messages :: "(string \<times> string) list"
  p_knobs :: "(string \<times> rat) list"
  p_template :: "(string \<times> bool) list option"
  p_schema :: "string option"
  p_top_logprobs :: nat
  p_stream :: bool
  p_stream_options :: bool

record request =
  q_prompt :: string
  q_model :: string
  q_modality :: string
  q_context :: string
  q_timeout :: rat
  q_temperature :: "rat option"
  q_max_tokens :: nat
  q_sampling :: "(string \<times> rat) list"
  q_template :: "(string \<times> bool) list"
  q_top_logprobs :: nat
  q_stream :: bool
  q_system :: string
  q_schema :: "string option"

text \<open>The system prompts are the table \<open>SYSTEM\<close>, an argument here; a lane without one is neutral.\<close>

definition NEUTRAL_SYSTEM :: string where
  "NEUTRAL_SYSTEM = ''Answer directly and concisely.''"

definition system_for :: "(string \<times> string) list \<Rightarrow> request \<Rightarrow> string" where
  "system_for SYSTEM q = (if q_system q \<noteq> [] then q_system q else get_or NEUTRAL_SYSTEM SYSTEM (q_modality q))"

definition payload_of :: "(string \<times> string) list \<Rightarrow> request \<Rightarrow> payload" where
  "payload_of SYSTEM q =
     (let template = (if q_template q \<noteq> [] then q_template q else get_or [] CHAT_TEMPLATE (q_modality q));
          streaming = (q_stream q \<and> q_top_logprobs q = 0)
      in \<lparr>p_model = q_model q, p_max_tokens = q_max_tokens q,
          p_messages = [(''system'', system_for SYSTEM q), (''user'', user_message (q_prompt q) (q_context q))],
          p_knobs = knobs_for (q_modality q) (q_temperature q) (q_sampling q),
          p_template = (if template = [] then None else Some template), p_schema = q_schema q,
          p_top_logprobs = q_top_logprobs q, p_stream = streaming, p_stream_options = streaming\<rparr>)"

section \<open>Replies\<close>

type_synonym usage = "(string \<times> nat) list"

text \<open>The counts of a usage block; the one nested in \<open>completion_tokens_details\<close> is flattened under its own name.\<close>

text \<open>
  The body of a reply: the choices (a message's content and its reasoning, the finish reason, the tokens), the
  model that answered, the usage, the split of it, and llama-server's own timing. A choice may also lack a message
  (it is no object, or has no such key), or hold one that is null, no object, or whose content is neither text nor
  null; the other fields have the types the API documents.
\<close>

record choice =
  c_content :: "string option"
  c_reasoning :: string
  c_finish :: string
  c_tokens :: "string list"

datatype reply_choice = NoMessage | BadMessage | Message choice

record body =
  b_choices :: "reply_choice list"
  b_model :: string
  b_usage :: usage
  b_prompt_ms :: "rat option"

text \<open>What one request comes back with, and what its body parses to.\<close>

datatype reply_json = NotJson | NotObject | Object body

datatype http_reply =
    TimedOut
  | Unreachable string
  | MidStream string
  | Http nat string reply_json

text \<open>
  How a request fails. All but the last are a \<open>CompletionError\<close>; \<open>EUncaught\<close> is the \<open>AttributeError\<close> of a \<open>.get\<close> on
  what is no object, or of a \<open>.strip\<close> on what is no text: no handler names it, so it leaves the call as it is.
\<close>

datatype completion_error =
    ETimeout rat
  | EKeyRefused nat
  | EHttp nat string
  | EUnreachable string
  | EMalformed
  | EMidStream string
  | EBudget string nat "nat option" nat
  | EEmpty
  | EUncaught

text \<open>\<open>failure_class\<close>: set where the cause is known, empty where it is left to \<open>classify\<close> (or there is none to read); and the limit met.\<close>

fun failure_class :: "completion_error \<Rightarrow> string" where
  "failure_class (ETimeout t) = ''timeout''"
| "failure_class (EKeyRefused n) = ''harness_error''"
| "failure_class (EHttp n b) = []"
| "failure_class (EUnreachable w) = ''refused_by_gateway''"
| "failure_class EMalformed = ''crashed''"
| "failure_class (EMidStream w) = []"
| "failure_class (EBudget m n spent chars) = ''token_budget_exhausted''"
| "failure_class EEmpty = ''content_failed''"
| "failure_class EUncaught = []"

fun error_limit :: "completion_error \<Rightarrow> (string \<times> rat) option" where
  "error_limit (ETimeout t) = Some (''timeout_s'', t)"
| "error_limit (EBudget m n spent chars) = Some (''max_tokens'', of_nat n)"
| "error_limit e = None"

record completion =
  cm_text :: string
  cm_usage :: usage
  cm_tokens :: "string list"
  cm_prefill :: "rat option"
  cm_model :: string
  cm_finish :: string

text \<open>\<open>gateway_key.refused\<close> of a status, its body and the key sent.\<close>

definition key_refused :: "nat \<Rightarrow> string \<Rightarrow> string \<Rightarrow> bool" where
  "key_refused status txt sent \<longleftrightarrow>
     status = 401 \<or> status = 403 \<or> (status = 400 \<and> sublist ''no_db_connection'' txt) \<or> (status = 500 \<and> sent = [])"

definition SYSTEM_ROLE_REFUSALS :: "string list" where
  "SYSTEM_ROLE_REFUSALS = [''system role not supported'', ''conversation roles must alternate'']"

definition refuses_system_role :: "string \<Rightarrow> bool" where
  "refuses_system_role txt \<longleftrightarrow> (\<exists>p \<in> set SYSTEM_ROLE_REFUSALS. sublist p (lower txt))"

definition reasoning_tokens :: "usage \<Rightarrow> nat option" where
  "reasoning_tokens usage =
     (let details = get_or 0 usage ''reasoning_tokens'';
          got = (if details \<noteq> 0 then details else get_or 0 usage ''completion_tokens'')
      in if got = 0 then None else Some got)"

definition prefill_s :: "rat option \<Rightarrow> rat option" where
  "prefill_s ms = map_option (\<lambda>x. round_to 4 (x / 1000)) ms"

section \<open>Requests made again\<close>

definition client_error :: "http_reply \<Rightarrow> string option" where
  "client_error r = (case r of Http status txt b \<Rightarrow> if 400 \<le> status \<and> status < 500 then Some txt else None | _ \<Rightarrow> None)"

definition merge_system :: "payload \<Rightarrow> payload" where
  "merge_system p = p\<lparr>p_messages := [(''user'', join (NL @ NL) (map snd (p_messages p)))]\<rparr>"

text \<open>A server is asked at most once more with one user turn, and once more for each streaming knob it refuses.\<close>

type_synonym server = "nat \<Rightarrow> payload \<Rightarrow> http_reply"

definition again_one_turn :: "server \<Rightarrow> payload list \<times> payload \<times> http_reply \<Rightarrow> payload list \<times> payload \<times> http_reply" where
  "again_one_turn server st =
     (case st of (sent, p, r) \<Rightarrow>
        (case client_error r of
           Some txt \<Rightarrow> if refuses_system_role txt
             then (let p' = merge_system p in (sent @ [p'], p', server (length sent) p')) else st
         | None \<Rightarrow> st))"

definition refuses_stream :: "http_reply \<Rightarrow> bool" where
  "refuses_stream r = (case client_error r of None \<Rightarrow> False | Some txt \<Rightarrow> sublist ''stream'' (lower txt))"

definition again_without :: "server \<Rightarrow> (payload \<Rightarrow> bool) \<Rightarrow> (payload \<Rightarrow> payload) \<Rightarrow> payload list \<times> payload \<times> http_reply
    \<Rightarrow> payload list \<times> payload \<times> http_reply" where
  "again_without server has dropping st =
     (case st of (sent, p, r) \<Rightarrow>
        if has p \<and> refuses_stream r
        then (let p' = (dropping p)\<lparr>p_stream_options := False\<rparr> in (sent @ [p'], p', server (length sent) p')) else st)"

definition requests :: "server \<Rightarrow> payload \<Rightarrow> payload list \<times> payload \<times> http_reply" where
  "requests server p =
     again_without server p_stream (\<lambda>q. q\<lparr>p_stream := False\<rparr>)
       (again_without server p_stream_options (\<lambda>q. q)
         (again_one_turn server ([p], p, server 0 p)))"

section \<open>The completion\<close>

definition blank :: "string option \<Rightarrow> bool" where
  "blank t = (case t of None \<Rightarrow> True | Some s \<Rightarrow> strip s = [])"

definition read_body :: "string \<Rightarrow> request \<Rightarrow> body \<Rightarrow> completion_error + completion" where
  "read_body sent_key q b =
     (case b_choices b of
        [] \<Rightarrow> Inl EMalformed
      | NoMessage # cs \<Rightarrow> Inl EMalformed
      | BadMessage # cs \<Rightarrow> Inl EUncaught
      | Message c # cs \<Rightarrow>
          if blank (c_content c)
          then (if c_reasoning c \<noteq> []
                then Inl (EBudget (q_model q) (q_max_tokens q) (reasoning_tokens (b_usage b)) (length (c_reasoning c)))
                else Inl EEmpty)
          else Inr \<lparr>cm_text = (case c_content c of None \<Rightarrow> [] | Some t \<Rightarrow> t), cm_usage = b_usage b,
                     cm_tokens = (if q_top_logprobs q = 0 then [] else c_tokens c), cm_prefill = prefill_s (b_prompt_ms b),
                     cm_model = b_model b, cm_finish = c_finish c\<rparr>)"

definition outcome_of_reply :: "string \<Rightarrow> request \<Rightarrow> http_reply \<Rightarrow> completion_error + completion" where
  "outcome_of_reply sent_key q r = (case r of
       TimedOut \<Rightarrow> Inl (ETimeout (q_timeout q))
     | Unreachable why \<Rightarrow> Inl (EUnreachable why)
     | MidStream why \<Rightarrow> Inl (EMidStream why)
     | Http status txt b \<Rightarrow>
         if status < 200 \<or> 300 \<le> status
         then Inl (if key_refused status txt sent_key then EKeyRefused status else EHttp status (take 400 txt))
         else (case b of NotJson \<Rightarrow> Inl EMalformed | NotObject \<Rightarrow> Inl EUncaught | Object b \<Rightarrow> read_body sent_key q b))"

definition complete_full :: "(string \<times> string) list \<Rightarrow> string \<Rightarrow> server \<Rightarrow> request \<Rightarrow> payload list \<times> (completion_error + completion)" where
  "complete_full SYSTEM sent_key server q =
     (case requests server (payload_of SYSTEM q) of (sent, p, r) \<Rightarrow> (sent, outcome_of_reply sent_key q r))"

end
