(* ===== verification/Streaming.thy ===== *)
theory Streaming
  imports Completion
begin

text \<open>
  The assembly of a streamed reply (\<open>assemble\<close> and \<open>_merge_call\<close> of \<open>harness/completion.py\<close>): the lines of the stream,
  each with the seconds since the request, folded into the message a whole reply would have carried.
\<close>

section \<open>A chunk\<close>

text \<open>
  A chunk is an object with the fields the API documents; what parses to something else is outside the model. Of a fragment of
  a tool call the arguments are text to append, another JSON value to put, or absent.
\<close>

datatype call_args = NoArgs | ArgText string | ArgJson string

record call_part =
  cp_index :: "int option"
  cp_id :: string
  cp_name :: string
  cp_args :: call_args

record delta =
  dl_content :: string
  dl_think :: string
  dl_calls :: "call_part list"
  dl_tokens :: "string list"
  dl_finish :: string

record chunk =
  ch_error :: string
  ch_usage :: usage
  ch_model :: string
  ch_timings :: "rat option"
  ch_deltas :: "delta list"

record tool_call =
  tc_id :: string
  tc_name :: string
  tc_args :: string

definition no_call :: tool_call where
  "no_call = \<lparr>tc_id = [], tc_name = [], tc_args = []\<rparr>"

definition merge_part :: "call_part \<Rightarrow> tool_call \<Rightarrow> tool_call" where
  "merge_part part got =
     \<lparr>tc_id = (if cp_id part \<noteq> [] then cp_id part else tc_id got), tc_name = tc_name got @ cp_name part,
      tc_args = (case cp_args part of NoArgs \<Rightarrow> tc_args got | ArgText s \<Rightarrow> tc_args got @ s | ArgJson s \<Rightarrow> s)\<rparr>"

text \<open>A fragment without an index opens a call of its own, numbered by how many there are.\<close>

definition merge_call :: "(int \<times> tool_call) list \<Rightarrow> call_part \<Rightarrow> (int \<times> tool_call) list" where
  "merge_call calls part =
     (let k = (case cp_index part of None \<Rightarrow> int (length calls) | Some i \<Rightarrow> i)
      in dict_put k (merge_part part (get_or no_call calls k)) calls)"

section \<open>The fold\<close>

record stream_state =
  st_content :: "string list"
  st_reasoning :: "string list"
  st_tokens :: "string list"
  st_calls :: "(int \<times> tool_call) list"
  st_usage :: usage
  st_model :: string
  st_timings :: "rat option"
  st_finish :: string
  st_ttft :: "rat option"
  st_first_think :: "rat option"
  st_first_tool :: "rat option"

definition stream_start :: stream_state where
  "stream_start = \<lparr>st_content = [], st_reasoning = [], st_tokens = [], st_calls = [], st_usage = [], st_model = [],
     st_timings = None, st_finish = [], st_ttft = None, st_first_think = None, st_first_tool = None\<rparr>"

definition first_at :: "bool \<Rightarrow> rat \<Rightarrow> rat option \<Rightarrow> rat option" where
  "first_at seen now first = (case first of None \<Rightarrow> if seen then Some (round_to 4 now) else None | Some t \<Rightarrow> Some t)"

definition take_delta :: "rat \<Rightarrow> stream_state \<Rightarrow> delta \<Rightarrow> stream_state" where
  "take_delta now s d =
     s\<lparr>st_content := (if dl_content d \<noteq> [] then st_content s @ [dl_content d] else st_content s),
       st_ttft := first_at (dl_content d \<noteq> []) now (st_ttft s),
       st_reasoning := (if dl_think d \<noteq> [] then st_reasoning s @ [dl_think d] else st_reasoning s),
       st_first_think := first_at (dl_think d \<noteq> []) now (st_first_think s),
       st_calls := foldl merge_call (st_calls s) (dl_calls d),
       st_first_tool := first_at (dl_calls d \<noteq> []) now (st_first_tool s),
       st_tokens := st_tokens s @ dl_tokens d,
       st_finish := (if dl_finish d \<noteq> [] then dl_finish d else st_finish s)\<rparr>"

definition take_chunk :: "rat \<Rightarrow> stream_state \<Rightarrow> chunk \<Rightarrow> stream_state" where
  "take_chunk now s c =
     foldl (take_delta now)
       (s\<lparr>st_usage := (if ch_usage c \<noteq> [] then ch_usage c else st_usage s),
          st_model := (if ch_model c \<noteq> [] then ch_model c else st_model s),
          st_timings := (if ch_timings c \<noteq> None then ch_timings c else st_timings s)\<rparr>)
       (ch_deltas c)"

datatype stream_error = PastTimeout | ServerError string | BadLine

definition sse_data :: "string \<Rightarrow> string option" where
  "sse_data line = (if prefix ''data:'' line then Some (strip (drop 5 line)) else None)"

fun assemble_lines :: "(string \<Rightarrow> chunk option) \<Rightarrow> rat \<Rightarrow> (rat \<times> string) list \<Rightarrow> stream_state \<Rightarrow> stream_error + stream_state" where
  "assemble_lines json timeout [] s = Inr s"
| "assemble_lines json timeout ((now, line) # lines) s =
     (if now > timeout then Inl PastTimeout
      else (case sse_data line of
          None \<Rightarrow> assemble_lines json timeout lines s
        | Some data \<Rightarrow>
            if data = ''[DONE]'' then Inr s
            else (case json data of
                None \<Rightarrow> Inl BadLine
              | Some c \<Rightarrow> if ch_error c \<noteq> [] then Inl (ServerError (take 400 (ch_error c)))
                          else assemble_lines json timeout lines (take_chunk now s c))))"

record message =
  m_content :: "string option"
  m_reasoning :: "string option"
  m_calls :: "tool_call list"

definition joined_or_none :: "string list \<Rightarrow> string option" where
  "joined_or_none parts = (if parts = [] then None else Some (concat parts))"

definition message_of :: "stream_state \<Rightarrow> message" where
  "message_of s = \<lparr>m_content = joined_or_none (st_content s), m_reasoning = joined_or_none (st_reasoning s),
     m_calls = map snd (sort_key fst (st_calls s))\<rparr>"

text \<open>The body a whole reply would have had.\<close>

definition body_of :: "stream_state \<Rightarrow> body" where
  "body_of s = \<lparr>b_choices = [Message \<lparr>c_content = m_content (message_of s), c_reasoning = concat (st_reasoning s),
        c_finish = st_finish s, c_tokens = st_tokens s\<rparr>],
     b_model = st_model s, b_usage = st_usage s, b_prompt_ms = st_timings s\<rparr>"

definition assemble :: "(string \<Rightarrow> chunk option) \<Rightarrow> rat \<Rightarrow> (rat \<times> string) list \<Rightarrow> stream_error + stream_state" where
  "assemble json timeout lines = assemble_lines json timeout lines stream_start"

text \<open>A streamed request as a reply: past the limit it is a timeout, an unreadable line an unreadable body.\<close>

definition streamed_reply :: "(string \<Rightarrow> chunk option) \<Rightarrow> rat \<Rightarrow> (rat \<times> string) list \<Rightarrow> http_reply" where
  "streamed_reply json timeout lines = (case assemble json timeout lines of
       Inl PastTimeout \<Rightarrow> TimedOut
     | Inl (ServerError why) \<Rightarrow> MidStream why
     | Inl BadLine \<Rightarrow> Http 200 [] NotJson
     | Inr s \<Rightarrow> Http 200 [] (Object (body_of s)))"

section \<open>What the stream said\<close>

text \<open>The chunks read: those of the data lines before the end mark.\<close>

fun chunks_of :: "(string \<Rightarrow> chunk option) \<Rightarrow> (rat \<times> string) list \<Rightarrow> chunk list" where
  "chunks_of json [] = []"
| "chunks_of json ((now, line) # lines) = (case sse_data line of
      None \<Rightarrow> chunks_of json lines
    | Some data \<Rightarrow> if data = ''[DONE]'' then []
        else (case json data of None \<Rightarrow> [] | Some c \<Rightarrow> c # chunks_of json lines))"

definition deltas_of :: "chunk list \<Rightarrow> delta list" where
  "deltas_of cs = concat (map ch_deltas cs)"

definition parts_of :: "delta list \<Rightarrow> call_part list" where
  "parts_of ds = concat (map dl_calls ds)"

definition some_joined :: "string list \<Rightarrow> string option" where
  "some_joined parts = joined_or_none (filter (\<lambda>p. p \<noteq> []) parts)"

lemma take_delta_fold:
  "st_content (foldl (take_delta now) s ds) = st_content s @ filter (\<lambda>p. p \<noteq> []) (map dl_content ds) \<and>
   st_reasoning (foldl (take_delta now) s ds) = st_reasoning s @ filter (\<lambda>p. p \<noteq> []) (map dl_think ds) \<and>
   st_tokens (foldl (take_delta now) s ds) = st_tokens s @ concat (map dl_tokens ds) \<and>
   st_calls (foldl (take_delta now) s ds) = foldl merge_call (st_calls s) (parts_of ds)"
  by (induction ds arbitrary: s) (auto simp: take_delta_def parts_of_def)

lemma take_chunk_said:
  "st_content (take_chunk now s c) = st_content s @ filter (\<lambda>p. p \<noteq> []) (map dl_content (ch_deltas c)) \<and>
   st_reasoning (take_chunk now s c) = st_reasoning s @ filter (\<lambda>p. p \<noteq> []) (map dl_think (ch_deltas c)) \<and>
   st_tokens (take_chunk now s c) = st_tokens s @ concat (map dl_tokens (ch_deltas c)) \<and>
   st_calls (take_chunk now s c) = foldl merge_call (st_calls s) (parts_of (ch_deltas c))"
  unfolding take_chunk_def using take_delta_fold by simp

lemma deltas_Cons [simp]: "deltas_of (c # cs) = ch_deltas c @ deltas_of cs" "deltas_of [] = []"
  by (simp_all add: deltas_of_def)

lemma parts_append [simp]: "parts_of (ds @ es) = parts_of ds @ parts_of es" "parts_of [] = []"
  by (simp_all add: parts_of_def)

lemma assemble_lines_said:
  assumes "assemble_lines json timeout lines s = Inr s'"
  shows "st_content s' = st_content s @ filter (\<lambda>p. p \<noteq> []) (map dl_content (deltas_of (chunks_of json lines))) \<and>
    st_reasoning s' = st_reasoning s @ filter (\<lambda>p. p \<noteq> []) (map dl_think (deltas_of (chunks_of json lines))) \<and>
    st_tokens s' = st_tokens s @ concat (map dl_tokens (deltas_of (chunks_of json lines))) \<and>
    st_calls s' = foldl merge_call (st_calls s) (parts_of (deltas_of (chunks_of json lines)))"
  using assms
proof (induction lines arbitrary: s)
  case (Cons x lines)
  obtain now line where x: "x = (now, line)" by (cases x)
  show ?case
  proof (cases "sse_data line")
    case None
    then show ?thesis using Cons by (simp add: x split: if_splits)
  next
    case (Some data)
    show ?thesis
    proof (cases "data = ''[DONE]''")
      case True
      then show ?thesis using Some Cons.prems by (simp add: x split: if_splits)
    next
      case False
      then obtain c where c: "json data = Some c" and go_on: "assemble_lines json timeout lines (take_chunk now s c) = Inr s'"
        using Some Cons.prems by (auto simp: x split: if_splits option.splits)
      show ?thesis using Cons.IH [OF go_on] take_chunk_said [of now s c] Some False c by (simp add: x)
    qed
  qed
qed simp


section \<open>Tool calls\<close>

definition part_at :: "int \<Rightarrow> call_part \<Rightarrow> bool" where
  "part_at i p \<longleftrightarrow> cp_index p = Some i"

definition call_from :: "tool_call \<Rightarrow> call_part list \<Rightarrow> tool_call" where
  "call_from t ps = foldl (\<lambda>t p. merge_part p t) t ps"

lemma merge_calls_at:
  "list_all (\<lambda>p. cp_index p \<noteq> None) ps \<Longrightarrow>
   map_of (foldl merge_call calls ps) i =
     (if filter (part_at i) ps = [] then map_of calls i
      else Some (call_from (get_or no_call calls i) (filter (part_at i) ps)))"
proof (induction ps arbitrary: calls)
  case (Cons p ps)
  then obtain k where k: "cp_index p = Some k" by auto
  have m: "merge_call calls p = dict_put k (merge_part p (get_or no_call calls k)) calls" by (simp add: merge_call_def k)
  have pk: "part_at i p \<longleftrightarrow> k = i" for i by (simp add: part_at_def k)
  show ?case using Cons unfolding foldl_Cons m by (auto simp: pk get_or_def call_from_def)
qed simp

lemma merge_calls_keys:
  "list_all (\<lambda>p. cp_index p \<noteq> None) ps \<Longrightarrow>
   set (map fst (foldl merge_call calls ps)) = set (map fst calls) \<union> {i. \<exists>p \<in> set ps. part_at i p}"
proof (induction ps arbitrary: calls)
  case (Cons p ps)
  then obtain k where k: "cp_index p = Some k" by auto
  have "merge_call calls p = dict_put k (merge_part p (get_or no_call calls k)) calls" by (simp add: merge_call_def k)
  then show ?case using Cons keys_dict_put [of k "merge_part p (get_or no_call calls k)" calls]
    by (auto simp: part_at_def k)
qed simp

lemma merge_calls_distinct: "distinct (map fst calls) \<Longrightarrow> distinct (map fst (foldl merge_call calls ps))"
  by (induction ps arbitrary: calls) (auto simp: merge_call_def Let_def)

lemma sorted_by_key:
  assumes "distinct (map fst d)"
  shows "map snd (sort_key fst d) = map (\<lambda>k. the (map_of d k)) (sorted_list_of_set (set (map fst d)))"
proof -
  have "distinct (map fst (sort_key fst d))" using assms by (metis distinct_map distinct_sort set_sort)
  then have keys: "map fst (sort_key fst d) = sorted_list_of_set (set (map fst d))"
    using sorted_list_of_set.sorted_key_list_of_set_unique [of "set (map fst d)" "map fst (sort_key fst d)"]
      sorted_sort_key [of fst d] by (metis List.finite_set list.set_map set_sort sorted_distinct_set_unique
        sorted_list_of_set.distinct_sorted_key_list_of_set sorted_list_of_set.set_sorted_key_list_of_set
        sorted_list_of_set.sorted_sorted_key_list_of_set)
  have "map snd (sort_key fst d) = map (\<lambda>k. the (map_of d k)) (map fst (sort_key fst d))"
    using assms by (auto simp: map_of_is_SomeI)
  then show ?thesis using keys by simp
qed

text \<open>
  C23. A stream that is read to its end gives the message a whole reply would have: the content, the reasoning and the
  tokens are those of the chunks before the end mark, joined in order, nothing lost to how they were cut up or to the
  lines between; and when the fragments of the tool calls say which call they belong to, the calls are one per index,
  in index order, each made of exactly its own fragments however they interleave.
\<close>

theorem stream_reassembled:
  assumes "assemble json timeout lines = Inr s"
  shows "m_content (message_of s) = some_joined (map dl_content (deltas_of (chunks_of json lines))) \<and>
    m_reasoning (message_of s) = some_joined (map dl_think (deltas_of (chunks_of json lines))) \<and>
    st_tokens s = concat (map dl_tokens (deltas_of (chunks_of json lines))) \<and>
    (list_all (\<lambda>p. cp_index p \<noteq> None) (parts_of (deltas_of (chunks_of json lines))) \<longrightarrow>
       m_calls (message_of s) =
         map (\<lambda>i. call_from no_call (filter (part_at i) (parts_of (deltas_of (chunks_of json lines)))))
           (sorted_list_of_set {i. \<exists>p \<in> set (parts_of (deltas_of (chunks_of json lines))). part_at i p}))"
proof -
  define ps where "ps = parts_of (deltas_of (chunks_of json lines))"
  note said = assemble_lines_said [of json timeout lines stream_start s, folded assemble_def, OF assms]
  have calls: "st_calls s = foldl merge_call [] ps" using said by (simp add: stream_start_def ps_def)
  have "m_calls (message_of s) = map (\<lambda>i. call_from no_call (filter (part_at i) ps)) (sorted_list_of_set {i. \<exists>p \<in> set ps. part_at i p})"
    if "list_all (\<lambda>p. cp_index p \<noteq> None) ps"
  proof -
    have keys: "set (map fst (st_calls s)) = {i. \<exists>p \<in> set ps. part_at i p}" using merge_calls_keys [OF that, of "[]"] calls by simp
    have fin: "finite {i. \<exists>p \<in> set ps. part_at i p}" using keys by (metis List.finite_set)
    have "m_calls (message_of s) = map (\<lambda>k. the (map_of (st_calls s) k)) (sorted_list_of_set {i. \<exists>p \<in> set ps. part_at i p})"
      using sorted_by_key [of "st_calls s"] merge_calls_distinct [of "[]" ps] calls keys by (simp add: message_of_def)
    also have "\<dots> = map (\<lambda>i. call_from no_call (filter (part_at i) ps)) (sorted_list_of_set {i. \<exists>p \<in> set ps. part_at i p})"
      using merge_calls_at [OF that, of "[]"] fin by (auto simp: calls get_or_def filter_empty_conv)
    finally show ?thesis .
  qed
  then show ?thesis using said by (auto simp: message_of_def some_joined_def stream_start_def ps_def)
qed

end
