(* ===== verification/CompletionFacts.thy ===== *)
theory CompletionFacts
  imports Streaming
begin

text \<open>
  What a request to the gateway promises: at most four requests that all ask the same thing, an answer that is never
  blank, a failure of a known class, and a stream put together again.
\<close>

section \<open>Requests made again\<close>

text \<open>What two payloads of one request share: everything but how the words are split into turns and the streaming knobs.\<close>

definition same_question :: "payload \<Rightarrow> payload \<Rightarrow> bool" where
  "same_question p p' \<longleftrightarrow> p_model p = p_model p' \<and> p_max_tokens p = p_max_tokens p' \<and> p_knobs p = p_knobs p' \<and>
     p_template p = p_template p' \<and> p_schema p = p_schema p' \<and> p_top_logprobs p = p_top_logprobs p' \<and>
     join (NL @ NL) (map snd (p_messages p)) = join (NL @ NL) (map snd (p_messages p'))"

definition refused_why :: "http_reply \<Rightarrow> bool" where
  "refused_why r \<longleftrightarrow> (\<exists>txt. client_error r = Some txt \<and> (refuses_system_role txt \<or> sublist ''stream'' (lower txt)))"

definition requests_ok :: "server \<Rightarrow> payload \<Rightarrow> nat \<Rightarrow> payload list \<times> payload \<times> http_reply \<Rightarrow> bool" where
  "requests_ok server p0 n st \<longleftrightarrow> (case st of (sent, p, r) \<Rightarrow>
     sent \<noteq> [] \<and> length sent \<le> n \<and> hd sent = p0 \<and> p = last sent \<and> r = server (length sent - 1) p \<and>
     list_all (same_question p0) sent \<and> (\<forall>i < length sent - 1. refused_why (server i (sent ! i))))"

lemma requests_ok_again:
  assumes "requests_ok server p0 n (sent, p, r)" "refused_why r" "same_question p p'"
  shows "requests_ok server p0 (Suc n) (sent @ [p'], p', server (length sent) p')"
proof -
  have p: "p = sent ! (length sent - 1)" "r = server (length sent - 1) p" "sent \<noteq> []"
    using assms(1) by (auto simp: requests_ok_def last_conv_nth)
  have "same_question p0 p" using assms(1) p by (auto simp: requests_ok_def list_all_iff)
  then have "same_question p0 p'" using assms(3) by (simp add: same_question_def)
  moreover have "refused_why (server i ((sent @ [p']) ! i))" if "i < length sent" for i
    using assms(1,2) p that by (cases "i = length sent - 1") (auto simp: requests_ok_def nth_append)
  ultimately show ?thesis using assms(1) by (auto simp: requests_ok_def)
qed

lemma requests_ok_mono: "requests_ok server p0 n st \<Longrightarrow> requests_ok server p0 (Suc n) st"
  by (auto simp: requests_ok_def)

lemma one_turn_ok: "requests_ok server p0 n st \<Longrightarrow> requests_ok server p0 (Suc n) (again_one_turn server st)"
proof -
  assume ok: "requests_ok server p0 n st"
  obtain sent p r where st: "st = (sent, p, r)" by (cases st) auto
  have "same_question p (merge_system p)" by (simp add: same_question_def merge_system_def)
  moreover have "refused_why r" if "client_error r = Some said" "refuses_system_role said" for said
    using that by (auto simp: refused_why_def)
  ultimately show ?thesis
    using ok requests_ok_mono [OF ok] requests_ok_again [of server p0 n sent p r]
    by (auto simp: again_one_turn_def st Let_def split: option.splits)
qed

lemma without_ok:
  assumes "requests_ok server p0 n st" "\<And>p. same_question p ((dropping p)\<lparr>p_stream_options := False\<rparr>)"
  shows "requests_ok server p0 (Suc n) (again_without server has dropping st)"
proof -
  obtain sent p r where st: "st = (sent, p, r)" by (cases st) auto
  have "refused_why r" if "refuses_stream r"
    using that by (auto simp: refused_why_def refuses_stream_def split: option.splits)
  then show ?thesis
    using assms requests_ok_mono [OF assms(1)] requests_ok_again [of server p0 n sent p r]
    by (auto simp: again_without_def st Let_def)
qed

lemma requests_all_ok: "requests_ok server p 4 (requests server p)"
proof -
  have "requests_ok server p 1 ([p], p, server 0 p)" by (simp add: requests_ok_def same_question_def)
  from one_turn_ok [OF this] have "requests_ok server p (Suc (Suc 1))
      (again_without server p_stream_options (\<lambda>q. q) (again_one_turn server ([p], p, server 0 p)))"
    by (rule without_ok) (simp add: same_question_def)
  then have "requests_ok server p (Suc (Suc (Suc 1))) (requests server p)" unfolding requests_def
    by (rule without_ok) (simp add: same_question_def)
  then show ?thesis by (simp add: numeral_eq_Suc)
qed

text \<open>
  One completion is at most four requests. The first is the payload of the request; each later one follows a
  refusal of the caller's by name (a system turn, or streaming) and asks the same model the same words with the same
  budget and sampling; and what is reported is the outcome of the last of them.
\<close>

theorem requests_ask_the_same:
  "\<exists>sent. complete_full SYSTEM sent_key server q =
      (sent, outcome_of_reply sent_key q (server (length sent - 1) (last sent))) \<and>
    sent \<noteq> [] \<and> length sent \<le> 4 \<and> hd sent = payload_of SYSTEM q \<and> list_all (same_question (payload_of SYSTEM q)) sent \<and>
    (\<forall>i < length sent - 1. refused_why (server i (sent ! i)))"
proof -
  obtain sent p r where r: "requests server (payload_of SYSTEM q) = (sent, p, r)" by (cases "requests server (payload_of SYSTEM q)") auto
  then show ?thesis using requests_all_ok [of server "payload_of SYSTEM q"]
    by (intro exI [of _ sent]) (auto simp: complete_full_def requests_ok_def)
qed

section \<open>Outcomes\<close>

text \<open>
  C22. A completion is never blank, and a failure is of a known class: one of the known failure classes, or none where the
  server answered with an error of its own or broke the stream off, which \<open>classify\<close> reads. What is no
  \<open>CompletionError\<close> at all leaves the call exactly for a reply that is JSON but no object, or whose first message is
  none. The budget is blamed exactly when a whole reply came back without an answer but with reasoning, naming the
  budget that was spent; the key and the server's own errors exactly outside the 200s.
\<close>

theorem outcome_is_classed:
  "case outcome_of_reply sent_key q r of
     Inr c \<Rightarrow> strip (cm_text c) \<noteq> [] \<and> (\<exists>status txt b ch chs. r = Http status txt (Object b) \<and> 200 \<le> status \<and> status < 300 \<and>
        b_choices b = Message ch # chs \<and> c_content ch = Some (cm_text c))
   | Inl e \<Rightarrow> (failure_class e \<in> set (map fst CLASSES) \<or>
          failure_class e = [] \<and> ((\<exists>n txt. e = EHttp n txt) \<or> (\<exists>why. e = EMidStream why) \<or> e = EUncaught)) \<and>
        (e = EUncaught \<longleftrightarrow> (\<exists>status txt json. r = Http status txt json \<and> 200 \<le> status \<and> status < 300 \<and>
             (json = NotObject \<or> (\<exists>b chs. json = Object b \<and> b_choices b = BadMessage # chs)))) \<and>
        ((\<exists>n txt. e = EHttp n txt) \<or> (\<exists>n. e = EKeyRefused n) \<longleftrightarrow>
          (\<exists>status txt json. r = Http status txt json \<and> (status < 200 \<or> 300 \<le> status))) \<and>
        ((\<exists>m n spent chars. e = EBudget m n spent chars) \<longleftrightarrow>
          (\<exists>status txt b ch chs. r = Http status txt (Object b) \<and> 200 \<le> status \<and> status < 300 \<and>
             b_choices b = Message ch # chs \<and> blank (c_content ch) \<and> c_reasoning ch \<noteq> [])) \<and>
        (\<forall>m n spent chars. e = EBudget m n spent chars \<longrightarrow> m = q_model q \<and> n = q_max_tokens q \<and> 0 < chars)"
proof (cases r)
  case (Http status said json)
  show ?thesis
  proof (cases "200 \<le> status \<and> status < 300")
    case True
    note [simp] = Http outcome_of_reply_def read_body_def CLASSES_def
    show ?thesis
    proof (cases json)
      case (Object b)
      show ?thesis
      proof (cases "b_choices b")
        case (Cons c chs)
        then show ?thesis using True Object
          by (cases c) (auto simp: blank_def split: option.splits)
      qed (use True Object in simp)
    qed (use True in simp_all)
  next
    case False
    then show ?thesis using Http by (auto simp: outcome_of_reply_def CLASSES_def)
  qed
qed (simp_all add: outcome_of_reply_def CLASSES_def)

text \<open>A reply that is a JSON list, or whose first message is null, ends the call with an exception nobody turned into a failure.\<close>

lemma bodies_that_are_uncaught:
  "outcome_of_reply sent_key q (Http 200 [] NotObject) = Inl EUncaught"
  "b_choices b = BadMessage # chs \<Longrightarrow> outcome_of_reply sent_key q (Http 200 [] (Object b)) = Inl EUncaught"
  by (simp_all add: outcome_of_reply_def read_body_def)

section \<open>Concrete requests\<close>

definition demo_request :: request where
  "demo_request = \<lparr>q_prompt = ''hi'', q_model = ''q4'', q_modality = ''code'', q_context = [], q_timeout = 180, q_temperature = None,
     q_max_tokens = 10, q_sampling = [], q_template = [], q_top_logprobs = 0, q_stream = False, q_system = [], q_schema = None\<rparr>"

definition demo_body :: "string option \<Rightarrow> string \<Rightarrow> body" where
  "demo_body answer thought = \<lparr>b_choices = [Message \<lparr>c_content = answer, c_reasoning = thought, c_finish = ''stop'', c_tokens = []\<rparr>],
     b_model = ''qwen'', b_usage = [(''completion_tokens'', 10)], b_prompt_ms = None\<rparr>"

text \<open>A server without a system role, which answers the merged turn.\<close>

definition demo_server :: server where
  "demo_server n p = (if n = 0 then Http 400 ''System role not supported'' NotJson else Http 200 [] (Object (demo_body (Some ''yes'') [])))"

theorem requests_witness:
  "\<exists>sent. fst (complete_full [] ''key'' demo_server demo_request) = sent \<and> length sent = 2 \<and> refused_why (demo_server 0 (sent ! 0)) \<and>
     map snd (p_messages (last sent)) = [''Answer directly and concisely.'' @ NL @ NL @ ''hi'']"
proof -
  obtain sent where sent: "complete_full [] ''key'' demo_server demo_request =
      (sent, outcome_of_reply ''key'' demo_request (demo_server (length sent - 1) (last sent)))"
    and why: "\<forall>i < length sent - 1. refused_why (demo_server i (sent ! i))"
    using requests_ask_the_same [of "[]" "''key''" demo_server demo_request] by blast
  have "length (fst (complete_full [] ''key'' demo_server demo_request)) = 2"
    "map snd (p_messages (last (fst (complete_full [] ''key'' demo_server demo_request)))) =
       [''Answer directly and concisely.'' @ NL @ NL @ ''hi'']" by code_simp+
  then show ?thesis using sent why by (intro exI [of _ sent]) auto
qed

theorem outcome_witness:
  "outcome_of_reply ''key'' demo_request (Http 200 [] (Object (demo_body None ''hmm''))) = Inl (EBudget ''q4'' 10 (Some 10) 3) \<and>
   failure_class (EBudget ''q4'' 10 (Some 10) 3) \<in> set (map fst CLASSES)"
proof -
  have "outcome_of_reply ''key'' demo_request (Http 200 [] (Object (demo_body None ''hmm''))) = Inl (EBudget ''q4'' 10 (Some 10) 3)"
    by code_simp
  then show ?thesis using outcome_is_classed [where sent_key = "''key''" and q = demo_request and r = "Http 200 [] (Object (demo_body None ''hmm''))"] by auto
qed

text \<open>Two chunks around a comment line: the content is cut in two, and two calls interleave.\<close>

definition demo_part :: "int \<Rightarrow> string \<Rightarrow> string \<Rightarrow> call_part" where
  "demo_part i name args = \<lparr>cp_index = Some i, cp_id = [], cp_name = name, cp_args = ArgText args\<rparr>"

definition demo_chunk :: "string \<Rightarrow> call_part list \<Rightarrow> chunk" where
  "demo_chunk content parts = \<lparr>ch_error = [], ch_usage = [], ch_model = [], ch_timings = None,
     ch_deltas = [\<lparr>dl_content = content, dl_think = [], dl_calls = parts, dl_tokens = [], dl_finish = []\<rparr>]\<rparr>"

definition demo_json :: "string \<Rightarrow> chunk option" where
  "demo_json data =
     (if data = ''a'' then Some (demo_chunk ''ye'' [demo_part 1 ''g'' ''1'', demo_part 0 ''f'' ''2''])
      else if data = ''b'' then Some (demo_chunk ''s'' [demo_part 1 [] ''3'']) else None)"

definition demo_lines :: "(rat \<times> string) list" where
  "demo_lines = [(1, ''data: a''), (2, '': ping''), (3, ''data: b''), (4, ''data: [DONE]'')]"

theorem stream_witness:
  "\<exists>s. assemble demo_json 10 demo_lines = Inr s \<and> m_content (message_of s) = Some ''yes'' \<and>
     map tc_args (m_calls (message_of s)) = [''2'', ''13'']"
proof -
  have "case assemble demo_json 10 demo_lines of Inl e \<Rightarrow> False | Inr s \<Rightarrow> map tc_args (m_calls (message_of s)) = [''2'', ''13'']"
    by code_simp
  then obtain s where s: "assemble demo_json 10 demo_lines = Inr s" "map tc_args (m_calls (message_of s)) = [''2'', ''13'']"
    by (auto split: sum.splits)
  have "some_joined (map dl_content (deltas_of (chunks_of demo_json demo_lines))) = Some ''yes''" by code_simp
  then show ?thesis using stream_reassembled [OF s(1)] s by auto
qed

end
