(* ===== verification/Rank.thy ===== *)
theory Rank
  imports Lanes
begin

text \<open>
  The order of the queue of candidates (\<open>harness/rank.py\<close>): what a screen of each would teach, which are dropped, and
  what is reported instead of ranked, grouped; whether a name says it attaches to a model (\<open>harness/screen.py\<close>); and the
  BM25 ranking that is the retrieval lane's incumbent (\<open>harness/lexical_rank.py\<close>). What reads a regular expression, the
  logarithm, the engines that load adapters and the runtimes of this machine are arguments.
\<close>

section \<open>A candidate\<close>

record cand =
  k_name :: string
  k_lane :: string
  k_lane_source :: string
  k_times :: nat
  k_last_seen :: rat
  k_parents :: "string list"
  k_size :: nat
  k_attaches :: string
  k_runtime :: string
  k_registry :: string
  k_task :: string
  k_category :: string
  k_tags :: "string list"

definition GIB :: rat where "GIB = 1073741824"
definition RECURRENCE :: rat where "RECURRENCE = 2"
definition OPEN_LANE :: rat where "OPEN_LANE = 3"
definition KNOWN_LINEAGE :: rat where "KNOWN_LINEAGE = - 4"
definition NO_LANE :: rat where "NO_LANE = - 6"
definition PARKED_LANE :: rat where "PARKED_LANE = - 8"
definition CHEAP :: rat where "CHEAP = 1"
definition PRIORITY :: rat where "PRIORITY = 2"
definition GITHUB :: string where "GITHUB = ''github''"
definition TECHNIQUE :: string where "TECHNIQUE = ''technique''"

definition cand_parents :: "cand \<Rightarrow> string list" where
  "cand_parents r = map (\<lambda>p. lower (strip p)) (filter (\<lambda>p. p \<noteq> []) (k_parents r))"

definition lane_of :: "cand \<Rightarrow> string" where
  "lane_of r = canonical (k_lane r)"

fun index_of :: "'a \<Rightarrow> 'a list \<Rightarrow> nat" where
  "index_of x [] = 0"
| "index_of x (y # ys) = (if x = y then 0 else Suc (index_of x ys))"

definition priority_of :: "string \<Rightarrow> rat" where
  "priority_of lane0 =
     (let lane = lower (strip lane0)
      in if lane \<notin> set WANTED then 0
         else PRIORITY * (of_nat (length WANTED) - of_nat (index_of lane WANTED)) / of_nat (length WANTED))"

section \<open>The value of a screen\<close>

datatype value_why = NoLane | Parked string string | NoReceipt string | WantedLane string | SeenTimes nat | Requant "string list" | CheapAt rat

definition lane_value :: "string list \<Rightarrow> string \<Rightarrow> rat \<times> value_why list" where
  "lane_value measured lane =
     (if lane = [] then (NO_LANE, [NoLane])
      else if fst (parked lane) \<noteq> [] then (PARKED_LANE, [Parked lane (snd (parked lane))])
      else if lane \<notin> set measured then (OPEN_LANE, [NoReceipt lane])
      else (0, []))"

definition priority_value :: "string \<Rightarrow> rat \<times> value_why list" where
  "priority_value lane =
     (if lane \<noteq> [] \<and> priority_of lane \<noteq> 0 then (priority_of lane, [WantedLane lane]) else (0, []))"

definition recurrence_value :: "nat \<Rightarrow> rat \<times> value_why list" where
  "recurrence_value n = (if n > 1 then (RECURRENCE * (1 - 1 / of_nat n), [SeenTimes n]) else (0, []))"

definition known_parents :: "string list \<Rightarrow> cand \<Rightarrow> string list" where
  "known_parents serving r =
     remdups (filter (\<lambda>p. \<exists>s \<in> set serving. p = s \<or> sublist p s \<or> sublist s p) (cand_parents r))"

definition lineage_value :: "string list \<Rightarrow> cand \<Rightarrow> rat \<times> value_why list" where
  "lineage_value serving r =
     (if known_parents serving r \<noteq> [] then (KNOWN_LINEAGE, [Requant (sort (known_parents serving r))]) else (0, []))"

definition size_value :: "rat \<Rightarrow> nat \<Rightarrow> rat \<times> value_why list" where
  "size_value cap_gib bytes =
     (let gib = of_nat bytes / GIB in if 0 < gib \<and> gib \<le> cap_gib / 4 then (CHEAP, [CheapAt gib]) else (0, []))"

definition cand_value :: "string list \<Rightarrow> string list \<Rightarrow> rat \<Rightarrow> cand \<Rightarrow> rat \<times> value_why list" where
  "cand_value serving measured cap_gib r =
     (let parts = [lane_value measured (lane_of r), priority_value (lane_of r), recurrence_value (k_times r),
                   lineage_value serving r, size_value cap_gib (k_size r)]
      in (sum_list (map fst parts), concat (map snd parts)))"

section \<open>What is dropped\<close>

definition NOT_A_MODEL :: "string list" where
  "NOT_A_MODEL = [''lora'', ''comfyui'', ''workflow'', ''adapter'', ''controlnet'', ''textual_inversion'', ''embedding'',
     ''browser'', ''extension'', ''plugin'', ''gui'', ''toolkit'', ''cli-tool'', ''video-editing'', ''image-editing'']"

definition NOT_A_MODEL_EXCEPTIONS :: "string list" where
  "NOT_A_MODEL_EXCEPTIONS = [''lora-ready'', ''text-embeddings-inference'']"

text \<open>\<open>s.replace(a, "")\<close>, from left to right; \<open>n\<close> bounds the characters left to drop.\<close>

fun remove_all :: "string \<Rightarrow> nat \<Rightarrow> string \<Rightarrow> string" where
  "remove_all a n [] = []"
| "remove_all a (Suc n) (x # xs) = remove_all a n xs"
| "remove_all a 0 (x # xs) = (if a \<noteq> [] \<and> prefix a (x # xs) then remove_all a (length a - 1) xs else x # remove_all a 0 xs)"

definition is_attachment :: "string \<Rightarrow> string" where
  "is_attachment description =
     (let txt = foldl (\<lambda>t allowed. remove_all allowed 0 t) (lower description) NOT_A_MODEL_EXCEPTIONS
      in case find (\<lambda>w. sublist w txt) NOT_A_MODEL of None \<Rightarrow> [] | Some w \<Rightarrow> w)"

definition ADAPTER_KINDS :: "string list" where
  "ADAPTER_KINDS = [''lora'', ''adapter'']"

definition takes_attachment :: "(string \<Rightarrow> bool) \<Rightarrow> string \<Rightarrow> string \<Rightarrow> bool" where
  "takes_attachment adapters lane kind \<longleftrightarrow> lower (strip kind) \<in> set ADAPTER_KINDS \<and> adapters (canonical lane)"

definition attachment_kind :: "cand \<Rightarrow> string" where
  "attachment_kind r = (if k_attaches r \<noteq> [] then k_attaches r else is_attachment (k_name r))"

definition ALWAYS :: string where "ALWAYS = ''cpu''"

definition refuses :: "string list \<Rightarrow> string \<Rightarrow> string" where
  "refuses runtimes runtime = (if runtime = ALWAYS \<or> runtime \<in> set runtimes then [] else ''needs-'' @ runtime)"

definition unrunnable :: "(string \<Rightarrow> bool) \<Rightarrow> string list \<Rightarrow> cand \<Rightarrow> string" where
  "unrunnable gguf_named runtimes r =
     (if gguf_named (k_name r) then refuses runtimes ''llamacpp''
      else if k_runtime r \<noteq> [] then refuses runtimes (k_runtime r) else [])"

definition is_technique :: "cand \<Rightarrow> bool" where
  "is_technique r \<longleftrightarrow> k_category r = TECHNIQUE"

definition is_tool :: "cand \<Rightarrow> bool" where
  "is_tool r \<longleftrightarrow> k_registry r = GITHUB \<and> strip (k_task r) = [] \<and> \<not> is_technique r"

record rank_env =
  re_adapters :: "string \<Rightarrow> bool"
  re_gguf :: "string \<Rightarrow> bool"
  re_runtimes :: "string list"

definition rankable :: "rank_env \<Rightarrow> bool \<Rightarrow> cand \<Rightarrow> bool" where
  "rankable env keep_laneless r \<longleftrightarrow>
     (keep_laneless \<or> lane_of r \<noteq> []) \<and>
     (attachment_kind r = [] \<or> takes_attachment (re_adapters env) (lane_of r) (attachment_kind r)) \<and>
     unrunnable (re_gguf env) (re_runtimes env) r = [] \<and> \<not> is_technique r"

text \<open>A ranked row: the candidate with its value and why.\<close>

record ranked =
  rk_cand :: cand
  rk_value :: rat
  rk_why :: "value_why list"

definition rank_key :: "ranked \<Rightarrow> rat \<times> rat \<times> string" where
  "rank_key x = (- rk_value x, - k_last_seen (rk_cand x), k_name (rk_cand x))"

definition rank_rows :: "rank_env \<Rightarrow> string list \<Rightarrow> string list \<Rightarrow> rat \<Rightarrow> bool \<Rightarrow> cand list \<Rightarrow> ranked list" where
  "rank_rows env serving measured cap_gib keep_laneless rows =
     sort_key rank_key
       (map (\<lambda>r. case cand_value (map lower serving) (map lower measured) cap_gib r of
               (v, why) \<Rightarrow> \<lparr>rk_cand = r, rk_value = v, rk_why = why\<rparr>)
         (filter (rankable env keep_laneless) rows))"

section \<open>What is reported instead\<close>

definition laneless :: "nat \<Rightarrow> cand list \<Rightarrow> cand list" where
  "laneless minimum rows = filter (\<lambda>r. lane_of r = [] \<and> k_times r \<ge> minimum \<and> attachment_kind r = []) rows"

definition seen_key :: "cand \<Rightarrow> int \<times> string" where
  "seen_key r = (- int (k_times r), k_name r)"

definition wanted_rows :: "nat \<Rightarrow> cand list \<Rightarrow> cand list" where
  "wanted_rows minimum rows = sort_key seen_key (filter (\<lambda>r. \<not> is_tool r \<and> \<not> is_technique r) (laneless minimum rows))"

definition tools_wanted :: "nat \<Rightarrow> cand list \<Rightarrow> cand list" where
  "tools_wanted minimum rows = sort_key seen_key (filter is_tool (laneless minimum rows))"

definition by_seen :: "cand list \<Rightarrow> cand list" where
  "by_seen rows = sort_key (\<lambda>r. (- int (k_times r), - k_last_seen r, k_name r)) rows"

text \<open>Groups in the order their keys first come up, each holding its members in order.\<close>

definition group_rows :: "('a \<Rightarrow> 'k) \<Rightarrow> 'a list \<Rightarrow> ('k \<times> 'a list) list" where
  "group_rows key rows = foldl (\<lambda>d r. dict_put (key r) (get_or [] d (key r) @ [r]) d) [] rows"

text \<open>\<open>technique_route\<close>: a technique's lane, or what its prose routes to (\<open>prose\<close>).\<close>

definition SERVING_ROUTE :: string where "SERVING_ROUTE = ''serving''"
definition GENERAL_ROUTE :: string where "GENERAL_ROUTE = ''general''"

definition technique_route :: "(cand \<Rightarrow> string) \<Rightarrow> cand \<Rightarrow> string" where
  "technique_route prose r =
     (let lane = lane_of r
      in if lane \<noteq> [] \<and> \<not> (lane = ''code'' \<and> k_lane_source r = ''prose'') then lane else prose r)"

record technique_group =
  tg_lane :: string
  tg_rows :: "cand list"
  tg_sightings :: nat

definition techniques_wanted :: "(cand \<Rightarrow> string) \<Rightarrow> string \<Rightarrow> cand list \<Rightarrow> technique_group list" where
  "techniques_wanted prose want rows =
     sort_key (\<lambda>g. (- int (length (tg_rows g)), - int (tg_sightings g), tg_lane g))
       (map (\<lambda>(lane, ms). \<lparr>tg_lane = lane, tg_rows = by_seen ms, tg_sightings = sum_list (map k_times ms)\<rparr>)
         (group_rows (technique_route prose)
           (filter (\<lambda>r. technique_route prose r \<in> set ALL_LANES \<and> (want = [] \<or> serves (technique_route prose r) want)) rows)))"

definition ROUTES :: "string list" where "ROUTES = [SERVING_ROUTE, GENERAL_ROUTE, []]"

text \<open>A route that is neither a lane nor a bucket raises a \<open>KeyError\<close>: \<^const>\<open>None\<close>.\<close>

definition techniques_unlaned :: "(cand \<Rightarrow> string) \<Rightarrow> cand list \<Rightarrow> (string \<times> cand list) list option" where
  "techniques_unlaned prose rows =
     (let unlaned = filter (\<lambda>r. technique_route prose r \<notin> set ALL_LANES) rows
      in if \<forall>r \<in> set unlaned. technique_route prose r \<in> set ROUTES
         then Some (map (\<lambda>k. (k, by_seen (filter (\<lambda>r. technique_route prose r = k) unlaned))) ROUTES) else None)"

definition techniques_laneless :: "(cand \<Rightarrow> string) \<Rightarrow> cand list \<Rightarrow> nat option" where
  "techniques_laneless prose rows = map_option (\<lambda>d. sum_list (map (length \<circ> snd) d)) (techniques_unlaned prose rows)"

definition MEASURABLE :: "(string \<times> string) list" where
  "MEASURABLE = [(''translation'', ''chrF''), (''ocr'', ''CER''), (''image-to-text'', ''CER''), (''text-ranking'', ''recall@k''),
     (''text-retrieval'', ''recall@k''), (''retrieval'', ''recall@k''), (''token-classification'', ''F1'')]"

definition NO_TASK :: string where "NO_TASK = ''(no task on the card)''"

definition TASK_SUFFIXES :: "string list" where
  "TASK_SUFFIXES = [''-classification'', ''-ranking'', ''-retrieval'', ''-detection'', ''-segmentation'', ''-extraction'',
     ''-similarity'', ''-answering'', ''-generation'', ''-estimation'', ''-forecasting'']"

definition metric_for :: "string \<Rightarrow> string" where
  "metric_for task = get_or [] MEASURABLE task"

definition cand_tags :: "cand \<Rightarrow> string list" where
  "cand_tags r = map (\<lambda>t. lower (strip t)) (filter (\<lambda>t. strip t \<noteq> []) (k_tags r))"

text \<open>\<open>is_ocr\<close>: a tag one of whose words, cut at \<open>-\<close>, \<open>_\<close>, \<open>:\<close> and space, is \<open>ocr\<close>.\<close>

fun cut_words :: "(char \<Rightarrow> bool) \<Rightarrow> string \<Rightarrow> string list" where
  "cut_words sep [] = [[]]"
| "cut_words sep (x # xs) =
     (if sep x then [] # cut_words sep xs
      else (case cut_words sep xs of [] \<Rightarrow> [[x]] | w # ws \<Rightarrow> (x # w) # ws))"

definition is_ocr :: "string list \<Rightarrow> bool" where
  "is_ocr tags \<longleftrightarrow>
     (\<exists>t \<in> set tags. ''ocr'' \<in> set (cut_words (\<lambda>c. c \<in> {CHR ''-'', CHR ''_'', CHR '':''} \<or> is_space c) (lower (strip t))))"

definition task_of :: "cand \<Rightarrow> string" where
  "task_of r =
     (let tags = cand_tags r; task = lower (strip (k_task r))
      in if is_ocr tags then ''ocr''
         else if task \<noteq> [] then task
         else (case find (\<lambda>t. t \<in> set (map fst MEASURABLE) \<or> sublist ''-to-'' t \<or> (\<exists>s \<in> set TASK_SUFFIXES. suffix s t) \<or>
                     t \<in> {''translation'', ''summarization'', ''fill-mask''}) tags of
                 None \<Rightarrow> NO_TASK | Some t \<Rightarrow> t))"

datatype fits = FitsYes | FitsNo | FitsUnknown

record wanted_group =
  wg_task :: string
  wg_models :: "string list"
  wg_publishers :: "string list"
  wg_sightings :: nat
  wg_fits :: fits
  wg_metric :: string

definition group_of :: "rat \<Rightarrow> string \<times> cand list \<Rightarrow> wanted_group" where
  "group_of cap_gib g =
     (let sized = filter (\<lambda>s. s > 0) (map (\<lambda>m. of_nat (k_size m) / GIB) (snd g))
      in \<lparr>wg_task = fst g, wg_models = sort (map k_name (snd g)),
          wg_publishers = sort (remdups (map (\<lambda>m. lower (hd (split_at CHR ''/'' (k_name m)))) (snd g))),
          wg_sightings = sum_list (map k_times (snd g)),
          wg_fits = (if sized = [] then FitsUnknown else if \<exists>s \<in> set sized. s \<le> cap_gib then FitsYes else FitsNo),
          wg_metric = metric_for (fst g)\<rparr>)"

definition wanted_groups :: "rat \<Rightarrow> nat \<Rightarrow> cand list \<Rightarrow> wanted_group list" where
  "wanted_groups cap_gib minimum rows =
     sort_key (\<lambda>g. (- int (length (wg_models g)), - int (wg_sightings g), wg_task g))
       (map (group_of cap_gib) (group_rows task_of (wanted_rows minimum rows)))"

section \<open>BM25\<close>

definition is_token_char :: "char \<Rightarrow> bool" where
  "is_token_char c \<longleftrightarrow> is_digit c \<or> (CHR ''a'' \<le> c \<and> c \<le> CHR ''z'')"

definition bm_tokens :: "string \<Rightarrow> string list" where
  "bm_tokens txt = filter (\<lambda>w. w \<noteq> []) (cut_words (\<lambda>c. \<not> is_token_char c) (lower txt))"

definition bm_idf :: "(rat \<Rightarrow> rat) \<Rightarrow> string list list \<Rightarrow> string \<Rightarrow> rat" where
  "bm_idf logn bodies w =
     (let n = of_nat (length bodies); df = of_nat (length (filter (\<lambda>t. w \<in> set t) bodies))
      in logn (1 + (n - df + 1 / 2) / (df + 1 / 2)))"

definition bm_score :: "(rat \<Rightarrow> rat) \<Rightarrow> rat \<Rightarrow> rat \<Rightarrow> string list list \<Rightarrow> string list \<Rightarrow> string list \<Rightarrow> rat" where
  "bm_score logn k1 b bodies terms body =
     (let avg = (if bodies = [] then 0 else of_nat (sum_list (map length bodies)) / of_nat (length bodies))
      in sum_list (map (\<lambda>w. let f = of_nat (count_list body w)
           in if f = 0 then 0 else bm_idf logn bodies w * f * (k1 + 1) / (f + k1 * (1 - b + b * of_nat (length body) / avg))) terms))"

definition bm_rank :: "(rat \<Rightarrow> rat) \<Rightarrow> rat \<Rightarrow> rat \<Rightarrow> string \<Rightarrow> (string \<times> string) list \<Rightarrow> string list" where
  "bm_rank logn k1 b query docs =
     (let bodies = map (\<lambda>d. bm_tokens (snd d)) docs; terms = remdups (bm_tokens query);
          scored = zip (map (\<lambda>body. - bm_score logn k1 b bodies terms body) bodies) [0..<length docs]
      in map (\<lambda>x. fst (docs ! snd x)) (sort_key (\<lambda>x. x) scored))"

end
