(* ===== verification/RankFacts.thy ===== *)
theory RankFacts
  imports Rank
begin

text \<open>
  What the order of the queue promises: it depends on the candidates and not on how they came, a wanted lane never makes
  up for a candidate being a copy of what is served, recurrence says less each time, and the groups reported account for
  every candidate once. And the BM25 ranking is the stable sort by score.
\<close>

section \<open>The order\<close>

lemma sort_key_perm:
  "mset xs = mset ys \<Longrightarrow> inj_on f (set xs) \<Longrightarrow> sort_key f xs = sort_key f ys"
  by (rule sort_key_inj_key_eq) simp_all

interpretation queue: ranking "sort_key rank_key" rank_key
  by (rule sort_key_ranking)

definition ranked_of :: "string list \<Rightarrow> string list \<Rightarrow> rat \<Rightarrow> cand \<Rightarrow> ranked" where
  "ranked_of serving measured cap_gib r =
     (case cand_value (map lower serving) (map lower measured) cap_gib r of (v, why) \<Rightarrow> \<lparr>rk_cand = r, rk_value = v, rk_why = why\<rparr>)"

lemma rank_rows_alt:
  "rank_rows env serving measured cap_gib keep rows =
     sort_key rank_key (map (ranked_of serving measured cap_gib) (filter (rankable env keep) rows))"
  by (simp add: rank_rows_def ranked_of_def [abs_def])

lemma rk_cand_ranked [simp]: "rk_cand (ranked_of serving measured cap_gib r) = r"
  by (simp add: ranked_of_def split: prod.split)

text \<open>
  The queue holds exactly the candidates something here can run, each once with its value and its reasons, best
  first; candidates of different names come out in the same order whatever order they were read in, and a candidate
  is never behind one of lower value.
\<close>

theorem rank_is_reproducible:
  assumes "distinct (map k_name rows)" "mset rows = mset rows'"
  shows "rank_rows env serving measured cap_gib keep rows = rank_rows env serving measured cap_gib keep rows' \<and>
    mset (map rk_cand (rank_rows env serving measured cap_gib keep rows)) = filter_mset (rankable env keep) (mset rows) \<and>
    sorted (map (\<lambda>x. - rk_value x) (rank_rows env serving measured cap_gib keep rows))"
proof -
  let ?xs = "map (ranked_of serving measured cap_gib) (filter (rankable env keep) rows)"
  have "mset ?xs = mset (map (ranked_of serving measured cap_gib) (filter (rankable env keep) rows'))" using assms(2) by simp
  moreover have "inj_on k_name (set rows)" using assms(1) by (simp add: distinct_map)
  then have "inj_on rank_key (set ?xs)" by (auto simp: inj_on_def rank_key_def dest: arg_cong [of _ _ rk_cand])
  ultimately have "rank_rows env serving measured cap_gib keep rows = rank_rows env serving measured cap_gib keep rows'"
    unfolding rank_rows_alt by (rule sort_key_perm)
  moreover have "mset (map rk_cand (sort_key rank_key ?xs)) = filter_mset (rankable env keep) (mset rows)"
    by (simp add: multiset.map_comp comp_def)
  moreover have "sorted_wrt (\<lambda>x y. rank_key x \<le> rank_key y) (sort_key rank_key ?xs)"
    using sorted_sort_key [of rank_key ?xs] by (simp add: sorted_map)
  then have "sorted_wrt (\<lambda>x y. - rk_value x \<le> - rk_value y) (sort_key rank_key ?xs)"
    by (rule sorted_wrt_mono_rel [rotated]) (auto simp: rank_key_def less_eq_prod_def)
  then have "sorted (map (\<lambda>x. - rk_value x) (sort_key rank_key ?xs))" by (simp add: sorted_map)
  ultimately show ?thesis by (simp add: rank_rows_alt)
qed

definition fresh_cand :: cand where
  "fresh_cand = \<lparr>k_name = ''new/model'', k_lane = ''image'', k_lane_source = [], k_times = 3, k_last_seen = 7, k_parents = [],
     k_size = 0, k_attaches = [], k_runtime = [], k_registry = ''hf'', k_task = [], k_category = [], k_tags = []\<rparr>"

definition served_copy :: cand where
  "served_copy = fresh_cand\<lparr>k_name := ''new/copy'', k_parents := [''served/base'']\<rparr>"

definition plain_env :: rank_env where
  "plain_env = \<lparr>re_adapters = \<lambda>_. False, re_gguf = \<lambda>_. False, re_runtimes = []\<rparr>"

lemma copy_sorts_last: "map (k_name \<circ> rk_cand) (rank_rows plain_env [''Served/Base''] [] 24 False [fresh_cand, served_copy]) = [''new/model'', ''new/copy'']"
  by code_simp

theorem rank_is_reproducible_witness:
  "map (k_name \<circ> rk_cand) (rank_rows plain_env [''Served/Base''] [] 24 False [served_copy, fresh_cand]) = [''new/model'', ''new/copy'']"
proof -
  have "distinct (map k_name [served_copy, fresh_cand])" "mset [served_copy, fresh_cand] = mset [fresh_cand, served_copy]"
    by (simp_all add: served_copy_def fresh_cand_def)
  then have "rank_rows plain_env [''Served/Base''] [] 24 False [served_copy, fresh_cand] = rank_rows plain_env [''Served/Base''] [] 24 False [fresh_cand, served_copy]"
    by (rule rank_is_reproducible [THEN conjunct1])
  then show ?thesis using copy_sorts_last by (simp only:)
qed

section \<open>Values\<close>

lemma index_of_less: "x \<in> set xs \<Longrightarrow> index_of x xs < length xs"
  by (induction xs) auto

lemma priority_bounds: "0 \<le> priority_of lane \<and> priority_of lane \<le> PRIORITY"
proof -
  define n :: rat where "n = of_nat (length WANTED)"
  define i :: rat where "i = of_nat (index_of (lower (strip lane)) WANTED)"
  have "0 < n" by (simp add: n_def WANTED_def)
  show ?thesis
  proof (cases "lower (strip lane) \<in> set WANTED")
    case True
    then have "i \<le> n" "0 \<le> i" using index_of_less [OF True] by (simp_all add: n_def i_def)
    define q where "q = (n - i) / n"
    have "0 \<le> q" "q \<le> 1" using \<open>i \<le> n\<close> \<open>0 \<le> i\<close> \<open>0 < n\<close> by (simp_all add: q_def field_simps)
    moreover have "priority_of lane = PRIORITY * q" using True by (simp add: priority_of_def n_def i_def q_def)
    ultimately show ?thesis by (simp add: PRIORITY_def)
  qed (simp add: priority_of_def PRIORITY_def)
qed

text \<open>
  A wanted lane breaks ties and no more: of two candidates alike in everything a screen's value looks at but their
  lanes' priorities, one that is a copy of a model already served is always worth less than one that is not.
\<close>

theorem priority_never_outranks_lineage:
  assumes "fst (lane_value measured (lane_of a)) = fst (lane_value measured (lane_of b))" "k_times a = k_times b" "k_size a = k_size b"
    and "known_parents serving a = []" "known_parents serving b \<noteq> []"
  shows "fst (cand_value serving measured cap_gib b) < fst (cand_value serving measured cap_gib a)"
proof -
  have "0 \<le> fst (priority_value (lane_of a))" "fst (priority_value (lane_of b)) \<le> 2"
    using priority_bounds [of "lane_of a"] priority_bounds [of "lane_of b"] by (auto simp: priority_value_def PRIORITY_def)
  then show ?thesis using assms by (simp add: cand_value_def lineage_value_def KNOWN_LINEAGE_def)
qed

text \<open>
  Recurrence diminishes: what being seen adds grows with every sighting, stays below its weight, and each sighting
  adds less than the one before.
\<close>

theorem recurrence_diminishes:
  "0 \<le> fst (recurrence_value n) \<and> fst (recurrence_value n) < RECURRENCE \<and>
   (1 \<le> n \<longrightarrow> fst (recurrence_value n) < fst (recurrence_value (Suc n))) \<and>
   (1 \<le> n \<longrightarrow> fst (recurrence_value (Suc (Suc n))) - fst (recurrence_value (Suc n)) < fst (recurrence_value (Suc n)) - fst (recurrence_value n))"
proof -
  have eq: "fst (recurrence_value m) = 2 * (1 - 1 / of_nat m)" if "1 \<le> m" for m
    using that by (cases "m = 1") (simp_all add: recurrence_value_def RECURRENCE_def)
  show ?thesis
  proof (cases "1 \<le> n")
    case True
    define x :: rat where "x = of_nat n"
    have "0 < x" using True by (simp add: x_def)
    moreover have "1 / x - 1 / (x + 1) = 1 / (x * (x + 1))" "1 / (x + 1) - 1 / (x + 2) = 1 / ((x + 1) * (x + 2))"
      using \<open>0 < x\<close> by (simp_all add: field_simps)
    moreover have "1 / ((x + 1) * (x + 2)) < 1 / (x * (x + 1))"
      using \<open>0 < x\<close> by (intro divide_strict_left_mono mult_pos_pos) (simp_all add: algebra_simps)
    moreover have "1 / (x + 1) < 1 / x" using \<open>0 < x\<close> by (simp add: field_simps)
    moreover have "of_nat (Suc n) = x + 1" "of_nat (Suc (Suc n)) = x + 2" by (simp_all add: x_def)
    moreover have "2 / x \<le> 2" "0 < 2 / x" using True by (simp_all add: x_def divide_le_eq)
    ultimately show ?thesis using True by (simp only: eq [of n] eq [of "Suc n"] eq [of "Suc (Suc n)"] RECURRENCE_def) (simp add: x_def)
  qed (simp add: recurrence_value_def RECURRENCE_def)
qed


section \<open>Groups\<close>

lemma map_of_group:
  "map_of (foldl (\<lambda>d r. dict_put (key r) (get_or [] d (key r) @ [r]) d) d rows) k =
     (if filter (\<lambda>r. key r = k) rows = [] then map_of d k else Some (get_or [] d k @ filter (\<lambda>r. key r = k) rows))"
proof (induction rows arbitrary: d)
  case (Cons r rows)
  show ?case unfolding foldl_Cons Cons [of "dict_put (key r) (get_or [] d (key r) @ [r]) d"]
    by (cases "key r = k") (auto simp: get_or_def)
qed simp

lemma keys_group:
  "set (map fst (foldl (\<lambda>d r. dict_put (key r) (get_or [] d (key r) @ [r]) d) d rows)) = set (map fst d) \<union> key ` set rows"
proof (induction rows arbitrary: d)
  case (Cons r rows)
  then show ?case using keys_dict_put [of "key r" "get_or [] d (key r) @ [r]" d] by (simp add: insert_commute)
qed simp

lemma distinct_group: "distinct (map fst d) \<Longrightarrow>
    distinct (map fst (foldl (\<lambda>d r. dict_put (key r) (get_or [] d (key r) @ [r]) d) d rows))"
  by (induction rows arbitrary: d) auto

text \<open>A grouping is a partition: distinct keys, those that occur, each with its own rows in order.\<close>

lemma group_rows_partition:
  shows "distinct (map fst (group_rows key rows))" "set (map fst (group_rows key rows)) = key ` set rows"
    and "(k, ms) \<in> set (group_rows key rows) \<Longrightarrow> ms = filter (\<lambda>r. key r = k) rows"
proof -
  show d: "distinct (map fst (group_rows key rows))" unfolding group_rows_def by (rule distinct_group) simp
  show "set (map fst (group_rows key rows)) = key ` set rows"
    unfolding group_rows_def using keys_group [of key "[]" rows] by simp
  assume "(k, ms) \<in> set (group_rows key rows)"
  then have "map_of (group_rows key rows) k = Some ms" using d by (simp add: map_of_is_SomeI)
  then show "ms = filter (\<lambda>r. key r = k) rows"
    unfolding group_rows_def map_of_group by (auto simp: get_or_def split: if_splits)
qed

text \<open>
  The groups reported for a lane somebody might open hold every wanted model exactly once, under the task it is
  about, with all its sightings; a task that is in no group is about no wanted model.
\<close>

theorem wanted_groups_account:
  "distinct (map wg_task (wanted_groups cap_gib minimum rows)) \<and>
   set (map wg_task (wanted_groups cap_gib minimum rows)) = task_of ` set (wanted_rows minimum rows) \<and>
   (\<forall>g \<in> set (wanted_groups cap_gib minimum rows).
      wg_models g = sort (map k_name (filter (\<lambda>r. task_of r = wg_task g) (wanted_rows minimum rows))) \<and>
      wg_sightings g = sum_list (map k_times (filter (\<lambda>r. task_of r = wg_task g) (wanted_rows minimum rows))))"
proof -
  let ?gs = "group_rows task_of (wanted_rows minimum rows)"
  let ?key = "\<lambda>g. (- int (length (wg_models g)), - int (wg_sightings g), wg_task g)"
  have task: "wg_task (group_of cap_gib g) = fst g" for g by (simp add: group_of_def Let_def)
  have all: "mset (wanted_groups cap_gib minimum rows) = mset (map (group_of cap_gib) ?gs)" by (simp add: wanted_groups_def)
  then have tasks: "mset (map wg_task (wanted_groups cap_gib minimum rows)) = mset (map fst ?gs)"
    by (metis (no_types, lifting) comp_apply map_eq_conv map_map mset_map task)
  then have "distinct (map wg_task (wanted_groups cap_gib minimum rows))"
    using group_rows_partition(1) mset_eq_imp_distinct_iff by blast
  moreover have "set (map wg_task (wanted_groups cap_gib minimum rows)) = task_of ` set (wanted_rows minimum rows)"
    using group_rows_partition(2) tasks mset_eq_setD by metis
  moreover have "wg_models g = sort (map k_name (filter (\<lambda>r. task_of r = wg_task g) (wanted_rows minimum rows))) \<and>
      wg_sightings g = sum_list (map k_times (filter (\<lambda>r. task_of r = wg_task g) (wanted_rows minimum rows)))"
    if g: "g \<in> set (wanted_groups cap_gib minimum rows)" for g
  proof -
    obtain k ms where "(k, ms) \<in> set ?gs" "g = group_of cap_gib (k, ms)" using g mset_eq_setD [OF all] by auto
    then show ?thesis using group_rows_partition(3) [of k ms task_of] by (simp add: group_of_def Let_def)
  qed
  ultimately show ?thesis by blast
qed

section \<open>BM25\<close>

lemma sorted_lex:
  "sorted (map h zs) \<Longrightarrow> (\<And>k. sorted (filter (\<lambda>x. h x = k) zs)) \<Longrightarrow> sorted (map (\<lambda>x. (h x, x)) zs)"
  for h :: "nat \<Rightarrow> rat"
proof (induction zs)
  case (Cons z zs)
  have tail: "sorted (filter (\<lambda>x. h x = k) zs)" for k using Cons.prems(2) [of k] by (auto split: if_splits)
  have "z \<le> x" if "x \<in> set zs" "h x = h z" for x using Cons.prems(2) [of "h z"] that by auto
  then have "\<forall>x \<in> set zs. (h z, z) \<le> (h x, x)"
    using Cons.prems(1) by (auto simp: less_eq_prod_def) (metis order_le_less)
  moreover have "sorted (map (\<lambda>x. (h x, x)) zs)" using Cons.IH Cons.prems(1) tail by simp
  ultimately show ?case by simp
qed simp

lemma sort_pairs: "sort_key (\<lambda>i. (h i, i)) [0..<n] = sort_key h [0..<n]" for h :: "nat \<Rightarrow> rat"
proof (rule sort_key_inj_key_eq)
  show "mset [0..<n] = mset (sort_key h [0..<n])" by simp
  show "inj_on (\<lambda>i. (h i, i)) (set [0..<n])" by (simp add: inj_on_def)
  have "sorted (filter (\<lambda>x. h x = k) (sort_key h [0..<n]))" for k
    by (simp add: sort_key_stable sorted_wrt_filter)
  then show "sorted (map (\<lambda>i. (h i, i)) (sort_key h [0..<n]))" by (intro sorted_lex) simp_all
qed

lemma insort_key_map: "insort_key f (g x) (map g ys) = map g (insort_key (\<lambda>x. f (g x)) x ys)"
  by (induction ys) simp_all

lemma sort_key_map: "sort_key f (map g xs) = map g (sort_key (\<lambda>x. f (g x)) xs)"
  by (induction xs) (simp_all add: insort_key_map)

text \<open>
  The baseline of the retrieval lane returns every document once, best score first and equal scores in the order of
  the corpus: sorting the pairs of score and place is the stable sort by score.
\<close>

theorem bm_rank_is_stable_sort:
  "bm_rank logn k1 b query docs =
     map fst (sort_key (\<lambda>d. - bm_score logn k1 b (map (\<lambda>d. bm_tokens (snd d)) docs) (remdups (bm_tokens query)) (bm_tokens (snd d))) docs)"
proof -
  define f where "f = (\<lambda>d :: string \<times> string. - bm_score logn k1 b (map (\<lambda>d. bm_tokens (snd d)) docs) (remdups (bm_tokens query)) (bm_tokens (snd d)))"
  have scored: "zip (map (\<lambda>body. - bm_score logn k1 b (map (\<lambda>d. bm_tokens (snd d)) docs) (remdups (bm_tokens query)) body)
      (map (\<lambda>d. bm_tokens (snd d)) docs)) [0..<length docs] = map (\<lambda>i. (f (docs ! i), i)) [0..<length docs]"
    by (rule nth_equalityI) (simp_all add: f_def)
  have docs: "docs = map ((!) docs) [0..<length docs]" by (simp add: map_nth)
  have "sort_key f docs = map ((!) docs) (sort_key (\<lambda>i. f (docs ! i)) [0..<length docs])"
    using sort_key_map [of f "(!) docs" "[0..<length docs]"] docs by (simp add: comp_def)
  then show ?thesis
    unfolding bm_rank_def Let_def scored sort_key_map [of "\<lambda>x. x"] f_def [symmetric]
    by (simp add: comp_def sort_pairs)
qed

end
