(* ===== verification/GgufFiles.thy ===== *)
theory GgufFiles
  imports Prelude
begin

text \<open>
  Which file of a repository is fetched (\<open>harness/gguf.py\<close>): the single GGUF files a server could load, the split variants
  and what a stray file beside them is, and the choice under a ceiling of bytes. A name holds no line break; \<open>sibling\<close> is
  one file of the listing with the size it gives, 0 when it gives none.
\<close>

record sibling =
  sib_name :: string
  sib_size :: int

definition PREFERRED :: "string list" where
  "PREFERRED = [''q4_k_m'', ''q4_k_s'', ''iq4_xs'', ''q4_0'', ''q5_k_m'', ''q5_k_s'']"

definition STRAY :: int where "STRAY = 16"

text \<open>\<open>_PART\<close>: stem, part and parts of a name that ends in \<open>-00001-of-00003.gguf\<close>; \<open>of\<close> and the suffix in any case.\<close>

definition part_of :: "string \<Rightarrow> (string \<times> nat \<times> nat) option" where
  "part_of name =
     (let n = length name - 20; tl = drop n name;
          part = take 5 (drop 1 tl); parts = take 5 (drop 10 tl)
      in if 20 \<le> length name \<and> hd tl = CHR ''-'' \<and> list_all is_digit part \<and> lower (take 4 (drop 6 tl)) = ''-of-'' \<and>
            list_all is_digit parts \<and> lower (drop 15 tl) = ''.gguf''
         then Some (take n name, nat_of_digits part, nat_of_digits parts) else None)"

definition is_split :: "string \<Rightarrow> bool" where
  "is_split name \<longleftrightarrow> part_of name \<noteq> None"

text \<open>\<open>name.rsplit("/", 1)[-1]\<close>.\<close>

definition base_name :: "string \<Rightarrow> string" where
  "base_name path = rev (takeWhile (\<lambda>c. c \<noteq> CHR ''/'') (rev path))"

definition sib_servable :: "sibling \<Rightarrow> bool" where
  "sib_servable f \<longleftrightarrow>
     (let name = sib_name f
      in suffix ''.gguf'' (lower name) \<and> CHR ''/'' \<notin> set name \<and> \<not> prefix ''mmproj'' (lower name) \<and>
         \<not> sublist ''imatrix'' (lower name) \<and> \<not> is_split name)"

text \<open>The parts of every split variant with their sizes, and how many its last part names.\<close>

definition shard_step :: "(string \<times> (nat \<times> int) list) list \<times> (string \<times> nat) list \<Rightarrow> sibling \<Rightarrow>
    (string \<times> (nat \<times> int) list) list \<times> (string \<times> nat) list" where
  "shard_step acc f =
     (case part_of (sib_name f) of
        None \<Rightarrow> acc
      | Some (stem, i, n) \<Rightarrow>
          (let base = lower (base_name (sib_name f))
           in if prefix ''mmproj'' base \<or> sublist ''imatrix'' base then acc
              else (dict_put stem (dict_put i (sib_size f) (get_or [] (fst acc) stem)) (fst acc), dict_put stem n (snd acc))))"

definition shard_sets :: "sibling list \<Rightarrow> (string \<times> int) list" where
  "shard_sets siblings =
     (case foldl shard_step ([], []) siblings of
        (parts, want) \<Rightarrow>
          map (\<lambda>(stem, p). (stem, sum_list (map snd p)))
            (filter (\<lambda>(stem, p). length p = get_or 0 want stem \<and> (\<forall>x \<in> set p. snd x \<noteq> 0)) parts))"

definition stray_floor :: "sibling list \<Rightarrow> int" where
  "stray_floor siblings =
     (case map snd (shard_sets siblings) of [] \<Rightarrow> 0 | s # ss \<Rightarrow> foldl min s ss div STRAY)"

definition singles :: "sibling list \<Rightarrow> (string \<times> int) list" where
  "singles siblings =
     filter (\<lambda>(n, s). s > 0 \<and> s \<ge> stray_floor siblings)
       (map (\<lambda>f. (sib_name f, sib_size f)) (filter sib_servable siblings))"

definition smallest :: "sibling list \<Rightarrow> int" where
  "smallest siblings =
     (case map snd (singles siblings) @ map snd (shard_sets siblings) of [] \<Rightarrow> 0 | s # ss \<Rightarrow> foldl min s ss)"

definition gguf_only :: "sibling list \<Rightarrow> bool" where
  "gguf_only siblings \<longleftrightarrow>
     (\<exists>f \<in> set siblings. suffix ''.gguf'' (lower (sib_name f))) \<and>
     \<not> (\<exists>f \<in> set siblings. suffix ''.safetensors'' (lower (sib_name f)))"

text \<open>\<open>max(xs, key=f)\<close>: the first of the largest.\<close>

fun first_max :: "('a \<Rightarrow> int) \<Rightarrow> 'a \<Rightarrow> 'a list \<Rightarrow> 'a" where
  "first_max f best [] = best"
| "first_max f best (x # xs) = first_max f (if f x > f best then x else best) xs"

fun preferred :: "string list \<Rightarrow> (string \<times> int) list \<Rightarrow> (string \<times> int) option" where
  "preferred [] fits = None"
| "preferred (q # qs) fits =
     (case find (\<lambda>f. sublist q (lower (fst f))) fits of Some f \<Rightarrow> Some f | None \<Rightarrow> preferred qs fits)"

definition choose_file :: "sibling list \<Rightarrow> int \<Rightarrow> (string \<times> int) option" where
  "choose_file siblings ceil =
     (let fits = filter (\<lambda>f. snd f \<le> ceil) (singles siblings)
      in case preferred PREFERRED fits of
           Some f \<Rightarrow> Some f
         | None \<Rightarrow> (case fits of [] \<Rightarrow> None | f # fs \<Rightarrow> Some (first_max snd f fs)))"

section \<open>Facts\<close>

lemma first_max_spec:
  "first_max f best xs \<in> insert best (set xs) \<and> (\<forall>x \<in> insert best (set xs). f x \<le> f (first_max f best xs))"
proof (induction xs arbitrary: best)
  case (Cons x xs)
  show ?case using Cons [of "if f x > f best then x else best"] by (auto split: if_splits)
qed simp

lemma find_SomeD: "find P xs = Some x \<Longrightarrow> x \<in> set xs \<and> P x"
  by (induction xs) (auto split: if_splits)

lemma preferred_None: "preferred qs fits = None \<longleftrightarrow> (\<forall>q \<in> set qs. \<forall>x \<in> set fits. \<not> sublist q (lower (fst x)))"
  by (induction qs) (auto simp: find_None_iff split: option.split dest: find_SomeD)

lemma preferred_Some:
  "preferred qs fits = Some x \<Longrightarrow>
   x \<in> set fits \<and> (\<exists>us q vs. qs = us @ q # vs \<and> sublist q (lower (fst x)) \<and> (\<forall>u \<in> set us. \<forall>y \<in> set fits. \<not> sublist u (lower (fst y))))"
proof (induction qs)
  case (Cons q qs)
  show ?case
  proof (cases "find (\<lambda>f. sublist q (lower (fst f))) fits")
    case None
    then have no: "\<forall>y \<in> set fits. \<not> sublist q (lower (fst y))" by (auto simp: find_None_iff)
    have "preferred qs fits = Some x" using Cons.prems None by simp
    from Cons.IH [OF this] obtain us q' vs where "x \<in> set fits" "qs = us @ q' # vs" "sublist q' (lower (fst x))"
      "\<forall>u \<in> set us. \<forall>y \<in> set fits. \<not> sublist u (lower (fst y))" by blast
    then show ?thesis using no by (intro conjI exI [of _ "q # us"]) auto
  next
    case (Some y)
    then have "x = y" using Cons.prems by simp
    then have "x \<in> set fits" "sublist q (lower (fst x))" using find_SomeD [OF Some] by auto
    then have "q # qs = [] @ q # qs \<and> sublist q (lower (fst x)) \<and> (\<forall>u \<in> set []. \<forall>y \<in> set fits. \<not> sublist u (lower (fst y)))" by simp
    then show ?thesis using \<open>x \<in> set fits\<close> by blast
  qed
qed simp

lemma pick_None:
  "(case preferred qs fits of Some f \<Rightarrow> Some f
    | None \<Rightarrow> (case fits of [] \<Rightarrow> None | f # fs \<Rightarrow> Some (first_max snd f fs))) = None \<longleftrightarrow> fits = []"
proof (cases fits)
  case Nil
  have "preferred qs [] = None" by (simp add: preferred_None)
  then show ?thesis using Nil by simp
qed (auto split: option.split)

text \<open>
  What a good choice is: one of the files that fit, which names a preferred quantisation while none that fits names an
  earlier one, or is the largest that fits while none names any.
\<close>

definition best_file :: "sibling list \<Rightarrow> int \<Rightarrow> string \<times> int \<Rightarrow> bool" where
  "best_file siblings ceil x \<longleftrightarrow>
     (let fits = {y \<in> set (singles siblings). snd y \<le> ceil}; names = (\<lambda>q y. sublist q (lower (fst y)))
      in x \<in> fits \<and>
         ((\<exists>us q vs. PREFERRED = us @ q # vs \<and> names q x \<and> (\<forall>u \<in> set us. \<forall>y \<in> fits. \<not> names u y)) \<or>
          (\<forall>y \<in> fits. snd y \<le> snd x \<and> (\<forall>q \<in> set PREFERRED. \<not> names q y))))"

lemma best_preferred:
  "preferred PREFERRED (filter (\<lambda>f. snd f \<le> ceil) (singles siblings)) = Some x \<Longrightarrow> best_file siblings ceil x"
  using preferred_Some [of PREFERRED "filter (\<lambda>f. snd f \<le> ceil) (singles siblings)" x]
  unfolding best_file_def Let_def set_filter by (intro conjI disjI1) blast+

lemma best_largest:
  assumes "preferred PREFERRED (filter (\<lambda>f. snd f \<le> ceil) (singles siblings)) = None"
    and "filter (\<lambda>f. snd f \<le> ceil) (singles siblings) = f # fs"
  shows "best_file siblings ceil (first_max snd f fs)"
proof -
  have fits: "{y \<in> set (singles siblings). snd y \<le> ceil} = insert f (set fs)"
    using arg_cong [OF assms(2), of set] by simp
  have "\<forall>q \<in> set PREFERRED. \<forall>y \<in> insert f (set fs). \<not> sublist q (lower (fst y))"
    using assms(1) unfolding preferred_None assms(2) by simp
  then show ?thesis
    using first_max_spec [of snd f fs] unfolding best_file_def Let_def fits by (intro conjI disjI2) blast+
qed

text \<open>
  The file fetched is a single file of the repository that a server loads, no larger than the ceiling and no stray: of
  the first quantisation preferred that any such file names, or the largest when none is named; and there is one whenever
  any file fits.
\<close>

theorem file_chosen:
  "(choose_file siblings ceil = None \<longleftrightarrow> (\<forall>x \<in> set (singles siblings). ceil < snd x)) \<and>
   (\<forall>x. choose_file siblings ceil = Some x \<longrightarrow> best_file siblings ceil x \<and> 0 < snd x \<and> snd x \<le> ceil)"
proof (rule conjI)
  let ?fits = "filter (\<lambda>f. snd f \<le> ceil) (singles siblings)"
  have best: "best_file siblings ceil x" if "choose_file siblings ceil = Some x" for x
    using that best_preferred [of ceil siblings] best_largest [of ceil siblings]
    by (auto simp: choose_file_def Let_def split: option.splits list.splits)
  moreover have "0 < snd x \<and> snd x \<le> ceil" if "best_file siblings ceil x" for x
    using that by (auto simp: best_file_def Let_def singles_def)
  ultimately show "\<forall>x. choose_file siblings ceil = Some x \<longrightarrow> best_file siblings ceil x \<and> 0 < snd x \<and> snd x \<le> ceil" by blast
  have "choose_file siblings ceil = None \<longleftrightarrow> ?fits = []"
    unfolding choose_file_def Let_def by (rule pick_None)
  then show "choose_file siblings ceil = None \<longleftrightarrow> (\<forall>x \<in> set (singles siblings). ceil < snd x)"
    by (auto simp: filter_empty_conv not_le)
qed

definition demo_listing :: "sibling list" where
  "demo_listing = [\<lparr>sib_name = ''m-Q8_0.gguf'', sib_size = 900\<rparr>, \<lparr>sib_name = ''m-Q4_0.gguf'', sib_size = 400\<rparr>,
     \<lparr>sib_name = ''mmproj-m.gguf'', sib_size = 50\<rparr>, \<lparr>sib_name = ''m-00001-of-00001.gguf'', sib_size = 1600\<rparr>,
     \<lparr>sib_name = ''m-IQ1.gguf'', sib_size = 99\<rparr>]"

theorem file_chosen_witness:
  "choose_file demo_listing 1000 = Some (''m-Q4_0.gguf'', 400) \<and> best_file demo_listing 1000 (''m-Q4_0.gguf'', 400)"
proof -
  have c: "choose_file demo_listing 1000 = Some (''m-Q4_0.gguf'', 400)" by code_simp
  then show ?thesis using file_chosen [of demo_listing 1000] by blast
qed

end
