(* ===== verification/GgufHeader.thy ===== *)
theory GgufHeader
  imports Prelude "HOL-Library.Word"
begin

text \<open>
  The reader of a GGUF header (\<open>_read\<close> to \<open>_value\<close> and \<open>read_meta\<close> of \<open>harness/context.py\<close>): little-endian numbers at
  their width, strings, arrays of anything, and the metadata of a file. What is left to read is the list of the bytes that
  follow; a seek past the end leaves none. \<open>decode\<close> is \<open>bytes.decode("utf-8", "replace")\<close> and \<open>depth\<close> the calls the
  interpreter allows inside one another, so reading an array nested deeper is the \<^emph>\<open>RecursionError\<close> it is in Python.
\<close>

type_synonym bytes = "8 word list"

datatype py_float = Fin rat | Infinite bool | NaN

datatype meta_value = VInt int | VBool bool | VFloat py_float | VStr string | VList "meta_value list" | VNone

text \<open>\<open>TooLong\<close> is the \<open>OverflowError\<close> of \<open>fh.read\<close>, \<open>TooDeep\<close> the \<open>RecursionError\<close>; the others are \<open>ValueError\<close>s.\<close>

datatype header_error = Truncated | UnknownType nat | NotGguf | OldVersion nat | SeekTooFar | TooLong | TooDeep

section \<open>Scalars\<close>

datatype shape = Unsigned | Signed | Floating | Boolean

definition SCALAR :: "(nat \<times> nat \<times> shape) list" where
  "SCALAR = [(0, 1, Unsigned), (1, 1, Signed), (2, 2, Unsigned), (3, 2, Signed), (4, 4, Unsigned), (5, 4, Signed),
     (6, 4, Floating), (7, 1, Boolean), (10, 8, Unsigned), (11, 8, Signed), (12, 8, Floating)]"

definition STRING :: nat where "STRING = 8"
definition ARRAY :: nat where "ARRAY = 9"
definition KEEP_ARRAY :: nat where "KEEP_ARRAY = 4096"

fun le_nat :: "bytes \<Rightarrow> nat" where
  "le_nat [] = 0"
| "le_nat (b # bs) = unat b + 256 * le_nat bs"

definition twos_complement :: "nat \<Rightarrow> nat \<Rightarrow> int" where
  "twos_complement w x = (if 2 * x < 256 ^ w then int x else int x - 256 ^ w)"

text \<open>IEEE 754 with \<open>e\<close> bits of exponent and \<open>f\<close> of fraction.\<close>

definition ieee :: "nat \<Rightarrow> nat \<Rightarrow> nat \<Rightarrow> py_float" where
  "ieee e f x =
     (let negative = odd (x div 2 ^ (e + f)); ex = (x div 2 ^ f) mod 2 ^ e; fr = x mod 2 ^ f; bias = 2 ^ (e - 1) - 1;
          sized = (\<lambda>m k. (if negative then - 1 else 1) * m * (if k \<ge> bias then 2 ^ (k - bias) else 1 / 2 ^ (bias - k)))
      in if ex = 2 ^ e - 1 then (if fr = 0 then Infinite negative else NaN)
         else if ex = 0 then Fin (sized (of_nat fr / 2 ^ f) 1)
         else Fin (sized (1 + of_nat fr / 2 ^ f) ex))"

definition unpack :: "shape \<Rightarrow> bytes \<Rightarrow> meta_value" where
  "unpack s raw =
     (case s of Unsigned \<Rightarrow> VInt (int (le_nat raw))
      | Signed \<Rightarrow> VInt (twos_complement (length raw) (le_nat raw))
      | Boolean \<Rightarrow> VBool (le_nat raw \<noteq> 0)
      | Floating \<Rightarrow> VFloat (if length raw = 4 then ieee 8 23 (le_nat raw) else ieee 11 52 (le_nat raw)))"

section \<open>Reading\<close>

text \<open>\<open>_read\<close>: the raw bytes of a format, or the truncated header.\<close>

definition read_raw :: "nat \<Rightarrow> bytes \<Rightarrow> header_error + bytes \<times> bytes" where
  "read_raw n bs = (if length bs < n then Inl Truncated else Inr (take n bs, drop n bs))"

definition read_uint :: "nat \<Rightarrow> bytes \<Rightarrow> header_error + nat \<times> bytes" where
  "read_uint n bs = and_then (read_raw n bs) (\<lambda>(raw, r). Inr (le_nat raw, r))"

text \<open>\<open>_string\<close>: as many of the bytes announced as there are.\<close>

definition read_string :: "(bytes \<Rightarrow> string) \<Rightarrow> bytes \<Rightarrow> header_error + string \<times> bytes" where
  "read_string decode bs =
     and_then (read_uint 8 bs) (\<lambda>(n, r). if n \<ge> 2 ^ 63 then Inl TooLong else Inr (decode (take n r), drop n r))"

text \<open>\<open>[read() for _ in range(n)]\<close>.\<close>

fun repeat_read :: "nat \<Rightarrow> (bytes \<Rightarrow> 'e + 'a \<times> bytes) \<Rightarrow> bytes \<Rightarrow> 'e + 'a list \<times> bytes" where
  "repeat_read 0 f bs = Inr ([], bs)"
| "repeat_read (Suc n) f bs =
     and_then (f bs) (\<lambda>(v, r). and_then (repeat_read n f r) (\<lambda>(vs, r'). Inr (v # vs, r')))"

fun read_value :: "(bytes \<Rightarrow> string) \<Rightarrow> nat \<Rightarrow> nat \<Rightarrow> bytes \<Rightarrow> header_error + meta_value \<times> bytes" where
  "read_value decode 0 kind bs = Inl TooDeep"
| "read_value decode (Suc depth) kind bs =
     (case map_of SCALAR kind of
        Some (w, s) \<Rightarrow> and_then (read_raw w bs) (\<lambda>(raw, r). Inr (unpack s raw, r))
      | None \<Rightarrow>
          if kind = STRING then and_then (read_string decode bs) (\<lambda>(s, r). Inr (VStr s, r))
          else if kind = ARRAY then
            and_then (read_uint 4 bs) (\<lambda>(inner, r). and_then (read_uint 8 r) (\<lambda>(n, r').
              if n > KEEP_ARRAY then
                (case map_of SCALAR inner of
                   Some (w, s) \<Rightarrow> if n * w \<ge> 2 ^ 63 then Inl SeekTooFar else Inr (VNone, drop (n * w) r')
                 | None \<Rightarrow> and_then (repeat_read n (read_value decode depth inner) r') (\<lambda>(vs, r''). Inr (VNone, r'')))
              else and_then (repeat_read n (read_value decode depth inner) r') (\<lambda>(vs, r''). Inr (VList vs, r''))))
          else Inl (UnknownType kind))"

definition MAGIC :: bytes where "MAGIC = [0x47, 0x47, 0x55, 0x46]"

definition read_entry :: "(bytes \<Rightarrow> string) \<Rightarrow> nat \<Rightarrow> bytes \<Rightarrow> header_error + (string \<times> meta_value) \<times> bytes" where
  "read_entry decode depth bs =
     and_then (read_string decode bs) (\<lambda>(key, r). and_then (read_uint 4 r) (\<lambda>(kind, r').
       and_then (read_value decode depth kind r') (\<lambda>(v, r''). Inr ((key, v), r''))))"

text \<open>\<open>read_meta\<close>: the dictionary of the metadata of a file with these bytes.\<close>

definition read_meta :: "(bytes \<Rightarrow> string) \<Rightarrow> nat \<Rightarrow> bytes \<Rightarrow> header_error + (string \<times> meta_value) list" where
  "read_meta decode depth bs =
     (if take 4 bs \<noteq> MAGIC then Inl NotGguf
      else and_then (read_uint 4 (drop 4 bs)) (\<lambda>(version, r).
        if version < 2 then Inl (OldVersion version)
        else and_then (read_uint 8 r) (\<lambda>(_, r'). and_then (read_uint 8 r') (\<lambda>(count, r'').
          and_then (repeat_read count (read_entry decode depth) r'') (\<lambda>(kvs, _).
            Inr (foldl (\<lambda>d (k, v). dict_put k v d) [] kvs))))))"

end
