(* ===== verification/KvCache.thy ===== *)
theory KvCache
  imports GgufHeader
begin

text \<open>
  The context a model is served at (\<open>harness/context.py\<close>): what one token of KV cache costs, read from the metadata of its
  file, and the largest context whose cache fits beside the weights. \<open>repr\<close> is how Python formats an architecture that
  is not a string; comparing two lists inside a list of heads is a \<open>BadType\<close> here. A sentence is a constructor with what
  it quotes.
\<close>

text \<open>\<open>BadType\<close> is a \<open>TypeError\<close>, \<open>BadValue\<close> a \<open>ValueError\<close>, \<open>BadKey\<close> a \<open>KeyError\<close>, \<open>BadFloat\<close> an \<open>OverflowError\<close>.\<close>

datatype meta_error = Header header_error | OsError | BadType | BadValue | BadKey | BadFloat

definition FLOOR :: int where "FLOOR = 8192"
definition STEP :: int where "STEP = 1024"
definition KV_MAX_GIB :: int where "KV_MAX_GIB = 8"

definition CACHE_BYTES :: "(string \<times> int \<times> int) list" where
  "CACHE_BYTES = [(''f32'', 4, 1), (''f16'', 2, 1), (''bf16'', 2, 1), (''q8_0'', 34, 32), (''q5_1'', 24, 32), (''q5_0'', 22, 32),
     (''q4_1'', 20, 32), (''q4_0'', 18, 32), (''iq4_nl'', 18, 32)]"

definition EVAL_7B_STEM :: string where "EVAL_7B_STEM = ''Qwen2.5-7B-Instruct-Q4_K_M''"
definition EVAL_7B_SLOTS :: int where "EVAL_7B_SLOTS = 8"
definition EVAL_7B_SLOT_CTX :: int where "EVAL_7B_SLOT_CTX = 4096"
definition MIN_SLOT_CTX :: int where "MIN_SLOT_CTX = 3072"

section \<open>Values as Python reads them\<close>

fun value_true :: "meta_value \<Rightarrow> bool" where
  "value_true (VInt i) = (i \<noteq> 0)"
| "value_true (VBool b) = b"
| "value_true (VFloat f) = (f \<noteq> Fin 0)"
| "value_true (VStr s) = (s \<noteq> [])"
| "value_true (VList vs) = (vs \<noteq> [])"
| "value_true VNone = False"

text \<open>\<open>int(v)\<close>, towards zero.\<close>

fun to_int :: "meta_value \<Rightarrow> meta_error + int" where
  "to_int (VInt i) = Inr i"
| "to_int (VBool b) = Inr (if b then 1 else 0)"
| "to_int (VFloat (Fin q)) = Inr (if 0 \<le> q then \<lfloor>q\<rfloor> else \<lceil>q\<rceil>)"
| "to_int (VFloat (Infinite b)) = Inl BadFloat"
| "to_int (VFloat NaN) = Inl BadValue"
| "to_int (VStr s) = (case py_int s of None \<Rightarrow> Inl BadValue | Some i \<Rightarrow> Inr i)"
| "to_int (VList vs) = Inl BadType"
| "to_int VNone = Inl BadType"

fun as_integer :: "meta_value \<Rightarrow> int option" where
  "as_integer (VInt i) = Some i"
| "as_integer (VBool b) = Some (if b then 1 else 0)"
| "as_integer _ = None"

fun as_float :: "meta_value \<Rightarrow> py_float option" where
  "as_float (VInt i) = Some (Fin (of_int i))"
| "as_float (VBool b) = Some (Fin (if b then 1 else 0))"
| "as_float (VFloat f) = Some f"
| "as_float _ = None"

fun float_div :: "py_float \<Rightarrow> py_float \<Rightarrow> py_float" where
  "float_div (Fin x) (Fin y) = Fin (of_int \<lfloor>x / y\<rfloor>)"
| "float_div (Fin x) (Infinite b) = Fin (if x = 0 \<or> (x < 0) = b then 0 else - 1)"
| "float_div _ _ = NaN"

text \<open>\<open>a // b\<close> of a \<open>b\<close> that is not zero.\<close>

definition floor_div :: "meta_value \<Rightarrow> meta_value \<Rightarrow> meta_error + meta_value" where
  "floor_div a b =
     (case (as_integer a, as_integer b) of
        (Some x, Some y) \<Rightarrow> Inr (VInt (x div y))
      | _ \<Rightarrow> (case (as_float a, as_float b) of
          (Some x, Some y) \<Rightarrow> Inr (VFloat (float_div x y))
        | _ \<Rightarrow> Inl BadType))"

fun float_less :: "py_float \<Rightarrow> py_float \<Rightarrow> bool" where
  "float_less (Fin x) (Fin y) = (x < y)"
| "float_less (Fin x) (Infinite negative) = (\<not> negative)"
| "float_less (Infinite negative) (Fin y) = negative"
| "float_less (Infinite a) (Infinite b) = (a \<and> \<not> b)"
| "float_less _ _ = False"

definition value_less :: "meta_value \<Rightarrow> meta_value \<Rightarrow> meta_error + bool" where
  "value_less a b =
     (case (as_float a, as_float b) of
        (Some x, Some y) \<Rightarrow> Inr (float_less x y)
      | _ \<Rightarrow> (case (a, b) of (VStr s, VStr t) \<Rightarrow> Inr (s < t) | _ \<Rightarrow> Inl BadType))"

fun max_from :: "meta_value \<Rightarrow> meta_value list \<Rightarrow> meta_error + meta_value" where
  "max_from best [] = Inr best"
| "max_from best (v # vs) = and_then (value_less best v) (\<lambda>b. max_from (if b then v else best) vs)"

fun max_value :: "meta_value list \<Rightarrow> meta_error + meta_value" where
  "max_value [] = Inl BadValue"
| "max_value (v # vs) = max_from v vs"

section \<open>What a token costs\<close>

type_synonym metadata = "(string \<times> meta_value) list"

definition arch :: "(meta_value \<Rightarrow> string) \<Rightarrow> metadata \<Rightarrow> string \<Rightarrow> meta_value option" where
  "arch repr meta key =
     (let a = get_or (VStr []) meta ''general.architecture''
      in map_of meta ((case a of VStr s \<Rightarrow> s | _ \<Rightarrow> repr a) @ ''.'' @ key))"

definition or_none :: "meta_value option \<Rightarrow> meta_value" where
  "or_none v = (case v of None \<Rightarrow> VNone | Some x \<Rightarrow> x)"

text \<open>\<open>int(_arch(meta, key) or 0)\<close>.\<close>

definition int_or_zero :: "(meta_value \<Rightarrow> string) \<Rightarrow> metadata \<Rightarrow> string \<Rightarrow> meta_error + int" where
  "int_or_zero repr meta key =
     (let v = or_none (arch repr meta key) in if value_true v then to_int v else Inr 0)"

definition trained :: "(meta_value \<Rightarrow> string) \<Rightarrow> metadata \<Rightarrow> meta_error + int" where
  "trained repr meta = int_or_zero repr meta ''context_length''"

definition kv_heads :: "(meta_value \<Rightarrow> string) \<Rightarrow> metadata \<Rightarrow> meta_error + int list" where
  "kv_heads repr meta =
     and_then (int_or_zero repr meta ''block_count'') (\<lambda>blocks.
       let heads = (case arch repr meta ''attention.head_count_kv'' of
                      None \<Rightarrow> or_none (arch repr meta ''attention.head_count'') | Some v \<Rightarrow> v)
       in case heads of
            VList hs \<Rightarrow> map_ok to_int (filter value_true hs)
          | _ \<Rightarrow>
              if \<not> value_true heads \<or> blocks = 0 then Inr []
              else and_then (int_or_zero repr meta ''nextn_predict_layers'') (\<lambda>nextn.
                and_then (int_or_zero repr meta ''full_attention_interval'') (\<lambda>interval.
                  let layers = (if interval > 1 then (blocks - nextn) div interval else blocks - nextn)
                  in and_then (to_int heads) (\<lambda>h. Inr (replicate (nat layers) h)))))"

definition per_head :: "(meta_value \<Rightarrow> string) \<Rightarrow> metadata \<Rightarrow> meta_error + meta_value" where
  "per_head repr meta =
     and_then (case or_none (arch repr meta ''attention.head_count'') of VList vs \<Rightarrow> max_value vs | v \<Rightarrow> Inr v) (\<lambda>q.
       let embd = or_none (arch repr meta ''embedding_length'')
       in if value_true embd \<and> value_true q then floor_div embd q else Inr (VInt 0))"

definition length_or :: "(meta_value \<Rightarrow> string) \<Rightarrow> metadata \<Rightarrow> string \<Rightarrow> meta_value \<Rightarrow> meta_error + int" where
  "length_or repr meta key d = (let v = or_none (arch repr meta key) in to_int (if value_true v then v else d))"

definition kv_bytes_per_token :: "(meta_value \<Rightarrow> string) \<Rightarrow> metadata \<Rightarrow> string \<Rightarrow> meta_error + int" where
  "kv_bytes_per_token repr meta cache_type =
     and_then (kv_heads repr meta) (\<lambda>heads. and_then (per_head repr meta) (\<lambda>p.
       and_then (length_or repr meta ''attention.key_length'' p) (\<lambda>k.
       and_then (length_or repr meta ''attention.value_length'' p) (\<lambda>v.
         case map_of CACHE_BYTES cache_type of
           None \<Rightarrow> Inl BadKey
         | Some (num, den) \<Rightarrow> Inr (sum_list (map (\<lambda>h. h * (k + v)) heads) * num div den)))))"

section \<open>The choice\<close>

datatype ctx_why =
    NoShape
  | RefusedTrained int int
  | RefusedRoom int int int int
  | MemoryFits int int int int
  | TrainedFits int int
  | SlotShape int int int int
  | SlotRoom int int int int
  | SlotsFit int int int
  | Unreadable meta_error

record ctx_choice =
  ch_ctx :: int
  ch_trained :: int
  ch_per :: int
  ch_why :: ctx_why

definition kv_room :: "int \<Rightarrow> int \<Rightarrow> int option \<Rightarrow> int" where
  "kv_room weights budget kv_cap =
     (let room = max (budget - weights) 0 in case kv_cap of None \<Rightarrow> room | Some cap \<Rightarrow> min room cap)"

definition steps :: "int \<Rightarrow> int" where
  "steps n = n div STEP * STEP"

definition chosen :: "int \<Rightarrow> int \<Rightarrow> int \<Rightarrow> int \<Rightarrow> int \<Rightarrow> ctx_choice" where
  "chosen full per room slots least =
     (let fits = steps (room div per div max slots 1);
          ctx = min (if steps full \<noteq> 0 then steps full else full) fits
      in if ctx < least then
           \<lparr>ch_ctx = 0, ch_trained = full, ch_per = per,
            ch_why = (if full < least then RefusedTrained full least else RefusedRoom room fits per least)\<rparr>
         else if ctx < full then \<lparr>ch_ctx = ctx, ch_trained = full, ch_per = per, ch_why = MemoryFits fits room per full\<rparr>
         else \<lparr>ch_ctx = ctx, ch_trained = full, ch_per = per, ch_why = TrainedFits full (per * ctx)\<rparr>)"

definition choose_ctx :: "(meta_value \<Rightarrow> string) \<Rightarrow> metadata \<Rightarrow> int \<Rightarrow> int \<Rightarrow> int \<Rightarrow> string \<Rightarrow> int \<Rightarrow> int option \<Rightarrow> meta_error + ctx_choice" where
  "choose_ctx repr meta weights budget slots cache_type least kv_cap =
     and_then (trained repr meta) (\<lambda>full. and_then (kv_bytes_per_token repr meta cache_type) (\<lambda>per.
       Inr (if full = 0 \<or> per = 0 then \<lparr>ch_ctx = 0, ch_trained = full, ch_per = per, ch_why = NoShape\<rparr>
            else chosen full per (kv_room weights budget kv_cap) slots least)))"

definition slotted :: "int \<Rightarrow> int \<Rightarrow> int \<Rightarrow> int \<Rightarrow> int \<Rightarrow> ctx_choice" where
  "slotted full per room slots slot_ctx =
     (let pool = slots * slot_ctx
      in if per = 0 \<or> full = 0 \<or> slot_ctx > full then \<lparr>ch_ctx = 0, ch_trained = full, ch_per = per, ch_why = SlotShape slots slot_ctx full per\<rparr>
         else if pool * per > room then \<lparr>ch_ctx = 0, ch_trained = full, ch_per = per, ch_why = SlotRoom slots slot_ctx (pool * per) room\<rparr>
         else \<lparr>ch_ctx = pool, ch_trained = full, ch_per = per, ch_why = SlotsFit slots slot_ctx (pool * per)\<rparr>)"

definition choose_slots :: "(meta_value \<Rightarrow> string) \<Rightarrow> metadata \<Rightarrow> int \<Rightarrow> int \<Rightarrow> int \<Rightarrow> int \<Rightarrow> string \<Rightarrow> int option \<Rightarrow> meta_error + ctx_choice" where
  "choose_slots repr meta weights budget slots slot_ctx cache_type kv_cap =
     and_then (trained repr meta) (\<lambda>full. and_then (kv_bytes_per_token repr meta cache_type) (\<lambda>per.
       Inr (slotted full per (kv_room weights budget kv_cap) slots slot_ctx)))"

definition slot_plan :: "string \<Rightarrow> meta_error + (int \<times> int) option" where
  "slot_plan stem =
     (if stem \<noteq> EVAL_7B_STEM then Inr None
      else if EVAL_7B_SLOT_CTX < MIN_SLOT_CTX then Inl BadValue
      else Inr (Some (max EVAL_7B_SLOTS 1, EVAL_7B_SLOT_CTX)))"

section \<open>Facts\<close>

lemma steps_le: "steps n \<le> n"
  using pos_mod_sign [of STEP n] div_mult_mod_eq [of n STEP] by (simp add: steps_def STEP_def)

lemma steps_mono: "m \<le> n \<Longrightarrow> steps m \<le> steps n"
  by (simp add: steps_def STEP_def zdiv_mono1)

lemma steps_of_steps [simp]: "steps (STEP * k) = STEP * k"
  by (simp add: steps_def STEP_def)

lemma steps_nonneg: "0 \<le> n \<Longrightarrow> 0 \<le> steps n"
  by (simp add: steps_def STEP_def)

lemma kv_room_nonneg: "(\<And>c. kv_cap = Some c \<Longrightarrow> 0 \<le> c) \<Longrightarrow> 0 \<le> kv_room weights budget kv_cap"
  by (simp add: kv_room_def Let_def split: option.split)

lemma le_div_int: "a \<le> b div c \<longleftrightarrow> a * c \<le> b" if "0 < c" for a b c :: int
proof
  assume "a \<le> b div c"
  then have "a * c \<le> b div c * c" using that by simp
  also have "\<dots> \<le> b" using that div_mult_mod_eq [of b c] pos_mod_sign [of c b] by linarith
  finally show "a * c \<le> b" .
next
  assume "a * c \<le> b"
  then have "a * c div c \<le> b div c" using that by (rule zdiv_mono1)
  then show "a \<le> b div c" using that by simp
qed

text \<open>What fits is the largest number of tokens per slot, in steps, whose cache the room holds.\<close>

lemma fits_iff:
  assumes "0 < per"
  shows "STEP * k \<le> steps (room div per div max slots 1) \<longleftrightarrow> STEP * k * max slots 1 * per \<le> room"
proof -
  have s: "0 < max slots 1" by simp
  have "STEP * k \<le> steps (room div per div max slots 1) \<longleftrightarrow> STEP * k \<le> room div per div max slots 1"
    by (metis order_trans steps_le steps_mono steps_of_steps)
  also have "\<dots> \<longleftrightarrow> STEP * k * max slots 1 \<le> room div per"
    by (rule le_div_int [OF s])
  also have "\<dots> \<longleftrightarrow> STEP * k * max slots 1 * per \<le> room"
    by (rule le_div_int [OF assms(1)])
  finally show ?thesis .
qed

lemma chosen_largest:
  fixes full per room slots least :: int
  defines "c \<equiv> chosen full per room slots least"
  assumes "0 < least" "0 \<le> room" "per \<noteq> 0"
  shows "0 \<le> ch_ctx c \<and>
    (ch_ctx c \<noteq> 0 \<longrightarrow> 0 < per \<and> least \<le> ch_ctx c \<and> ch_ctx c \<le> full \<and> ch_ctx c * max slots 1 * per \<le> room) \<and>
    (\<forall>k. 0 < per \<and> least \<le> STEP * k \<and> STEP * k \<le> full \<and> STEP * k * max slots 1 * per \<le> room \<longrightarrow> STEP * k \<le> ch_ctx c)"
proof -
  define fits where "fits = steps (room div per div max slots 1)"
  define cap where "cap = (if steps full \<noteq> 0 then steps full else full)"
  have ctx: "ch_ctx c = (if min cap fits < least then 0 else min cap fits)"
    by (simp add: c_def chosen_def Let_def fits_def cap_def)
  have cap: "cap \<le> full" "STEP * k \<le> full \<Longrightarrow> STEP * k \<le> cap" for k
    using steps_le [of full] steps_mono [of "STEP * k" full] by (auto simp: cap_def)
  obtain j where j: "fits = STEP * j" by (metis fits_def mult.commute steps_def)
  have pos: "0 < per" if "0 < fits"
  proof (rule ccontr)
    assume "\<not> 0 < per"
    then have "room div per \<le> 0" using assms(3,4) by (intro div_nonneg_neg_le0) auto
    then have "room div per div max slots 1 \<le> 0" by (simp add: div_nonpos_pos_le0)
    then show False using that steps_le [of "room div per div max slots 1"] by (simp add: fits_def)
  qed
  have hold: "STEP * k \<le> fits \<longleftrightarrow> STEP * k * max slots 1 * per \<le> room" if "0 < per" for k
    unfolding fits_def using fits_iff [OF that] .
  have served: "0 < per \<and> min cap fits * max slots 1 * per \<le> room" if "least \<le> min cap fits"
  proof -
    have "0 < fits" using that assms(2) by simp
    then have "0 < per" by (rule pos)
    moreover have "min cap fits * max slots 1 * per \<le> fits * max slots 1 * per"
      using \<open>0 < per\<close> by (intro mult_right_mono) auto
    moreover have "fits * max slots 1 * per \<le> room" using hold [OF \<open>0 < per\<close>, of j] j by simp
    ultimately show ?thesis by linarith
  qed
  have large: "STEP * k \<le> ch_ctx c" if "0 < per" "least \<le> STEP * k" "STEP * k \<le> full" "STEP * k * max slots 1 * per \<le> room" for k
    using hold [OF that(1), of k] cap(2) [OF that(3)] that by (auto simp: ctx min_def)
  show ?thesis using served cap(1) large assms(2) by (auto simp: ctx not_less)
qed

text \<open>
  C25. A model is served at the largest context there is room for, or not at all: what is chosen is at most what it was
  trained for and at least the floor, the cache of all its slots fits under the cap and beside the weights in the budget,
  and no larger multiple of 1024 tokens would.
\<close>

theorem context_is_the_largest_that_fits:
  assumes "choose_ctx repr meta weights budget slots cache_type least kv_cap = Inr c" "0 < least" "\<forall>cap. kv_cap = Some cap \<longrightarrow> 0 \<le> cap"
  shows "0 \<le> ch_ctx c \<and>
    (ch_ctx c \<noteq> 0 \<longrightarrow> least \<le> ch_ctx c \<and> ch_ctx c \<le> ch_trained c \<and> 0 < ch_per c \<and>
       weights + ch_ctx c * max slots 1 * ch_per c \<le> budget \<and> ch_ctx c * max slots 1 * ch_per c \<le> kv_room weights budget kv_cap) \<and>
    (\<forall>k. 0 < ch_per c \<and> least \<le> STEP * k \<and> STEP * k \<le> ch_trained c \<and>
         STEP * k * max slots 1 * ch_per c \<le> kv_room weights budget kv_cap \<longrightarrow> STEP * k \<le> ch_ctx c)"
proof -
  let ?room = "kv_room weights budget kv_cap"
  have room: "0 \<le> ?room" using assms(3) by (intro kv_room_nonneg) simp
  obtain full per where c: "c = (if full = 0 \<or> per = 0 then \<lparr>ch_ctx = 0, ch_trained = full, ch_per = per, ch_why = NoShape\<rparr>
      else chosen full per ?room slots least)"
    using assms(1) by (auto simp: choose_ctx_def and_then_Inr)
  have shape: "ch_trained c = full" "ch_per c = per" by (simp_all add: c chosen_def Let_def)
  show ?thesis
  proof (cases "full = 0 \<or> per = 0")
    case True
    then show ?thesis using assms(2) by (auto simp: c)
  next
    case False
    then have c': "c = chosen full per ?room slots least" by (simp add: c)
    have "weights + ch_ctx c * max slots 1 * per \<le> budget" if "0 < ch_ctx c" "0 < per" "ch_ctx c * max slots 1 * per \<le> ?room"
    proof -
      have "0 < ch_ctx c * max slots 1 * per" using that by (intro mult_pos_pos) auto
      then have "0 < ?room" using that(3) by linarith
      then have "?room \<le> budget - weights" by (auto simp: kv_room_def Let_def split: option.splits)
      then show ?thesis using that(3) by linarith
    qed
    then show ?thesis using chosen_largest [of least ?room per full slots] assms(2) room False unfolding shape c' [symmetric] by fastforce
  qed
qed

definition demo_meta :: metadata where
  "demo_meta = [(''general.architecture'', VStr ''llama''), (''llama.context_length'', VInt 131072), (''llama.block_count'', VInt 2),
     (''llama.attention.head_count'', VInt 4), (''llama.embedding_length'', VInt 256)]"

theorem context_is_the_largest_witness:
  "choose_ctx (\<lambda>_. []) demo_meta 1000000 40000000 1 ''f16'' FLOOR None =
     Inr \<lparr>ch_ctx = 18432, ch_trained = 131072, ch_per = 2048, ch_why = MemoryFits 18432 39000000 2048 131072\<rparr> \<and>
   FLOOR \<le> 18432 \<and> 18432 * max 1 1 * 2048 \<le> kv_room 1000000 40000000 None \<and> 1000000 + 18432 * max 1 1 * 2048 \<le> (40000000 :: int)"
proof -
  have c: "choose_ctx (\<lambda>_. []) demo_meta 1000000 40000000 1 ''f16'' FLOOR None =
     Inr \<lparr>ch_ctx = 18432, ch_trained = 131072, ch_per = 2048, ch_why = MemoryFits 18432 39000000 2048 131072\<rparr>"
    by code_simp
  show ?thesis using c context_is_the_largest_that_fits [OF c] by (simp add: FLOOR_def kv_room_def)
qed

end
