(* ===== verification/Downloads.thy ===== *)
theory Downloads
  imports GgufFiles KvCache
begin

text \<open>
  The ledger of weights on disk (\<open>harness/downloads.py\<close>): a row when a download begins, measured when it ends, stamped when
  its files go. The disk is a value: what sits at each path, and how directories resolve (\<open>fs_real\<close>). A path is absolute
  and normalised. The rows of this machine are those with its id; \<open>led_new\<close> is the id it is given on its first write.
  An operation is given the time it reads.
\<close>

section \<open>The disk\<close>

text \<open>
  A repository directory of the hub: is there a \<open>snapshots\<close> directory, the names below it with whether each resolves, the
  files below \<open>blobs\<close> (name, size, last change, whether a link), the bytes of every other file that is no link, the newest
  change, and what its first \<open>adapter_config.json\<close> and \<open>config.json\<close> say: the keys whose values are texts. \<open>fs_dirs\<close> says
  which directories there are.
\<close>

record hub_tree =
  tree_snapshots :: bool
  tree_files :: "(string \<times> bool) list"
  tree_blobs :: "(string \<times> nat \<times> rat \<times> bool) list"
  tree_rest :: nat
  tree_mtime :: rat
  tree_adapter :: "(string \<times> string option) list"
  tree_config :: "(string \<times> string option) list"

datatype node = File nat rat | Link string rat | Tree hub_tree

record disk =
  fs_nodes :: "(string \<times> node) list"
  fs_real :: "string \<Rightarrow> string"
  fs_dirs :: "string \<Rightarrow> bool"

definition path_parent :: "string \<Rightarrow> string" where
  "path_parent p = rev (drop 1 (dropWhile (\<lambda>c. c \<noteq> CHR ''/'') (rev p)))"

text \<open>\<open>Path.exists\<close> follows a link; \<open>os.path.lexists\<close> does not.\<close>

definition lexists :: "disk \<Rightarrow> string \<Rightarrow> bool" where
  "lexists fs p \<longleftrightarrow> map_of (fs_nodes fs) p \<noteq> None"

definition is_link :: "disk \<Rightarrow> string \<Rightarrow> bool" where
  "is_link fs p \<longleftrightarrow> (case map_of (fs_nodes fs) p of Some (Link t m) \<Rightarrow> True | _ \<Rightarrow> False)"

definition is_tree :: "disk \<Rightarrow> string \<Rightarrow> bool" where
  "is_tree fs p \<longleftrightarrow> (case map_of (fs_nodes fs) p of Some (Tree t) \<Rightarrow> True | _ \<Rightarrow> False)"

lemma is_link_iff: "is_link fs p \<longleftrightarrow> (\<exists>t m. map_of (fs_nodes fs) p = Some (Link t m))"
  by (simp add: is_link_def split: option.split node.split)

lemma is_tree_iff: "is_tree fs p \<longleftrightarrow> (\<exists>t. map_of (fs_nodes fs) p = Some (Tree t))"
  by (simp add: is_tree_def split: option.split node.split)

definition path_exists :: "disk \<Rightarrow> string \<Rightarrow> bool" where
  "path_exists fs p =
     (case map_of (fs_nodes fs) p of None \<Rightarrow> False | Some (Link t m) \<Rightarrow> lexists fs t | Some n \<Rightarrow> True)"

definition follow :: "disk \<Rightarrow> string \<Rightarrow> node option" where
  "follow fs p = (case map_of (fs_nodes fs) p of Some (Link t m) \<Rightarrow> map_of (fs_nodes fs) t | n \<Rightarrow> n)"

text \<open>\<open>key\<close>: the parent resolved, the entry itself not followed.\<close>

definition path_key :: "disk \<Rightarrow> string \<Rightarrow> string" where
  "path_key fs p = fs_real fs (path_parent p) @ ''/'' @ base_name p"

definition HUB :: string where "HUB = ''hub''"
definition GGUF :: string where "GGUF = ''gguf''"
definition FETCH :: string where "FETCH = ''fetch''"
definition LINK :: string where "LINK = ''hub-link''"
definition SCAN :: string where "SCAN = ''scan''"
definition PARTIAL :: string where "PARTIAL = ''partial''"

definition LOADABLE :: "string list" where
  "LOADABLE = [''config.json'', ''model_index.json'', ''adapter_config.json'']"

definition WEIGHT_SUFFIXES :: "string list" where
  "WEIGHT_SUFFIXES = [''.safetensors'', ''.bin'', ''.gguf'', ''.npz'', ''.pt'', ''.pth'', ''.ckpt'', ''.onnx'']"

definition REQUIRES_KEYS :: "string list" where
  "REQUIRES_KEYS = [''text_tokenizer'', ''tokenizer_name'', ''audio_tokenizer'', ''codec_model'', ''vocoder'', ''base_model'',
     ''base_model_name_or_path'']"

definition IN_FLIGHT_SECONDS :: rat where "IN_FLIGHT_SECONDS = 86400"

definition loadable :: "disk \<Rightarrow> string \<Rightarrow> string \<Rightarrow> bool" where
  "loadable fs kind p =
     (if kind = GGUF then suffix ''.gguf'' (lower (base_name p)) \<and> path_exists fs p
      else case follow fs p of
        Some (Tree t) \<Rightarrow> tree_snapshots t \<and>
          (\<exists>(f, ok) \<in> set (tree_files t). ok \<and> (base_name f \<in> set LOADABLE \<or> (\<exists>s \<in> set WEIGHT_SUFFIXES. suffix s f)))
      | _ \<Rightarrow> False)"

definition blob_bytes :: "hub_tree \<Rightarrow> nat" where
  "blob_bytes t = sum_list (map (\<lambda>(name, sz, m, link). if link then 0 else sz) (tree_blobs t))"

definition measured :: "disk \<Rightarrow> string \<Rightarrow> string \<Rightarrow> nat \<times> nat" where
  "measured fs kind p =
     (if kind = GGUF then
        (case map_of (fs_nodes fs) p of Some (File sz m) \<Rightarrow> (sz, 1) | _ \<Rightarrow> (0, if path_exists fs p then 1 else 0))
      else case follow fs p of
        Some (Tree t) \<Rightarrow> (blob_bytes t, length (tree_files t)) | _ \<Rightarrow> (0, 0))"

definition config_of :: "disk \<Rightarrow> string \<Rightarrow> (string \<times> string option) list" where
  "config_of fs p =
     (case follow fs p of
        Some (Tree t) \<Rightarrow> foldl (\<lambda>d (k, v). dict_put k v d) [] (tree_adapter t @ tree_config t) | _ \<Rightarrow> [])"

text \<open>\<open>_REPO\<close>: an owner and a name, of letters, digits, underscores, dots and dashes, the first a letter or a digit.\<close>

definition is_alnum :: "char \<Rightarrow> bool" where
  "is_alnum c \<longleftrightarrow> is_digit c \<or> (CHR ''a'' \<le> c \<and> c \<le> CHR ''z'') \<or> (CHR ''A'' \<le> c \<and> c \<le> CHR ''Z'')"

definition is_repo_char :: "char \<Rightarrow> bool" where
  "is_repo_char c \<longleftrightarrow> is_alnum c \<or> c \<in> {CHR ''_'', CHR ''.'', CHR ''-''}"

definition is_repo :: "string \<Rightarrow> bool" where
  "is_repo s \<longleftrightarrow>
     (case partition_at (CHR ''/'') s of
        (owner, name) \<Rightarrow> owner \<noteq> [] \<and> name \<noteq> [] \<and> is_alnum (hd owner) \<and> list_all is_repo_char owner \<and> list_all is_repo_char name)"

definition requires_in :: "(string \<times> string option) list \<Rightarrow> string \<Rightarrow> string list" where
  "requires_in config repo =
     sort (remdups (concat (map (\<lambda>k. case get_or None config k of
        Some v \<Rightarrow> if is_repo v \<and> v \<noteq> repo then [v] else [] | None \<Rightarrow> []) REQUIRES_KEYS)))"

section \<open>The ledger\<close>

text \<open>The context columns of a GGUF row, set together by \<open>context.plan\<close>; \<^const>\<open>None\<close> before it ran.\<close>

record served_ctx =
  sc_choice :: ctx_choice
  sc_slots :: int
  sc_at :: rat
  sc_cap :: int
  sc_beside :: int

record download_row =
  d_id :: nat
  d_proposal :: "nat option"
  d_repo :: string
  d_kind :: string
  d_path :: string
  d_file :: string
  d_origin :: string
  d_source :: string
  d_bytes :: nat
  d_files :: nat
  d_complete :: bool
  d_requires :: "string list"
  d_started :: "rat option"
  d_finished :: "rat option"
  d_removed :: "rat option"
  d_removed_by :: string
  d_removal_verdict :: "nat option"
  d_machine :: nat
  d_ctx :: "served_ctx option"

record ledger =
  led_rows :: "download_row list"
  led_proposals :: "(nat \<times> string) list"
  led_here :: "nat option"
  led_new :: nat

definition d_put_id :: "nat \<Rightarrow> download_row \<Rightarrow> download_row" where
  "d_put_id i r = r\<lparr>d_id := i\<rparr>"

interpretation downloads_table: table d_id d_put_id
  by unfold_locales (simp add: d_put_id_def)

text \<open>\<open>this_machine\<close>: the id, written on the first call.\<close>

definition remember_here :: "ledger \<Rightarrow> ledger" where
  "remember_here st = (case led_here st of None \<Rightarrow> st\<lparr>led_here := Some (led_new st)\<rparr> | Some m \<Rightarrow> st)"

definition here_id :: "ledger \<Rightarrow> nat" where
  "here_id st = (case led_here st of None \<Rightarrow> led_new st | Some m \<Rightarrow> m)"

definition ledger_proposal :: "ledger \<Rightarrow> string \<Rightarrow> nat option" where
  "ledger_proposal st name =
     (if name = [] then None
      else case find (\<lambda>p. snd p = name) (led_proposals st) of
        Some p \<Rightarrow> Some (fst p)
      | None \<Rightarrow> map_option fst (find (\<lambda>p. lower (snd p) = lower name) (led_proposals st)))"

definition mine :: "ledger \<Rightarrow> download_row \<Rightarrow> bool" where
  "mine st r \<longleftrightarrow> led_here st = Some (d_machine r)"

text \<open>\<open>live\<close>: this machine's rows not yet removed, newest first; an empty \<open>repo\<close>, \<open>kind\<close> or \<open>path\<close> does not restrict.\<close>

definition live :: "disk \<Rightarrow> ledger \<Rightarrow> string \<Rightarrow> string \<Rightarrow> string \<Rightarrow> download_row list" where
  "live fs st repo kind path =
     rev (filter (\<lambda>r. d_removed r = None \<and> mine st r \<and> (repo = [] \<or> lower (d_repo r) = lower repo) \<and>
            (kind = [] \<or> d_kind r = kind) \<and> (path = [] \<or> d_path r = path_key fs path)) (led_rows st))"

definition edit_row :: "nat \<Rightarrow> (download_row \<Rightarrow> download_row) \<Rightarrow> ledger \<Rightarrow> ledger" where
  "edit_row i f st = st\<lparr>led_rows := update_row d_id i f (led_rows st)\<rparr>"

definition insert_row :: "download_row \<Rightarrow> ledger \<Rightarrow> nat \<times> ledger" where
  "insert_row r st =
     (let i = next_id d_id (led_rows st) in (i, st\<lparr>led_rows := led_rows st @ [d_put_id i r]\<rparr>))"

definition blank_download :: "ledger \<Rightarrow> string \<Rightarrow> string \<Rightarrow> string \<Rightarrow> string \<Rightarrow> string \<Rightarrow> download_row" where
  "blank_download st repo kind path file origin =
     \<lparr>d_id = 0, d_proposal = None, d_repo = repo, d_kind = kind, d_path = path, d_file = file, d_origin = origin, d_source = [],
      d_bytes = 0, d_files = 0, d_complete = False, d_requires = [], d_started = None, d_finished = None, d_removed = None,
      d_removed_by = [], d_removal_verdict = None, d_machine = here_id st, d_ctx = None\<rparr>"

text \<open>\<open>start\<close>: the id of the row and the ledger.\<close>

definition start_download :: "disk \<Rightarrow> rat \<Rightarrow> string \<Rightarrow> string \<Rightarrow> string \<Rightarrow> string \<Rightarrow> string \<Rightarrow> string \<Rightarrow> ledger \<Rightarrow> nat \<times> ledger" where
  "start_download fs now repo kind path file origin proposal st =
     (case live fs st [] kind path of
        r # _ \<Rightarrow> (d_id r, edit_row (d_id r) (\<lambda>r. r\<lparr>d_started := Some now, d_finished := None, d_complete := False\<rparr>) st)
      | [] \<Rightarrow>
          insert_row ((blank_download st repo kind (path_key fs path) file origin)
              \<lparr>d_proposal := ledger_proposal st (if proposal \<noteq> [] then proposal else repo), d_started := Some now\<rparr>)
            (remember_here st))"

text \<open>\<open>finish\<close>: measure what landed and stamp the row; a row that is gone is a \<open>TypeError\<close>, \<^const>\<open>None\<close>.\<close>

definition finish_download :: "disk \<Rightarrow> rat \<Rightarrow> nat \<Rightarrow> string option \<Rightarrow> bool \<Rightarrow> ledger \<Rightarrow> ledger option" where
  "finish_download fs now rid path failed st =
     (case row d_id rid (led_rows st) of
        None \<Rightarrow> None
      | Some r \<Rightarrow>
          (let place = (case path of None \<Rightarrow> d_path r | Some p \<Rightarrow> path_key fs p);
               (sz, n) = measured fs (d_kind r) place;
               complete = (\<not> failed \<and> loadable fs (d_kind r) place);
               needs = (if d_kind r = HUB \<and> complete then requires_in (config_of fs place) (d_repo r) else [])
           in Some (edit_row rid (\<lambda>r. r\<lparr>d_path := place, d_bytes := sz, d_files := n, d_complete := complete,
                      d_requires := needs, d_finished := Some now\<rparr>) st)))"

text \<open>\<open>record\<close>: a download that already happened; \<open>when\<close> is the time it is given, if any.\<close>

definition record_download :: "disk \<Rightarrow> rat \<Rightarrow> rat option \<Rightarrow> string \<Rightarrow> string \<Rightarrow> string \<Rightarrow> string \<Rightarrow> string \<Rightarrow> string \<Rightarrow> string \<Rightarrow> ledger \<Rightarrow> ledger option" where
  "record_download fs now when repo kind path file origin source proposal st =
     (case start_download fs now repo kind path file origin proposal st of
        (rid, st1) \<Rightarrow>
          map_option (\<lambda>st3. case when of None \<Rightarrow> st3 | Some t \<Rightarrow> edit_row rid (\<lambda>r. r\<lparr>d_finished := Some t\<rparr>) st3)
            (finish_download fs now rid None False
              (edit_row rid (\<lambda>r. r\<lparr>d_started := Some (case when of None \<Rightarrow> now | Some t \<Rightarrow> t), d_source := source,
                 d_repo := (if d_repo r = [] then repo else d_repo r)\<rparr>) st1)))"

text \<open>\<open>removed\<close>: every live row of the path stamped, or one inserted.\<close>

definition stamp_removed :: "rat \<Rightarrow> string \<Rightarrow> nat option \<Rightarrow> download_row \<Rightarrow> download_row" where
  "stamp_removed now who verdict r = r\<lparr>d_removed := Some now, d_removed_by := who, d_removal_verdict := verdict, d_complete := False\<rparr>"

definition remove_download :: "disk \<Rightarrow> rat \<Rightarrow> string \<Rightarrow> string \<Rightarrow> nat option \<Rightarrow> string \<Rightarrow> string \<Rightarrow> nat \<Rightarrow> string \<Rightarrow> ledger \<Rightarrow> ledger" where
  "remove_download fs now path who verdict repo kind sz origin st =
     (case live fs st [] [] path of
        [] \<Rightarrow>
          (let k = (if kind \<noteq> [] then kind else if suffix ''.gguf'' (lower path) then GGUF else HUB);
               blank = blank_download st repo k (path_key fs path) (base_name path) (if origin \<noteq> [] then origin else SCAN)
           in snd (insert_row (blank\<lparr>d_proposal := ledger_proposal st repo, d_bytes := sz, d_removed := Some now,
                d_removed_by := who, d_removal_verdict := verdict\<rparr>) (remember_here st)))
      | rows \<Rightarrow> foldl (\<lambda>s r. edit_row (d_id r) (stamp_removed now who verdict) s) st rows)"

section \<open>Questions\<close>

definition complete_rows :: "disk \<Rightarrow> ledger \<Rightarrow> string \<Rightarrow> string \<Rightarrow> bool \<Rightarrow> download_row list" where
  "complete_rows fs st repo kind stat =
     filter (\<lambda>r. \<not> stat \<or> path_exists fs (d_path r)) (filter d_complete (live fs st repo kind []))"

definition have_download :: "disk \<Rightarrow> ledger \<Rightarrow> string \<Rightarrow> bool \<Rightarrow> bool" where
  "have_download fs st repo stat \<longleftrightarrow> complete_rows fs st repo [] stat \<noteq> []"

definition download_path :: "disk \<Rightarrow> ledger \<Rightarrow> string \<Rightarrow> string \<Rightarrow> string option" where
  "download_path fs st repo kind =
     (case sort_key (\<lambda>r. (d_kind r \<noteq> GGUF, - int (d_id r))) (complete_rows fs st repo kind True) of
        [] \<Rightarrow> None | r # _ \<Rightarrow> Some (d_path r))"

definition download_requires :: "disk \<Rightarrow> ledger \<Rightarrow> string \<Rightarrow> string list" where
  "download_requires fs st repo = sort (remdups (concat (map d_requires (complete_rows fs st repo HUB False))))"

definition complete_hub :: "disk \<Rightarrow> ledger \<Rightarrow> download_row list" where
  "complete_hub fs st = filter (\<lambda>r. path_exists fs (d_path r)) (filter d_complete (live fs st [] HUB []))"

definition download_in_flight :: "rat \<Rightarrow> download_row \<Rightarrow> bool" where
  "download_in_flight now r \<longleftrightarrow>
     (case d_started r of None \<Rightarrow> False | Some t \<Rightarrow> d_finished r = None \<and> now - t < IN_FLIGHT_SECONDS)"

section \<open>The ledger against the disk\<close>

text \<open>\<open>scan\<close>: the repository directories directly in the hub that are no links, and the GGUF files directly in theirs.\<close>

definition directly_in :: "string \<Rightarrow> string \<Rightarrow> bool" where
  "directly_in dir p \<longleftrightarrow> path_parent p = dir"

definition scan_disk :: "disk \<Rightarrow> string \<Rightarrow> string \<Rightarrow> (string \<times> string) list" where
  "scan_disk fs hub ggufs =
     map (\<lambda>p. (HUB, p)) (sort (filter (\<lambda>p. directly_in hub p \<and> prefix ''models--'' (base_name p) \<and> is_tree fs p) (remdups (map fst (fs_nodes fs))))) @
     map (\<lambda>p. (GGUF, p)) (sort (filter (\<lambda>p. directly_in ggufs p \<and> suffix ''.gguf'' (lower (base_name p)))
         (remdups (map fst (fs_nodes fs)))))"

definition drift_gone :: "disk \<Rightarrow> ledger \<Rightarrow> download_row list" where
  "drift_gone fs st = filter (\<lambda>r. d_origin r \<noteq> PARTIAL \<and> \<not> lexists fs (d_path r)) (live fs st [] [] [])"

definition drift_unrecorded :: "disk \<Rightarrow> string \<Rightarrow> string \<Rightarrow> ledger \<Rightarrow> string list" where
  "drift_unrecorded fs hub ggufs st =
     map snd (filter (\<lambda>(k, p). path_key fs p \<notin> set (map d_path (live fs st [] [] []))) (scan_disk fs hub ggufs))"

text \<open>\<open>_repo_from_dir\<close> and \<open>_gguf_repo\<close>: the repository of a directory no row explains, and of a GGUF file with its target.\<close>

fun replace_first :: "string \<Rightarrow> string \<Rightarrow> string \<Rightarrow> string" where
  "replace_first a b [] = []"
| "replace_first a b (x # xs) = (if prefix a (x # xs) then b @ drop (length a) (x # xs) else x # replace_first a b xs)"

definition repo_from_dir :: "string \<Rightarrow> string" where
  "repo_from_dir name = replace_first ''--'' ''/'' (drop 8 name)"

definition gguf_repo :: "disk \<Rightarrow> ledger \<Rightarrow> (string \<times> string) list \<Rightarrow> string \<Rightarrow> string \<times> string" where
  "gguf_repo fs st sources p =
     (case map_of (fs_nodes fs) p of
        Some (Link target m) \<Rightarrow>
          (case find (\<lambda>r. prefix (fs_real fs (d_path r) @ ''/'') target) (live fs st [] HUB []) of
             Some r \<Rightarrow> (d_repo r, target) | None \<Rightarrow> (get_or [] sources (base_name p), target))
      | _ \<Rightarrow> (get_or [] sources (base_name p), []))"

definition record_found :: "disk \<Rightarrow> rat \<Rightarrow> string \<Rightarrow> (string \<times> string) list \<Rightarrow> string list \<Rightarrow> ledger option \<Rightarrow> string \<times> string \<Rightarrow> ledger option" where
  "record_found fs now origin sources unrecorded st kp =
     (case st of
        None \<Rightarrow> None
      | Some s \<Rightarrow>
          if snd kp \<notin> set unrecorded then Some s
          else if fst kp = HUB then record_download fs now None (repo_from_dir (base_name (snd kp))) HUB (snd kp) [] origin [] [] s
          else (case gguf_repo fs s sources (snd kp) of (repo, target) \<Rightarrow>
                  record_download fs now None repo GGUF (snd kp) (base_name (snd kp)) (if target \<noteq> [] then LINK else origin) target [] s))"

definition record_unrecorded :: "disk \<Rightarrow> rat \<Rightarrow> string \<Rightarrow> string \<Rightarrow> (string \<times> string) list \<Rightarrow> string \<Rightarrow> ledger \<Rightarrow> ledger option" where
  "record_unrecorded fs now hub ggufs sources origin st =
     (let unrecorded = drift_unrecorded fs hub ggufs st;
          st1 = foldl (\<lambda>s r. remove_download fs now (d_path r) (''absent at '' @ origin) None [] [] 0 [] s) st (drift_gone fs st);
          found = scan_disk fs hub ggufs
      in foldl (record_found fs now origin sources unrecorded) (Some st1)
           (filter (\<lambda>x. fst x = HUB) found @ filter (\<lambda>x. fst x = GGUF) found))"

text \<open>\<open>summary\<close>: rows and bytes by kind and state.\<close>

datatype row_state = Complete | Incomplete | Removed

definition state_of_row :: "download_row \<Rightarrow> row_state" where
  "state_of_row r = (if d_removed r \<noteq> None then Removed else if d_complete r then Complete else Incomplete)"

definition ledger_summary :: "ledger \<Rightarrow> string \<Rightarrow> row_state \<Rightarrow> nat \<times> nat" where
  "ledger_summary st kind s =
     (let rows = filter (\<lambda>r. d_kind r = kind \<and> state_of_row r = s) (led_rows st) in (length rows, sum_list (map d_bytes rows)))"

end
