(* ===== verification/DownloadFacts.thy ===== *)
theory DownloadFacts
  imports Downloads
begin

text \<open>
  The ledger as what it stands for: the set of what this machine holds, a kind, a path and how it came for every live row.
  Recording adds to it, removal takes away, and after \<open>lh disk --record\<close> the ledger and the disk agree.
\<close>

section \<open>Paths\<close>

lemma filter_image: "(\<And>x. x \<in> A \<Longrightarrow> P (g x) = Q x) \<Longrightarrow> {y \<in> g ` A. P y} = g ` {x \<in> A. Q x}"
  by auto

lemma base_name_no_slash: "CHR ''/'' \<notin> set (base_name p)"
  by (auto simp: base_name_def dest: set_takeWhileD)

lemma split_path:
  assumes "CHR ''/'' \<notin> set b"
  shows "base_name (a @ CHR ''/'' # b) = b" "path_parent (a @ CHR ''/'' # b) = a"
proof -
  have "takeWhile (\<lambda>c. c \<noteq> CHR ''/'') (rev b @ CHR ''/'' # rev a) = rev b"
    "dropWhile (\<lambda>c. c \<noteq> CHR ''/'') (rev b @ CHR ''/'' # rev a) = CHR ''/'' # rev a"
    using assms by (auto simp: takeWhile_append dropWhile_append)
  then show "base_name (a @ CHR ''/'' # b) = b" "path_parent (a @ CHR ''/'' # b) = a"
    by (simp_all add: base_name_def path_parent_def)
qed

text \<open>What the disk's own functions keep to: resolving twice is resolving once, and a key names the same entry.\<close>

definition disk_ok :: "disk \<Rightarrow> bool" where
  "disk_ok fs \<longleftrightarrow> (\<forall>d. fs_real fs (fs_real fs d) = fs_real fs d) \<and> (\<forall>p. lexists fs p \<longrightarrow> lexists fs (path_key fs p))"

lemma path_key_idem: "disk_ok fs \<Longrightarrow> path_key fs (path_key fs p) = path_key fs p"
  by (simp add: path_key_def disk_ok_def split_path base_name_no_slash)

lemma path_key_not_Nil [simp]: "path_key fs p \<noteq> []"
  by (simp add: path_key_def)

section \<open>Holdings\<close>

definition is_live :: "ledger \<Rightarrow> download_row \<Rightarrow> bool" where
  "is_live st r \<longleftrightarrow> d_removed r = None \<and> mine st r"

definition holding :: "download_row \<Rightarrow> string \<times> string \<times> string" where
  "holding r = (d_kind r, d_path r, d_origin r)"

definition holdings :: "ledger \<Rightarrow> (string \<times> string \<times> string) set" where
  "holdings st = holding ` {r \<in> set (led_rows st). is_live st r}"

definition ledger_ok :: "disk \<Rightarrow> ledger \<Rightarrow> bool" where
  "ledger_ok fs st \<longleftrightarrow>
     distinct (map d_id (led_rows st)) \<and>
     (led_here st = None \<longrightarrow> (\<forall>r \<in> set (led_rows st). d_machine r \<noteq> led_new st)) \<and>
     (\<forall>r \<in> set (led_rows st). path_key fs (d_path r) = d_path r)"

lemma set_live:
  "set (live fs st repo kind path) = {r \<in> set (led_rows st). is_live st r \<and> (repo = [] \<or> lower (d_repo r) = lower repo) \<and>
     (kind = [] \<or> d_kind r = kind) \<and> (path = [] \<or> d_path r = path_key fs path)}"
  by (auto simp: live_def is_live_def)

lemma live_Nil_iff:
  "live fs st repo kind path = [] \<longleftrightarrow> (\<forall>r \<in> set (led_rows st). \<not> (is_live st r \<and> (repo = [] \<or> lower (d_repo r) = lower repo) \<and>
     (kind = [] \<or> d_kind r = kind) \<and> (path = [] \<or> d_path r = path_key fs path)))"
  unfolding set_empty [symmetric] set_live by blast

text \<open>An edit that leaves what a row holds, whose it is and whether it is live leaves the holdings.\<close>

definition keeps_holding :: "(download_row \<Rightarrow> download_row) \<Rightarrow> download_row \<Rightarrow> bool" where
  "keeps_holding f r \<longleftrightarrow> holding (f r) = holding r \<and> d_removed (f r) = d_removed r \<and> d_machine (f r) = d_machine r \<and> d_id (f r) = d_id r"

lemma edit_rows: "led_rows (edit_row i f st) = map (\<lambda>r. if d_id r = i then f r else r) (led_rows st)"
  "led_here (edit_row i f st) = led_here st" "led_new (edit_row i f st) = led_new st" "mine (edit_row i f st) = mine st"
  by (simp_all add: edit_row_def update_row_def mine_def fun_eq_iff)

lemma edit_keeps:
  assumes "\<And>r. r \<in> set (led_rows st) \<Longrightarrow> d_id r = i \<Longrightarrow> keeps_holding f r"
  shows "holdings (edit_row i f st) = holdings st" "ledger_ok fs st \<Longrightarrow> ledger_ok fs (edit_row i f st)"
proof -
  define g where "g r = (if d_id r = i then f r else r)" for r
  have g: "holding (g r) = holding r" "is_live st (g r) = is_live st r" "d_machine (g r) = d_machine r" "d_id (g r) = d_id r"
    "d_path (g r) = d_path r" if "r \<in> set (led_rows st)" for r
    using assms [OF that] by (auto simp: g_def keeps_holding_def is_live_def mine_def holding_def)
  have rows: "led_rows (edit_row i f st) = map g (led_rows st)" by (simp add: edit_rows g_def [abs_def])
  have "{x \<in> g ` set (led_rows st). is_live st x} = g ` {r \<in> set (led_rows st). is_live st r}"
    by (rule filter_image) (rule g(2))
  moreover have "is_live (edit_row i f st) = is_live st" by (simp add: is_live_def edit_rows fun_eq_iff)
  ultimately show "holdings (edit_row i f st) = holdings st" using g(1) by (simp add: holdings_def rows image_image)
  have ids: "map d_id (map g (led_rows st)) = map d_id (led_rows st)" using g(4) by simp
  show "ledger_ok fs st \<Longrightarrow> ledger_ok fs (edit_row i f st)"
    unfolding ledger_ok_def rows edit_rows(2,3) ids using g(3,5) by simp
qed

lemma insert_rows: "led_rows (snd (insert_row r st)) = led_rows st @ [d_put_id (next_id d_id (led_rows st)) r]"
  "led_here (snd (insert_row r st)) = led_here st" "led_new (snd (insert_row r st)) = led_new st"
  by (simp_all add: insert_row_def Let_def)

lemma put_id_fields [simp]:
  "d_removed (d_put_id i r) = d_removed r" "d_machine (d_put_id i r) = d_machine r" "d_path (d_put_id i r) = d_path r"
  "d_id (d_put_id i r) = i" "holding (d_put_id i r) = holding r"
  by (simp_all add: d_put_id_def holding_def)

lemma remember_fields [simp]:
  "led_rows (remember_here st) = led_rows st" "led_here (remember_here st) = Some (here_id st)" "led_new (remember_here st) = led_new st"
  by (simp_all add: remember_here_def here_id_def split: option.split)

lemma remember_live: "ledger_ok fs st \<Longrightarrow> r \<in> set (led_rows st) \<Longrightarrow> is_live (remember_here st) r = is_live st r"
  by (auto simp: is_live_def mine_def here_id_def ledger_ok_def split: option.split)

lemma insert_holdings:
  assumes "ledger_ok fs st" "d_machine r = here_id st"
  shows "holdings (snd (insert_row r (remember_here st))) = (if d_removed r = None then insert (holding r) (holdings st) else holdings st)"
proof -
  have "is_live (snd (insert_row r (remember_here st))) x = is_live (remember_here st) x" for x
    by (simp add: is_live_def mine_def insert_rows)
  moreover have "is_live (remember_here st) (d_put_id i r) = (d_removed r = None)" for i
    using assms(2) by (simp add: is_live_def mine_def)
  ultimately have "{x \<in> set (led_rows (snd (insert_row r (remember_here st)))). is_live (snd (insert_row r (remember_here st))) x} =
      {x \<in> set (led_rows st). is_live st x} \<union> (if d_removed r = None then {d_put_id (next_id d_id (led_rows st)) r} else {})"
    using remember_live [OF assms(1)] by (auto simp: insert_rows)
  then show ?thesis by (simp add: holdings_def image_Un)
qed

lemma insert_ok:
  assumes "ledger_ok fs st" "path_key fs (d_path r) = d_path r"
  shows "ledger_ok fs (snd (insert_row r (remember_here st)))"
  using assms distinct_ids_append [of d_id "led_rows st" "d_put_id (next_id d_id (led_rows st)) r"]
  by (auto simp: ledger_ok_def insert_rows)

section \<open>What the operations do to the holdings\<close>

definition held :: "string \<Rightarrow> string \<Rightarrow> ledger \<Rightarrow> bool" where
  "held kind path st \<longleftrightarrow> (\<exists>origin. (kind, path, origin) \<in> holdings st)"

lemma live_held: "kind \<noteq> [] \<Longrightarrow> path \<noteq> [] \<Longrightarrow> live fs st [] kind path \<noteq> [] \<longleftrightarrow> held kind (path_key fs path) st"
  unfolding live_Nil_iff held_def holdings_def holding_def by (auto simp: image_iff)

lemma start_spec:
  assumes "ledger_ok fs st" "disk_ok fs" "kind \<noteq> []" "path \<noteq> []"
  shows "ledger_ok fs (snd (start_download fs now repo kind path file origin proposal st)) \<and>
    holdings (snd (start_download fs now repo kind path file origin proposal st)) =
      (if held kind (path_key fs path) st then holdings st else insert (kind, path_key fs path, origin) (holdings st))"
proof (cases "live fs st [] kind path")
  case Nil
  then have "\<not> held kind (path_key fs path) st" using live_held [OF assms(3,4)] by blast
  then show ?thesis
    using Nil assms insert_holdings [OF assms(1)] insert_ok [OF assms(1)]
    by (simp add: start_download_def blank_download_def path_key_idem holding_def)
next
  case (Cons r rs)
  then have "held kind (path_key fs path) st" using live_held [OF assms(3,4), of fs st] by simp
  then show ?thesis using Cons assms(1)
    by (simp add: start_download_def edit_keeps keeps_holding_def holding_def)
qed

lemma finish_here_spec:
  assumes "finish_download fs now rid None failed st = Some st'" "ledger_ok fs st"
  shows "ledger_ok fs st' \<and> holdings st' = holdings st"
proof -
  obtain r where r: "row d_id rid (led_rows st) = Some r" using assms(1) by (auto simp: finish_download_def split: option.splits)
  have same: "x = r" if "x \<in> set (led_rows st)" "d_id x = rid" for x
    using assms(2) row_Some [OF r] that by (auto simp: ledger_ok_def distinct_map dest: inj_onD)
  let ?complete = "\<not> failed \<and> loadable fs (d_kind r) (d_path r)"
  define f where "f x = x\<lparr>d_path := d_path r, d_bytes := fst (measured fs (d_kind r) (d_path r)), d_files := snd (measured fs (d_kind r) (d_path r)),
      d_complete := ?complete, d_requires := (if d_kind r = HUB \<and> ?complete then requires_in (config_of fs (d_path r)) (d_repo r) else []),
      d_finished := Some now\<rparr>" for x :: download_row
  have "st' = edit_row rid f st" using assms(1) r by (simp add: finish_download_def Let_def split_def f_def [abs_def])
  moreover have "keeps_holding f x" if "x \<in> set (led_rows st)" "d_id x = rid" for x
    using same [OF that] by (simp add: keeps_holding_def holding_def f_def)
  ultimately show ?thesis using edit_keeps assms(2) by blast
qed

lemma finish_found: "row d_id rid (led_rows st) \<noteq> None \<Longrightarrow> finish_download fs now rid path failed st \<noteq> None"
  by (auto simp: finish_download_def Let_def split: prod.split)

lemma start_row: "row d_id (fst (start_download fs now repo kind path file origin proposal st))
    (led_rows (snd (start_download fs now repo kind path file origin proposal st))) \<noteq> None"
proof (cases "live fs st [] kind path")
  case Nil
  then show ?thesis
    by (simp add: start_download_def insert_row_def Let_def row_fresh_append del: put_id_fields) (simp add: d_put_id_def row_fresh_append)
next
  case (Cons r rs)
  then have "r \<in> set (led_rows st)" using set_live [of fs st "[]" kind path] by auto
  then have "row d_id (d_id r) (led_rows st) \<noteq> None" by (auto simp: row_None)
  then show ?thesis using Cons by (simp add: start_download_def edit_row_def row_update)
qed

text \<open>Recording adds what was not held, and nothing else.\<close>

lemma record_spec:
  assumes "ledger_ok fs st" "disk_ok fs" "kind \<noteq> []" "path \<noteq> []"
  obtains st' where "record_download fs now when repo kind path file origin source proposal st = Some st'" "ledger_ok fs st'"
    "holdings st' = (if held kind (path_key fs path) st then holdings st else insert (kind, path_key fs path, origin) (holdings st))"
proof -
  obtain rid st1 where s: "start_download fs now repo kind path file origin proposal st = (rid, st1)" by fastforce
  define st2 where "st2 = edit_row rid (\<lambda>r. r\<lparr>d_started := Some (case when of None \<Rightarrow> now | Some t \<Rightarrow> t), d_source := source,
      d_repo := (if d_repo r = [] then repo else d_repo r)\<rparr>) st1"
  have st2: "ledger_ok fs st2" "holdings st2 = holdings st1"
    using start_spec [OF assms, of now repo "file" origin proposal] s edit_keeps [of st1 rid]
    by (simp_all add: st2_def keeps_holding_def holding_def)
  have "row d_id rid (led_rows st1) \<noteq> None" using start_row [of fs now repo kind path "file" origin proposal st] s by simp
  then have "row d_id rid (led_rows st2) \<noteq> None" by (simp add: st2_def edit_row_def row_update)
  then obtain st3 where f: "finish_download fs now rid None False st2 = Some st3" using finish_found by blast
  define st4 where "st4 = (case when of None \<Rightarrow> st3 | Some t \<Rightarrow> edit_row rid (\<lambda>r. r\<lparr>d_finished := Some t\<rparr>) st3)"
  have "ledger_ok fs st4 \<and> holdings st4 = holdings st3"
    using finish_here_spec [OF f st2(1)] edit_keeps [of st3 rid]
    by (auto simp: st4_def keeps_holding_def holding_def split: option.split)
  moreover have "record_download fs now when repo kind path file origin source proposal st = Some st4"
    using f by (simp add: record_download_def s st2_def st4_def)
  ultimately show ?thesis
    using that finish_here_spec [OF f st2(1)] st2(2) start_spec [OF assms, of now repo "file" origin proposal] s by simp
qed

text \<open>Removing takes every live row of the path, and nothing else.\<close>

lemma stamp_fold:
  "led_rows (foldl (\<lambda>s r. edit_row (d_id r) (stamp_removed now who verdict) s) st rows) =
     map (\<lambda>r. if d_id r \<in> d_id ` set rows then stamp_removed now who verdict r else r) (led_rows st)"
  "led_here (foldl (\<lambda>s r. edit_row (d_id r) (stamp_removed now who verdict) s) st rows) = led_here st"
  "led_new (foldl (\<lambda>s r. edit_row (d_id r) (stamp_removed now who verdict) s) st rows) = led_new st"
  by (induction rows arbitrary: st) (auto simp: edit_rows stamp_removed_def)

lemma remove_spec:
  assumes "ledger_ok fs st" "disk_ok fs" "path \<noteq> []"
  shows "ledger_ok fs (remove_download fs now path who verdict repo kind sz origin st) \<and>
    holdings (remove_download fs now path who verdict repo kind sz origin st) = {h \<in> holdings st. fst (snd h) \<noteq> path_key fs path}"
proof (cases "live fs st [] [] path")
  case Nil
  then have "\<forall>h \<in> holdings st. fst (snd h) \<noteq> path_key fs path"
    using assms(3) by (auto simp: live_Nil_iff holdings_def holding_def)
  then show ?thesis
    using Nil assms insert_holdings [OF assms(1)] insert_ok [OF assms(1)]
    by (auto simp: remove_download_def Let_def blank_download_def path_key_idem)
next
  case (Cons r rs)
  let ?got = "live fs st [] [] path"
  let ?stamp = "\<lambda>r. if d_id r \<in> d_id ` set ?got then stamp_removed now who verdict r else r"
  define st' where "st' = remove_download fs now path who verdict repo kind sz origin st"
  have st': "st' = foldl (\<lambda>s r. edit_row (d_id r) (stamp_removed now who verdict) s) st ?got"
    using Cons by (simp add: st'_def remove_download_def)
  have rows: "led_rows st' = map ?stamp (led_rows st)" "led_here st' = led_here st" "led_new st' = led_new st"
    unfolding st' by (rule stamp_fold)+
  have got: "d_id x \<in> d_id ` set ?got \<longleftrightarrow> is_live st x \<and> d_path x = path_key fs path" if "x \<in> set (led_rows st)" for x
    using that assms(1,3) by (auto simp: set_live ledger_ok_def distinct_map dest: inj_onD)
  have still: "is_live st' (?stamp x) \<longleftrightarrow> is_live st x \<and> d_path x \<noteq> path_key fs path" if "x \<in> set (led_rows st)" for x
    using got [OF that] by (auto simp: is_live_def mine_def rows stamp_removed_def)
  have same: "holding (?stamp x) = holding x" for x by (simp add: stamp_removed_def holding_def)
  have "{y \<in> ?stamp ` set (led_rows st). is_live st' y} = ?stamp ` {x \<in> set (led_rows st). is_live st x \<and> d_path x \<noteq> path_key fs path}"
    by (rule filter_image) (rule still)
  then have "holdings st' = holding ` {x \<in> set (led_rows st). is_live st x \<and> d_path x \<noteq> path_key fs path}"
    unfolding holdings_def rows set_map by (simp only: image_image same)
  moreover have ids: "map d_id (map ?stamp (led_rows st)) = map d_id (led_rows st)" by (simp add: stamp_removed_def)
  have "ledger_ok fs st'" using assms(1) unfolding ledger_ok_def rows ids by (auto simp: stamp_removed_def)
  ultimately show ?thesis unfolding st'_def [symmetric] by (auto simp: holdings_def holding_def image_iff)
qed

text \<open>
  C26. The ledger is a set of what the machine holds: recording a download succeeds and adds the kind and the path unless a
  live row has them, removing a path takes everything recorded there, and neither touches anything else; both keep the ids
  distinct and the paths resolved.
\<close>

theorem ledger_refines_a_set:
  assumes "ledger_ok fs st" "disk_ok fs" "kind \<noteq> []" "path \<noteq> []"
  shows "(\<exists>st'. record_download fs now when repo kind path file origin source proposal st = Some st' \<and> ledger_ok fs st' \<and>
      holdings st' = (if held kind (path_key fs path) st then holdings st else insert (kind, path_key fs path, origin) (holdings st))) \<and>
    ledger_ok fs (remove_download fs now path who verdict repo kind' sz origin' st) \<and>
    holdings (remove_download fs now path who verdict repo kind' sz origin' st) = {h \<in> holdings st. fst (snd h) \<noteq> path_key fs path}"
  using remove_spec [OF assms(1,2,4)] record_spec [OF assms] by metis

section \<open>\<open>lh disk --record\<close>\<close>

definition held_paths :: "ledger \<Rightarrow> string set" where
  "held_paths st = (fst \<circ> snd) ` holdings st"

lemma live_paths: "set (map d_path (live fs st [] [] [])) = held_paths st"
  by (auto simp: set_live held_paths_def holdings_def holding_def image_image)

lemma gone_iff: "drift_gone fs st = [] \<longleftrightarrow> (\<forall>(k, p, origin) \<in> holdings st. origin \<noteq> PARTIAL \<longrightarrow> lexists fs p)"
  by (auto simp: drift_gone_def filter_empty_conv set_live holdings_def holding_def)

lemma unrecorded_iff: "drift_unrecorded fs hub ggufs st = [] \<longleftrightarrow> (\<forall>(k, p) \<in> set (scan_disk fs hub ggufs). path_key fs p \<in> held_paths st)"
  unfolding drift_unrecorded_def live_paths by (auto simp: filter_empty_conv)

lemma gone_rows: "r \<in> set (drift_gone fs st) \<Longrightarrow> r \<in> set (led_rows st) \<and> is_live st r \<and> d_origin r \<noteq> PARTIAL \<and> \<not> lexists fs (d_path r)"
  by (auto simp: drift_gone_def set_live)

lemma remove_all_spec:
  assumes "\<forall>r \<in> set rs. path_key fs (d_path r) = d_path r" "disk_ok fs" "ledger_ok fs st"
  shows "ledger_ok fs (foldl (\<lambda>s r. remove_download fs now (d_path r) who None [] [] 0 [] s) st rs) \<and>
    holdings (foldl (\<lambda>s r. remove_download fs now (d_path r) who None [] [] 0 [] s) st rs) = {h \<in> holdings st. fst (snd h) \<notin> d_path ` set rs}"
  using assms(1,3)
proof (induction rs arbitrary: st)
  case (Cons r rs)
  have "d_path r \<noteq> []" using Cons.prems(1) path_key_not_Nil [of fs "d_path r"] by simp
  note step = remove_spec [OF Cons.prems(2) assms(2) this, of now who None "[]" "[]" 0 "[]"]
  then show ?case
    using Cons.IH [OF _ conjunct1 [OF step]] Cons.prems(1) by auto
qed simp

lemma scan_entries:
  "(k, p) \<in> set (scan_disk fs hub ggufs) \<Longrightarrow> (k = HUB \<or> k = GGUF) \<and> p \<noteq> [] \<and> lexists fs p"
  by (auto simp: scan_disk_def lexists_def base_name_def suffix_def map_of_eq_None_iff)

lemma record_found_spec:
  assumes "disk_ok fs" "\<forall>(k, p) \<in> set xs. (k = HUB \<or> k = GGUF) \<and> p \<noteq> [] \<and> lexists fs p"
    and "ledger_ok fs s" "drift_gone fs s = []"
  shows "\<exists>s'. foldl (record_found fs now origin sources unrecorded) (Some s) xs = Some s' \<and> ledger_ok fs s' \<and> drift_gone fs s' = [] \<and>
    held_paths s \<union> path_key fs ` (snd ` set xs \<inter> set unrecorded) \<subseteq> held_paths s'"
  using assms(2-4)
proof (induction xs arbitrary: s)
  case (Cons kp xs)
  obtain k p where kp: "kp = (k, p)" by fastforce
  have p: "k = HUB \<or> k = GGUF" "p \<noteq> []" "lexists fs p" using Cons.prems(1) by (simp_all add: kp)
  have key: "lexists fs (path_key fs p)" using assms(1) p(3) by (simp add: disk_ok_def)
  have "\<exists>s1. record_found fs now origin sources unrecorded (Some s) kp = Some s1 \<and> ledger_ok fs s1 \<and> drift_gone fs s1 = [] \<and>
      held_paths s \<union> (if p \<in> set unrecorded then {path_key fs p} else {}) \<subseteq> held_paths s1"
  proof (cases "p \<in> set unrecorded")
    case True
    have "\<exists>repo file origin' source. record_found fs now origin sources unrecorded (Some s) kp =
        record_download fs now None repo k p file origin' source [] s"
      using True p(1) by (auto simp: record_found_def kp split: prod.split)
    then obtain repo "file" origin' source where
      r: "record_found fs now origin sources unrecorded (Some s) kp = record_download fs now None repo k p file origin' source [] s" by blast
    have "k \<noteq> []" using p(1) by (auto simp: HUB_def GGUF_def)
    then obtain s1 where s1: "record_download fs now None repo k p file origin' source [] s = Some s1" "ledger_ok fs s1"
      "holdings s1 = (if held k (path_key fs p) s then holdings s else insert (k, path_key fs p, origin') (holdings s))"
      using record_spec [OF Cons.prems(2) assms(1) _ p(2)] by blast
    then have "held_paths s \<union> {path_key fs p} \<subseteq> held_paths s1"
      by (auto simp: held_paths_def held_def image_iff split: if_splits) (force+)
    moreover have "drift_gone fs s1 = []" using Cons.prems(3) s1(3) key by (auto simp: gone_iff)
    ultimately show ?thesis using True r s1 by auto
  next
    case False
    then show ?thesis using Cons.prems by (simp add: record_found_def kp)
  qed
  then obtain s1 where s1: "record_found fs now origin sources unrecorded (Some s) kp = Some s1" "ledger_ok fs s1" "drift_gone fs s1 = []"
    "held_paths s \<union> (if p \<in> set unrecorded then {path_key fs p} else {}) \<subseteq> held_paths s1" by blast
  have rest: "\<forall>(k, p) \<in> set xs. (k = HUB \<or> k = GGUF) \<and> p \<noteq> [] \<and> lexists fs p" using Cons.prems(1) by simp
  from Cons.IH [OF rest s1(2,3)] show ?case using s1(1,4) kp by (fastforce split: if_splits)
qed simp

text \<open>
  After \<open>lh disk --record\<close> the ledger and the disk agree: it returns, no live row of a whole download points at a path
  that is gone, and everything in the weights directories has a row, whatever was recorded before.
\<close>

theorem record_clears_drift:
  assumes "ledger_ok fs st" "disk_ok fs"
  shows "\<exists>st'. record_unrecorded fs now hub ggufs sources origin st = Some st' \<and> ledger_ok fs st' \<and>
    drift_gone fs st' = [] \<and> drift_unrecorded fs hub ggufs st' = []"
proof -
  let ?gone = "drift_gone fs st" and ?found = "scan_disk fs hub ggufs"
  define st1 where "st1 = foldl (\<lambda>s r. remove_download fs now (d_path r) (''absent at '' @ origin) None [] [] 0 [] s) st ?gone"
  have rm: "ledger_ok fs st1" "holdings st1 = {h \<in> holdings st. fst (snd h) \<notin> d_path ` set ?gone}"
    using remove_all_spec [OF _ assms(2,1), of ?gone now "''absent at '' @ origin"] gone_rows [of _ fs st] assms(1)
    unfolding st1_def by (auto simp: ledger_ok_def)
  have "drift_gone fs st1 = []"
    unfolding gone_iff rm(2) by (auto simp: holdings_def holding_def drift_gone_def set_live)
  moreover have scan: "\<forall>(k, p) \<in> set (filter (\<lambda>x. fst x = HUB) ?found @ filter (\<lambda>x. fst x = GGUF) ?found). (k = HUB \<or> k = GGUF) \<and> p \<noteq> [] \<and> lexists fs p"
    using scan_entries by fastforce
  ultimately obtain st' where st': "record_unrecorded fs now hub ggufs sources origin st = Some st'" "ledger_ok fs st'" "drift_gone fs st' = []"
    "held_paths st1 \<union> path_key fs ` (snd ` set (filter (\<lambda>x. fst x = HUB) ?found @ filter (\<lambda>x. fst x = GGUF) ?found) \<inter>
       set (drift_unrecorded fs hub ggufs st)) \<subseteq> held_paths st'"
    using record_found_spec [OF assms(2) scan rm(1), of now origin sources "drift_unrecorded fs hub ggufs st"]
    by (auto simp: record_unrecorded_def Let_def st1_def)
  have "path_key fs p \<in> held_paths st'" if kp: "(k, p) \<in> set ?found" for k p
  proof (cases "path_key fs p \<in> held_paths st")
    case True
    have "lexists fs (path_key fs p)" using scan_entries [OF kp] assms(2) by (simp add: disk_ok_def)
    then have "path_key fs p \<notin> d_path ` set ?gone" using gone_rows by fastforce
    then have "path_key fs p \<in> held_paths st1" using True unfolding held_paths_def rm(2) by force
    then show ?thesis using st'(4) by blast
  next
    case False
    then have "p \<in> set (drift_unrecorded fs hub ggufs st)" using kp unfolding drift_unrecorded_def live_paths by force
    moreover have "p \<in> snd ` set (filter (\<lambda>x. fst x = HUB) ?found @ filter (\<lambda>x. fst x = GGUF) ?found)"
      using kp scan_entries [OF kp] by force
    ultimately show ?thesis using st'(4) by blast
  qed
  then show ?thesis using st' by (auto simp: unrecorded_iff)
qed

section \<open>A small machine\<close>

definition demo_disk :: disk where
  "demo_disk = \<lparr>fs_nodes = [(''/g/m.gguf'', File 1000000 0), (''/hub/models--a--b'', Tree \<lparr>tree_snapshots = True, tree_files = [(''s/config.json'', True)],
     tree_blobs = [(''sha'', 7, 0, False)], tree_rest = 3, tree_mtime = 0, tree_adapter = [], tree_config = [(''base_model'', Some ''c/d'')]\<rparr>)], fs_real = (\<lambda>d. d), fs_dirs = (\<lambda>d. True)\<rparr>"

definition demo_row :: download_row where
  "demo_row = \<lparr>d_id = 1, d_proposal = None, d_repo = ''a/m'', d_kind = GGUF, d_path = ''/g/m.gguf'', d_file = ''m.gguf'', d_origin = FETCH,
     d_source = [], d_bytes = 1000000, d_files = 1, d_complete = True, d_requires = [], d_started = Some 1, d_finished = Some 2, d_removed = None,
     d_removed_by = [], d_removal_verdict = None, d_machine = 4, d_ctx = None\<rparr>"

definition demo_ledger :: ledger where
  "demo_ledger = \<lparr>led_rows = [demo_row, demo_row\<lparr>d_id := 2, d_kind := HUB, d_path := ''/hub/models--gone''\<rparr>], led_proposals = [],
     led_here = Some 4, led_new = 5\<rparr>"

lemma demo_ledger_ok: "ledger_ok demo_disk demo_ledger" and demo_disk_ok: "disk_ok demo_disk"
proof -
  have key: "path_key demo_disk ''/g/m.gguf'' = ''/g/m.gguf''" "path_key demo_disk ''/hub/models--gone'' = ''/hub/models--gone''"
    "path_key demo_disk ''/hub/models--a--b'' = ''/hub/models--a--b''"
    by (simp_all add: path_key_def demo_disk_def path_parent_def base_name_def)
  show "ledger_ok demo_disk demo_ledger" by (simp add: ledger_ok_def demo_ledger_def demo_row_def key)
  have two: "lexists demo_disk p \<Longrightarrow> p = ''/g/m.gguf'' \<or> p = ''/hub/models--a--b''" for p
    by (rule ccontr) (simp add: lexists_def demo_disk_def)
  have "lexists demo_disk (path_key demo_disk p)" if "lexists demo_disk p" for p
    using two [OF that] that by (elim disjE) (simp_all only: key)
  moreover have "fs_real demo_disk d = d" for d by (simp add: demo_disk_def)
  ultimately show "disk_ok demo_disk" by (simp add: disk_ok_def)
qed

lemma demo_holdings: "holdings demo_ledger = {(GGUF, ''/g/m.gguf'', FETCH), (HUB, ''/hub/models--gone'', FETCH)}"
proof -
  have "\<forall>r \<in> set (led_rows demo_ledger). is_live demo_ledger r" by (simp add: demo_ledger_def demo_row_def is_live_def mine_def)
  then have "{r \<in> set (led_rows demo_ledger). is_live demo_ledger r} = set (led_rows demo_ledger)" by blast
  then show ?thesis by (simp add: holdings_def) (simp add: demo_ledger_def demo_row_def holding_def)
qed

lemma demo_not_there: "\<not> lexists demo_disk ''/hub/models--gone''" "FETCH \<noteq> PARTIAL" "HUB \<noteq> []" "HUB \<noteq> GGUF"
  by (simp_all add: lexists_def demo_disk_def FETCH_def PARTIAL_def HUB_def GGUF_def)

lemma demo_key: "path_key demo_disk ''/hub/models--a--b'' = ''/hub/models--a--b''"
  by (simp add: path_key_def demo_disk_def path_parent_def base_name_def)

theorem ledger_refines_a_set_witness:
  "\<exists>st'. record_download demo_disk 5 None ''a/b'' HUB ''/hub/models--a--b'' [] SCAN [] [] demo_ledger = Some st' \<and>
     (HUB, ''/hub/models--a--b'', SCAN) \<in> holdings st' \<and> (GGUF, ''/g/m.gguf'', FETCH) \<in> holdings st'"
proof -
  have p: "''/hub/models--a--b'' \<noteq> []" and fresh: "held HUB ''/hub/models--a--b'' demo_ledger = False"
    using demo_not_there(4) by (simp_all add: held_def demo_holdings)
  have "\<exists>st'. record_download demo_disk 5 None ''a/b'' HUB ''/hub/models--a--b'' [] SCAN [] [] demo_ledger = Some st' \<and>
      ledger_ok demo_disk st' \<and>
      holdings st' = (if held HUB (path_key demo_disk ''/hub/models--a--b'') demo_ledger then holdings demo_ledger
        else insert (HUB, path_key demo_disk ''/hub/models--a--b'', SCAN) (holdings demo_ledger))"
    by (rule conjunct1 [OF ledger_refines_a_set [OF demo_ledger_ok demo_disk_ok demo_not_there(3) p]])
  then obtain st' where st': "record_download demo_disk 5 None ''a/b'' HUB ''/hub/models--a--b'' [] SCAN [] [] demo_ledger = Some st'"
    "holdings st' = insert (HUB, ''/hub/models--a--b'', SCAN) (holdings demo_ledger)"
    by (simp only: demo_key fresh if_False) (elim exE conjE, rule that)
  have "(GGUF, ''/g/m.gguf'', FETCH) \<in> holdings st'" unfolding st'(2) demo_holdings by (intro insertI2 insertI1)
  moreover have "(HUB, ''/hub/models--a--b'', SCAN) \<in> holdings st'" unfolding st'(2) by (rule insertI1)
  ultimately show ?thesis using st'(1) by (intro exI conjI)
qed

theorem record_clears_drift_witness:
  "drift_gone demo_disk demo_ledger \<noteq> [] \<and>
   (\<exists>st'. record_unrecorded demo_disk 5 ''/hub'' ''/g'' [] SCAN demo_ledger = Some st' \<and>
      drift_gone demo_disk st' = [] \<and> drift_unrecorded demo_disk ''/hub'' ''/g'' st' = [])"
proof -
  have "(HUB, ''/hub/models--gone'', FETCH) \<in> holdings demo_ledger" by (simp add: demo_holdings)
  then have "drift_gone demo_disk demo_ledger \<noteq> []" using demo_not_there(1,2) unfolding gone_iff by blast
  then show ?thesis using record_clears_drift [OF demo_ledger_ok demo_disk_ok] by blast
qed

end
