(* ===== verification/ServedContext.thy ===== *)
theory ServedContext
  imports DownloadFacts Gateway Exclusive
begin

text \<open>
  The context every GGUF file of this machine is served at (\<open>plan\<close>, \<open>served\<close>, \<open>refusal\<close>, \<open>served_ctx\<close> and \<open>preset_text\<close> of
  \<open>harness/context.py\<close>), the model that stays resident beside the router, and the file a repository is served from
  (\<open>fetched\<close>, \<open>hub_stem\<close> and \<open>adopt\<close> of \<open>harness/gguf.py\<close>). What a file holds is \<open>cx_bytes\<close>; the wording of a reason is
  \<open>cx_text\<close>; the answer of a router is an argument.
\<close>

record ctx_env =
  cx_decode :: "bytes \<Rightarrow> string"
  cx_depth :: nat
  cx_repr :: "meta_value \<Rightarrow> string"
  cx_bytes :: "string \<Rightarrow> bytes option"
  cx_text :: "ctx_why \<Rightarrow> string"
  cx_size :: "string \<Rightarrow> int"
  cx_serving :: serving_env

section \<open>The model beside the router\<close>

definition text_names :: "string list" where
  "text_names = TEXT_SERVED @ GW_TEXT_LANES"

text \<open>The repository of a default that an entry names, or the default itself.\<close>

definition beside_repo :: "gw_entry list \<Rightarrow> string \<Rightarrow> string" where
  "beside_repo config name =
     (case find (\<lambda>g. lower (str_or (ge_name g)) = lower name) (rev config) of
        Some g \<Rightarrow> strip_provider (str_or (lp_model (ge_params g))) | None \<Rightarrow> name)"

fun coresident_from :: "ctx_env \<Rightarrow> gw_entry list \<Rightarrow> (string \<times> string) list \<Rightarrow> int \<Rightarrow> route_error + int" where
  "coresident_from e config [] most = Inr most"
| "coresident_from e config ((lane, spec) # defaults) most =
     (let name = spec_name spec
      in if lane \<notin> set text_names \<or> name = [] \<or> CHR '':'' \<in> set name then coresident_from e config defaults most
         else and_then (engine_for (cx_serving e) config name) (\<lambda>engine.
           if engine = LLAMACPP then coresident_from e config defaults most
           else (let repo = beside_repo config name
                 in coresident_from e config defaults (if CHR ''/'' \<in> set repo then max most (cx_size e repo) else most))))"

definition coresident_bytes :: "ctx_env \<Rightarrow> gw_entry list \<Rightarrow> (string \<times> string) list \<Rightarrow> int" where
  "coresident_bytes e config defaults = (case coresident_from e config defaults 0 of Inl err \<Rightarrow> 0 | Inr n \<Rightarrow> n)"

section \<open>The plan\<close>

text \<open>\<open>except (OSError, ValueError, KeyError, struct.error)\<close>.\<close>

fun plan_catches :: "meta_error \<Rightarrow> bool" where
  "plan_catches (Header h) = (h \<noteq> TooLong \<and> h \<noteq> TooDeep)"
| "plan_catches OsError = True"
| "plan_catches BadValue = True"
| "plan_catches BadKey = True"
| "plan_catches BadType = False"
| "plan_catches BadFloat = False"

definition gguf_stem_of :: "string \<Rightarrow> string" where
  "gguf_stem_of path = (let name = base_name path in take (length name - length ''.gguf'') name)"

definition header_of :: "disk \<Rightarrow> ctx_env \<Rightarrow> string \<Rightarrow> meta_error + metadata \<times> int" where
  "header_of fs e path =
     (case (cx_bytes e path, follow fs path) of
        (Some bs, Some (File sz m)) \<Rightarrow>
          (case read_meta (cx_decode e) (cx_depth e) bs of Inl h \<Rightarrow> Inl (Header h) | Inr meta \<Rightarrow> Inr (meta, int sz))
      | _ \<Rightarrow> Inl OsError)"

record plan_line =
  pl_stem :: string
  pl_path :: string
  pl_ctx :: int
  pl_slots :: int
  pl_why :: ctx_why

text \<open>One file: what it is served at, a refusal where reading it failed in a way the plan expects.\<close>

definition choice_for :: "disk \<Rightarrow> ctx_env \<Rightarrow> int \<Rightarrow> string \<Rightarrow> int \<Rightarrow> (int \<times> int) option \<Rightarrow> int \<Rightarrow> string \<Rightarrow> meta_error + ctx_choice" where
  "choice_for fs e room cache_type slots fixed kv_cap path =
     (case and_then (header_of fs e path) (\<lambda>(meta, weights).
         case fixed of
           Some (n, ctx) \<Rightarrow> choose_slots (cx_repr e) meta weights room n ctx cache_type (Some kv_cap)
         | None \<Rightarrow> choose_ctx (cx_repr e) meta weights room slots cache_type FLOOR (Some kv_cap)) of
        Inr c \<Rightarrow> Inr c
      | Inl err \<Rightarrow> if plan_catches err then Inr \<lparr>ch_ctx = 0, ch_trained = 0, ch_per = 0, ch_why = Unreadable err\<rparr> else Inl err)"

definition plan_row :: "disk \<Rightarrow> ctx_env \<Rightarrow> rat \<Rightarrow> int \<Rightarrow> int \<Rightarrow> string \<Rightarrow> int \<Rightarrow> int \<Rightarrow> meta_error + ledger \<times> plan_line list \<Rightarrow> download_row \<Rightarrow> meta_error + ledger \<times> plan_line list" where
  "plan_row fs e now budget slots cache_type kv_cap beside acc r =
     and_then acc (\<lambda>(st, out).
       if \<not> path_exists fs (d_path r) then Inr (st, out)
       else (let stem = gguf_stem_of (d_path r)
         in and_then (slot_plan stem) (\<lambda>fixed.
           let n = (case fixed of None \<Rightarrow> slots | Some (k, ctx) \<Rightarrow> k)
           in and_then (choice_for fs e (budget - beside) cache_type slots fixed kv_cap (d_path r)) (\<lambda>c.
             Inr (edit_row (d_id r) (\<lambda>x. x\<lparr>d_ctx := Some \<lparr>sc_choice = c, sc_slots = n, sc_at = now, sc_cap = kv_cap, sc_beside = beside\<rparr>\<rparr>) st,
                  out @ [\<lparr>pl_stem = stem, pl_path = d_path r, pl_ctx = ch_ctx c, pl_slots = n, pl_why = ch_why c\<rparr>])))))"

definition plan_contexts :: "disk \<Rightarrow> ctx_env \<Rightarrow> rat \<Rightarrow> int \<Rightarrow> int \<Rightarrow> string \<Rightarrow> int \<Rightarrow> int \<Rightarrow> ledger \<Rightarrow> meta_error + ledger \<times> plan_line list" where
  "plan_contexts fs e now budget slots cache_type kv_cap beside st =
     foldl (plan_row fs e now budget slots cache_type kv_cap beside) (Inr (st, [])) (live fs st [] GGUF [])"

section \<open>What was planned\<close>

definition served_row :: "disk \<Rightarrow> ledger \<Rightarrow> string \<Rightarrow> download_row option" where
  "served_row fs st stem =
     find (\<lambda>r. base_name (d_path r) = stem @ ''.gguf'' \<and> (case d_ctx r of None \<Rightarrow> False | Some c \<Rightarrow> sc_at c \<noteq> 0)) (live fs st [] GGUF [])"

definition stem_refusal :: "disk \<Rightarrow> ctx_env \<Rightarrow> ledger \<Rightarrow> string \<Rightarrow> string" where
  "stem_refusal fs e st stem =
     (case served_row fs st stem of
        Some r \<Rightarrow> (case d_ctx r of
            Some c \<Rightarrow> if ch_ctx (sc_choice c) = 0 then cx_text e (ch_why (sc_choice c)) else []
          | None \<Rightarrow> [])
      | None \<Rightarrow> [])"

text \<open>
  \<open>served_ctx\<close> of a stem the router answers for: its launch arguments in the list of models, \<^const>\<open>None\<close> when it did not
  answer, then the stored choice.
\<close>

fun arg_after :: "string \<Rightarrow> string list \<Rightarrow> string option" where
  "arg_after a [] = None"
| "arg_after a (x # xs) = (if x = a then (case xs of [] \<Rightarrow> None | y # _ \<Rightarrow> Some y) else arg_after a xs)"

definition launched_ctx :: "(string \<times> string list) list option \<Rightarrow> string \<Rightarrow> int option" where
  "launched_ctx answer stem =
     (case answer of
        None \<Rightarrow> None
      | Some ms \<Rightarrow>
          (case find (\<lambda>m. fst m = stem \<and> ''--ctx-size'' \<in> set (snd m)) ms of
             None \<Rightarrow> None
           | Some m \<Rightarrow> (case arg_after ''--ctx-size'' (snd m) of None \<Rightarrow> None | Some v \<Rightarrow> py_int v)))"

definition ctx_of_stem :: "disk \<Rightarrow> ledger \<Rightarrow> (string \<times> string list) list option \<Rightarrow> string \<Rightarrow> int option" where
  "ctx_of_stem fs st answer stem =
     (case launched_ctx answer stem of
        Some n \<Rightarrow> Some n
      | None \<Rightarrow>
          (case served_row fs st stem of
             Some r \<Rightarrow> (case d_ctx r of
                 Some c \<Rightarrow> if ch_ctx (sc_choice c) \<noteq> 0 then Some (ch_ctx (sc_choice c)) else None
               | None \<Rightarrow> None)
           | None \<Rightarrow> None))"

text \<open>\<open>_upstream\<close>: the router and the stem a text spec reaches it through.\<close>

definition ctx_upstream :: "serving_env \<Rightarrow> gw_entry list \<Rightarrow> string \<Rightarrow> (string \<times> string) option" where
  "ctx_upstream e config spec =
     (let name = spec_name spec
      in if prefix LLAMA_PREFIX name then Some (router_url e, strip (drop (length LLAMA_PREFIX) name))
         else if name = [] \<or> CHR '':'' \<in> set name then None
         else (case find (\<lambda>g. lower (str_or (ge_name g)) = lower name) config of
             None \<Rightarrow> None
           | Some g \<Rightarrow>
               (let base = server_base (str_or (lp_api_base (ge_params g)))
                in if base = [] then None else Some (base, strip_provider (str_or (lp_model (ge_params g)))))))"

section \<open>The preset of the router\<close>

definition preset_args :: "string \<Rightarrow> int \<Rightarrow> int \<Rightarrow> string list" where
  "preset_args cache_type ctx n =
     [''c = '' @ decimal_int ctx, ''parallel = '' @ decimal_int n, ''cache-type-k = '' @ cache_type, ''cache-type-v = '' @ cache_type] @
     (if n > 1 then [''kv-unified = true''] else [])"

definition preset_lines :: "(ctx_why \<Rightarrow> string) \<Rightarrow> plan_line list \<Rightarrow> int \<Rightarrow> int \<Rightarrow> string \<Rightarrow> string list" where
  "preset_lines wording plans default_ctx slots cache_type =
     [''version = 1'', [], ''[*]''] @ preset_args cache_type default_ctx slots @ [[]] @
     concat (map (\<lambda>p.
       if pl_ctx p \<noteq> 0
       then [''; '' @ wording (pl_why p), ''['' @ pl_stem p @ '']''] @ preset_args cache_type (pl_ctx p) (pl_slots p) @ [[]]
       else [''; '' @ pl_stem p @ '' '' @ wording (pl_why p), []]) (sort_key pl_stem plans))"

definition preset_text :: "(ctx_why \<Rightarrow> string) \<Rightarrow> plan_line list \<Rightarrow> int \<Rightarrow> int \<Rightarrow> string \<Rightarrow> string" where
  "preset_text wording plans default_ctx slots cache_type = join [CHR 0x0A] (preset_lines wording plans default_ctx slots cache_type)"

section \<open>The file a repository is served from\<close>

definition fetched_stem :: "disk \<Rightarrow> ledger \<Rightarrow> string \<Rightarrow> string option" where
  "fetched_stem fs st repo = map_option gguf_stem_of (download_path fs st repo GGUF)"

text \<open>
  \<open>_hub_pick\<close>: the files of a snapshot are \<open>snaps\<close>, in the order of the snapshots' names.
\<close>

definition hub_pick :: "disk \<Rightarrow> (string \<Rightarrow> (string \<times> sibling list) list) \<Rightarrow> int \<Rightarrow> ledger \<Rightarrow> string \<Rightarrow> (download_row \<times> string \<times> string) option" where
  "hub_pick fs snaps ceil st repo =
     find (\<lambda>_. True) (concat (map (\<lambda>r.
       if \<not> d_complete r then []
       else concat (map (\<lambda>(snap, files).
              case (if gguf_only files then choose_file files ceil else None) of None \<Rightarrow> [] | Some f \<Rightarrow> [(r, snap, fst f)])
            (snaps (d_path r)))) (live fs st repo HUB [])))"

definition hub_stem :: "disk \<Rightarrow> (string \<Rightarrow> (string \<times> sibling list) list) \<Rightarrow> int \<Rightarrow> ledger \<Rightarrow> string \<Rightarrow> string option" where
  "hub_stem fs snaps ceil st repo = map_option (\<lambda>(r, snap, name). take (length name - length ''.gguf'') name) (hub_pick fs snaps ceil st repo)"

text \<open>
  \<open>adopt\<close>: the name linked, empty when there is nothing to link, and the link made beside the recorded row; a
  dangling link in its place is a \<open>FileExistsError\<close>, \<^const>\<open>None\<close>.
\<close>

definition add_link :: "string \<Rightarrow> string \<Rightarrow> rat \<Rightarrow> disk \<Rightarrow> disk option" where
  "add_link p target now fs =
     (if path_exists fs p then Some fs
      else if lexists fs p then None else Some (fs\<lparr>fs_nodes := (p, Link target now) # fs_nodes fs\<rparr>))"

definition adopt_gguf :: "rat \<Rightarrow> string \<Rightarrow> (string \<Rightarrow> (string \<times> sibling list) list) \<Rightarrow> (string \<Rightarrow> string) \<Rightarrow> int \<Rightarrow> string \<Rightarrow> disk \<times> ledger \<Rightarrow> (string \<times> disk \<times> ledger) option" where
  "adopt_gguf now models_dir snaps resolve ceil repo world =
     (case world of (fs, st) \<Rightarrow>
        if download_path fs st repo GGUF \<noteq> None then Some ([], fs, st)
        else (case hub_pick fs snaps ceil st repo of
            None \<Rightarrow> Some ([], fs, st)
          | Some (r, snap, name) \<Rightarrow>
              (let link = models_dir @ ''/'' @ name; target = resolve (snap @ ''/'' @ name)
               in case add_link link target now fs of
                    None \<Rightarrow> None
                  | Some fs' \<Rightarrow> map_option (\<lambda>st'. (name, fs', st')) (record_download fs' now None (d_repo r) GGUF link name LINK target [] st))))"

text \<open>What \<open>harness/serving.py\<close> asks of the files on this machine, answered from the ledger.\<close>

definition ledger_env :: "disk \<Rightarrow> (string \<Rightarrow> (string \<times> sibling list) list) \<Rightarrow> int \<Rightarrow> ctx_env \<Rightarrow> ledger \<Rightarrow> serving_env" where
  "ledger_env fs snaps ceil e st =
     (cx_serving e)\<lparr>e_fetched := fetched_stem fs st, e_hub_stem := hub_stem fs snaps ceil st, e_refusal := stem_refusal fs e st\<rparr>"

end
