(* ===== verification/HeaderFacts.thy ===== *)
theory HeaderFacts
  imports GgufHeader
begin

text \<open>
  The reader of a header against the format: a writer of the format as the documentation of GGUF describes it, and the
  theorem that what it writes is read back. And what reading any bytes at all comes to: never more bytes than there were,
  and no deeper than the file is long.
\<close>

section \<open>The format\<close>

text \<open>The values a file may hold; the number of a scalar is the number of its bytes.\<close>

datatype gguf = GUint nat nat | GInt nat int | GBool bool | GFloat bytes | GString bytes | GArray nat "gguf list"

definition uint_kind :: "nat \<Rightarrow> nat" where
  "uint_kind w = (if w = 1 then 0 else if w = 2 then 2 else if w = 4 then 4 else 10)"

definition int_kind :: "nat \<Rightarrow> nat" where
  "int_kind w = (if w = 1 then 1 else if w = 2 then 3 else if w = 4 then 5 else 11)"

fun kind_of :: "gguf \<Rightarrow> nat" where
  "kind_of (GUint w x) = uint_kind w"
| "kind_of (GInt w i) = int_kind w"
| "kind_of (GBool b) = 7"
| "kind_of (GFloat raw) = (if length raw = 4 then 6 else 12)"
| "kind_of (GString s) = STRING"
| "kind_of (GArray inner vs) = ARRAY"

fun le_bytes :: "nat \<Rightarrow> nat \<Rightarrow> bytes" where
  "le_bytes 0 x = []"
| "le_bytes (Suc n) x = word_of_nat x # le_bytes n (x div 256)"

fun enc :: "gguf \<Rightarrow> bytes" where
  "enc (GUint w x) = le_bytes w x"
| "enc (GInt w i) = le_bytes w (nat (i mod 256 ^ w))"
| "enc (GBool b) = [if b then 1 else 0]"
| "enc (GFloat raw) = raw"
| "enc (GString s) = le_bytes 8 (length s) @ s"
| "enc (GArray inner vs) = le_bytes 4 inner @ le_bytes 8 (length vs) @ concat (map enc vs)"

fun well_formed :: "gguf \<Rightarrow> bool" where
  "well_formed (GUint w x) = (w \<in> {1, 2, 4, 8} \<and> x < 256 ^ w)"
| "well_formed (GInt w i) = (w \<in> {1, 2, 4, 8} \<and> - (256 ^ w) \<le> 2 * i \<and> 2 * i < 256 ^ w)"
| "well_formed (GBool b) = True"
| "well_formed (GFloat raw) = (length raw = 4 \<or> length raw = 8)"
| "well_formed (GString s) = (length s < 2 ^ 63)"
| "well_formed (GArray inner vs) = (inner < 2 ^ 32 \<and> length vs < 2 ^ 60 \<and> (\<forall>v \<in> set vs. well_formed v \<and> kind_of v = inner))"

text \<open>What is kept of a value: a long array is skipped.\<close>

fun kept :: "(bytes \<Rightarrow> string) \<Rightarrow> gguf \<Rightarrow> meta_value" where
  "kept decode (GUint w x) = VInt (int x)"
| "kept decode (GInt w i) = VInt i"
| "kept decode (GBool b) = VBool b"
| "kept decode (GFloat raw) = unpack Floating raw"
| "kept decode (GString s) = VStr (decode s)"
| "kept decode (GArray inner vs) = (if length vs > KEEP_ARRAY then VNone else VList (map (kept decode) vs))"

fun nesting :: "gguf \<Rightarrow> nat" where
  "nesting (GArray inner vs) = Suc (foldr (\<lambda>v n. max (nesting v) n) vs 0)"
| "nesting _ = 1"

definition enc_entry :: "bytes \<times> gguf \<Rightarrow> bytes" where
  "enc_entry kv = enc (GString (fst kv)) @ le_bytes 4 (kind_of (snd kv)) @ enc (snd kv)"

definition enc_header :: "nat \<Rightarrow> nat \<Rightarrow> (bytes \<times> gguf) list \<Rightarrow> bytes" where
  "enc_header version tensors kvs =
     MAGIC @ le_bytes 4 version @ le_bytes 8 tensors @ le_bytes 8 (length kvs) @ concat (map enc_entry kvs)"

section \<open>Numbers\<close>

lemma length_le_bytes [simp]: "length (le_bytes n x) = n"
  by (induction n x rule: le_bytes.induct) auto

lemma le_nat_le_bytes: "le_nat (le_bytes n x) = x mod 256 ^ n"
proof (induction n x rule: le_bytes.induct)
  case (2 n x)
  have "x mod (256 * 256 ^ n) = 256 * (x div 256 mod 256 ^ n) + x mod 256" by (rule mod_mult2_eq)
  then show ?case using 2 by (simp add: unat_of_nat)
qed simp

lemma read_raw_append: "length raw = n \<Longrightarrow> read_raw n (raw @ rest) = Inr (raw, rest)"
  by (simp add: read_raw_def)

lemma read_uint_le: "x < 256 ^ n \<Longrightarrow> read_uint n (le_bytes n x @ rest) = Inr (x, rest)"
  by (simp add: read_uint_def read_raw_append le_nat_le_bytes)

lemma twos_complement_mod:
  assumes "- (256 ^ w) \<le> 2 * i" "2 * i < (256::int) ^ w"
  shows "twos_complement w (nat (i mod 256 ^ w)) = i"
proof (cases "0 \<le> i")
  case True
  then have "i mod 256 ^ w = i" using assms by simp
  moreover have "int (2 * nat i) < int (256 ^ w)" using True assms(2) by simp
  then have "2 * nat i < 256 ^ w" by (simp only: of_nat_less_iff)
  ultimately show ?thesis using True by (simp add: twos_complement_def)
next
  case False
  have "i mod 256 ^ w = (i + 256 ^ w) mod 256 ^ w" by simp
  also have "\<dots> = i + 256 ^ w" using False assms by (intro mod_pos_pos_trivial) auto
  finally have m: "i mod 256 ^ w = i + 256 ^ w" .
  have "\<not> int (2 * nat (i + 256 ^ w)) < int (256 ^ w)" using False assms by simp
  then have "\<not> 2 * nat (i + 256 ^ w) < 256 ^ w" by (simp only: of_nat_less_iff) simp
  then show ?thesis using assms m by (simp add: twos_complement_def)
qed

section \<open>Reading back\<close>

lemma scalar_kinds [simp]:
  "w \<in> {1, 2, 4, 8} \<Longrightarrow> map_of SCALAR (uint_kind w) = Some (w, Unsigned)"
  "w \<in> {1, 2, 4, 8} \<Longrightarrow> map_of SCALAR (int_kind w) = Some (w, Signed)"
  "map_of SCALAR 7 = Some (1, Boolean)" "map_of SCALAR 6 = Some (4, Floating)" "map_of SCALAR 12 = Some (8, Floating)"
  "map_of SCALAR STRING = None" "ARRAY \<noteq> STRING" "map_of SCALAR ARRAY = None"
  by (auto simp: SCALAR_def uint_kind_def int_kind_def STRING_def ARRAY_def)

lemma scalar_width: "map_of SCALAR kind = Some (w, s) \<Longrightarrow> 1 \<le> w \<and> w \<le> 8"
  by (auto simp: SCALAR_def split: if_splits)

lemma length_enc_scalar:
  assumes "well_formed v" "map_of SCALAR (kind_of v) = Some (w, s)"
  shows "length (enc v) = w"
  using assms by (cases v) (auto split: if_splits)

lemma kind_bound: "well_formed v \<Longrightarrow> kind_of v < 2 ^ 32"
  by (cases v) (auto simp: uint_kind_def int_kind_def STRING_def ARRAY_def)

lemma repeat_read_all:
  "(\<And>v r. v \<in> set vs \<Longrightarrow> f (e v @ r) = Inr (k v, r)) \<Longrightarrow>
   repeat_read (length vs) f (concat (map e vs) @ rest) = Inr (map k vs, rest)"
  by (induction vs) auto

lemma length_concat_same: "(\<And>v. v \<in> set vs \<Longrightarrow> length (e v) = w) \<Longrightarrow> length (concat (map e vs)) = length vs * w"
  by (induction vs) auto

lemma nesting_le: "v \<in> set vs \<Longrightarrow> nesting v \<le> foldr (\<lambda>v n. max (nesting v) n) vs 0"
  by (induction vs) auto

lemma read_string_enc:
  "length s < 2 ^ 63 \<Longrightarrow> read_string decode (le_bytes 8 (length s) @ s @ rest) = Inr (decode s, rest)"
  by (simp add: read_string_def read_uint_le)

lemma read_value_enc:
  "well_formed v \<Longrightarrow> nesting v \<le> depth \<Longrightarrow> read_value decode depth (kind_of v) (enc v @ rest) = Inr (kept decode v, rest)"
proof (induction v arbitrary: depth rest)
  case (GArray inner vs)
  then obtain d where d: "depth = Suc d" by (cases depth) auto
  have IH: "read_value decode d inner (enc v @ r) = Inr (kept decode v, r)" if "v \<in> set vs" for v r
    using GArray.IH [OF that, of d r] GArray.prems that nesting_le [OF that] d by auto
  have items: "repeat_read (length vs) (read_value decode d inner) (concat (map enc vs) @ rest) = Inr (map (kept decode) vs, rest)"
    by (rule repeat_read_all) (rule IH)
  have skip: "length vs * w < 2 ^ 63 \<and> length (concat (map enc vs)) = length vs * w"
    if w: "map_of SCALAR inner = Some (w, s)" for w s
  proof -
    have "length vs * w \<le> length vs * 8" using scalar_width [OF w] by simp
    also have "\<dots> < 2 ^ 63" using GArray.prems by simp
    finally show ?thesis using GArray.prems w length_enc_scalar by (auto intro!: length_concat_same)
  qed
  have n: "length vs < 2 ^ 64" "inner < 2 ^ 32" using GArray.prems by simp_all
  show ?case
    using n skip unfolding d
    by (cases "map_of SCALAR inner") (auto simp: read_uint_le items split: prod.split)
next
  case (GUint w x)
  then show ?case by (cases depth) (auto simp: read_raw_append unpack_def le_nat_le_bytes)
next
  case (GInt w i)
  then show ?case
    by (cases depth) (auto simp: read_raw_append unpack_def le_nat_le_bytes twos_complement_mod nat_mod_distrib [symmetric])
next
  case (GBool b)
  then show ?case by (cases depth) (auto simp: read_raw_def unpack_def)
next
  case (GFloat raw)
  then show ?case by (cases depth; cases "length raw = 4") (simp_all add: read_raw_append)
next
  case (GString s)
  then show ?case by (cases depth) (auto simp: read_string_enc)
qed

definition entry_ok :: "nat \<Rightarrow> bytes \<times> gguf \<Rightarrow> bool" where
  "entry_ok depth kv \<longleftrightarrow> length (fst kv) < 2 ^ 63 \<and> well_formed (snd kv) \<and> nesting (snd kv) \<le> depth"

lemma read_entry_enc:
  "entry_ok depth kv \<Longrightarrow>
   read_entry decode depth (enc_entry kv @ rest) = Inr ((decode (fst kv), kept decode (snd kv)), rest)"
  using kind_bound [of "snd kv"]
  by (simp add: entry_ok_def read_entry_def enc_entry_def read_string_enc read_uint_le read_value_enc)

text \<open>
  C24. What the format says is what is read: the bytes of any header of a version the reader knows, with any metadata of
  numbers at their width, signed or not, booleans, floats, strings and arrays nested within the depth, read back as that
  metadata, the last value of a key that comes twice, arrays of more than 4096 elements left out, whatever follows.
\<close>

theorem header_roundtrip:
  assumes "2 \<le> version" "version < 2 ^ 32" "tensors < 2 ^ 64" "length kvs < 2 ^ 64" "\<forall>kv \<in> set kvs. entry_ok depth kv"
  shows "read_meta decode depth (enc_header version tensors kvs @ rest) =
    Inr (foldl (\<lambda>d (k, v). dict_put (decode k) (kept decode v) d) [] kvs)"
proof -
  let ?view = "\<lambda>kv. (decode (fst kv), kept decode (snd kv))"
  have entries: "repeat_read (length kvs) (read_entry decode depth) (concat (map enc_entry kvs) @ rest) = Inr (map ?view kvs, rest)"
    by (rule repeat_read_all) (use assms in \<open>simp add: read_entry_enc\<close>)
  have fold: "foldl (\<lambda>d (k, v). dict_put k v d) d (map ?view kvs) = foldl (\<lambda>d (k, v). dict_put (decode k) (kept decode v) d) d kvs" for d
    by (induction kvs arbitrary: d) (simp_all add: split_def)
  have "take 4 MAGIC = MAGIC" "drop 4 MAGIC = []" "length MAGIC = 4" by (simp_all add: MAGIC_def)
  then show ?thesis
    using assms(1-4) by (simp add: read_meta_def enc_header_def read_uint_le entries fold)
qed

definition ascii_decode :: "bytes \<Rightarrow> string" where
  "ascii_decode bs = map (\<lambda>b. char_of (unat b)) bs"

definition demo_kvs :: "(bytes \<times> gguf) list" where
  "demo_kvs = [([0x61], GUint 4 4096), ([0x62], GInt 1 (- 2)), ([0x63], GArray 7 [GBool True, GBool False]), ([0x61], GString [0x78])]"

theorem header_roundtrip_witness:
  "read_meta ascii_decode 2 (enc_header 3 0 demo_kvs @ [7]) =
     Inr [(''a'', VStr ''x''), (''b'', VInt (- 2)), (''c'', VList [VBool True, VBool False])]"
proof -
  have chars: "char_of (97 :: nat) = CHR ''a''" "char_of (98 :: nat) = CHR ''b''" "char_of (99 :: nat) = CHR ''c''" "char_of (120 :: nat) = CHR ''x''"
    by code_simp+
  have "\<forall>kv \<in> set demo_kvs. entry_ok 2 kv" by (simp add: demo_kvs_def entry_ok_def)
  then show ?thesis
    using header_roundtrip [of 3 0 demo_kvs 2 ascii_decode "[7]"] by (simp add: demo_kvs_def ascii_decode_def KEEP_ARRAY_def chars)
qed

section \<open>Any bytes\<close>

definition shrinks :: "(bytes \<Rightarrow> 'e + 'a \<times> bytes) \<Rightarrow> bool" where
  "shrinks f \<longleftrightarrow> (\<forall>bs v r. f bs = Inr (v, r) \<longrightarrow> length r \<le> length bs)"

lemma shrinksD: "shrinks f \<Longrightarrow> f bs = Inr (v, r) \<Longrightarrow> length r \<le> length bs"
  by (simp add: shrinks_def)

lemma read_raw_Inr: "read_raw n bs = Inr (raw, r) \<longleftrightarrow> n \<le> length bs \<and> raw = take n bs \<and> r = drop n bs"
  by (auto simp: read_raw_def)

lemma read_uint_Inr: "read_uint n bs = Inr (x, r) \<longleftrightarrow> n \<le> length bs \<and> x = le_nat (take n bs) \<and> r = drop n bs"
  by (auto simp: read_uint_def and_then_Inr read_raw_Inr)

lemma read_string_Inr: "read_string decode bs = Inr (s, r) \<Longrightarrow> length r + 8 \<le> length bs"
  by (auto simp: read_string_def and_then_Inr read_uint_Inr split: if_splits)

lemma no_deep_leaf [simp]: "read_raw n bs \<noteq> Inl TooDeep" "read_uint n bs \<noteq> Inl TooDeep" "read_string decode bs \<noteq> Inl TooDeep"
  by (auto simp: read_raw_def read_uint_def read_string_def and_then_Inl split: if_splits)

lemma shrinks_repeat: "shrinks f \<Longrightarrow> shrinks (repeat_read n f)"
proof (induction n)
  case (Suc n)
  then have "shrinks (repeat_read n f)" by simp
  then show ?case
    using Suc.prems by (fastforce simp: shrinks_def and_then_Inr dest: order_trans)
qed (simp add: shrinks_def)

lemma shrinks_value: "shrinks (read_value decode depth kind)"
proof (induction depth arbitrary: kind)
  case (Suc depth)
  have "length r \<le> length bs" if "read_value decode (Suc depth) kind bs = Inr (v, r)" for bs v r
    using that shrinksD [OF shrinks_repeat [OF Suc]]
    by (fastforce simp: and_then_Inr read_raw_Inr read_uint_Inr dest: read_string_Inr split: option.splits if_splits prod.splits)
  then show ?case by (simp add: shrinks_def)
qed (simp add: shrinks_def)

lemma repeat_not_deep:
  assumes "shrinks f" "\<And>bs. length bs \<le> N \<Longrightarrow> f bs \<noteq> Inl TooDeep" "length bs \<le> N"
  shows "repeat_read n f bs \<noteq> Inl TooDeep"
  using assms(3)
proof (induction n arbitrary: bs)
  case (Suc n)
  then show ?case using assms(2) shrinksD [OF assms(1)] by (fastforce simp: and_then_Inl)
qed simp

lemma value_not_deep: "length bs < 12 * depth \<Longrightarrow> read_value decode depth kind bs \<noteq> Inl TooDeep"
proof (induction depth arbitrary: kind bs)
  case (Suc depth)
  have "repeat_read n (read_value decode depth inner) r \<noteq> Inl TooDeep" if "length r + 12 \<le> length bs" for n inner r
    by (rule repeat_not_deep [OF shrinks_value, of "length r"]) (use Suc that in auto)
  then show ?case
    by (auto simp: and_then_Inl read_uint_Inr split: option.splits if_splits prod.splits)
qed simp

text \<open>
  Reading any file at all ends in metadata or in one of the errors of the format: a header nests no deeper than one
  level in twelve bytes, so a file shorter than twelve bytes for each level the interpreter allows is never too deep.
\<close>

theorem depth_suffices: "length bs < 12 * depth \<Longrightarrow> read_meta decode depth bs \<noteq> Inl TooDeep"
proof -
  assume small: "length bs < 12 * depth"
  have entry: "read_entry decode depth cs \<noteq> Inl TooDeep" if "length cs \<le> length bs" for cs
    using that small by (auto simp: read_entry_def and_then_Inl read_uint_Inr dest!: read_string_Inr intro!: value_not_deep)
  have "shrinks (read_entry decode depth)"
    using shrinksD [OF shrinks_value] by (fastforce simp: shrinks_def read_entry_def and_then_Inr read_uint_Inr dest: read_string_Inr)
  then have "repeat_read n (read_entry decode depth) cs \<noteq> Inl TooDeep" if "length cs \<le> length bs" for n cs
    by (rule repeat_not_deep) (use entry that in auto)
  then show ?thesis by (auto simp: read_meta_def and_then_Inl read_uint_Inr split: if_splits)
qed

theorem depth_suffices_witness: "read_meta ascii_decode 5 (enc_header 3 0 [([0x63], GArray 9 [])]) \<noteq> Inl TooDeep"
  by (rule depth_suffices) (simp add: enc_header_def enc_entry_def MAGIC_def)

end
