(* ===== verification/ContextFacts.thy ===== *)
theory ContextFacts
  imports ServedContext HeaderFacts MethodsFacts
begin

text \<open>
  What the plan of contexts comes to: every GGUF file on this machine that is there is given a context that fits, or a
  refusal that keeps requests from it; and the one way the plan of all files fails.
\<close>

section \<open>The rows after a plan\<close>

definition planned :: "disk \<Rightarrow> ctx_env \<Rightarrow> rat \<Rightarrow> int \<Rightarrow> int \<Rightarrow> string \<Rightarrow> int \<Rightarrow> int \<Rightarrow> string \<Rightarrow> meta_error + served_ctx" where
  "planned fs e now budget slots cache_type kv_cap beside path =
     and_then (slot_plan (gguf_stem_of path)) (\<lambda>fixed.
       and_then (choice_for fs e (budget - beside) cache_type slots fixed kv_cap path) (\<lambda>c.
         Inr \<lparr>sc_choice = c, sc_slots = (case fixed of None \<Rightarrow> slots | Some (k, ctx) \<Rightarrow> k), sc_at = now, sc_cap = kv_cap, sc_beside = beside\<rparr>))"

lemma plan_row_spec:
  "plan_row fs e now budget slots cache_type kv_cap beside (Inr (st, out)) r = Inr (st', out') \<longleftrightarrow>
   (if path_exists fs (d_path r)
    then \<exists>c. planned fs e now budget slots cache_type kv_cap beside (d_path r) = Inr c \<and> st' = edit_row (d_id r) (\<lambda>x. x\<lparr>d_ctx := Some c\<rparr>) st \<and>
      out' = out @ [\<lparr>pl_stem = gguf_stem_of (d_path r), pl_path = d_path r, pl_ctx = ch_ctx (sc_choice c), pl_slots = sc_slots c, pl_why = ch_why (sc_choice c)\<rparr>]
    else st' = st \<and> out' = out)"
  by (auto simp: plan_row_def planned_def and_then_Inr Let_def)

lemma plan_row_Inl [simp]: "foldl (plan_row fs e now budget slots cache_type kv_cap beside) (Inl err) rs = Inl err"
  by (induction rs) (simp_all add: plan_row_def)

lemma same_ctx: "x = x\<lparr>d_ctx := d_ctx x\<rparr>" for x :: download_row
  by simp

lemma ctx_fields: "y = x\<lparr>d_ctx := v\<rparr> \<Longrightarrow>
    d_id y = d_id x \<and> d_path y = d_path x \<and> d_kind y = d_kind x \<and> d_removed y = d_removed x \<and> d_machine y = d_machine x"
  by simp

lemma plan_step:
  assumes "plan_row fs e now budget slots cache_type kv_cap beside (Inr (st, out)) r = Inr (st1, out1)"
    and "\<forall>x \<in> set (led_rows st). d_id x = d_id r \<longrightarrow> d_path x = d_path r"
  shows "led_here st1 = led_here st \<and> (\<forall>y \<in> set (led_rows st1). \<exists>x \<in> set (led_rows st). y = x\<lparr>d_ctx := d_ctx y\<rparr> \<and>
      (if d_id r = d_id x \<and> path_exists fs (d_path r)
       then \<exists>c. planned fs e now budget slots cache_type kv_cap beside (d_path x) = Inr c \<and> d_ctx y = Some c else d_ctx y = d_ctx x))"
proof (cases "path_exists fs (d_path r)")
  case True
  then obtain c where c: "planned fs e now budget slots cache_type kv_cap beside (d_path r) = Inr c"
    and st1: "st1 = edit_row (d_id r) (\<lambda>x. x\<lparr>d_ctx := Some c\<rparr>) st"
    using assms(1) by (auto simp: plan_row_spec)
  have "\<exists>x \<in> set (led_rows st). y = x\<lparr>d_ctx := d_ctx y\<rparr> \<and>
      (if d_id r = d_id x \<and> path_exists fs (d_path r)
       then \<exists>c. planned fs e now budget slots cache_type kv_cap beside (d_path x) = Inr c \<and> d_ctx y = Some c else d_ctx y = d_ctx x)"
    if "y \<in> set (led_rows st1)" for y
  proof -
    from that obtain x where x: "x \<in> set (led_rows st)" "y = (if d_id x = d_id r then x\<lparr>d_ctx := Some c\<rparr> else x)"
      by (auto simp: st1 edit_rows)
    show ?thesis
    proof (cases "d_id x = d_id r")
      case same: True
      then have "d_path x = d_path r" using assms(2) x(1) by blast
      then show ?thesis using x c same True by (intro bexI [OF _ x(1)]) simp
    next
      case False
      then show ?thesis using x same_ctx by (intro bexI [OF _ x(1)]) auto
    qed
  qed
  then show ?thesis by (simp add: st1 edit_rows)
next
  case False
  have "\<exists>x \<in> set (led_rows st). y = x\<lparr>d_ctx := d_ctx y\<rparr> \<and> d_ctx y = d_ctx x" if "y \<in> set (led_rows st)" for y
    using that by (intro bexI [OF _ that]) simp
  then show ?thesis using False assms(1) by (simp add: plan_row_spec)
qed

text \<open>Every row planned has its choice, the others keep theirs.\<close>

lemma plan_fold:
  assumes "foldl (plan_row fs e now budget slots cache_type kv_cap beside) (Inr (st, out)) rs = Inr (st', out')"
    and "\<forall>r \<in> set rs. \<forall>x \<in> set (led_rows st). d_id x = d_id r \<longrightarrow> d_path x = d_path r"
  shows "led_here st' = led_here st \<and> (\<forall>x' \<in> set (led_rows st'). \<exists>x \<in> set (led_rows st).
      x' = x\<lparr>d_ctx := d_ctx x'\<rparr> \<and>
      (if \<exists>r \<in> set rs. d_id r = d_id x \<and> path_exists fs (d_path r)
       then \<exists>c. planned fs e now budget slots cache_type kv_cap beside (d_path x) = Inr c \<and> d_ctx x' = Some c else d_ctx x' = d_ctx x))"
  using assms
proof (induction rs arbitrary: st out)
  case Nil
  have "\<exists>y \<in> set (led_rows st). x = y\<lparr>d_ctx := d_ctx x\<rparr> \<and> d_ctx x = d_ctx y" if "x \<in> set (led_rows st)" for x
    using that by (intro bexI [of _ x]) simp_all
  then show ?case using Nil by simp
next
  case (Cons r rs)
  from Cons.prems(1) obtain st1 out1 where
    one: "plan_row fs e now budget slots cache_type kv_cap beside (Inr (st, out)) r = Inr (st1, out1)" and
    rest: "foldl (plan_row fs e now budget slots cache_type kv_cap beside) (Inr (st1, out1)) rs = Inr (st', out')"
    by (cases "plan_row fs e now budget slots cache_type kv_cap beside (Inr (st, out)) r") auto
  have step: "led_here st1 = led_here st \<and> (\<forall>y \<in> set (led_rows st1). \<exists>x \<in> set (led_rows st). y = x\<lparr>d_ctx := d_ctx y\<rparr> \<and>
      (if d_id r = d_id x \<and> path_exists fs (d_path r)
       then \<exists>c. planned fs e now budget slots cache_type kv_cap beside (d_path x) = Inr c \<and> d_ctx y = Some c else d_ctx y = d_ctx x))"
    by (rule plan_step [OF one]) (use Cons.prems(2) in simp)
  have same: "\<forall>r \<in> set rs. \<forall>x \<in> set (led_rows st1). d_id x = d_id r \<longrightarrow> d_path x = d_path r"
  proof (intro ballI impI)
    fix q y assume q: "q \<in> set rs" "y \<in> set (led_rows st1)" "d_id y = d_id q"
    then obtain x where x: "x \<in> set (led_rows st)" "y = x\<lparr>d_ctx := d_ctx y\<rparr>" using step by blast
    have "d_id x = d_id q" "d_path y = d_path x" using ctx_fields [OF x(2)] q(3) by simp_all
    then show "d_path y = d_path q" using Cons.prems(2) q(1) x(1) by (metis list.set_intros(2))
  qed
  show ?case
  proof (intro conjI ballI)
    show "led_here st' = led_here st" using Cons.IH [OF rest same] step by simp
    fix x' assume "x' \<in> set (led_rows st')"
    then obtain y where y: "y \<in> set (led_rows st1)" "x' = y\<lparr>d_ctx := d_ctx x'\<rparr>"
      "if \<exists>q \<in> set rs. d_id q = d_id y \<and> path_exists fs (d_path q)
       then \<exists>c. planned fs e now budget slots cache_type kv_cap beside (d_path y) = Inr c \<and> d_ctx x' = Some c else d_ctx x' = d_ctx y"
      using Cons.IH [OF rest same] by blast
    then obtain x where x: "x \<in> set (led_rows st)" "y = x\<lparr>d_ctx := d_ctx y\<rparr>"
      "if d_id r = d_id x \<and> path_exists fs (d_path r)
       then \<exists>c. planned fs e now budget slots cache_type kv_cap beside (d_path x) = Inr c \<and> d_ctx y = Some c else d_ctx y = d_ctx x"
      using step by blast
    have "x' = x\<lparr>d_ctx := d_ctx x'\<rparr>" by (subst y(2), subst x(2)) simp
    moreover have "d_id y = d_id x" "d_path y = d_path x" using ctx_fields [OF x(2)] by simp_all
    ultimately show "\<exists>x \<in> set (led_rows st). x' = x\<lparr>d_ctx := d_ctx x'\<rparr> \<and>
      (if \<exists>q \<in> set (r # rs). d_id q = d_id x \<and> path_exists fs (d_path q)
       then \<exists>c. planned fs e now budget slots cache_type kv_cap beside (d_path x) = Inr c \<and> d_ctx x' = Some c else d_ctx x' = d_ctx x)"
      using x(1,3) y(3) by (intro bexI [of _ x]) (auto split: if_splits)
  qed
qed

text \<open>The cells of cache a choice allocates: a slot plan's are the pool, the memory plan's are per slot.\<close>

definition kv_cells :: "string \<Rightarrow> int \<Rightarrow> ctx_choice \<Rightarrow> int" where
  "kv_cells path slots c = (case slot_plan (gguf_stem_of path) of Inr (Some x) \<Rightarrow> ch_ctx c | _ \<Rightarrow> ch_ctx c * max slots 1)"

lemma room_bound: "0 < n \<Longrightarrow> n \<le> kv_room weights budget (Some cap) \<Longrightarrow> weights + n \<le> budget \<and> n \<le> cap"
  by (auto simp: kv_room_def max_def split: if_splits)

lemma slotted_fits:
  "ch_ctx (slotted full per room slots slot_ctx) \<noteq> 0 \<Longrightarrow> ch_ctx (slotted full per room slots slot_ctx) * per \<le> room"
  by (auto simp: slotted_def Let_def split: if_splits)

lemma ch_per_slotted: "ch_per (slotted full per room slots slot_ctx) = per"
  by (simp add: slotted_def Let_def)

lemma choice_served:
  assumes "choice_for fs e room cache_type slots fixed kv_cap path = Inr c" "0 < ch_ctx c"
  shows "\<exists>meta weights. header_of fs e path = Inr (meta, weights) \<and>
    (case fixed of None \<Rightarrow> choose_ctx (cx_repr e) meta weights room slots cache_type FLOOR (Some kv_cap)
     | Some (n, ctx) \<Rightarrow> choose_slots (cx_repr e) meta weights room n ctx cache_type (Some kv_cap)) = Inr c"
proof -
  define m where "m = and_then (header_of fs e path) (\<lambda>(meta, weights).
         case fixed of
           Some (n, ctx) \<Rightarrow> choose_slots (cx_repr e) meta weights room n ctx cache_type (Some kv_cap)
         | None \<Rightarrow> choose_ctx (cx_repr e) meta weights room slots cache_type FLOOR (Some kv_cap))"
  have "(case m of Inr c \<Rightarrow> Inr c
      | Inl err \<Rightarrow> if plan_catches err then Inr \<lparr>ch_ctx = 0, ch_trained = 0, ch_per = 0, ch_why = Unreadable err\<rparr> else Inl err) = Inr c"
    using assms(1) by (simp add: choice_for_def m_def)
  then have "m = Inr c" using assms(2) by (auto split: sum.splits if_splits)
  then show ?thesis by (auto simp: m_def and_then_Inr split: option.splits prod.splits)
qed

lemma planned_fits:
  assumes "planned fs e now budget slots cache_type kv_cap beside path = Inr c" "0 \<le> kv_cap"
    and "0 < ch_ctx (sc_choice c)" "0 < ch_per (sc_choice c)"
  shows "\<exists>meta weights. header_of fs e path = Inr (meta, weights) \<and>
    weights + kv_cells path slots (sc_choice c) * ch_per (sc_choice c) \<le> budget - beside \<and>
    kv_cells path slots (sc_choice c) * ch_per (sc_choice c) \<le> kv_cap"
proof -
  from assms(1) obtain fixed where fixed: "slot_plan (gguf_stem_of path) = Inr fixed"
    and choice: "choice_for fs e (budget - beside) cache_type slots fixed kv_cap path = Inr (sc_choice c)"
    by (auto simp: planned_def and_then_Inr)
  obtain meta weights where h: "header_of fs e path = Inr (meta, weights)"
    and made: "(case fixed of None \<Rightarrow> choose_ctx (cx_repr e) meta weights (budget - beside) slots cache_type FLOOR (Some kv_cap)
     | Some (n, ctx) \<Rightarrow> choose_slots (cx_repr e) meta weights (budget - beside) n ctx cache_type (Some kv_cap)) = Inr (sc_choice c)"
    using choice_served [OF choice assms(3)] by blast
  show ?thesis
  proof (cases fixed)
    case None
    then have "choose_ctx (cx_repr e) meta weights (budget - beside) slots cache_type FLOOR (Some kv_cap) = Inr (sc_choice c)"
      using made by simp
    from context_is_the_largest_that_fits [OF this] assms(2,3)
    have "ch_ctx (sc_choice c) * max slots 1 * ch_per (sc_choice c) \<le> kv_room weights (budget - beside) (Some kv_cap)"
      by (simp add: FLOOR_def)
    moreover have "0 < ch_ctx (sc_choice c) * max slots 1 * ch_per (sc_choice c)" using assms(3,4) by (intro mult_pos_pos) auto
    ultimately have "weights + ch_ctx (sc_choice c) * max slots 1 * ch_per (sc_choice c) \<le> budget - beside \<and>
        ch_ctx (sc_choice c) * max slots 1 * ch_per (sc_choice c) \<le> kv_cap" by (intro room_bound)
    moreover have "kv_cells path slots (sc_choice c) = ch_ctx (sc_choice c) * max slots 1" using fixed None by (simp add: kv_cells_def)
    ultimately show ?thesis using h by (intro exI [of _ meta] exI [of _ weights]) (simp only: simp_thms)
  next
    case (Some x)
    obtain n slot_ctx where x: "x = (n, slot_ctx)" by fastforce
    have "choose_slots (cx_repr e) meta weights (budget - beside) n slot_ctx cache_type (Some kv_cap) = Inr (sc_choice c)"
      using made Some by (simp add: x)
    then obtain full per where "slotted full per (kv_room weights (budget - beside) (Some kv_cap)) n slot_ctx = sc_choice c"
      by (auto simp: choose_slots_def and_then_Inr)
    then have "ch_ctx (sc_choice c) * ch_per (sc_choice c) \<le> kv_room weights (budget - beside) (Some kv_cap)"
      using slotted_fits [of full per "kv_room weights (budget - beside) (Some kv_cap)" n slot_ctx]
        ch_per_slotted [of full per "kv_room weights (budget - beside) (Some kv_cap)" n slot_ctx] assms(3) by simp
    moreover have "0 < ch_ctx (sc_choice c) * ch_per (sc_choice c)" using assms(3,4) by (intro mult_pos_pos) auto
    ultimately have "weights + ch_ctx (sc_choice c) * ch_per (sc_choice c) \<le> budget - beside \<and>
        ch_ctx (sc_choice c) * ch_per (sc_choice c) \<le> kv_cap" by (intro room_bound)
    moreover have "kv_cells path slots (sc_choice c) = ch_ctx (sc_choice c)" using fixed Some by (simp add: kv_cells_def)
    ultimately show ?thesis using h by (intro exI [of _ meta] exI [of _ weights]) (simp only: simp_thms)
  qed
qed

text \<open>
  C27. Once the plan of contexts returns, every GGUF row of this machine whose file is there has a choice made now, and one
  that is served fits: its weights, the cache of all its slots and the model kept beside the router stay within the budget,
  and its cache under the cap.
\<close>

theorem planned_contexts_fit:
  assumes "plan_contexts fs e now budget slots cache_type kv_cap beside st = Inr (st', out)" "ledger_ok fs st" "0 \<le> kv_cap"
    and "r \<in> set (live fs st' [] GGUF [])" "path_exists fs (d_path r)"
  shows "\<exists>c. d_ctx r = Some c \<and> sc_at c = now \<and>
    (0 < ch_ctx (sc_choice c) \<and> 0 < ch_per (sc_choice c) \<longrightarrow>
      (\<exists>meta weights. header_of fs e (d_path r) = Inr (meta, weights) \<and>
        weights + kv_cells (d_path r) slots (sc_choice c) * ch_per (sc_choice c) + beside \<le> budget \<and>
        kv_cells (d_path r) slots (sc_choice c) * ch_per (sc_choice c) \<le> kv_cap))"
proof -
  have same: "\<forall>q \<in> set (live fs st [] GGUF []). \<forall>x \<in> set (led_rows st). d_id x = d_id q \<longrightarrow> d_path x = d_path q"
    using assms(2) by (auto simp: set_live ledger_ok_def distinct_map dest: inj_onD)
  note fold = plan_fold [OF assms(1) [unfolded plan_contexts_def] same]
  have r: "r \<in> set (led_rows st')" "is_live st' r" "d_kind r = GGUF" using assms(4) by (auto simp: set_live GGUF_def)
  obtain x where x: "x \<in> set (led_rows st)" "r = x\<lparr>d_ctx := d_ctx r\<rparr>"
    "if \<exists>q \<in> set (live fs st [] GGUF []). d_id q = d_id x \<and> path_exists fs (d_path q)
     then \<exists>c. planned fs e now budget slots cache_type kv_cap beside (d_path x) = Inr c \<and> d_ctx r = Some c else d_ctx r = d_ctx x"
    using fold r(1) by blast
  have fields: "d_path r = d_path x" "d_kind r = d_kind x" "d_removed r = d_removed x" "d_machine r = d_machine x"
    using ctx_fields [OF x(2)] by simp_all
  have "x \<in> set (live fs st [] GGUF [])"
    using r x(1) fold by (simp add: set_live is_live_def mine_def fields)
  then obtain c where c: "planned fs e now budget slots cache_type kv_cap beside (d_path r) = Inr c" "d_ctx r = Some c"
    using x(3) assms(5) by (auto simp: fields split: if_splits)
  then have "sc_at c = now" by (auto simp: planned_def and_then_Inr)
  then show ?thesis using planned_fits [OF c(1) assms(3)] c(2) by (fastforce simp: algebra_simps)
qed

definition ascii :: "string \<Rightarrow> bytes" where
  "ascii s = map (\<lambda>c. word_of_nat (of_char c)) s"

lemma ascii_decode [simp]: "ascii_decode (ascii s) = s"
proof -
  have "unat (word_of_nat (of_char c) :: 8 word) = of_char c" for c :: char by (simp add: unat_of_nat)
  then show ?thesis by (simp add: ascii_decode_def ascii_def comp_def)
qed

lemma length_ascii [simp]: "length (ascii s) = length s"
  by (simp add: ascii_def)

definition demo_values :: "(bytes \<times> gguf) list" where
  "demo_values = [(ascii ''general.architecture'', GString (ascii ''m'')), (ascii ''m.context_length'', GUint 4 65536),
     (ascii ''m.block_count'', GUint 4 2), (ascii ''m.attention.head_count'', GUint 4 4), (ascii ''m.embedding_length'', GUint 4 64)]"

definition demo_header :: bytes where
  "demo_header = enc_header 3 0 demo_values"

definition demo_read :: metadata where
  "demo_read = [(''general.architecture'', VStr ''m''), (''m.context_length'', VInt 65536), (''m.block_count'', VInt 2),
     (''m.attention.head_count'', VInt 4), (''m.embedding_length'', VInt 64)]"

lemma demo_header_read: "read_meta ascii_decode 900 demo_header = Inr demo_read"
proof -
  have "\<forall>kv \<in> set demo_values. entry_ok 900 kv" by (simp add: demo_values_def entry_ok_def)
  then show ?thesis
    using header_roundtrip [of 3 0 demo_values 900 ascii_decode "[]"] by (simp add: demo_header_def demo_values_def demo_read_def)
qed

definition demo_ctx :: ctx_env where
  "demo_ctx = \<lparr>cx_decode = ascii_decode, cx_depth = 900, cx_repr = (\<lambda>_. []), cx_bytes = (\<lambda>p. if p = ''/g/m.gguf'' then Some demo_header else None),
     cx_text = (\<lambda>_. ''refused''), cx_size = (\<lambda>_. 0), cx_serving = \<lparr>e_vllm_port = [], e_vllm_engine = [], e_text_engine = [], e_ds4_port = [],
       e_llamacpp_port = [], e_float = (\<lambda>_. None), e_fetched = (\<lambda>_. None), e_hub_stem = (\<lambda>_. None), e_refusal = (\<lambda>_. [])\<rparr>\<rparr>"

definition demo_plan :: "int \<Rightarrow> meta_error + ledger \<times> plan_line list" where
  "demo_plan budget = plan_contexts demo_disk demo_ctx 9 budget 2 ''f16'' 100000000 500000 demo_ledger"

lemma demo_choice:
  "choose_ctx (\<lambda>_. []) demo_read 1000000 19500000 2 ''f16'' FLOOR (Some 100000000) =
     Inr \<lparr>ch_ctx = 17408, ch_trained = 65536, ch_per = 512, ch_why = MemoryFits 17408 18500000 512 65536\<rparr>"
  by (simp add: choose_ctx_def trained_def int_or_zero_def arch_def get_or_def demo_read_def or_none_def kv_bytes_per_token_def kv_heads_def
      per_head_def length_or_def floor_div_def CACHE_BYTES_def chosen_def kv_room_def steps_def STEP_def FLOOR_def numeral_2_eq_2)

lemma demo_live: "live demo_disk demo_ledger [] GGUF [] = [demo_row]"
  by (simp add: live_def demo_ledger_def demo_row_def mine_def HUB_def GGUF_def)

lemma demo_stem: "slot_plan (gguf_stem_of (d_path demo_row)) = Inr None"
  by (simp add: slot_plan_def gguf_stem_of_def base_name_def EVAL_7B_STEM_def demo_row_def)

lemma demo_plan_run:
  "demo_plan 20000000 =
     Inr (edit_row 1 (\<lambda>x. x\<lparr>d_ctx := Some \<lparr>sc_choice = \<lparr>ch_ctx = 17408, ch_trained = 65536, ch_per = 512, ch_why = MemoryFits 17408 18500000 512 65536\<rparr>,
            sc_slots = 2, sc_at = 9, sc_cap = 100000000, sc_beside = 500000\<rparr>\<rparr>) demo_ledger,
          [\<lparr>pl_stem = gguf_stem_of (d_path demo_row), pl_path = d_path demo_row, pl_ctx = 17408, pl_slots = 2, pl_why = MemoryFits 17408 18500000 512 65536\<rparr>])"
proof -
  have "header_of demo_disk demo_ctx (d_path demo_row) = Inr (demo_read, 1000000)"
    by (simp add: header_of_def demo_ctx_def demo_row_def demo_disk_def follow_def demo_header_read)
  then have "choice_for demo_disk demo_ctx (20000000 - 500000) ''f16'' 2 None 100000000 (d_path demo_row) =
      Inr \<lparr>ch_ctx = 17408, ch_trained = 65536, ch_per = 512, ch_why = MemoryFits 17408 18500000 512 65536\<rparr>"
    using demo_choice by (simp add: choice_for_def demo_ctx_def)
  moreover have "path_exists demo_disk (d_path demo_row)" "d_id demo_row = 1" by (simp_all add: path_exists_def demo_disk_def demo_row_def)
  ultimately show ?thesis
    by (simp add: demo_plan_def plan_contexts_def demo_live plan_row_def demo_stem Let_def)
qed

theorem planned_contexts_fit_witness:
  "\<exists>meta weights. header_of demo_disk demo_ctx ''/g/m.gguf'' = Inr (meta, weights) \<and> weights + 17408 * 2 * 512 + 500000 \<le> 20000000"
proof -
  define c where "c = \<lparr>sc_choice = \<lparr>ch_ctx = 17408, ch_trained = 65536, ch_per = 512, ch_why = MemoryFits 17408 18500000 512 65536\<rparr>,
            sc_slots = 2, sc_at = 9, sc_cap = 100000000, sc_beside = 500000\<rparr>"
  define st' where "st' = edit_row 1 (\<lambda>x. x\<lparr>d_ctx := Some c\<rparr>) demo_ledger"
  obtain out where plan: "plan_contexts demo_disk demo_ctx 9 20000000 2 ''f16'' 100000000 500000 demo_ledger = Inr (st', out)"
    using demo_plan_run unfolding demo_plan_def st'_def c_def by blast
  have r: "demo_row\<lparr>d_ctx := Some c\<rparr> \<in> set (live demo_disk st' [] GGUF [])"
    by (simp add: set_live is_live_def mine_def st'_def edit_rows demo_ledger_def demo_row_def)
  have "path_exists demo_disk (d_path (demo_row\<lparr>d_ctx := Some c\<rparr>))" by (simp add: path_exists_def demo_disk_def demo_row_def)
  from planned_contexts_fit [OF plan demo_ledger_ok _ r this]
  have "\<exists>meta weights. header_of demo_disk demo_ctx (d_path demo_row) = Inr (meta, weights) \<and>
      weights + kv_cells (d_path demo_row) 2 (sc_choice c) * 512 + 500000 \<le> 20000000" by (auto simp: c_def)
  moreover have "kv_cells (d_path demo_row) 2 (sc_choice c) = 17408 * 2" by (simp add: kv_cells_def demo_stem c_def)
  moreover have "d_path demo_row = ''/g/m.gguf''" by (simp add: demo_row_def)
  ultimately show ?thesis by (simp only:)
qed

section \<open>A refusal keeps requests away\<close>

lemma strip_prefix_ok:
  assumes "strip stem = stem"
  shows "strip (LLAMA_PREFIX @ stem) = LLAMA_PREFIX @ stem"
proof (cases "stem = []")
  case False
  then have "\<not> is_space (last stem)" using strip_ends(2) [of stem] assms by simp
  then show ?thesis using False
    by (cases stem rule: rev_cases) (simp_all add: strip_def LLAMA_PREFIX_def is_space_def)
qed (simp add: strip_def LLAMA_PREFIX_def is_space_def)

text \<open>
  A file the plan refused is not served: with the ledger answering for the files of this machine, a spec that names its
  stem has no route, and the error says why the plan refused it.
\<close>

theorem refused_stem_has_no_route:
  assumes "served_row fs st stem = Some r" "d_ctx r = Some c" "ch_ctx (sc_choice c) = 0" "cx_text e (ch_why (sc_choice c)) \<noteq> []"
    and "CHR '','' \<notin> set stem" "strip stem = stem"
  shows "route (ledger_env fs snaps ceil e st) config (LLAMA_PREFIX @ stem) gateway = Inl (NotServed stem (cx_text e (ch_why (sc_choice c))))"
proof -
  have "CHR '','' \<notin> set (LLAMA_PREFIX @ stem)" using assms(5) by (simp add: LLAMA_PREFIX_def)
  then have part: "partition_at CHR '','' (LLAMA_PREFIX @ stem) = (LLAMA_PREFIX @ stem, [])" by (rule partition_at_absent)
  have "e_refusal (ledger_env fs snaps ceil e st) stem = cx_text e (ch_why (sc_choice c))"
    using assms(1-3) by (simp add: ledger_env_def stem_refusal_def)
  moreover have "\<not> prefix DS4_PREFIX (LLAMA_PREFIX @ stem)" by (simp add: DS4_PREFIX_def LLAMA_PREFIX_def)
  moreover have "spec_name (LLAMA_PREFIX @ stem) = LLAMA_PREFIX @ stem" by (simp add: spec_name_def part strip_prefix_ok assms(6))
  then have "text_spec (LLAMA_PREFIX @ stem)" by (simp add: text_spec_def Let_def LLAMA_PREFIX_def)
  ultimately show ?thesis
    using assms(4) by (simp add: route_def part strip_prefix_ok assms(6) option_parts_def servable_def)
qed

definition refused_ledger :: ledger where
  "refused_ledger = edit_row 1 (\<lambda>x. x\<lparr>d_ctx := Some \<lparr>sc_choice = \<lparr>ch_ctx = 0, ch_trained = 65536, ch_per = 512, ch_why = RefusedRoom 0 0 512 8192\<rparr>,
     sc_slots = 2, sc_at = 9, sc_cap = 0, sc_beside = 0\<rparr>\<rparr>) demo_ledger"

theorem refused_stem_has_no_route_witness:
  "route (ledger_env demo_disk (\<lambda>_. []) 0 demo_ctx refused_ledger) [] ''llamacpp:m'' [] = Inl (NotServed ''m'' ''refused'')"
proof -
  define r where "r = demo_row\<lparr>d_ctx := Some \<lparr>sc_choice = \<lparr>ch_ctx = 0, ch_trained = 65536, ch_per = 512, ch_why = RefusedRoom 0 0 512 8192\<rparr>,
     sc_slots = 2, sc_at = 9, sc_cap = 0, sc_beside = 0\<rparr>\<rparr>"
  have "served_row demo_disk refused_ledger ''m'' = Some r"
    by (simp add: served_row_def live_def refused_ledger_def edit_rows demo_ledger_def demo_row_def mine_def HUB_def GGUF_def base_name_def r_def)
  from refused_stem_has_no_route [OF this, of _ demo_ctx "\<lambda>_. []" 0 "[]" "[]"]
  show ?thesis by (simp add: r_def demo_ctx_def LLAMA_PREFIX_def strip_def is_space_def)
qed

section \<open>One bad file\<close>

text \<open>
  The plan means to refuse a file whose header it cannot read and to go on. A length of 2 to the 63 or more in the header
  is an \<open>OverflowError\<close> of \<open>fh.read\<close>, which is not among the exceptions caught: the plan of every file stops.
\<close>

definition broken_header :: bytes where
  "broken_header = MAGIC @ le_bytes 4 3 @ le_bytes 8 0 @ le_bytes 8 1 @ le_bytes 8 (2 ^ 63)"

lemma broken_header_read: "read_meta ascii_decode 900 broken_header = Inl TooLong"
proof -
  have "read_uint 8 (le_bytes 8 (2 ^ 63) @ []) = Inr (2 ^ 63, [])" by (rule read_uint_le) simp
  then have "read_string ascii_decode (le_bytes 8 (2 ^ 63)) = Inl TooLong" unfolding append_Nil2 by (simp add: read_string_def)
  then have "repeat_read (Suc 0) (read_entry ascii_decode 900) (le_bytes 8 (2 ^ 63)) = Inl TooLong" by (simp add: read_entry_def)
  moreover have "take 4 MAGIC = MAGIC" "drop 4 MAGIC = []" "length MAGIC = 4" by (simp_all add: MAGIC_def)
  ultimately show ?thesis by (simp add: broken_header_def read_meta_def read_uint_le)
qed

theorem one_bad_header_stops_the_plan:
  "plan_contexts demo_disk (demo_ctx\<lparr>cx_bytes := (\<lambda>_. Some broken_header)\<rparr>) 9 budget slots cache_type kv_cap beside demo_ledger = Inl (Header TooLong)"
  by (simp add: plan_contexts_def demo_live plan_row_def path_exists_def demo_stem Let_def choice_for_def header_of_def demo_ctx_def
      follow_def) (simp add: demo_disk_def demo_row_def broken_header_read)

end
