(* ===== verification/Keepers.thy ===== *)
theory Keepers
  imports Downloads VerdictStore Lanes Adoption Serving
begin

text \<open>
  What must never be deleted (\<open>harness/disk.py\<close>): the repositories and GGUF stems that a gateway alias, a lane's default, an
  adopted winner or the harness itself loads, each with why; the lanes whose winner names no weights; and what could not be
  read. A set is a list whose order does not matter. The gateway's files, the typed defaults, the adoptions of every machine
  and the table of candidates are arguments.
\<close>

definition TOOLING :: "(string \<times> string) list" where
  "TOOLING = [
     (''yuvalkirstain/PickScore_v1'', ''image adherence scorer (checks/adherence.py)''),
     (''laion/CLIP-ViT-H-14-laion2B-s32B-b79K'', ''PickScore processor''),
     (''xswu/HPSv2'', ''image adherence scorer (checks/adherence.py)''),
     (''litmudoc/Chatterbox-Multilingual-MLX-v2-Q8'', ''cloned voice presets''),
     (''mlx-community/S3TokenizerV2'', ''Chatterbox speech tokenizer''),
     (''mlx-community/whisper-large-v3-mlx'', ''multilingual stt (audio.py)''),
     (''microsoft/wavlm-base-plus-sv'', ''speaker model'')]"

definition ENGINE_REPOS :: "(string \<times> string list) list" where
  "ENGINE_REPOS = [(''h3'', [''MiniMaxAI/MiniMax-H3'']), (''acestep'', [''ACE-Step/Ace-Step1.5'', ''ACE-Step/acestep-5Hz-lm-0.6B''])]"

definition WEIGHTLESS :: "string list" where
  "WEIGHTLESS = [''osocr'', ''bm25'', ''pii-regex'']"

definition MFLUX_REPOS :: "(string \<times> string) list" where
  "MFLUX_REPOS = [
     (''dev'', ''black-forest-labs/FLUX.1-dev''),
     (''schnell'', ''black-forest-labs/FLUX.1-schnell''),
     (''krea-dev'', ''black-forest-labs/FLUX.1-Krea-dev''),
     (''dev-kontext'', ''black-forest-labs/FLUX.1-Kontext-dev''),
     (''dev-fill'', ''black-forest-labs/FLUX.1-Fill-dev''),
     (''dev-redux'', ''black-forest-labs/FLUX.1-Redux-dev''),
     (''dev-depth'', ''black-forest-labs/FLUX.1-Depth-dev''),
     (''dev-controlnet-canny'', ''black-forest-labs/FLUX.1-dev''),
     (''schnell-controlnet-canny'', ''black-forest-labs/FLUX.1-schnell''),
     (''dev-controlnet-upscaler'', ''black-forest-labs/FLUX.1-dev''),
     (''dev-fill-catvton'', ''black-forest-labs/FLUX.1-Fill-dev''),
     (''flux2-klein-4b'', ''black-forest-labs/FLUX.2-klein-4B''),
     (''flux2-klein'', ''black-forest-labs/FLUX.2-klein-4B''),
     (''flux2-klein-9b'', ''black-forest-labs/FLUX.2-klein-9B''),
     (''z-image-turbo'', ''Tongyi-MAI/Z-Image-Turbo''),
     (''z-image'', ''Tongyi-MAI/Z-Image''),
     (''qwen-image'', ''Qwen/Qwen-Image-2512''),
     (''fibo'', ''briaai/FIBO''),
     (''krea-2'', ''krea/Krea-2-Turbo''),
     (''krea2'', ''krea/Krea-2-Turbo''),
     (''ernie-image'', ''baidu/ERNIE-Image''),
     (''ernie-image-turbo'', ''baidu/ERNIE-Image-Turbo''),
     (''lens-turbo'', ''Comfy-Org/Lens''),
     (''boogu'', ''Boogu/Boogu-Image-0.1-Turbo''),
     (''ideogram-4'', ''ideogram-ai/ideogram-4-fp8'')]"

text \<open>\<open>_stem\<close>: the lowered name without \<open>.gguf\<close>.\<close>

definition file_stem :: "string \<Rightarrow> string" where
  "file_stem name = removesuffix ''.gguf'' (lower name)"

section \<open>What a spec loads\<close>

text \<open>An entry of a gateway file, its keys that are absent or empty being empty.\<close>

record weight_entry =
  we_name :: string
  we_model :: string
  we_repo :: string
  we_file :: string

type_synonym weight_names = "string list \<times> string list"

definition entry_weights :: "weight_entry \<Rightarrow> weight_names" where
  "entry_weights e =
     (let model = strip_provider (we_model e)
      in ((if we_repo e \<noteq> [] then [we_repo e] else []) @ (if CHR ''/'' \<in> set model then [model] else []),
          (if we_file e \<noteq> [] then [file_stem (we_file e)] else []) @ (if model \<noteq> [] \<and> CHR ''/'' \<notin> set model then [file_stem model] else [])))"

definition add_alias :: "(string \<times> weight_names) list \<Rightarrow> weight_entry \<Rightarrow> (string \<times> weight_names) list" where
  "add_alias d e =
     (let old = get_or ([], []) d (we_name e); new = entry_weights e
      in dict_put (we_name e) (fst old @ fst new, snd old @ snd new) d)"

definition weight_aliases :: "(string \<times> weight_entry list) list \<Rightarrow> (string \<times> weight_names) list" where
  "weight_aliases files = foldl add_alias [] (concat (map snd files))"

definition alias_sources :: "(string \<times> weight_entry list) list \<Rightarrow> (string \<times> string) list" where
  "alias_sources files =
     foldl (\<lambda>d e. if we_repo e \<noteq> [] \<and> we_file e \<noteq> [] \<and> map_of d (we_file e) = None then dict_put (we_file e) (we_repo e) d else d)
       [] (concat (map snd files))"

record keep_env =
  ke_files :: "(string \<times> weight_entry list) list"
  ke_typed :: "(string \<times> string) list"
  ke_adopted :: "(string \<times> string) list"
  ke_candidates :: "(string \<times> nat) list"

text \<open>\<open>_stored\<close>: the rows of the join, a candidate with each download of its proposal not yet removed or with none.\<close>

definition stored_weights :: "keep_env \<Rightarrow> ledger option \<Rightarrow> string \<Rightarrow> weight_names" where
  "stored_weights k conn spec =
     (case conn of
        None \<Rightarrow> ([], [])
      | Some st \<Rightarrow>
          (let pids = map snd (filter (\<lambda>c. fst c = spec \<and> spec \<noteq> []) (ke_candidates k));
               named = filter (\<lambda>p. fst p \<in> set pids) (led_proposals st);
               rows = filter (\<lambda>r. d_removed r = None \<and> (\<exists>p \<in> set named. d_proposal r = Some (fst p))) (led_rows st)
           in (map snd named @ filter (\<lambda>x. x \<noteq> []) (map d_repo rows),
               map (\<lambda>r. file_stem (d_file r)) (filter (\<lambda>r. d_kind r = GGUF \<and> d_file r \<noteq> []) rows))))"

text \<open>\<open>re.split(r"[:/]", bare, maxsplit=1)[0]\<close>.\<close>

definition engine_head :: "string \<Rightarrow> string" where
  "engine_head bare = takeWhile (\<lambda>c. c \<noteq> CHR '':'' \<and> c \<noteq> CHR ''/'') bare"

definition resolve_spec :: "keep_env \<Rightarrow> ledger option \<Rightarrow> (string \<times> weight_names) list \<Rightarrow> string \<Rightarrow> weight_names" where
  "resolve_spec k conn als spec =
     (let s = strip spec
      in case map_of als s of
           Some w \<Rightarrow> w
         | None \<Rightarrow>
             (let bare = lower (fst (partition_at CHR ''@'' (fst (partition_at CHR '','' s)))); hd = engine_head bare
              in if prefix ''llamacpp:'' bare then ([], [file_stem (snd (partition_at CHR '':'' bare))])
                 else (case map_of ENGINE_REPOS bare of
                     Some repos \<Rightarrow> (repos, [])
                   | None \<Rightarrow> (case map_of ENGINE_REPOS hd of
                       Some repos \<Rightarrow> (repos, [])
                     | None \<Rightarrow>
                         (let w = stored_weights k conn s;
                              mflux = (if hd = ''mflux'' then map_of MFLUX_REPOS (snd (partition_at CHR '':'' bare)) else None)
                          in (fst w @ (case mflux of None \<Rightarrow> [] | Some r \<Rightarrow> [r]) @
                                (if CHR '':'' \<notin> set s \<and> CHR '','' \<notin> set s \<and> CHR ''/'' \<in> set s then [s] else []),
                              snd w))))))"

section \<open>The keepers\<close>

datatype keep_why =
    AliasOf string
  | DefaultOf string
  | WinnerOf string
  | ToolOf string
  | NamesNothing keep_why string string
  | NoLaneWhile "keep_why list"

datatype disk_problem = NoModels string | NoAliases | NoWeightsFor keep_why string | NoStore

record keepers =
  k_repos :: "(string \<times> keep_why) list"
  k_stems :: "(string \<times> keep_why) list"
  k_problems :: "disk_problem list"
  k_lanes :: "(string \<times> keep_why) list"

definition put_default :: "'k \<Rightarrow> 'v \<Rightarrow> ('k \<times> 'v) list \<Rightarrow> ('k \<times> 'v) list" where
  "put_default key v d = (if map_of d key = None then d @ [(key, v)] else d)"

definition keep_spec :: "keep_env \<Rightarrow> ledger option \<Rightarrow> (string \<times> weight_names) list \<Rightarrow> keepers \<Rightarrow> string \<times> keep_why \<times> string \<Rightarrow> keepers" where
  "keep_spec e conn als k job =
     (case job of (spec, why, lane) \<Rightarrow>
        (let w = resolve_spec e conn als spec;
             k1 = k\<lparr>k_repos := foldl (\<lambda>d r. put_default (lower r) why d) (k_repos k) (fst w),
                    k_stems := foldl (\<lambda>d s. put_default s why d) (k_stems k) (snd w)\<rparr>
         in if fst w \<noteq> [] \<or> snd w \<noteq> [] \<or> strip (fst (partition_at CHR '':'' spec)) \<in> set WEIGHTLESS then k1
            else if lane \<noteq> [] then k1\<lparr>k_lanes := put_default (canonical lane) (NamesNothing why spec lane) (k_lanes k1)\<rparr>
            else k1\<lparr>k_problems := k_problems k1 @ [NoWeightsFor why spec]\<rparr>))"

definition keep_jobs :: "keep_env \<Rightarrow> (string \<times> weight_names) list \<Rightarrow> (string \<times> keep_why \<times> string) list" where
  "keep_jobs e als =
     map (\<lambda>(name, w). (name, AliasOf name, [])) als @
     map (\<lambda>(lane, spec). (spec, DefaultOf lane, lane)) (ke_typed e) @
     concat (map (\<lambda>lane. map (\<lambda>spec. (spec, WinnerOf lane, lane))
       (sort (remdups (map snd (filter (\<lambda>a. fst a = lane) (ke_adopted e)))))) (remdups (map fst (ke_adopted e))))"

definition unread_files :: "keep_env \<Rightarrow> disk_problem list" where
  "unread_files e =
     map (\<lambda>(path, es). NoModels path) (filter (\<lambda>(path, es). es = []) (ke_files e)) @
     (if weight_aliases (ke_files e) = [] then [NoAliases] else [])"

definition keepers_of :: "keep_env \<Rightarrow> ledger option \<Rightarrow> keepers" where
  "keepers_of e conn =
     (let als = weight_aliases (ke_files e);
          k = foldl (keep_spec e conn als) \<lparr>k_repos = [], k_stems = [], k_problems = unread_files e, k_lanes = []\<rparr> (keep_jobs e als)
      in k\<lparr>k_repos := foldl (\<lambda>d (repo, why). put_default (lower repo) (ToolOf why) d) (k_repos k) TOOLING\<rparr>)"

text \<open>What the store says: the adoptions of every machine.\<close>

definition adopted_everywhere :: "machine_facts \<Rightarrow> adoption list \<Rightarrow> keep_env \<Rightarrow> keep_env" where
  "adopted_everywhere m as e = e\<lparr>ke_adopted := everywhere m as\<rparr>"

section \<open>Facts\<close>

lemma map_of_put_default: "map_of (put_default key v d) x = (if x = key \<and> map_of d key = None then Some v else map_of d x)"
  by (auto simp: put_default_def map_add_def split: option.split)

lemma put_default_dom: "dom (map_of (foldl (\<lambda>d r. put_default (f r) (g r) d) d rs)) = dom (map_of d) \<union> f ` set rs"
  by (induction rs arbitrary: d) (auto simp: map_of_put_default)

text \<open>Every job's repositories and stems are kept.\<close>

lemma keep_spec_fields:
  "k_repos (keep_spec e conn als k (spec, why, lane)) = foldl (\<lambda>d r. put_default (lower r) why d) (k_repos k) (fst (resolve_spec e conn als spec))"
  "k_stems (keep_spec e conn als k (spec, why, lane)) = foldl (\<lambda>d s. put_default s why d) (k_stems k) (snd (resolve_spec e conn als spec))"
  by (simp_all add: keep_spec_def Let_def)

lemma keep_spec_dom:
  "dom (map_of (k_repos (keep_spec e conn als k job))) = dom (map_of (k_repos k)) \<union> lower ` set (fst (resolve_spec e conn als (fst job)))"
  "dom (map_of (k_stems (keep_spec e conn als k job))) = dom (map_of (k_stems k)) \<union> set (snd (resolve_spec e conn als (fst job)))"
  by (cases job; simp only: keep_spec_fields fst_conv put_default_dom image_ident)+

lemma keep_jobs_dom:
  "dom (map_of (k_repos (foldl (keep_spec e conn als) k jobs))) =
     dom (map_of (k_repos k)) \<union> (\<Union>job \<in> set jobs. lower ` set (fst (resolve_spec e conn als (fst job))))"
  "dom (map_of (k_stems (foldl (keep_spec e conn als) k jobs))) =
     dom (map_of (k_stems k)) \<union> (\<Union>job \<in> set jobs. set (snd (resolve_spec e conn als (fst job))))"
  by (induction jobs arbitrary: k) (auto simp: keep_spec_dom)

end
