(* ===== verification/Disk.thy ===== *)
theory Disk
  imports Keepers
begin

text \<open>
  What the weights cache holds and what of it may go (\<open>harness/disk.py\<close>): the inventory of the hub and of the GGUF directory,
  the group each entry falls in, the one decision about deleting, and the deletion itself, on the disk and in the ledger. A
  path the system will not remove (\<open>refuses_rm\<close>) raises an \<open>OSError\<close> and stays as it is; \<open>clock\<close> gives the time a path's
  removal is stamped with. A directory among the GGUF files counts no bytes.
\<close>

datatype disk_group = Keep | Queued | Rejected | Unknown

definition GRACE_SECONDS :: rat where "GRACE_SECONDS = 86400"
definition REJECTIONS :: "string list" where "REJECTIONS = [''broken'', ''declined'']"
definition FETCHED_TIERS :: "string list" where "FETCHED_TIERS = [''fetch'', ''screen'', ''measure'', ''adopt'']"

datatype entry_why = NotSaid | KeptFor keep_why | NoRow | MeasuredAt string | OutcomeAt string string | NothingKnown

record disk_entry =
  en_kind :: string
  en_path :: string
  en_name :: string
  en_repo :: string
  en_size :: nat
  en_mtime :: rat
  en_group :: disk_group
  en_why :: entry_why
  en_outcome :: string
  en_tier :: string
  en_decided :: rat
  en_verdict :: "nat option"
  en_links :: "string list"
  en_download :: "nat option"
  en_proposals :: "nat list"
  en_unrecorded :: bool

section \<open>The latest verdicts\<close>

record state_row =
  sr_name :: string
  sr_pid :: nat
  sr_lane :: string
  sr_id :: nat
  sr_outcome :: string
  sr_tier :: string
  sr_decided :: rat

definition state_rows :: "db \<Rightarrow> state_row list" where
  "state_rows d =
     concat (map (\<lambda>p. case held_verdict d p of None \<Rightarrow> []
        | Some v \<Rightarrow> [\<lparr>sr_name = p_name p, sr_pid = p_id p, sr_lane = p_lane p, sr_id = v_id v, sr_outcome = p_state p,
             sr_tier = v_tier v, sr_decided = v_decided_at v\<rparr>]) (proposals d))"

definition latest_verdicts :: "db \<Rightarrow> (string \<times> state_row) list" where
  "latest_verdicts d = foldl (\<lambda>m r. dict_put (lower (sr_name r)) r m) [] (sort_key sr_id (state_rows d))"

section \<open>The inventory\<close>

text \<open>\<open>_rows\<close>: the newest live row of a path.\<close>

definition row_at :: "disk \<Rightarrow> ledger option \<Rightarrow> string \<Rightarrow> download_row option" where
  "row_at fs conn path = (case conn of None \<Rightarrow> None | Some st \<Rightarrow> find (\<lambda>r. d_path r = path) (live fs st [] [] []))"

definition named_entry :: "download_row option \<Rightarrow> disk_entry \<Rightarrow> disk_entry" where
  "named_entry got e =
     (case got of
        None \<Rightarrow> e\<lparr>en_unrecorded := True\<rparr>
      | Some r \<Rightarrow>
          e\<lparr>en_repo := d_repo r, en_download := Some (d_id r),
            en_proposals := en_proposals e @ (case d_proposal r of None \<Rightarrow> [] | Some i \<Rightarrow> if i = 0 then [] else [i]),
            en_name := (if en_kind e = HUB \<and> d_repo r \<noteq> [] then d_repo r else en_name e)\<rparr>)"

definition bare_entry :: "string \<Rightarrow> string \<Rightarrow> nat \<Rightarrow> rat \<Rightarrow> disk_entry" where
  "bare_entry kind p sz mtime =
     \<lparr>en_kind = kind, en_path = p, en_name = base_name p, en_repo = [], en_size = sz, en_mtime = mtime, en_group = Unknown,
      en_why = NotSaid, en_outcome = [], en_tier = [], en_decided = 0, en_verdict = None, en_links = [], en_download = None,
      en_proposals = [], en_unrecorded = False\<rparr>"

definition disk_usage :: "disk \<Rightarrow> string \<Rightarrow> nat \<times> rat" where
  "disk_usage fs p = (case map_of (fs_nodes fs) p of Some (Tree t) \<Rightarrow> (blob_bytes t + tree_rest t, tree_mtime t) | _ \<Rightarrow> (0, 0))"

definition hub_entry :: "disk \<Rightarrow> ledger option \<Rightarrow> string \<Rightarrow> disk_entry" where
  "hub_entry fs conn p = named_entry (row_at fs conn (path_key fs p)) (bare_entry HUB p (fst (disk_usage fs p)) (snd (disk_usage fs p)))"

text \<open>The first name below the hub of a link's target, empty when the target lies elsewhere.\<close>

definition below_hub :: "disk \<Rightarrow> string \<Rightarrow> string \<Rightarrow> string" where
  "below_hub fs hub target =
     (let h = fs_real fs hub @ ''/'' in if prefix h target then fst (partition_at CHR ''/'' (drop (length h) target)) else [])"

definition own_link :: "string \<Rightarrow> download_row option \<Rightarrow> disk_entry \<Rightarrow> disk_entry" where
  "own_link p got e =
     e\<lparr>en_links := en_links e @ [p],
       en_proposals := en_proposals e @ (case got of None \<Rightarrow> [] | Some r \<Rightarrow> (case d_proposal r of None \<Rightarrow> [] | Some i \<Rightarrow> if i = 0 then [] else [i]))\<rparr>"

definition gguf_entry :: "disk \<Rightarrow> ledger option \<Rightarrow> string \<Rightarrow> disk_entry" where
  "gguf_entry fs conn p =
     named_entry (row_at fs conn (path_key fs p))
       (case map_of (fs_nodes fs) p of
          Some (File sz m) \<Rightarrow> bare_entry GGUF p sz m
        | Some (Link t m) \<Rightarrow> bare_entry GGUF p 0 m
        | _ \<Rightarrow> bare_entry GGUF p 0 (snd (disk_usage fs p)))"

definition scan_gguf :: "disk \<Rightarrow> ledger option \<Rightarrow> string \<Rightarrow> disk_entry list \<times> disk_entry list \<Rightarrow> string \<Rightarrow> disk_entry list \<times> disk_entry list" where
  "scan_gguf fs conn hub acc p =
     (let owner = (case map_of (fs_nodes fs) p of Some (Link t m) \<Rightarrow> below_hub fs hub t | _ \<Rightarrow> [])
      in if owner \<noteq> [] \<and> (\<exists>e \<in> set (fst acc). base_name (en_path e) = owner)
         then (map (\<lambda>e. if base_name (en_path e) = owner then own_link p (row_at fs conn (path_key fs p)) e else e) (fst acc), snd acc)
         else (fst acc, snd acc @ [gguf_entry fs conn p]))"

definition scan_entries :: "disk \<Rightarrow> ledger option \<Rightarrow> string \<Rightarrow> string \<Rightarrow> disk_entry list" where
  "scan_entries fs conn hub ggufs =
     (let found = scan_disk fs hub ggufs; paths = (\<lambda>k. map snd (filter (\<lambda>x. fst x = k) found));
          got = foldl (scan_gguf fs conn hub) (map (hub_entry fs conn) (paths HUB), []) (paths GGUF)
      in fst got @ snd got)"

text \<open>The unfinished blobs of the hub, with the directory whose row they belong to.\<close>

record partial_blob =
  pb_path :: string
  pb_size :: nat
  pb_mtime :: rat
  pb_dir :: string
  pb_link :: bool

definition partials_in :: "disk \<Rightarrow> string \<Rightarrow> partial_blob list" where
  "partials_in fs p =
     (case follow fs p of
        Some (Tree t) \<Rightarrow>
          concat (map (\<lambda>(name, sz, m, link).
            if suffix ''.incomplete'' name \<and> CHR ''/'' \<notin> set name
            then [\<lparr>pb_path = p @ ''/blobs/'' @ name, pb_size = sz, pb_mtime = m, pb_dir = p, pb_link = link\<rparr>] else []) (tree_blobs t))
      | _ \<Rightarrow> [])"

definition scan_partials :: "disk \<Rightarrow> string \<Rightarrow> partial_blob list" where
  "scan_partials fs hub =
     sort_key (\<lambda>b. split_at CHR ''/'' (pb_path b)) (concat (map (partials_in fs)
       (filter (\<lambda>p. directly_in hub p \<and> prefix ''models--'' (base_name p)) (remdups (map fst (fs_nodes fs))))))"

section \<open>The groups\<close>

definition entry_stems :: "disk_entry \<Rightarrow> string list" where
  "entry_stems e = map (\<lambda>p. file_stem (base_name p)) (en_links e) @ (if en_kind e = GGUF then [file_stem (en_name e)] else [])"

text \<open>\<open>_lane_kept\<close>, on the rows by proposal.\<close>

definition lane_kept :: "keepers \<Rightarrow> (nat \<times> state_row) list \<Rightarrow> disk_entry \<Rightarrow> keep_why option" where
  "lane_kept k by_pid e =
     (if k_lanes k = [] then None
      else (let seen = (if en_proposals e = [] then [[]]
                  else map (\<lambda>i. canonical (case map_of by_pid i of None \<Rightarrow> [] | Some r \<Rightarrow> sr_lane r)) (en_proposals e));
                hit = find (\<lambda>x. map_of (k_lanes k) x \<noteq> None) (sort (remdups seen))
            in case hit of
                 Some x \<Rightarrow> map_of (k_lanes k) x
               | None \<Rightarrow> if [] \<in> set seen then Some (NoLaneWhile (map snd (sort_key fst (k_lanes k)))) else None))"

definition newest_state :: "(nat \<times> state_row) list \<Rightarrow> disk_entry \<Rightarrow> state_row option" where
  "newest_state by_pid e =
     (case concat (map (\<lambda>i. case map_of by_pid i of None \<Rightarrow> [] | Some r \<Rightarrow> [r]) (remdups (en_proposals e))) of
        [] \<Rightarrow> None | r # rs \<Rightarrow> Some (first_max (\<lambda>r. int (sr_id r)) r rs))"

definition first_some :: "'a option \<Rightarrow> 'a option \<Rightarrow> 'a option" where
  "first_some a b = (case a of None \<Rightarrow> b | Some x \<Rightarrow> Some x)"

definition kept_why :: "keepers \<Rightarrow> (nat \<times> state_row) list \<Rightarrow> disk_entry \<Rightarrow> keep_why option" where
  "kept_why k by_pid e =
     first_some (if en_repo e \<noteq> [] then map_of (k_repos k) (lower (en_repo e)) else None)
       (first_some (case find (\<lambda>s. map_of (k_stems k) s \<noteq> None) (entry_stems e) of None \<Rightarrow> None | Some s \<Rightarrow> map_of (k_stems k) s)
         (lane_kept k by_pid e))"

definition by_proposal :: "(string \<times> state_row) list \<Rightarrow> (nat \<times> state_row) list" where
  "by_proposal states = foldl (\<lambda>d r. dict_put (sr_pid r) r d) [] (map snd states)"

definition classify_entry :: "keepers \<Rightarrow> (string \<times> state_row) list \<Rightarrow> disk_entry \<Rightarrow> disk_entry" where
  "classify_entry k states e =
     (let by_pid = by_proposal states;
          last = newest_state by_pid e;
          e1 = (case last of None \<Rightarrow> e
                | Some r \<Rightarrow> e\<lparr>en_outcome := sr_outcome r, en_tier := sr_tier r, en_decided := sr_decided r, en_verdict := Some (sr_id r)\<rparr>);
          put = (\<lambda>g w. e1\<lparr>en_group := g, en_why := w\<rparr>)
      in case kept_why k by_pid e of
           Some w \<Rightarrow> put Keep (KeptFor w)
         | None \<Rightarrow>
             if en_unrecorded e then put Unknown NoRow
             else (case last of
                 None \<Rightarrow> put Unknown NothingKnown
               | Some r \<Rightarrow>
                   if sr_outcome r = ''measured'' then put Keep (MeasuredAt (sr_tier r))
                   else if sr_outcome r \<in> set WAYPOINTS then put Queued (OutcomeAt (sr_outcome r) (sr_tier r))
                   else if sr_outcome r \<in> set REJECTIONS \<and> sr_tier r \<in> set FETCHED_TIERS then put Rejected (OutcomeAt (sr_outcome r) (sr_tier r))
                   else put Unknown (OutcomeAt (sr_outcome r) (sr_tier r))))"

record disk_inventory =
  iv_hub :: string
  iv_gguf :: string
  iv_entries :: "disk_entry list"
  iv_partials :: "partial_blob list"
  iv_problems :: "disk_problem list"
  iv_gone :: "download_row list"

text \<open>A store is its verdicts beside its ledger; \<^const>\<open>None\<close> when there is none.\<close>

definition inventory :: "disk \<Rightarrow> keepers \<Rightarrow> (db \<times> ledger) option \<Rightarrow> string \<Rightarrow> string \<Rightarrow> disk_inventory" where
  "inventory fs k store hub ggufs =
     (let conn = map_option snd store;
          states = (case store of None \<Rightarrow> [] | Some (d, st) \<Rightarrow> latest_verdicts d)
      in \<lparr>iv_hub = hub, iv_gguf = ggufs, iv_entries = map (classify_entry k states) (scan_entries fs conn hub ggufs),
          iv_partials = (if fs_dirs fs hub then scan_partials fs hub else []),
          iv_problems = (if store = None then [NoStore] else []) @ k_problems k,
          iv_gone = (case conn of None \<Rightarrow> [] | Some st \<Rightarrow> drift_gone fs st)\<rparr>)"

section \<open>What may go\<close>

definition inside :: "disk \<Rightarrow> string \<Rightarrow> string \<Rightarrow> bool" where
  "inside fs p dir \<longleftrightarrow> fs_dirs fs dir \<and> fs_real fs (path_parent p) = fs_real fs dir \<and> base_name p \<notin> {[], ''.'', ''..''}"

datatype delete_why = KeptBecause entry_why | RefusedNoRow | OtherGroup disk_group disk_group | TooYoung | Outside string "string list" | Allowed entry_why

definition safe_to_delete :: "disk \<Rightarrow> rat \<Rightarrow> disk_group \<Rightarrow> string list \<Rightarrow> disk_entry \<Rightarrow> bool \<times> delete_why" where
  "safe_to_delete fs now wanted roots e =
     (if en_group e = Keep then (False, KeptBecause (en_why e))
      else if en_unrecorded e then (False, RefusedNoRow)
      else if en_group e \<noteq> wanted \<or> wanted \<notin> {Rejected, Unknown} then (False, OtherGroup (en_group e) wanted)
      else if en_group e = Rejected \<and> now - en_decided e < GRACE_SECONDS then (False, TooYoung)
      else if find (inside fs (en_path e)) roots = None then (False, Outside (en_path e) roots)
      else (True, Allowed (en_why e)))"

definition deletable :: "disk \<Rightarrow> disk_inventory \<Rightarrow> rat \<Rightarrow> disk_group \<Rightarrow> disk_entry list" where
  "deletable fs iv now wanted = filter (\<lambda>e. fst (safe_to_delete fs now wanted [iv_hub iv, iv_gguf iv] e)) (iv_entries iv)"

section \<open>Deleting\<close>

text \<open>An entry of a directory goes under every spelling of its path; a tree goes with what is in it.\<close>

definition unlink :: "string \<Rightarrow> disk \<Rightarrow> disk" where
  "unlink p fs = fs\<lparr>fs_nodes := filter (\<lambda>x. path_key fs (fst x) \<noteq> path_key fs p) (fs_nodes fs)\<rparr>"

definition rmtree :: "string \<Rightarrow> disk \<Rightarrow> disk" where
  "rmtree p fs =
     fs\<lparr>fs_nodes := filter (\<lambda>x. path_key fs (fst x) \<noteq> path_key fs p \<and> \<not> prefix (path_key fs p @ ''/'') (path_key fs (fst x))) (fs_nodes fs)\<rparr>"

text \<open>Unlink in turn those of the paths that still meet the test; stop at the first the system refuses.\<close>

fun unlink_each :: "(string \<Rightarrow> bool) \<Rightarrow> (disk \<Rightarrow> string \<Rightarrow> bool) \<Rightarrow> string list \<Rightarrow> disk \<Rightarrow> disk \<times> bool \<times> string list" where
  "unlink_each refuses_rm test [] fs = (fs, True, [])"
| "unlink_each refuses_rm test (p # ps) fs =
     (if \<not> test fs p then unlink_each refuses_rm test ps fs
      else if refuses_rm p then (fs, False, [])
      else (case unlink_each refuses_rm test ps (unlink p fs) of (fs', ok, gone) \<Rightarrow> (fs', ok, p # gone)))"

definition links_to :: "string \<Rightarrow> disk \<Rightarrow> string \<Rightarrow> bool" where
  "links_to place fs p \<longleftrightarrow> (case map_of (fs_nodes fs) p of Some (Link t m) \<Rightarrow> t = place | _ \<Rightarrow> False)"

text \<open>Removing a path raises when there is nothing there, and \<open>rmtree\<close> takes only a directory, \<open>unlink\<close> never one.\<close>

definition rm_fails :: "(string \<Rightarrow> bool) \<Rightarrow> bool \<Rightarrow> disk \<Rightarrow> string \<Rightarrow> bool" where
  "rm_fails refuses_rm tree fs p \<longleftrightarrow>
     refuses_rm p \<or> (case map_of (fs_nodes fs) p of None \<Rightarrow> True | Some (Tree t) \<Rightarrow> \<not> tree | _ \<Rightarrow> tree)"

text \<open>\<open>_remove\<close>: the disk, and the links that went with the entry; \<^const>\<open>None\<close> is an \<open>OSError\<close>.\<close>

definition remove_entry :: "(string \<Rightarrow> bool) \<Rightarrow> string \<Rightarrow> string \<Rightarrow> disk_entry \<Rightarrow> disk \<Rightarrow> disk \<times> string list option" where
  "remove_entry refuses_rm hub ggufs e fs =
     (let p = en_path e
      in if en_kind e = HUB then
           (if is_link fs p \<or> \<not> inside fs p hub then (fs, None)
            else (case unlink_each refuses_rm (\<lambda>d l. is_link d l \<and> inside d l ggufs) (en_links e) fs of
                    (fs1, ok, gone) \<Rightarrow> if \<not> ok \<or> rm_fails refuses_rm True fs1 p then (fs1, None) else (rmtree p fs1, Some gone)))
         else if \<not> inside fs p ggufs then (fs, None)
         else if is_link fs p then (if refuses_rm p then (fs, None) else (unlink p fs, Some []))
         else (case unlink_each refuses_rm (links_to (path_key fs p)) (filter (directly_in ggufs) (remdups (map fst (fs_nodes fs)))) fs of
                 (fs1, ok, gone) \<Rightarrow> if \<not> ok \<or> rm_fails refuses_rm False fs1 p then (fs1, None) else (unlink p fs1, Some gone)))"

record removal =
  rm_path :: string
  rm_repo :: string
  rm_bytes :: nat
  rm_verdict :: "nat option"
  rm_links :: "string list"
  rm_at :: rat
  rm_origin :: string

definition remove_step :: "(string \<Rightarrow> bool) \<Rightarrow> (string \<Rightarrow> rat) \<Rightarrow> string \<Rightarrow> string \<Rightarrow> disk \<times> removal list \<times> string list \<Rightarrow> disk_entry \<Rightarrow> disk \<times> removal list \<times> string list" where
  "remove_step refuses_rm clock hub ggufs acc e =
     (case acc of (fs, rows, errors) \<Rightarrow>
        (case remove_entry refuses_rm hub ggufs e fs of
           (fs', None) \<Rightarrow> (fs', rows, errors @ [en_path e])
         | (fs', Some links) \<Rightarrow>
             (fs', rows @ [\<lparr>rm_path = en_path e, rm_repo = en_repo e, rm_bytes = en_size e, rm_verdict = en_verdict e,
                rm_links = links, rm_at = clock (en_path e), rm_origin = []\<rparr>], errors)))"

definition stamp_path :: "disk \<Rightarrow> string \<Rightarrow> removal \<Rightarrow> ledger \<Rightarrow> string \<Rightarrow> ledger" where
  "stamp_path fs source r st p =
     remove_download fs (rm_at r) p source (rm_verdict r) (rm_repo r) [] (if p = rm_path r then rm_bytes r else 0) (rm_origin r) st"

definition stamp_removal :: "disk \<Rightarrow> string \<Rightarrow> ledger \<Rightarrow> removal \<Rightarrow> ledger" where
  "stamp_removal fs source st r = foldl (stamp_path fs source r) st (rm_path r # rm_links r)"

definition record_removals :: "disk \<Rightarrow> string \<Rightarrow> removal list \<Rightarrow> ledger option \<Rightarrow> ledger option" where
  "record_removals fs source rows conn = map_option (\<lambda>st. foldl (stamp_removal fs source) st rows) conn"

definition delete_entries :: "(string \<Rightarrow> bool) \<Rightarrow> (string \<Rightarrow> rat) \<Rightarrow> disk_inventory \<Rightarrow> rat \<Rightarrow> disk_group \<Rightarrow> string \<Rightarrow> disk \<times> ledger option \<Rightarrow>
    disk_problem list + (disk \<times> ledger option) \<times> removal list \<times> string list" where
  "delete_entries refuses_rm clock iv now wanted source world =
     (if iv_problems iv \<noteq> [] then Inl (iv_problems iv)
      else (case foldl (remove_step refuses_rm clock (iv_hub iv) (iv_gguf iv)) (fst world, [], []) (deletable (fst world) iv now wanted) of
              (fs', rows, errors) \<Rightarrow> Inr ((fs', record_removals fs' source rows (snd world)), rows, errors)))"

section \<open>Partial downloads\<close>

definition unlink_blob :: "partial_blob \<Rightarrow> disk \<Rightarrow> disk" where
  "unlink_blob b fs =
     fs\<lparr>fs_nodes := map (\<lambda>(q, n). (q, case n of
          Tree t \<Rightarrow> if path_key fs q = fs_real fs (pb_dir b)
                    then Tree (t\<lparr>tree_blobs := filter (\<lambda>x. fst x \<noteq> base_name (pb_path b)) (tree_blobs t)\<rparr>) else n
        | _ \<Rightarrow> n)) (fs_nodes fs)\<rparr>"

text \<open>The row of a partial blob that may go: a live one of its directory that no transfer is writing.\<close>

definition orphan_row :: "disk \<Rightarrow> ledger \<Rightarrow> string \<Rightarrow> rat \<Rightarrow> partial_blob \<Rightarrow> download_row option" where
  "orphan_row fs st hub now b =
     (case row_at fs (Some st) (path_key fs (pb_dir b)) of
        None \<Rightarrow> None
      | Some r \<Rightarrow>
          if download_in_flight now r \<or> pb_link b \<or> \<not> prefix (fs_real fs hub @ ''/'') (path_key fs (pb_path b)) then None else Some r)"

definition clear_step :: "(string \<Rightarrow> bool) \<Rightarrow> (string \<Rightarrow> rat) \<Rightarrow> ledger \<Rightarrow> string \<Rightarrow> rat \<Rightarrow> disk \<times> removal list \<Rightarrow> partial_blob \<Rightarrow> disk \<times> removal list" where
  "clear_step refuses_rm clock st hub now acc b =
     (case orphan_row (fst acc) st hub now b of
        None \<Rightarrow> acc
      | Some r \<Rightarrow>
          if refuses_rm (pb_path b) then acc
          else (unlink_blob b (fst acc),
                snd acc @ [\<lparr>rm_path = pb_path b, rm_repo = d_repo r, rm_bytes = pb_size b, rm_verdict = None, rm_links = [],
                            rm_at = clock (pb_path b), rm_origin = PARTIAL\<rparr>]))"

definition clear_incomplete :: "(string \<Rightarrow> bool) \<Rightarrow> (string \<Rightarrow> rat) \<Rightarrow> disk_inventory \<Rightarrow> rat \<Rightarrow> string \<Rightarrow> disk \<times> ledger option \<Rightarrow>
    (disk \<times> ledger option) \<times> removal list" where
  "clear_incomplete refuses_rm clock iv now source world =
     (case snd world of
        None \<Rightarrow> (world, [])
      | Some st \<Rightarrow>
          (case foldl (clear_step refuses_rm clock st (iv_hub iv) now) (fst world, []) (iv_partials iv) of
             (fs', rows) \<Rightarrow> ((fs', record_removals fs' source rows (Some st)), rows)))"

text \<open>\<open>clean\<close>: what discovery runs first.\<close>

record cleaned =
  cl_rejected :: "removal list"
  cl_incomplete :: "removal list"
  cl_errors :: "string list"
  cl_bytes :: nat

definition clean_disk :: "(string \<Rightarrow> bool) \<Rightarrow> (string \<Rightarrow> rat) \<Rightarrow> disk_inventory \<Rightarrow> rat \<Rightarrow> disk \<times> ledger option \<Rightarrow>
    disk_problem list + (disk \<times> ledger option) \<times> cleaned" where
  "clean_disk refuses_rm clock iv run_start world =
     and_then (delete_entries refuses_rm clock iv run_start Rejected ''discover'' world) (\<lambda>(world1, gone, errors).
       case clear_incomplete refuses_rm clock iv run_start ''discover'' world1 of
         (world2, partial) \<Rightarrow>
           Inr (world2, \<lparr>cl_rejected = gone, cl_incomplete = partial, cl_errors = errors,
             cl_bytes = sum_list (map rm_bytes (gone @ partial))\<rparr>))"

text \<open>\<open>sweep\<close>: it never raises; a store that will not open, or a refusal, cleans nothing.\<close>

definition sweep_disk :: "(string \<Rightarrow> bool) \<Rightarrow> (string \<Rightarrow> rat) \<Rightarrow> keepers \<Rightarrow> string \<Rightarrow> string \<Rightarrow> rat \<Rightarrow> db option \<Rightarrow> disk \<times> ledger \<Rightarrow> (disk \<times> ledger) \<times> cleaned option" where
  "sweep_disk refuses_rm clock k hub ggufs run_start opened world =
     (case opened of
        None \<Rightarrow> (world, None)
      | Some d \<Rightarrow>
          (case clean_disk refuses_rm clock (inventory (fst world) k (Some (d, snd world)) hub ggufs) run_start (fst world, Some (snd world)) of
             Inr ((fs', Some st'), got) \<Rightarrow> ((fs', st'), Some got)
           | _ \<Rightarrow> (world, None)))"

section \<open>Reports\<close>

definition disk_drift :: "disk_inventory \<Rightarrow> (nat \<times> string \<times> string) list \<times> string list" where
  "disk_drift iv =
     (map (\<lambda>r. (d_id r, d_repo r, d_path r)) (iv_gone iv), map en_path (filter en_unrecorded (iv_entries iv)))"

record disk_summary =
  ds_groups :: "(disk_group \<times> nat \<times> nat) list"
  ds_due :: "nat \<times> nat"
  ds_partial :: "nat \<times> nat"
  ds_drift :: "nat \<times> nat"
  ds_problems :: "disk_problem list"

definition summary_of_disk :: "disk \<Rightarrow> disk_inventory \<Rightarrow> rat \<Rightarrow> disk_summary" where
  "summary_of_disk fs iv now =
     (let tally = (\<lambda>es. (length es, sum_list (map en_size es)))
      in \<lparr>ds_groups = map (\<lambda>g. (g, tally (filter (\<lambda>e. en_group e = g) (iv_entries iv)))) [Keep, Queued, Rejected, Unknown],
          ds_due = tally (deletable fs iv now Rejected),
          ds_partial = (length (iv_partials iv), sum_list (map pb_size (iv_partials iv))),
          ds_drift = (length (fst (disk_drift iv)), length (snd (disk_drift iv))),
          ds_problems = iv_problems iv\<rparr>)"

end
