(* ===== verification/DiskFacts.thy ===== *)
theory DiskFacts
  imports Disk DownloadFacts
begin

text \<open>
  What deleting does to the disk and to the ledger: what went belongs to an entry that may go, and once a cleanup has
  removed all it meant to, no row points at a path that is gone.
\<close>

section \<open>Smaller disks\<close>

lemma lexists_iff: "lexists fs p \<longleftrightarrow> p \<in> fst ` set (fs_nodes fs)"
  by (simp add: lexists_def map_of_eq_None_iff image_iff)

text \<open>A disk with the same directories and some of the nodes.\<close>

definition shrunk :: "disk \<Rightarrow> disk \<Rightarrow> bool" where
  "shrunk fs fs' \<longleftrightarrow> fs_real fs' = fs_real fs \<and> fs_dirs fs' = fs_dirs fs \<and>
     (\<forall>q n. map_of (fs_nodes fs') q = Some n \<longrightarrow> map_of (fs_nodes fs) q = Some n)"

lemma shrunk_refl [simp]: "shrunk fs fs"
  by (simp add: shrunk_def)

lemma shrunk_trans: "shrunk a b \<Longrightarrow> shrunk b c \<Longrightarrow> shrunk a c"
  by (simp add: shrunk_def)

lemma shrunk_key: "shrunk fs fs' \<Longrightarrow> path_key fs' = path_key fs"
  by (simp add: shrunk_def path_key_def fun_eq_iff)

lemma shrunk_inside: "shrunk fs fs' \<Longrightarrow> inside fs' = inside fs"
  by (simp add: shrunk_def inside_def fun_eq_iff)

lemma shrunk_link: "shrunk fs fs' \<Longrightarrow> is_link fs' p \<Longrightarrow> is_link fs p"
  by (auto simp: shrunk_def is_link_iff)

lemma shrunk_links_to: "shrunk fs fs' \<Longrightarrow> links_to t fs' p \<Longrightarrow> links_to t fs p"
  unfolding shrunk_def links_to_def
  by (cases "map_of (fs_nodes fs') p") (fastforce split: node.splits)+

lemma map_of_keep: "map_of (filter (\<lambda>x. P (fst x)) xs) q = (if P q then map_of xs q else None)"
  by (induction xs) auto

lemma map_of_unlink: "map_of (fs_nodes (unlink p fs)) q = (if path_key fs q \<noteq> path_key fs p then map_of (fs_nodes fs) q else None)"
  unfolding unlink_def by (simp add: map_of_keep [where P = "\<lambda>x. path_key fs x \<noteq> path_key fs p"])

lemma map_of_rmtree: "map_of (fs_nodes (rmtree p fs)) q =
    (if path_key fs q \<noteq> path_key fs p \<and> \<not> prefix (path_key fs p @ ''/'') (path_key fs q) then map_of (fs_nodes fs) q else None)"
  unfolding rmtree_def by (simp add: map_of_keep [where P = "\<lambda>x. path_key fs x \<noteq> path_key fs p \<and> \<not> prefix (path_key fs p @ ''/'') (path_key fs x)"])

lemma shrunk_unlink: "shrunk fs (unlink p fs)"
  by (simp add: shrunk_def map_of_unlink) (simp add: unlink_def)

lemma shrunk_rmtree: "shrunk fs (rmtree p fs)"
  by (simp add: shrunk_def map_of_rmtree) (simp add: rmtree_def)

text \<open>Unlinking one after the other: exactly those told went, each a path of the list that met the test.\<close>

lemma unlink_each_spec:
  assumes "unlink_each refuses_rm test ps fs = (fs', ok, gone)"
    and "\<And>d d' p. shrunk d d' \<Longrightarrow> test d' p \<Longrightarrow> test d p"
  shows "shrunk fs fs' \<and> (\<forall>p \<in> set gone. p \<in> set ps \<and> test fs p) \<and>
    (\<forall>q. lexists fs' q \<longleftrightarrow> lexists fs q \<and> path_key fs q \<notin> path_key fs ` set gone)"
  using assms(1)
proof (induction ps arbitrary: fs fs' ok gone)
  case (Cons p ps)
  show ?case
  proof (cases "test fs p \<and> \<not> refuses_rm p")
    case True
    then obtain gone' where rest: "unlink_each refuses_rm test ps (unlink p fs) = (fs', ok, gone')" "gone = p # gone'"
      using Cons.prems by (auto split: prod.splits)
    have key: "path_key (unlink p fs) = path_key fs" by (rule shrunk_key [OF shrunk_unlink])
    have "lexists (unlink p fs) q \<longleftrightarrow> lexists fs q \<and> path_key fs q \<noteq> path_key fs p" for q
      by (simp add: lexists_def map_of_unlink)
    then show ?thesis
      using Cons.IH [OF rest(1)] True shrunk_trans [OF shrunk_unlink, of p fs fs'] assms(2) [OF shrunk_unlink, of p fs]
      unfolding key rest(2) by auto
  next
    case False
    then show ?thesis using Cons by (auto split: if_splits)
  qed
qed simp

section \<open>One entry\<close>

text \<open>What goes with an entry: its path, what is beneath it, and the links to it in the GGUF directory.\<close>

definition goes_with :: "disk \<Rightarrow> string \<Rightarrow> string \<Rightarrow> disk_entry \<Rightarrow> string \<Rightarrow> bool" where
  "goes_with fs hub ggufs e q \<longleftrightarrow>
     inside fs (en_path e) (if en_kind e = HUB then hub else ggufs) \<and>
     (path_key fs q = path_key fs (en_path e) \<or>
      (if en_kind e = HUB
       then prefix (path_key fs (en_path e) @ ''/'') (path_key fs q) \<or>
            (\<exists>l \<in> set (en_links e). path_key fs q = path_key fs l \<and> is_link fs l \<and> inside fs l ggufs)
       else \<exists>l. directly_in ggufs l \<and> links_to (path_key fs (en_path e)) fs l \<and> path_key fs q = path_key fs l))"

lemma goes_with_mono: "shrunk fs fs' \<Longrightarrow> goes_with fs' hub ggufs e q \<Longrightarrow> goes_with fs hub ggufs e q"
  unfolding goes_with_def shrunk_key shrunk_inside using shrunk_link shrunk_links_to
  by (simp add: shrunk_key shrunk_inside split: if_splits) blast+

text \<open>The paths a removal is recorded under.\<close>

definition stamped :: "disk \<Rightarrow> disk_entry \<Rightarrow> string list \<Rightarrow> string set" where
  "stamped fs e links = path_key fs ` set (en_path e # links)"

lemma remove_entry_spec:
  assumes "remove_entry refuses_rm hub ggufs e fs = (fs', res)"
  shows "shrunk fs fs' \<and> (\<forall>q. lexists fs q \<and> \<not> lexists fs' q \<longrightarrow> goes_with fs hub ggufs e q \<and>
    (\<forall>links. res = Some links \<longrightarrow> path_key fs q \<in> stamped fs e links \<or>
       en_kind e = HUB \<and> inside fs (en_path e) hub \<and> prefix (path_key fs (en_path e) @ ''/'') (path_key fs q)))"
proof -
  let ?p = "en_path e"
  show ?thesis
  proof (cases "if en_kind e = HUB then is_link fs ?p \<or> \<not> inside fs ?p hub else \<not> inside fs ?p ggufs \<or> is_link fs ?p \<and> refuses_rm ?p")
    case True
    then have "remove_entry refuses_rm hub ggufs e fs = (fs, None)"
      by (cases "en_kind e = HUB"; cases "inside fs ?p ggufs") (simp_all add: remove_entry_def)
    then have "fs' = fs" using assms by simp
    then show ?thesis by simp
  next
    case may: False
    show ?thesis
    proof (cases "en_kind e = HUB")
    case True
    then have hub: "en_kind e = HUB" "inside fs ?p hub" "\<not> is_link fs ?p" using may by auto
    obtain fs1 ok gone where each: "unlink_each refuses_rm (\<lambda>d l. is_link d l \<and> inside d l ggufs) (en_links e) fs = (fs1, ok, gone)"
      by (rule prod_cases3)
    note spec = unlink_each_spec [OF each]
    have s: "shrunk fs fs1" "\<And>l. l \<in> set gone \<Longrightarrow> l \<in> set (en_links e) \<and> is_link fs l \<and> inside fs l ggufs"
      "\<And>q. lexists fs1 q \<longleftrightarrow> lexists fs q \<and> path_key fs q \<notin> path_key fs ` set gone"
      using spec by (auto simp: shrunk_inside dest: shrunk_link)
    have g: "path_key fs q \<in> path_key fs ` set gone \<Longrightarrow>
        \<exists>l \<in> set (en_links e). path_key fs q = path_key fs l \<and> is_link fs l \<and> inside fs l ggufs" for q using s(2) by blast
    have r: "fs' = fs1 \<and> res = None \<or> fs' = rmtree ?p fs1 \<and> res = Some gone"
      using assms hub each by (simp add: remove_entry_def Let_def split: if_splits)
    have key: "path_key fs1 = path_key fs" using s(1) by (rule shrunk_key)
    have "lexists (rmtree ?p fs1) q \<longleftrightarrow> lexists fs1 q \<and> path_key fs q \<noteq> path_key fs ?p \<and> \<not> prefix (path_key fs ?p @ ''/'') (path_key fs q)" for q
      by (simp add: lexists_def map_of_rmtree key)
    then show ?thesis
      using r s(1,3) g shrunk_trans [OF s(1) shrunk_rmtree] hub(1,2) unfolding goes_with_def stamped_def set_simps image_insert
      by (elim disjE conjE) (simp_all, (metis (lifting))?)
    next
    case False
    then have other: "en_kind e \<noteq> HUB" "inside fs ?p ggufs" using may by auto
    show ?thesis
    proof (cases "is_link fs ?p")
      case True
      then have "fs' = unlink ?p fs" "res = Some []" using assms other may by (simp_all add: remove_entry_def)
      then show ?thesis using other by (auto simp: shrunk_unlink lexists_def map_of_unlink goes_with_def stamped_def)
    next
    case plain: False
    obtain fs1 ok gone where each:
      "unlink_each refuses_rm (links_to (path_key fs ?p)) (filter (directly_in ggufs) (remdups (map fst (fs_nodes fs)))) fs = (fs1, ok, gone)"
      by (rule prod_cases3)
    note spec = unlink_each_spec [OF each]
    have s: "shrunk fs fs1" "\<And>l. l \<in> set gone \<Longrightarrow> directly_in ggufs l \<and> links_to (path_key fs ?p) fs l"
      "\<And>q. lexists fs1 q \<longleftrightarrow> lexists fs q \<and> path_key fs q \<notin> path_key fs ` set gone"
      using spec by (auto dest: shrunk_links_to)
    have g: "path_key fs q \<in> path_key fs ` set gone \<Longrightarrow>
        \<exists>l. directly_in ggufs l \<and> links_to (path_key fs ?p) fs l \<and> path_key fs q = path_key fs l" for q using s(2) by blast
    have r: "fs' = fs1 \<and> res = None \<or> fs' = unlink ?p fs1 \<and> res = Some gone"
      using assms plain other each by (simp add: remove_entry_def Let_def split: if_splits)
    have key: "path_key fs1 = path_key fs" using s(1) by (rule shrunk_key)
    have "lexists (unlink ?p fs1) q \<longleftrightarrow> lexists fs1 q \<and> path_key fs q \<noteq> path_key fs ?p" for q
      by (simp add: lexists_def map_of_unlink key)
    then show ?thesis
      using r s(1,3) g shrunk_trans [OF s(1) shrunk_unlink] other unfolding goes_with_def stamped_def set_simps image_insert
      by (elim disjE conjE) (simp_all, (metis (lifting))?)
    qed
    qed
  qed
qed

section \<open>A deletion\<close>

text \<open>The keys a removal stamps in the ledger.\<close>

definition removal_keys :: "disk \<Rightarrow> removal \<Rightarrow> string set" where
  "removal_keys fs r = path_key fs ` set (rm_path r # rm_links r)"

lemma remove_step_spec:
  assumes "remove_step refuses_rm clock hub ggufs (fs, rows, errors) e = (fs', rows', errors')"
  shows "shrunk fs fs' \<and> (\<forall>q. lexists fs q \<and> \<not> lexists fs' q \<longrightarrow> goes_with fs hub ggufs e q) \<and>
    (errors' = [] \<longrightarrow> errors = [] \<and> (\<exists>r. rows' = rows @ [r] \<and> rm_path r = en_path e \<and> (\<forall>q. lexists fs q \<and> \<not> lexists fs' q \<longrightarrow>
       path_key fs q \<in> removal_keys fs r \<or>
       en_kind e = HUB \<and> inside fs (en_path e) hub \<and> prefix (path_key fs (en_path e) @ ''/'') (path_key fs q))))"
proof -
  obtain d res where rem: "remove_entry refuses_rm hub ggufs e fs = (d, res)" by (rule prod.exhaust)
  note spec = remove_entry_spec [OF rem]
  show ?thesis
  proof (cases res)
    case None
    then have "fs' = d" "errors' = errors @ [en_path e]" using assms rem by (simp_all add: remove_step_def)
    then show ?thesis using spec by simp
  next
    case (Some links)
    define r where "r = \<lparr>rm_path = en_path e, rm_repo = en_repo e, rm_bytes = en_size e, rm_verdict = en_verdict e,
                rm_links = links, rm_at = clock (en_path e), rm_origin = []\<rparr>"
    have "fs' = d" "errors' = errors" "rows' = rows @ [r]" using assms rem Some by (simp_all add: remove_step_def r_def)
    moreover have "removal_keys fs r = stamped fs e links" "rm_path r = en_path e" by (simp_all add: removal_keys_def stamped_def r_def)
    ultimately show ?thesis using spec Some by auto
  qed
qed

text \<open>Over a list of entries: what went is with one of them, and is stamped when nothing failed.\<close>

definition beneath :: "disk \<Rightarrow> string \<Rightarrow> string \<Rightarrow> bool" where
  "beneath fs hub q \<longleftrightarrow> (\<exists>p. inside fs p hub \<and> prefix (path_key fs p @ ''/'') (path_key fs q))"

lemma remove_all_entries:
  assumes "foldl (remove_step refuses_rm clock hub ggufs) (fs, rows, errors) es = (fs', rows', errors')"
  shows "shrunk fs fs' \<and> (\<forall>q. lexists fs q \<and> \<not> lexists fs' q \<longrightarrow> (\<exists>e \<in> set es. goes_with fs hub ggufs e q)) \<and>
    (errors' = [] \<longrightarrow> errors = [] \<and> set rows \<subseteq> set rows' \<and> rm_path ` set rows' = rm_path ` set rows \<union> en_path ` set es \<and>
       (\<forall>q. lexists fs q \<and> \<not> lexists fs' q \<longrightarrow> (\<exists>r \<in> set rows'. path_key fs q \<in> removal_keys fs r) \<or> beneath fs hub q))"
  using assms
proof (induction es arbitrary: fs rows errors)
  case (Cons e es)
  obtain d rows1 errors1 where first: "remove_step refuses_rm clock hub ggufs (fs, rows, errors) e = (d, rows1, errors1)" by (rule prod_cases3)
  then have rest: "foldl (remove_step refuses_rm clock hub ggufs) (d, rows1, errors1) es = (fs', rows', errors')" using Cons.prems by simp
  note a = remove_step_spec [OF first] and b = Cons.IH [OF rest]
  have sh: "shrunk fs d" "shrunk d fs'" "shrunk fs fs'"
    using a [THEN conjunct1] b [THEN conjunct1] shrunk_trans by blast+
  have keys: "path_key d = path_key fs" "removal_keys d = removal_keys fs" "beneath d hub = beneath fs hub"
    by (simp_all add: removal_keys_def [abs_def] beneath_def [abs_def] shrunk_key [OF sh(1)] shrunk_inside [OF sh(1)])
  have split: "lexists fs q \<and> \<not> lexists d q \<or> lexists d q \<and> \<not> lexists fs' q" if "lexists fs q \<and> \<not> lexists fs' q" for q
    using that by blast
  have mono: "goes_with d hub ggufs x q \<Longrightarrow> goes_with fs hub ggufs x q" for x q by (rule goes_with_mono [OF sh(1)])
  have "\<exists>x \<in> set (e # es). goes_with fs hub ggufs x q" if "lexists fs q \<and> \<not> lexists fs' q" for q
    using split [OF that]
  proof
    assume "lexists fs q \<and> \<not> lexists d q"
    then show ?thesis using a [THEN conjunct2, THEN conjunct1] by simp
  next
    assume "lexists d q \<and> \<not> lexists fs' q"
    then obtain x where "x \<in> set es" "goes_with d hub ggufs x q" using b [THEN conjunct2, THEN conjunct1] by blast
    then show ?thesis using mono by auto
  qed
  moreover have "errors = [] \<and> set rows \<subseteq> set rows' \<and> rm_path ` set rows' = rm_path ` set rows \<union> en_path ` set (e # es) \<and>
       (\<forall>q. lexists fs q \<and> \<not> lexists fs' q \<longrightarrow> (\<exists>r \<in> set rows'. path_key fs q \<in> removal_keys fs r) \<or> beneath fs hub q)"
    if none: "errors' = []"
  proof -
    have b': "errors1 = []" "set rows1 \<subseteq> set rows'" "rm_path ` set rows' = rm_path ` set rows1 \<union> en_path ` set es"
      "\<And>q. lexists d q \<and> \<not> lexists fs' q \<Longrightarrow> (\<exists>r \<in> set rows'. path_key fs q \<in> removal_keys fs r) \<or> beneath fs hub q"
      using b [THEN conjunct2, THEN conjunct2, THEN mp, OF none] by (simp_all add: keys)
    obtain r where r: "errors = []" "rows1 = rows @ [r]" "rm_path r = en_path e" "\<forall>q. lexists fs q \<and> \<not> lexists d q \<longrightarrow>
        path_key fs q \<in> removal_keys fs r \<or> en_kind e = HUB \<and> inside fs (en_path e) hub \<and> prefix (path_key fs (en_path e) @ ''/'') (path_key fs q)"
      using a [THEN conjunct2, THEN conjunct2, THEN mp, OF b'(1)] by (elim conjE exE) (rule that)
    have "r \<in> set rows'" using r(2) b'(2) by auto
    then have "(\<exists>r \<in> set rows'. path_key fs q \<in> removal_keys fs r) \<or> beneath fs hub q" if "lexists fs q \<and> \<not> lexists fs' q" for q
      using split [OF that] r(4) b'(4) unfolding beneath_def by blast
    then show ?thesis using r(1,2,3) b'(2,3) by auto
  qed
  ultimately show ?case using sh(3) by blast
qed auto

section \<open>The entries of an inventory\<close>

lemma dict_put_elems: "x \<in> set (dict_put key v d) \<Longrightarrow> x = (key, v) \<or> x \<in> set d"
  by (induction key v d rule: dict_put.induct) (auto split: if_splits)

lemma dict_fold_elems: "x \<in> set (foldl (\<lambda>m r. dict_put (f r) r m) d rs) \<Longrightarrow> x \<in> set d \<or> snd x \<in> set rs \<and> fst x = f (snd x)"
proof (induction rs arbitrary: d)
  case (Cons r rs)
  from Cons.prems have "x \<in> set (foldl (\<lambda>m r. dict_put (f r) r m) (dict_put (f r) r d) rs)" by simp
  from Cons.IH [OF this] show ?case using dict_put_elems [of x "f r" r d] by fastforce
qed simp

lemma state_values: "map_of (by_proposal (latest_verdicts d)) i = Some s \<Longrightarrow> s \<in> set (state_rows d) \<and> sr_pid s = i"
proof -
  assume "map_of (by_proposal (latest_verdicts d)) i = Some s"
  then have s: "s \<in> snd ` set (latest_verdicts d)" "sr_pid s = i"
    using dict_fold_elems [OF map_of_SomeD, of sr_pid "[]" "map snd (latest_verdicts d)" i s] by (simp_all add: by_proposal_def)
  have "snd x \<in> set (state_rows d)" if "x \<in> set (latest_verdicts d)" for x
    using dict_fold_elems [of x "\<lambda>r. lower (sr_name r)" "[]" "sort_key sr_id (state_rows d)"] that by (simp add: latest_verdicts_def)
  then show ?thesis using s by auto
qed

lemma newest_spec:
  assumes "newest_state states e = Some s"
  shows "(\<exists>i \<in> set (en_proposals e). map_of states i = Some s) \<and>
    (\<forall>i \<in> set (en_proposals e). \<forall>s'. map_of states i = Some s' \<longrightarrow> sr_id s' \<le> sr_id s)"
proof -
  define xs where "xs = concat (map (\<lambda>i. case map_of states i of None \<Rightarrow> [] | Some r \<Rightarrow> [r]) (remdups (en_proposals e)))"
  have xs: "set xs = {r. \<exists>i \<in> set (en_proposals e). map_of states i = Some r}"
    by (auto simp: xs_def split: option.splits)
  obtain r rs where "xs = r # rs" "s = first_max (\<lambda>r. int (sr_id r)) r rs"
    using assms by (auto simp: newest_state_def xs_def [symmetric] split: list.splits)
  then have "s \<in> set xs" "\<forall>x \<in> set xs. int (sr_id x) \<le> int (sr_id s)" using first_max_spec [of "\<lambda>r. int (sr_id r)" r rs] by simp_all
  then show ?thesis unfolding xs by auto
qed

lemma classify_fields [simp]:
  "en_repo (classify_entry k states e) = en_repo e" "en_path (classify_entry k states e) = en_path e"
  "en_kind (classify_entry k states e) = en_kind e" "entry_stems (classify_entry k states e) = entry_stems e"
  "en_proposals (classify_entry k states e) = en_proposals e" "en_unrecorded (classify_entry k states e) = en_unrecorded e"
  "en_links (classify_entry k states e) = en_links e"
  by (simp_all add: classify_entry_def Let_def entry_stems_def split: option.split)

lemma classified_rejected:
  assumes "en_group (classify_entry k states e) = Rejected"
  obtains s where "kept_why k (by_proposal states) e = None" "\<not> en_unrecorded e" "newest_state (by_proposal states) e = Some s"
    "sr_outcome s \<in> set REJECTIONS" "sr_tier s \<in> set FETCHED_TIERS" "en_decided (classify_entry k states e) = sr_decided s"
  using assms that by (auto simp: classify_entry_def Let_def split: option.splits if_splits)

lemma not_kept:
  assumes "kept_why k states e = None"
  shows "(en_repo e \<noteq> [] \<longrightarrow> map_of (k_repos k) (lower (en_repo e)) = None) \<and> (\<forall>s \<in> set (entry_stems e). map_of (k_stems k) s = None)"
  using assms by (auto simp: kept_why_def first_some_def find_None_iff dest: find_SomeD split: option.splits if_splits)

text \<open>What the guard for the lanes of a winner without weights (\<open>_lane_kept\<close>) lets through.\<close>

lemma canonical_none [simp]: "canonical [] = []"
  by code_simp

lemma lane_not_kept:
  assumes "kept_why k by_pid e = None" and "k_lanes k \<noteq> []"
  shows "en_proposals e \<noteq> [] \<and> (\<forall>i \<in> set (en_proposals e). \<exists>s. map_of by_pid i = Some s \<and>
    canonical (sr_lane s) \<noteq> [] \<and> map_of (k_lanes k) (canonical (sr_lane s)) = None)"
proof -
  define lane where "lane i = canonical (case map_of by_pid i of None \<Rightarrow> [] | Some r \<Rightarrow> sr_lane r)" for i
  have kept: "lane_kept k by_pid e = None"
    using assms(1) by (auto simp: kept_why_def first_some_def split: option.splits)
  have some: "en_proposals e \<noteq> []"
    using kept assms(2) by (auto simp: lane_kept_def Let_def split: option.splits if_splits)
  then have hit: "find (\<lambda>x. map_of (k_lanes k) x \<noteq> None) (sort (remdups (map lane (en_proposals e)))) = None"
    "[] \<notin> lane ` set (en_proposals e)"
    using kept assms(2) by (auto simp: lane_kept_def Let_def lane_def [abs_def] dest: find_SomeD split: option.splits if_splits)
  have "\<exists>s. map_of by_pid i = Some s \<and> canonical (sr_lane s) \<noteq> [] \<and> map_of (k_lanes k) (canonical (sr_lane s)) = None"
    if "i \<in> set (en_proposals e)" for i
  proof -
    have "lane i \<noteq> []" using hit(2) that by force
    moreover have "map_of (k_lanes k) (lane i) = None" using hit(1) that by (auto simp: find_None_iff)
    ultimately show ?thesis by (cases "map_of by_pid i") (simp_all add: lane_def)
  qed
  then show ?thesis using some by blast
qed

text \<open>An entry is either without a row or named by a live row of its path.\<close>

definition row_named :: "disk \<Rightarrow> ledger \<Rightarrow> disk_entry \<Rightarrow> bool" where
  "row_named fs st e \<longleftrightarrow> en_unrecorded e \<or> (\<exists>r \<in> set (live fs st [] [] []). d_path r = path_key fs (en_path e) \<and> d_repo r = en_repo e)"

lemma named_row: "en_path e = p \<Longrightarrow> row_named fs st (named_entry (row_at fs (Some st) (path_key fs p)) e)"
  by (auto simp: row_named_def named_entry_def row_at_def dest: find_SomeD split: option.split)

lemma own_link_named: "row_named fs st e \<Longrightarrow> row_named fs st (own_link p r e)"
  by (simp add: row_named_def own_link_def)

lemma scan_named: "e \<in> set (scan_entries fs (Some st) hub ggufs) \<Longrightarrow> row_named fs st e"
proof -
  have hub: "row_named fs st (hub_entry fs (Some st) p)" for p
    unfolding hub_entry_def by (rule named_row) (simp add: bare_entry_def)
  have gguf: "row_named fs st (gguf_entry fs (Some st) p)" for p
    unfolding gguf_entry_def by (rule named_row) (simp add: bare_entry_def split: option.split node.split)
  define named where "named acc \<longleftrightarrow> (\<forall>e \<in> set (fst acc) \<union> set (snd acc). row_named fs st e)" for acc
  have step: "named (scan_gguf fs (Some st) hub acc p)" if "named acc" for acc p
    using that gguf [of p] by (auto simp: scan_gguf_def Let_def named_def own_link_named)
  have "named (foldl (scan_gguf fs (Some st) hub) acc ps)" if "named acc" for acc ps
    using that by (induction ps arbitrary: acc) (simp_all add: step)
  moreover have "named (map (hub_entry fs (Some st)) hs, [])" for hs by (simp add: named_def hub)
  moreover assume "e \<in> set (scan_entries fs (Some st) hub ggufs)"
  ultimately show ?thesis unfolding scan_entries_def Let_def set_append named_def by blast
qed

section \<open>What goes\<close>

text \<open>
  Why an entry may go: a live row of this machine names its path and repository, nothing keeps the repository or a stem it is
  served under, where a lane's winner names no weights it is known to be for another lane, and the newest state of its
  proposals was a rejection, on a tier that had the weights, at least a day ago.
\<close>

definition of_another_lane :: "keepers \<Rightarrow> db \<Rightarrow> disk_entry \<Rightarrow> bool" where
  "of_another_lane k d e \<longleftrightarrow> k_lanes k = [] \<or> en_proposals e \<noteq> [] \<and>
     (\<forall>i \<in> set (en_proposals e). \<exists>p \<in> set (proposals d). p_id p = i \<and> canonical (p_lane p) \<noteq> [] \<and>
        map_of (k_lanes k) (canonical (p_lane p)) = None)"

definition rejected_past_grace :: "keepers \<Rightarrow> db \<Rightarrow> disk \<Rightarrow> ledger \<Rightarrow> rat \<Rightarrow> disk_entry \<Rightarrow> bool" where
  "rejected_past_grace k d fs st now e \<longleftrightarrow>
     (\<exists>r \<in> set (live fs st [] [] []). d_path r = path_key fs (en_path e) \<and> d_repo r = en_repo e) \<and>
     (en_repo e \<noteq> [] \<longrightarrow> map_of (k_repos k) (lower (en_repo e)) = None) \<and>
     (\<forall>s \<in> set (entry_stems e). map_of (k_stems k) s = None) \<and>
     of_another_lane k d e \<and>
     (\<exists>p v. p \<in> set (proposals d) \<and> p_id p \<in> set (en_proposals e) \<and> held_verdict d p = Some v \<and> p_state p \<in> set REJECTIONS \<and>
        v_tier v \<in> set FETCHED_TIERS \<and> GRACE_SECONDS \<le> now - v_decided_at v \<and>
        (\<forall>i \<in> set (en_proposals e). \<forall>s. map_of (by_proposal (latest_verdicts d)) i = Some s \<longrightarrow> sr_id s \<le> v_id v))"

lemma state_row_of: "s \<in> set (state_rows d) \<Longrightarrow> \<exists>p v. p \<in> set (proposals d) \<and> held_verdict d p = Some v \<and> sr_pid s = p_id p \<and>
    sr_lane s = p_lane p \<and> sr_id s = v_id v \<and> sr_outcome s = p_state p \<and> sr_tier s = v_tier v \<and> sr_decided s = v_decided_at v"
proof -
  assume "s \<in> set (state_rows d)"
  then obtain p where "p \<in> set (proposals d)" "s \<in> set (case held_verdict d p of None \<Rightarrow> []
        | Some v \<Rightarrow> [\<lparr>sr_name = p_name p, sr_pid = p_id p, sr_lane = p_lane p, sr_id = v_id v, sr_outcome = p_state p,
             sr_tier = v_tier v, sr_decided = v_decided_at v\<rparr>])"
    by (auto simp: state_rows_def)
  then show ?thesis by (cases "held_verdict d p") auto
qed

lemma unkept_other_lane:
  assumes "kept_why k (by_proposal (latest_verdicts d)) e = None"
  shows "of_another_lane k d e"
proof (cases "k_lanes k = []")
  case False
  note unkept = lane_not_kept [OF assms False]
  have "\<exists>p \<in> set (proposals d). p_id p = i \<and> canonical (p_lane p) \<noteq> [] \<and> map_of (k_lanes k) (canonical (p_lane p)) = None"
    if i: "i \<in> set (en_proposals e)" for i
  proof -
    from bspec [OF conjunct2 [OF unkept] i] obtain s where s: "map_of (by_proposal (latest_verdicts d)) i = Some s"
      "canonical (sr_lane s) \<noteq> []" "map_of (k_lanes k) (canonical (sr_lane s)) = None" by (elim exE conjE)
    from state_values [OF s(1)] have r: "s \<in> set (state_rows d)" "sr_pid s = i" by simp_all
    from state_row_of [OF r(1)] obtain p where p: "p \<in> set (proposals d)" "sr_pid s = p_id p" "sr_lane s = p_lane p"
      by (elim exE conjE)
    show ?thesis by (rule bexI [OF _ p(1)]) (use p(2,3) r(2) s(2,3) in simp)
  qed
  then show ?thesis using conjunct1 [OF unkept] unfolding of_another_lane_def by (intro disjI2 conjI ballI)
qed (simp add: of_another_lane_def)

lemma deletable_rejected:
  assumes "e \<in> set (deletable fs (inventory fs k (Some (d, st)) hub ggufs) now Rejected)"
  shows "e \<in> set (iv_entries (inventory fs k (Some (d, st)) hub ggufs)) \<and> rejected_past_grace k d fs st now e"
proof -
  define states where "states = latest_verdicts d"
  have e: "e \<in> set (iv_entries (inventory fs k (Some (d, st)) hub ggufs))" "en_group e = Rejected" "GRACE_SECONDS \<le> now - en_decided e"
    "\<not> en_unrecorded e"
    using assms by (auto simp: deletable_def safe_to_delete_def split: if_splits)
  then obtain e0 where e0: "e0 \<in> set (scan_entries fs (Some st) hub ggufs)" "e = classify_entry k states e0"
    by (auto simp: inventory_def Let_def states_def)
  obtain s where s: "kept_why k (by_proposal states) e0 = None" "newest_state (by_proposal states) e0 = Some s"
    "sr_outcome s \<in> set REJECTIONS" "sr_tier s \<in> set FETCHED_TIERS" "en_decided e = sr_decided s"
    using classified_rejected [of k states e0] e(2) unfolding e0(2) by metis
  obtain i where i: "i \<in> set (en_proposals e0)" "map_of (by_proposal states) i = Some s" using newest_spec [OF s(2)] by blast
  then obtain p v where pv: "p \<in> set (proposals d)" "held_verdict d p = Some v" "sr_pid s = p_id p" "sr_id s = v_id v"
    "sr_outcome s = p_state p" "sr_tier s = v_tier v" "sr_decided s = v_decided_at v" "sr_pid s = i"
    using state_values [of d i s] state_row_of unfolding states_def by blast
  have "row_named fs st e0" using scan_named [OF e0(1)] .
  then have "\<exists>r \<in> set (live fs st [] [] []). d_path r = path_key fs (en_path e) \<and> d_repo r = en_repo e"
    using e(4) by (simp add: row_named_def e0(2))
  moreover have "\<forall>j \<in> set (en_proposals e). \<forall>s'. map_of (by_proposal (latest_verdicts d)) j = Some s' \<longrightarrow> sr_id s' \<le> v_id v"
    using newest_spec [OF s(2)] pv(4) by (simp add: e0(2) states_def)
  moreover have "p_id p \<in> set (en_proposals e)" "p_state p \<in> set REJECTIONS" "v_tier v \<in> set FETCHED_TIERS" "GRACE_SECONDS \<le> now - v_decided_at v"
    using i(1) pv s(3,4,5) e(3) by (simp_all add: e0(2))
  moreover have "of_another_lane k d e"
    using unkept_other_lane [OF s(1) [unfolded states_def]] by (simp add: of_another_lane_def e0(2))
  ultimately show ?thesis
    using e(1) not_kept [OF s(1)] pv(1,2) unfolding rejected_past_grace_def
    by (intro conjI exI [of _ p] exI [of _ v]) (simp_all add: e0(2))
qed

text \<open>
  C28. A cleanup takes an entry only for a rejection. It runs only where the keepers could be read; and whatever is gone
  afterwards is the path of an entry, or lies beneath it, or is a link to it in the GGUF directory, of an entry that sits
  directly in its root, that a live row of this machine names, whose repository and stems nothing keeps, which is known to
  be of another lane than any whose winner names no weights, and whose proposal was last rejected, by a tier that had the
  weights, at least a day ago. A link to a file goes with it whatever the link itself is kept for
  (\<open>kept_link_goes_with_its_file\<close>).
\<close>

theorem only_rejected_weights_go:
  assumes "delete_entries refuses_rm clock (inventory fs k (Some (d, st)) hub ggufs) now Rejected source (fs, Some st) = Inr ((fs', conn'), rows, errors)"
    and "lexists fs p" "\<not> lexists fs' p"
  shows "k_problems k = [] \<and>
    (\<exists>e \<in> set (iv_entries (inventory fs k (Some (d, st)) hub ggufs)). goes_with fs hub ggufs e p \<and> rejected_past_grace k d fs st now e)"
proof -
  let ?iv = "inventory fs k (Some (d, st)) hub ggufs"
  have fields: "iv_hub ?iv = hub" "iv_gguf ?iv = ggufs" "iv_problems ?iv = k_problems k" by (simp_all add: inventory_def Let_def)
  obtain fs1 where fold: "foldl (remove_step refuses_rm clock hub ggufs) (fs, [], []) (deletable fs ?iv now Rejected) = (fs1, rows, errors)"
    and fs1: "fs1 = fs'" and none: "k_problems k = []"
    using assms(1) by (auto simp: delete_entries_def fields split: if_splits prod.splits)
  obtain e where "e \<in> set (deletable fs ?iv now Rejected)" "goes_with fs hub ggufs e p"
    using remove_all_entries [OF fold] assms(2,3) fs1 by blast
  then show ?thesis using deletable_rejected none by blast
qed

section \<open>What the ledger says afterwards\<close>

lemma remove_cong: "path_key fs' = path_key fs \<Longrightarrow> remove_download fs' = remove_download fs"
  by (intro ext) (simp add: remove_download_def live_def Let_def cong: list.case_cong)

text \<open>Whatever the path, a removal leaves no live row of it; of the empty path it leaves none at all.\<close>

lemma remove_subset:
  assumes "ledger_ok fs st" "disk_ok fs"
  shows "ledger_ok fs (remove_download fs now path who verdict repo kind sz origin st) \<and>
    holdings (remove_download fs now path who verdict repo kind sz origin st) \<subseteq> {h \<in> holdings st. fst (snd h) \<noteq> path_key fs path}"
proof (cases "path = []")
  case False
  then show ?thesis using remove_spec [OF assms False] by simp
next
  case True
  define st' where "st' = remove_download fs now path who verdict repo kind sz origin st"
  have all: "set (live fs st [] [] path) = {r \<in> set (led_rows st). is_live st r}" using True by (auto simp: set_live)
  show ?thesis
  proof (cases "live fs st [] [] path")
    case Nil
    then have "holdings st = {}" using all by (simp add: holdings_def)
    then show ?thesis
      using Nil assms insert_holdings [OF assms(1)] insert_ok [OF assms(1)]
      by (simp add: remove_download_def Let_def blank_download_def path_key_idem)
  next
    case (Cons r rs)
    let ?got = "live fs st [] [] path"
    let ?stamp = "\<lambda>r. if d_id r \<in> d_id ` set ?got then stamp_removed now who verdict r else r"
    have "st' = foldl (\<lambda>s r. edit_row (d_id r) (stamp_removed now who verdict) s) st ?got"
      using Cons by (simp add: st'_def remove_download_def)
    then have rows: "led_rows st' = map ?stamp (led_rows st)" "led_here st' = led_here st" "led_new st' = led_new st"
      by (simp_all only: stamp_fold)
    have "\<not> is_live st' (?stamp x)" if "x \<in> set (led_rows st)" for x
      using that unfolding all by (auto simp: is_live_def mine_def rows stamp_removed_def image_iff)
    then have "{y \<in> ?stamp ` set (led_rows st). is_live st' y} = {}" by blast
    then have "holdings st' = {}" by (simp only: holdings_def rows set_map image_empty)
    moreover have ids: "map d_id (map ?stamp (led_rows st)) = map d_id (led_rows st)" by (simp add: stamp_removed_def)
    have "ledger_ok fs st'" using assms(1) unfolding ledger_ok_def rows ids by (auto simp: stamp_removed_def)
    ultimately show ?thesis unfolding st'_def [symmetric] by simp
  qed
qed

lemma stamp_paths:
  assumes "ledger_ok fs st" "disk_ok fs"
  shows "ledger_ok fs (foldl (stamp_path fs source r) st ps) \<and>
    holdings (foldl (stamp_path fs source r) st ps) \<subseteq> {h \<in> holdings st. fst (snd h) \<notin> path_key fs ` set ps}"
  using assms(1)
proof (induction ps arbitrary: st)
  case (Cons p ps)
  have "ledger_ok fs (stamp_path fs source r st p) \<and> holdings (stamp_path fs source r st p) \<subseteq> {h \<in> holdings st. fst (snd h) \<noteq> path_key fs p}"
    unfolding stamp_path_def by (rule remove_subset [OF Cons.prems assms(2)])
  then show ?case using Cons.IH [of "stamp_path fs source r st p"] by auto
qed simp

lemma record_rows:
  assumes "ledger_ok fs st" "disk_ok fs"
  shows "ledger_ok fs (foldl (stamp_removal fs source) st rows) \<and>
    holdings (foldl (stamp_removal fs source) st rows) \<subseteq> {h \<in> holdings st. \<forall>r \<in> set rows. fst (snd h) \<notin> removal_keys fs r}"
  using assms(1)
proof (induction rows arbitrary: st)
  case (Cons r rows)
  have "ledger_ok fs (stamp_removal fs source st r) \<and> holdings (stamp_removal fs source st r) \<subseteq> {h \<in> holdings st. fst (snd h) \<notin> removal_keys fs r}"
    unfolding stamp_removal_def removal_keys_def by (rule stamp_paths [OF Cons.prems assms(2)])
  then show ?case using Cons.IH [of "stamp_removal fs source st r"] by auto
qed simp

lemma record_cong:
  assumes "path_key fs' = path_key fs"
  shows "record_removals fs' = record_removals fs"
proof -
  have "stamp_path fs' = stamp_path fs" by (intro ext) (simp add: stamp_path_def remove_cong [OF assms])
  then have "stamp_removal fs' = stamp_removal fs" by (intro ext) (simp add: stamp_removal_def)
  then show ?thesis by (intro ext) (simp add: record_removals_def)
qed

lemma clear_step_names:
  "path_key (fst (clear_step refuses_rm clock st hub now acc b)) = path_key (fst acc) \<and>
   lexists (fst (clear_step refuses_rm clock st hub now acc b)) = lexists (fst acc)"
proof -
  have "map fst (fs_nodes (unlink_blob b fs)) = map fst (fs_nodes fs)" "fs_real (unlink_blob b fs) = fs_real fs" for fs
    by (simp_all add: unlink_blob_def split_def)
  then have "path_key (unlink_blob b fs) = path_key fs" "lexists (unlink_blob b fs) = lexists fs" for fs
    by (simp_all add: path_key_def fun_eq_iff lexists_iff flip: set_map)
  then show ?thesis by (simp add: clear_step_def split: option.split)
qed

lemma clear_fold_names:
  "path_key (fst (foldl (clear_step refuses_rm clock st hub now) acc bs)) = path_key (fst acc) \<and>
   lexists (fst (foldl (clear_step refuses_rm clock st hub now) acc bs)) = lexists (fst acc)"
  by (induction bs arbitrary: acc) (simp_all add: clear_step_names)

text \<open>A path of a root is beneath no directory of the hub.\<close>

lemma prefix_parent: "prefix (a @ ''/'') (c @ CHR ''/'' # b) \<Longrightarrow> CHR ''/'' \<notin> set b \<Longrightarrow> prefix a c"
  by (auto simp: prefix_def append_eq_append_conv2 Cons_eq_append_conv)

lemma not_beneath:
  assumes "path_key fs p = p" "path_parent p \<in> {fs_real fs hub, fs_real fs ggufs}" "\<not> prefix (fs_real fs hub @ ''/'') (fs_real fs ggufs)"
  shows "\<not> beneath fs hub p"
proof
  assume "beneath fs hub p"
  then obtain x where x: "inside fs x hub" "prefix (path_key fs x @ ''/'') p" using assms(1) by (auto simp: beneath_def)
  have p: "p = path_parent p @ CHR ''/'' # base_name p"
    using assms(1) split_path(2) [OF base_name_no_slash] by (metis append_Cons append_Nil path_key_def)
  have "prefix (fs_real fs hub @ CHR ''/'' # base_name x) (path_parent p)"
    using x p prefix_parent [of "fs_real fs hub @ CHR ''/'' # base_name x" "path_parent p" "base_name p"] base_name_no_slash
    by (simp add: inside_def path_key_def)
  then have "prefix (fs_real fs hub @ ''/'') (path_parent p)" "length (fs_real fs hub) < length (path_parent p)"
    by (auto simp: prefix_def)
  then show False using assms(2,3) by auto
qed

text \<open>
  C29. A cleanup leaves no drift. If every row of a whole download pointed at something before it, every live row sits
  directly in one of the two roots, and every removal succeeded, then afterwards no row points at a path that is gone: what
  left the disk left the ledger, the links with their trees, and partial downloads touch neither.
\<close>

theorem cleanup_makes_no_drift:
  assumes "clean_disk refuses_rm clock iv run_start (fs, Some st) = Inr ((fs', Some st'), got)" "cl_errors got = []"
    and "ledger_ok fs st" "disk_ok fs" "drift_gone fs st = []"
    and "\<forall>h \<in> holdings st. path_parent (fst (snd h)) \<in> {fs_real fs (iv_hub iv), fs_real fs (iv_gguf iv)}"
    and "\<not> prefix (fs_real fs (iv_hub iv) @ ''/'') (fs_real fs (iv_gguf iv))"
  shows "drift_gone fs' st' = [] \<and> holdings st' \<subseteq> holdings st"
proof -
  let ?rm = "remove_step refuses_rm clock (iv_hub iv) (iv_gguf iv)" and ?es = "deletable fs iv run_start Rejected"
  obtain fs1 rows where fold: "foldl ?rm (fs, [], []) ?es = (fs1, rows, [])"
    and clear: "clear_incomplete refuses_rm clock iv run_start ''discover'' (fs1, record_removals fs1 ''discover'' rows (Some st)) =
      ((fs', Some st'), cl_incomplete got)"
    using assms(1,2) by (auto simp: clean_disk_def and_then_Inr delete_entries_def split: if_splits prod.splits)
  define st1 where "st1 = foldl (stamp_removal fs ''discover'') st rows"
  note all = remove_all_entries [OF fold]
  have sh: "shrunk fs fs1" using all by (rule conjunct1)
  have st1: "ledger_ok fs st1" "holdings st1 \<subseteq> {h \<in> holdings st. \<forall>r \<in> set rows. fst (snd h) \<notin> removal_keys fs r}"
    using record_rows [OF assms(3,4), of "''discover''" rows] by (simp_all add: st1_def)
  have "record_removals fs1 ''discover'' rows (Some st) = Some st1"
    by (simp add: record_cong [OF shrunk_key [OF sh]] record_removals_def st1_def)
  then have last: "fs' = fst (foldl (clear_step refuses_rm clock st1 (iv_hub iv) run_start) (fs1, []) (iv_partials iv))"
    "record_removals fs' ''discover'' (cl_incomplete got) (Some st1) = Some st'"
    using clear by (auto simp: clear_incomplete_def split: prod.splits)
  have names: "path_key fs' = path_key fs" "lexists fs' = lexists fs1"
    using clear_fold_names [of refuses_rm clock st1 "iv_hub iv" run_start "(fs1, [])" "iv_partials iv"] shrunk_key [OF sh] by (simp_all add: last(1))
  have st': "holdings st' \<subseteq> holdings st1"
    using record_rows [OF st1(1) assms(4), of "''discover''" "cl_incomplete got"] last(2) by (auto simp: record_cong [OF names(1)] record_removals_def)
  have stays: "lexists fs' (fst (snd h))" if h: "h \<in> holdings st'" "snd (snd h) \<noteq> PARTIAL" for h
  proof (rule ccontr)
    assume "\<not> lexists fs' (fst (snd h))"
    moreover have old: "h \<in> holdings st" "\<forall>r \<in> set rows. fst (snd h) \<notin> removal_keys fs r" using h(1) st' st1(2) by auto
    moreover have "lexists fs (fst (snd h))" using assms(5) old(1) h(2) unfolding gone_iff by (cases h) auto
    moreover have key: "path_key fs (fst (snd h)) = fst (snd h)" using assms(3) old(1) by (auto simp: ledger_ok_def holdings_def holding_def)
    ultimately have "beneath fs (iv_hub iv) (fst (snd h))" using all names(2) by auto
    moreover have "\<not> beneath fs (iv_hub iv) (fst (snd h))" by (rule not_beneath [OF key _ assms(7)]) (use assms(6) old(1) in blast)
    ultimately show False by blast
  qed
  then have "drift_gone fs' st' = []" by (auto simp: gone_iff)
  then show ?thesis using st' st1(2) by auto
qed

section \<open>A small cache\<close>

definition cache_disk :: disk where
  "cache_disk = \<lparr>fs_nodes = [(''/g/m.gguf'', File 10 0), (''/g/alias.gguf'', Link ''/g/m.gguf'' 0)], fs_real = (\<lambda>d. d), fs_dirs = (\<lambda>d. True)\<rparr>"

definition cache_row :: download_row where
  "cache_row = \<lparr>d_id = 1, d_proposal = Some 7, d_repo = ''a/m'', d_kind = GGUF, d_path = ''/g/m.gguf'', d_file = ''m.gguf'', d_origin = FETCH,
     d_source = [], d_bytes = 10, d_files = 1, d_complete = True, d_requires = [], d_started = Some 1, d_finished = Some 2, d_removed = None,
     d_removed_by = [], d_removal_verdict = None, d_machine = 4, d_ctx = None\<rparr>"

definition cache_ledger :: ledger where
  "cache_ledger = \<lparr>led_rows = [cache_row], led_proposals = [(7, ''a/m'')], led_here = Some 4, led_new = 5\<rparr>"

definition cache_proposal :: proposal where
  "cache_proposal = \<lparr>p_id = 7, p_name = ''a/m'', p_kind = ''weights'', p_registry = [], p_description = [], p_lane = ''code'',
     p_resolved = [], p_first_seen = 0, p_last_seen = 0, p_state = ''declined'', p_holder = Some 3, p_retests = 0, p_next_retest = None,
     p_size_bytes = 10, p_lane_source = [], p_category = [], p_attaches_to = []\<rparr>"

definition cache_verdict :: verdict where
  "cache_verdict = \<lparr>v_id = 3, v_proposal = Some 7, v_outcome = ''declined'', v_tier = ''screen'', v_detail = [], v_run_path = [], v_score = None,
     v_rubric = [], v_judge = [], v_decided_at = 0, v_machine = Some 4, v_until = [], v_size_bytes = 10, v_idle_days = 0, v_candidate = None,
     v_run = None, v_reason = [], v_reopens = None, v_reopen_kind = []\<rparr>"

definition cache_db :: db where
  "cache_db = \<lparr>proposals = [cache_proposal], verdicts = [cache_verdict], sightings = [], edges = [], downloads = []\<rparr>"

definition cache_keepers :: keepers where
  "cache_keepers = \<lparr>k_repos = [], k_stems = [(''alias'', AliasOf ''sohot-code'')], k_problems = [], k_lanes = []\<rparr>"

definition cache_inventory :: disk_inventory where
  "cache_inventory = inventory cache_disk cache_keepers (Some (cache_db, cache_ledger)) ''/hub'' ''/g''"

definition cache_deleted :: "disk_problem list + (disk \<times> ledger option) \<times> removal list \<times> string list" where
  "cache_deleted = delete_entries (\<lambda>_. False) (\<lambda>_. 9) cache_inventory 90000 Rejected ''discover'' (cache_disk, Some cache_ledger)"

definition gone_after :: "disk_problem list + (disk \<times> ledger option) \<times> removal list \<times> string list \<Rightarrow> string list \<Rightarrow> bool" where
  "gone_after out ps = (case out of Inr ((fs', conn'), rows, errors) \<Rightarrow> list_all (\<lambda>p. \<not> lexists fs' p) ps | Inl problems \<Rightarrow> False)"

lemma cache_gone: "gone_after cache_deleted [''/g/m.gguf'', ''/g/alias.gguf'']"
  by code_simp

lemma cache_was: "lexists cache_disk ''/g/m.gguf''" "lexists cache_disk ''/g/alias.gguf''"
  by code_simp+

theorem only_rejected_weights_go_witness:
  "\<exists>e \<in> set (iv_entries cache_inventory). goes_with cache_disk ''/hub'' ''/g'' e ''/g/m.gguf'' \<and>
     rejected_past_grace cache_keepers cache_db cache_disk cache_ledger 90000 e"
proof -
  obtain fs' conn' rows errors where out: "cache_deleted = Inr ((fs', conn'), rows, errors)" "\<not> lexists fs' ''/g/m.gguf''"
    using cache_gone by (auto simp: gone_after_def split: sum.splits prod.splits)
  show ?thesis
    using only_rejected_weights_go [OF out(1) [unfolded cache_deleted_def cache_inventory_def] cache_was(1) out(2)]
    unfolding cache_inventory_def by (rule conjunct2)
qed

text \<open>
  A link to a file of the GGUF directory goes with the file, also where the gateway serves the stem of the link: the
  entry of the link is kept, and the path is gone.
\<close>

theorem kept_link_goes_with_its_file:
  "\<exists>e \<in> set (iv_entries cache_inventory). en_group e = Keep \<and> lexists cache_disk (en_path e) \<and> gone_after cache_deleted [en_path e]"
proof -
  have "list_ex (\<lambda>e. en_group e = Keep \<and> lexists cache_disk (en_path e) \<and> gone_after cache_deleted [en_path e]) (iv_entries cache_inventory)"
    by code_simp
  then show ?thesis by (simp only: list_ex_iff)
qed

lemma cache_key: "path_key cache_disk ''/g/m.gguf'' = ''/g/m.gguf''" "path_key cache_disk ''/g/alias.gguf'' = ''/g/alias.gguf''"
  "path_parent ''/g/m.gguf'' = ''/g''"
  by (simp_all add: path_key_def cache_disk_def path_parent_def base_name_def)

lemma cache_ledger_ok: "ledger_ok cache_disk cache_ledger"
  by (simp add: ledger_ok_def cache_ledger_def cache_row_def cache_key)

lemma cache_disk_ok: "disk_ok cache_disk"
proof -
  have two: "lexists cache_disk p \<Longrightarrow> p = ''/g/m.gguf'' \<or> p = ''/g/alias.gguf''" for p
    by (rule ccontr) (simp add: lexists_def cache_disk_def)
  have "lexists cache_disk (path_key cache_disk p)" if "lexists cache_disk p" for p
    using two [OF that] that by (elim disjE) (simp_all only: cache_key)
  moreover have "fs_real cache_disk d = d" for d by (simp add: cache_disk_def)
  ultimately show ?thesis by (simp add: disk_ok_def)
qed

lemma cache_holdings: "h \<in> holdings cache_ledger \<Longrightarrow> fst (snd h) = ''/g/m.gguf''"
  by (auto simp: holdings_def cache_ledger_def cache_row_def holding_def)

theorem cleanup_makes_no_drift_witness:
  "\<exists>fs' st' got. clean_disk (\<lambda>_. False) (\<lambda>_. 9) cache_inventory 90000 (cache_disk, Some cache_ledger) = Inr ((fs', Some st'), got) \<and>
     cl_rejected got \<noteq> [] \<and> drift_gone fs' st' = []"
proof -
  let ?out = "clean_disk (\<lambda>_. False) (\<lambda>_. 9) cache_inventory 90000 (cache_disk, Some cache_ledger)"
  have "case ?out of Inr ((fs', Some st'), got) \<Rightarrow> cl_errors got = [] \<and> cl_rejected got \<noteq> [] | _ \<Rightarrow> False"
    by code_simp
  then obtain fs' st' got where out: "?out = Inr ((fs', Some st'), got)" "cl_errors got = []" "cl_rejected got \<noteq> []"
    by (auto split: sum.splits prod.splits option.splits)
  have none: "drift_gone cache_disk cache_ledger = []" by code_simp
  have roots: "iv_hub cache_inventory = ''/hub''" "iv_gguf cache_inventory = ''/g''" by (simp_all add: cache_inventory_def inventory_def Let_def)
  have place: "fs_real cache_disk d = d" for d by (simp add: cache_disk_def)
  have "drift_gone fs' st' = []"
    using cleanup_makes_no_drift [OF out(1,2) cache_ledger_ok cache_disk_ok none] cache_holdings cache_key(3)
    by (simp add: roots place)
  then show ?thesis using out(1,3) by (intro exI conjI)
qed

end
