(* ===== verification/Fetch.thy ===== *)
theory Fetch
  imports ServedContext Rank Proposals
begin

text \<open>
  The worker that downloads queued weights (\<open>harness/fetching.py\<close>): whether one download may start, what a model needs beside
  itself, the queue, and a run over it with its limit, its budget and what it writes to the store and to the ledger.

  The transfer itself is third-party: \<open>fe_transfer\<close> says what is on disk afterwards and where, \<^const>\<open>None\<close> when it raised;
  it is asked for the whole repository or for one file. Free space is read off the disk at each plan. The engine table behind
  \<open>screen.runner_gap\<close> is \<open>fe_gap\<close>, the order of \<open>rank\<close> is \<open>fe_ranked\<close>. One time is read for a whole run. A sentence is
  a constructor with what it quotes, which \<open>fe_wording\<close> spells where it is stored.
\<close>

definition GIB_INT :: int where "GIB_INT = 1073741824"
definition DISK_FLOOR :: int where "DISK_FLOOR = 50 * GIB_INT"
definition MAX_DOWNLOAD :: int where "MAX_DOWNLOAD = 60 * GIB_INT"

section \<open>May it start\<close>

datatype plan_why = NoSize | OverCap int int | UnderFloor int int int | FitsDisk int int

record fetch_plan =
  fp_ok :: bool
  fp_why :: plan_why
  fp_reason :: string
  fp_until :: string

definition plan_download :: "(int \<Rightarrow> string) \<Rightarrow> int \<Rightarrow> int \<Rightarrow> int \<Rightarrow> int \<Rightarrow> fetch_plan" where
  "plan_download gib free least cap sz =
     (if sz \<le> 0 then \<lparr>fp_ok = False, fp_why = NoSize, fp_reason = ''harness'', fp_until = []\<rparr>
      else if sz > cap then \<lparr>fp_ok = False, fp_why = OverCap sz cap, fp_reason = ''limit'', fp_until = ''limit:download_gib>'' @ gib cap\<rparr>
      else if free - sz < least then \<lparr>fp_ok = False, fp_why = UnderFloor sz least free, fp_reason = ''machine'', fp_until = []\<rparr>
      else \<lparr>fp_ok = True, fp_why = FitsDisk sz free, fp_reason = [], fp_until = []\<rparr>)"

section \<open>The queue\<close>

record fetch_row =
  fr_name :: string
  fr_resolved :: string
  fr_kind :: string
  fr_lane :: string
  fr_registry :: string
  fr_attaches :: string
  fr_runtime :: string
  fr_outcome :: string
  fr_tier :: string
  fr_size :: int

datatype fetch_error = ListingFailed | NothingFits | TransferFailed

datatype fetch_why =
    NeededBy string
  | NeededNotGot string fetch_error
  | BaseOverBudget string int int
  | BaseRefused string plan_why
  | BaseNotGot string fetch_error
  | BaseFor string
  | WaitingOn fetch_why
  | NoRuntime string
  | NoRunnerLoads string string
  | AttachesTo string
  | ByHand string
  | OverBudget int int int
  | NotPlanned plan_why
  | NotGot fetch_error
  | GotAt string
  | GotIt

record fetch_env =
  fe_now :: rat
  fe_machine :: "nat option"
  fe_others :: "nat \<Rightarrow> db \<Rightarrow> db"
  fe_wording :: "fetch_why \<Rightarrow> string"
  fe_gib :: "int \<Rightarrow> string"
  fe_free :: "disk \<Rightarrow> int"
  fe_floor :: int
  fe_sizes :: "(string \<times> int) list"
  fe_sizer :: "string \<Rightarrow> int"
  fe_listing :: "string \<Rightarrow> sibling list option"
  fe_transfer :: "string \<Rightarrow> string option \<Rightarrow> disk \<Rightarrow> disk \<times> string option"
  fe_snaps :: "disk \<Rightarrow> string \<Rightarrow> (string \<times> sibling list) list"
  fe_resolve :: "disk \<Rightarrow> string \<Rightarrow> string"
  fe_ceil :: int
  fe_hub :: string
  fe_models :: string
  fe_lineage :: "db \<Rightarrow> string \<Rightarrow> (string \<times> string) list"
  fe_runtime_of :: "string \<Rightarrow> string"
  fe_gguf_named :: "string \<Rightarrow> bool"
  fe_runtimes :: "string list"
  fe_adapters :: "string \<Rightarrow> bool"
  fe_gap :: "disk \<Rightarrow> ledger \<Rightarrow> db \<Rightarrow> fetch_row \<Rightarrow> string"
  fe_ranked :: "db \<Rightarrow> string list"

definition FETCHABLE_TIERS :: "string list" where "FETCHABLE_TIERS = [''inspect'', ''fetch'']"
definition FETCHABLE_KIND :: string where "FETCHABLE_KIND = ''weights''"

definition row_of_proposal :: "fetch_env \<Rightarrow> db \<Rightarrow> proposal \<Rightarrow> fetch_row" where
  "row_of_proposal e d p =
     \<lparr>fr_name = p_name p, fr_resolved = p_resolved p, fr_kind = p_kind p, fr_lane = p_lane p, fr_registry = p_registry p,
      fr_attaches = p_attaches_to p, fr_runtime = fe_runtime_of e (p_name p), fr_outcome = p_state p, fr_tier = held_tier d p,
      fr_size = p_size_bytes p\<rparr>"

definition queued_rows :: "fetch_env \<Rightarrow> db \<Rightarrow> fetch_row list" where
  "queued_rows e d = map (row_of_proposal e d) (filter (\<lambda>p. p_state p = ''queued'') (proposals d))"

text \<open>\<open>row["resolved"] or row["name"]\<close>.\<close>

definition fetch_name :: "fetch_row \<Rightarrow> string" where
  "fetch_name r = (if fr_resolved r \<noteq> [] then fr_resolved r else fr_name r)"

definition downloadable :: "string \<Rightarrow> fetch_row \<Rightarrow> bool" where
  "downloadable kind r \<longleftrightarrow> (if fr_registry r \<noteq> [] then fr_registry r \<noteq> GITHUB else kind = [] \<or> fr_kind r = kind)"

text \<open>\<open>in_rank_order\<close>: a row that rank drops sorts last.\<close>

definition in_rank_order :: "string list \<Rightarrow> fetch_row list \<Rightarrow> fetch_row list" where
  "in_rank_order ranked rows = sort_key (\<lambda>r. (index_of (fr_name r) ranked, fr_name r)) rows"

definition fetch_queue :: "fetch_env \<Rightarrow> disk \<Rightarrow> ledger \<Rightarrow> db \<Rightarrow> string \<Rightarrow> fetch_row list" where
  "fetch_queue e fs st d lane =
     in_rank_order (fe_ranked e d)
       (filter (\<lambda>r. fr_outcome r = ''queued'' \<and> fr_tier r \<in> set FETCHABLE_TIERS \<and> downloadable FETCHABLE_KIND r \<and>
            \<not> have_download fs st (fetch_name r) True \<and> (lane = [] \<or> serves (fr_lane r) lane)) (queued_rows e d))"

section \<open>What a model needs beside itself\<close>

definition OMNISVG_MODELS :: "(string \<times> string \<times> string) list" where
  "OMNISVG_MODELS = [(''4B'', ''Qwen/Qwen2.5-VL-3B-Instruct'', ''OmniSVG/OmniSVG1.1_4B''),
                     (''8B'', ''Qwen/Qwen2.5-VL-7B-Instruct'', ''OmniSVG/OmniSVG1.1_8B'')]"

definition runner_bases :: "string \<Rightarrow> string list" where
  "runner_bases model = map (\<lambda>(sz, base, repo). base) (filter (\<lambda>(sz, base, repo). repo = model) OMNISVG_MODELS)"

definition model_requires :: "fetch_env \<Rightarrow> disk \<Rightarrow> ledger \<Rightarrow> db \<Rightarrow> string \<Rightarrow> string list" where
  "model_requires e fs st d model =
     sort (remdups (download_requires fs st model @
       map fst (filter (\<lambda>(p, kind). kind = ''adapter'' \<and> p \<noteq> model) (fe_lineage e d model)) @ runner_bases model))"

definition model_missing :: "fetch_env \<Rightarrow> disk \<Rightarrow> ledger \<Rightarrow> db \<Rightarrow> string \<Rightarrow> string list" where
  "model_missing e fs st d model = filter (\<lambda>m. \<not> have_download fs st m True) (model # model_requires e fs st d model)"

definition on_disk_waiting :: "fetch_env \<Rightarrow> disk \<Rightarrow> ledger \<Rightarrow> db \<Rightarrow> string \<Rightarrow> string list" where
  "on_disk_waiting e fs st d lane =
     map fetch_name (filter (\<lambda>r. (lane = [] \<or> serves (fr_lane r) lane) \<and> runner_bases (fetch_name r) \<noteq> [] \<and>
       have_download fs st (fetch_name r) True \<and> model_missing e fs st d (fetch_name r) \<noteq> []) (queued_rows e d))"

section \<open>One download\<close>

definition hub_dir :: "string \<Rightarrow> string \<Rightarrow> string" where
  "hub_dir hub repo = hub @ ''/models--'' @ join ''--'' (split_at CHR ''/'' repo)"

definition snapshot_dir :: "string \<Rightarrow> string" where
  "snapshot_dir p = (if base_name (path_parent p) = ''snapshots'' then path_parent (path_parent p) else p)"

text \<open>
  The row that is in flight, the transfer, and the row measured or marked as failed. \<open>finish\<close> of a row that went meanwhile is
  a \<open>TypeError\<close>, which becomes a failed download like everything else.
\<close>

definition transfer_into :: "fetch_env \<Rightarrow> string \<Rightarrow> string \<Rightarrow> string \<Rightarrow> string option \<Rightarrow> disk \<times> ledger \<Rightarrow> (disk \<times> ledger) \<times> (fetch_error + string)" where
  "transfer_into e repo kind path name world =
     (case world of (fs, st) \<Rightarrow>
        (case start_download fs (fe_now e) repo kind path (case name of None \<Rightarrow> [] | Some f \<Rightarrow> f) FETCH [] st of (rid, st1) \<Rightarrow>
           (case fe_transfer e repo name fs of
              (fs', None) \<Rightarrow>
                ((fs', case finish_download fs' (fe_now e) rid None True st1 of None \<Rightarrow> st1 | Some st2 \<Rightarrow> st2), Inl TransferFailed)
            | (fs', Some place) \<Rightarrow>
                (case finish_download fs' (fe_now e) rid (if kind = GGUF then None else Some (snapshot_dir place)) False st1 of
                   None \<Rightarrow> ((fs', st1), Inl TransferFailed)
                 | Some st2 \<Rightarrow> ((fs', st2), Inr place)))))"

text \<open>\<open>_gguf_pick\<close>: \<^term>\<open>Inr None\<close> for a repository that holds more than GGUF, \<^term>\<open>Inr (Some None)\<close> when nothing fits.\<close>

definition gguf_pick :: "fetch_env \<Rightarrow> string \<Rightarrow> fetch_error + (string \<times> int) option option" where
  "gguf_pick e repo =
     (case fe_listing e repo of
        None \<Rightarrow> Inl ListingFailed
      | Some sibs \<Rightarrow> Inr (if \<not> gguf_only sibs then None else Some (choose_file sibs (fe_ceil e))))"

definition download_repo :: "fetch_env \<Rightarrow> bool \<Rightarrow> string \<Rightarrow> disk \<times> ledger \<Rightarrow> (disk \<times> ledger) \<times> (fetch_error + string)" where
  "download_repo e as_text repo world =
     (case (if as_text then gguf_pick e repo else Inr None) of
        Inl err \<Rightarrow> (world, Inl err)
      | Inr (Some None) \<Rightarrow> (world, Inl NothingFits)
      | Inr (Some (Some f)) \<Rightarrow> transfer_into e repo GGUF (fe_models e @ ''/'' @ fst f) (Some (fst f)) world
      | Inr None \<Rightarrow> transfer_into e repo HUB (hub_dir (fe_hub e) repo) None world)"

section \<open>The state of a run\<close>

text \<open>
  What arrived, kept beside the state the code has: a row of the queue, the base a runner loads, or what a config names; the
  first two with the size they were let in for and the space that was free.
\<close>

datatype got = GotRow string int int | GotBase string int int | GotNamed string

record fetch_decision =
  fd_name :: string
  fd_outcome :: string
  fd_why :: fetch_why
  fd_reason :: string
  fd_until :: string

datatype fetch_raised = StoreRaised store_error | LinkInTheWay

record fetch_state =
  fw_disk :: disk
  fw_ledger :: ledger
  fw_db :: db
  fw_fetched :: nat
  fw_spent :: int
  fw_done :: "(string \<times> bool \<times> fetch_why) list"
  fw_decided :: "fetch_decision list"
  fw_got :: "got list"
  fw_full :: bool
  fw_raised :: "fetch_raised option"

definition say :: "string \<Rightarrow> bool \<Rightarrow> fetch_why \<Rightarrow> fetch_state \<Rightarrow> fetch_state" where
  "say repo ok why w = w\<lparr>fw_done := fw_done w @ [(repo, ok, why)]\<rparr>"

text \<open>\<open>ms.decide_or_skip\<close> at the fetch tier; what else it raises ends the run.\<close>

definition settle_at_fetch :: "fetch_env \<Rightarrow> string \<Rightarrow> string \<Rightarrow> fetch_why \<Rightarrow> string \<Rightarrow> string \<Rightarrow> fetch_state \<Rightarrow> fetch_state" where
  "settle_at_fetch e name outcome why reason until w =
     (case decide_or_skip (fe_others e) (fe_now e) (fe_machine e) name outcome
         (no_decision\<lparr>k_tier := ''fetch'', k_detail := fe_wording e why, k_reason := reason, k_until := until\<rparr>) (fw_db w) of
        (res, d') \<Rightarrow>
          w\<lparr>fw_db := d', fw_decided := fw_decided w @ [\<lparr>fd_name = name, fd_outcome = outcome, fd_why = why, fd_reason = reason, fd_until = until\<rparr>],
            fw_raised := (case res of Inl err \<Rightarrow> Some (StoreRaised err) | Inr v \<Rightarrow> fw_raised w)\<rparr>)"

definition unless_raised :: "(fetch_state \<Rightarrow> fetch_state) \<Rightarrow> fetch_state \<Rightarrow> fetch_state" where
  "unless_raised f w = (if fw_raised w = None then f w else w)"

definition settle_and_say :: "fetch_env \<Rightarrow> string \<Rightarrow> string \<Rightarrow> string \<Rightarrow> fetch_why \<Rightarrow> string \<Rightarrow> string \<Rightarrow> fetch_state \<Rightarrow> fetch_state" where
  "settle_and_say e repo name outcome why reason until w =
     unless_raised (say repo False why) (settle_at_fetch e name outcome why reason until w)"

definition download_step :: "fetch_env \<Rightarrow> bool \<Rightarrow> string \<Rightarrow> fetch_state \<Rightarrow> fetch_state \<times> (fetch_error + string)" where
  "download_step e as_text repo w =
     (case download_repo e as_text repo (fw_disk w, fw_ledger w) of ((fs, st), res) \<Rightarrow> (w\<lparr>fw_disk := fs, fw_ledger := st\<rparr>, res))"

definition arrived :: "got \<Rightarrow> fetch_state \<Rightarrow> fetch_state" where
  "arrived g w = w\<lparr>fw_got := fw_got w @ [g]\<rparr>"

definition past_budget :: "int option \<Rightarrow> int \<Rightarrow> int \<Rightarrow> bool" where
  "past_budget budget spent sz \<longleftrightarrow> (case budget of None \<Rightarrow> False | Some b \<Rightarrow> sz > 0 \<and> spent + sz > b)"

definition the_budget :: "int option \<Rightarrow> int" where
  "the_budget budget = (case budget of None \<Rightarrow> 0 | Some b \<Rightarrow> b)"

section \<open>The needs of one model\<close>

text \<open>The state, what was spent on this model's needs, and why it still waits: the first base not fetched.\<close>

type_synonym needing = "fetch_state \<times> int \<times> (string \<times> fetch_why) option"

definition size_or :: "fetch_env \<Rightarrow> string \<Rightarrow> int \<Rightarrow> int" where
  "size_or e repo z = (let s = get_or 0 (fe_sizes e) repo in if s \<noteq> 0 then s else z)"

definition base_size :: "fetch_env \<Rightarrow> string \<Rightarrow> int" where
  "base_size e dep = (let s = size_or e dep (fe_sizer e dep) in if s \<noteq> 0 then s else - 1)"

definition wait_first :: "(string \<times> fetch_why) option \<Rightarrow> string \<Rightarrow> fetch_why \<Rightarrow> (string \<times> fetch_why) option" where
  "wait_first waiting reason why = (case waiting of None \<Rightarrow> Some (reason, why) | Some x \<Rightarrow> Some x)"

definition need_step :: "fetch_env \<Rightarrow> string \<Rightarrow> string list \<Rightarrow> int option \<Rightarrow> int \<Rightarrow> needing \<Rightarrow> string \<Rightarrow> needing" where
  "need_step e name bases budget spent acc dep =
     (case acc of (w, now, waiting) \<Rightarrow>
        if dep \<notin> set bases then
          (case download_step e True dep w of
             (w', Inl err) \<Rightarrow> (say dep False (NeededNotGot name err) w', now, waiting)
           | (w', Inr place) \<Rightarrow> (say dep True (NeededBy name) (arrived (GotNamed dep) w'), now, waiting))
        else
          (let sz = base_size e dep; free = fe_free e (fw_disk w); p = plan_download (fe_gib e) free (fe_floor e) MAX_DOWNLOAD sz
           in if past_budget budget (spent + now) sz then
                (let why = BaseOverBudget dep sz (the_budget budget) in (say dep False why w, now, wait_first waiting ''limit'' why))
              else if \<not> fp_ok p then
                (let why = BaseRefused dep (fp_why p) in (say dep False why w, now, wait_first waiting (fp_reason p) why))
              else (case download_step e True dep w of
                      (w', Inl err) \<Rightarrow>
                        (let why = BaseNotGot dep err in (say dep False why w', now, wait_first waiting ''harness'' why))
                    | (w', Inr place) \<Rightarrow> (say dep True (BaseFor name) (arrived (GotBase dep sz free) w'), now + sz, waiting))))"

definition needs_of :: "fetch_env \<Rightarrow> int option \<Rightarrow> string \<Rightarrow> fetch_state \<Rightarrow> fetch_state" where
  "needs_of e budget name w =
     (let needs = filter (\<lambda>m. \<not> have_download (fw_disk w) (fw_ledger w) m True) (model_requires e (fw_disk w) (fw_ledger w) (fw_db w) name)
      in case foldl (need_step e name (runner_bases name) budget (fw_spent w)) (w, 0, None) needs of
           (w1, cost, waiting) \<Rightarrow>
             (let w2 = w1\<lparr>fw_spent := fw_spent w1 + cost\<rparr>
              in case waiting of None \<Rightarrow> w2 | Some (reason, why) \<Rightarrow> settle_at_fetch e name ''queued'' (WaitingOn why) reason [] w2))"

section \<open>A run\<close>

definition adopt_step :: "fetch_env \<Rightarrow> string \<Rightarrow> fetch_state \<Rightarrow> fetch_state" where
  "adopt_step e repo w =
     (case adopt_gguf (fe_now e) (fe_models e) (fe_snaps e (fw_disk w)) (fe_resolve e (fw_disk w)) (fe_ceil e) repo (fw_disk w, fw_ledger w) of
        None \<Rightarrow> w\<lparr>fw_raised := Some LinkInTheWay\<rparr>
      | Some (name, fs, st) \<Rightarrow> w\<lparr>fw_disk := fs, fw_ledger := st\<rparr>)"

text \<open>\<open>adopt_pending\<close>: the lane is that of the first proposal the row names by its id or by its repository.\<close>

definition served_as_gguf :: "db \<Rightarrow> download_row \<Rightarrow> bool" where
  "served_as_gguf d r \<longleftrightarrow>
     (case find (\<lambda>p. Some (p_id p) = d_proposal r \<or> lower (p_name p) = lower (d_repo r)) (proposals d) of
        None \<Rightarrow> False | Some p \<Rightarrow> canonical (p_lane p) \<in> set GGUF_SERVED)"

definition adopt_pending :: "fetch_env \<Rightarrow> fetch_state \<Rightarrow> fetch_state" where
  "adopt_pending e w =
     foldl (\<lambda>w r. unless_raised (\<lambda>w. if served_as_gguf (fw_db w) r then adopt_step e (d_repo r) w else w) w) w
       (complete_hub (fw_disk w) (fw_ledger w))"

definition cand_of_row :: "fetch_row \<Rightarrow> cand" where
  "cand_of_row r =
     \<lparr>k_name = fr_name r, k_lane = fr_lane r, k_lane_source = [], k_times = 0, k_last_seen = 0, k_parents = [], k_size = nat (fr_size r),
      k_attaches = fr_attaches r, k_runtime = fr_runtime r, k_registry = fr_registry r, k_task = [], k_category = [], k_tags = []\<rparr>"

text \<open>What arrived is adopted and settled, and what it needs is fetched.\<close>

definition landed :: "fetch_env \<Rightarrow> int option \<Rightarrow> fetch_row \<Rightarrow> bool \<Rightarrow> string \<Rightarrow> fetch_state \<Rightarrow> fetch_state" where
  "landed e budget r as_text place w =
     unless_raised (say (fetch_name r) True (GotAt place))
       (unless_raised (needs_of e budget (fetch_name r))
         (unless_raised (settle_at_fetch e (fr_name r) ''queued'' GotIt ''candidate'' [])
           ((if as_text then adopt_step e (fetch_name r) else id) w)))"

definition fetch_row_step :: "fetch_env \<Rightarrow> int option \<Rightarrow> fetch_row \<Rightarrow> fetch_state \<Rightarrow> fetch_state" where
  "fetch_row_step e budget r w =
     (let name = fetch_name r; sz = size_or e name (fr_size r); free = fe_free e (fw_disk w);
          p = plan_download (fe_gib e) free (fe_floor e) MAX_DOWNLOAD sz; as_text = canonical (fr_lane r) \<in> set GGUF_SERVED
      in if past_budget budget (fw_spent w) sz
         then settle_and_say e name (fr_name r) ''queued'' (OverBudget sz (the_budget budget) (fw_spent w)) ''limit'' [] w
         else if \<not> fp_ok p
         then settle_and_say e name (fr_name r) (if fp_reason p = ''harness'' \<or> fp_reason p = ''machine'' then ''queued'' else ''declined'')
                (NotPlanned (fp_why p)) (fp_reason p) (fp_until p) w
         else (case download_step e as_text name w of
                 (w', Inl err) \<Rightarrow> say name False (NotGot err) w'
               | (w', Inr place) \<Rightarrow>
                   landed e budget r as_text place
                     (arrived (GotRow name sz free) (w'\<lparr>fw_fetched := fw_fetched w' + 1, fw_spent := fw_spent w' + sz\<rparr>))))"

definition row_turn :: "fetch_env \<Rightarrow> nat \<Rightarrow> int option \<Rightarrow> fetch_state \<Rightarrow> fetch_row \<Rightarrow> fetch_state" where
  "row_turn e limit budget w r =
     (if fw_raised w \<noteq> None \<or> fw_full w \<or> fr_lane r = [] then w
      else (let needs = unrunnable (fe_gguf_named e) (fe_runtimes e) (cand_of_row r); gap = fe_gap e (fw_disk w) (fw_ledger w) (fw_db w) r
            in if needs \<noteq> [] then
                 settle_and_say e (fr_name r) (fr_name r) ''declined'' (NoRuntime needs) ''machine''
                   (''runtime:'' @ (if prefix ''needs-'' needs then drop 6 needs else needs)) w
               else if gap \<noteq> [] then settle_and_say e (fr_name r) (fr_name r) ''queued'' (NoRunnerLoads gap (fr_lane r)) ''harness'' [] w
               else if fr_attaches r \<noteq> [] \<and> \<not> takes_attachment (fe_adapters e) (fr_lane r) (fr_attaches r) then
                 settle_and_say e (fr_name r) (fr_name r) ''declined'' (AttachesTo (fr_attaches r)) ''candidate'' [] w
               else if ds4_recognised (fr_name r) [] then settle_and_say e (fr_name r) (fr_name r) ''queued'' (ByHand (fr_name r)) ''limit'' [] w
               else if fw_fetched w \<ge> limit then w\<lparr>fw_full := True\<rparr>
               else fetch_row_step e budget r w))"

definition first_state :: "disk \<Rightarrow> ledger \<Rightarrow> db \<Rightarrow> fetch_state" where
  "first_state fs st d =
     \<lparr>fw_disk = fs, fw_ledger = st, fw_db = d, fw_fetched = 0, fw_spent = 0, fw_done = [], fw_decided = [], fw_got = [],
      fw_full = False, fw_raised = None\<rparr>"

definition fetch_run :: "fetch_env \<Rightarrow> nat \<Rightarrow> int option \<Rightarrow> string \<Rightarrow> disk \<Rightarrow> ledger \<Rightarrow> db \<Rightarrow> fetch_state" where
  "fetch_run e limit budget lane fs st d =
     (let w0 = adopt_pending e (first_state fs st d);
          waiting = on_disk_waiting e (fw_disk w0) (fw_ledger w0) (fw_db w0) lane;
          w1 = (if fw_raised w0 = None then foldl (\<lambda>w name. unless_raised (needs_of e budget name) w) w0 waiting else w0);
          queue = fetch_queue e (fw_disk w1) (fw_ledger w1) (fw_db w1) lane
      in if fw_raised w1 = None then foldl (row_turn e limit budget) w1 queue else w1)"

end
