(* ===== verification/FetchFacts.thy ===== *)
theory FetchFacts
  imports Fetch ProposalFacts ContextFacts
begin

text \<open>
  What a run of the fetcher keeps to: its budget, its limit, the cap of one download and the floor of the disk; and what it
  may settle about a candidate.
\<close>

section \<open>What arrived and what was decided\<close>

fun got_size :: "got \<Rightarrow> int" where
  "got_size (GotRow name sz free) = sz"
| "got_size (GotBase name sz free) = sz"
| "got_size (GotNamed name) = 0"

fun of_the_queue :: "got \<Rightarrow> bool" where
  "of_the_queue (GotRow name sz free) = True"
| "of_the_queue _ = False"

text \<open>A download that was planned: measured, under the cap, and leaving the floor.\<close>

fun let_in :: "int \<Rightarrow> got \<Rightarrow> bool" where
  "let_in least (GotRow name sz free) = (0 < sz \<and> sz \<le> MAX_DOWNLOAD \<and> least \<le> free - sz)"
| "let_in least (GotBase name sz free) = (0 < sz \<and> sz \<le> MAX_DOWNLOAD \<and> least \<le> free - sz)"
| "let_in least (GotNamed name) = True"

text \<open>
  A candidate is declined for a runtime this machine lacks, for attaching to a model, or for its size alone; for every other
  reason it stays queued.
\<close>

definition decision_ok :: "fetch_decision \<Rightarrow> bool" where
  "decision_ok x \<longleftrightarrow>
     fd_outcome x = ''queued'' \<or>
     fd_outcome x = ''declined'' \<and>
       ((\<exists>needs. needs \<noteq> [] \<and> fd_why x = NoRuntime needs \<and> fd_reason x = ''machine'' \<and> prefix ''runtime:'' (fd_until x)) \<or>
        (\<exists>kind. kind \<noteq> [] \<and> fd_why x = AttachesTo kind \<and> fd_reason x = ''candidate'') \<or>
        (\<exists>sz. MAX_DOWNLOAD < sz \<and> fd_why x = NotPlanned (OverCap sz MAX_DOWNLOAD) \<and> fd_reason x = ''limit''))"

text \<open>The invariant of a run, with \<open>now\<close> spent on needs and not yet added up, and what the store keeps to.\<close>

definition fetch_ok :: "(db \<Rightarrow> bool) \<Rightarrow> fetch_env \<Rightarrow> nat \<Rightarrow> int option \<Rightarrow> int \<Rightarrow> fetch_state \<Rightarrow> bool" where
  "fetch_ok P e limit budget now w \<longleftrightarrow>
     sum_list (map got_size (fw_got w)) = fw_spent w + now \<and> 0 \<le> now \<and>
     (\<forall>b. budget = Some b \<longrightarrow> fw_spent w + now \<le> max b 0) \<and>
     list_all (let_in (fe_floor e)) (fw_got w) \<and>
     length (filter of_the_queue (fw_got w)) = fw_fetched w \<and> fw_fetched w \<le> limit \<and>
     list_all decision_ok (fw_decided w) \<and> P (fw_db w)"

text \<open>What the store keeps to whoever writes at this tier.\<close>

definition kept_by_deciding :: "(db \<Rightarrow> bool) \<Rightarrow> fetch_env \<Rightarrow> bool" where
  "kept_by_deciding P e \<longleftrightarrow> (\<forall>name outcome k d. k_reopen k = [] \<longrightarrow> P d \<longrightarrow> P (snd (decide (fe_others e) (fe_now e) (fe_machine e) name outcome k d)))"

lemma planned_iff: "fp_ok (plan_download gib free least cap sz) \<longleftrightarrow> 0 < sz \<and> sz \<le> cap \<and> least \<le> free - sz"
  by (auto simp: plan_download_def)

lemma plan_refused:
  "\<not> fp_ok (plan_download gib free least cap sz) \<Longrightarrow> fp_reason (plan_download gib free least cap sz) \<notin> {''harness'', ''machine''} \<Longrightarrow>
   cap < sz \<and> fp_why (plan_download gib free least cap sz) = OverCap sz cap \<and> fp_reason (plan_download gib free least cap sz) = ''limit''"
  by (auto simp: plan_download_def split: if_splits)

section \<open>Steps that spend nothing\<close>

lemma say_fields [simp]:
  "fw_got (say repo ok why w) = fw_got w" "fw_spent (say repo ok why w) = fw_spent w" "fw_fetched (say repo ok why w) = fw_fetched w"
  "fw_decided (say repo ok why w) = fw_decided w" "fw_db (say repo ok why w) = fw_db w" "fw_raised (say repo ok why w) = fw_raised w"
  by (simp_all add: say_def)

lemma say_ok [simp]: "fetch_ok P e limit budget now (say repo ok why w) = fetch_ok P e limit budget now w"
  by (simp add: fetch_ok_def)

lemma settle_fields [simp]:
  "fw_got (settle_at_fetch e name outcome why reason until w) = fw_got w" "fw_spent (settle_at_fetch e name outcome why reason until w) = fw_spent w"
  "fw_fetched (settle_at_fetch e name outcome why reason until w) = fw_fetched w"
  "fw_decided (settle_at_fetch e name outcome why reason until w) =
     fw_decided w @ [\<lparr>fd_name = name, fd_outcome = outcome, fd_why = why, fd_reason = reason, fd_until = until\<rparr>]"
  by (simp_all add: settle_at_fetch_def split: prod.split)

lemma settle_db:
  assumes "kept_by_deciding P e" "P (fw_db w)"
  shows "P (fw_db (settle_at_fetch e name outcome why reason until w))"
proof -
  let ?k = "no_decision\<lparr>k_tier := ''fetch'', k_detail := fe_wording e why, k_reason := reason, k_until := until\<rparr>"
  obtain res d' where dec: "decide_or_skip (fe_others e) (fe_now e) (fe_machine e) name outcome ?k (fw_db w) = (res, d')" by (rule prod.exhaust)
  then have "d' = snd (decide (fe_others e) (fe_now e) (fe_machine e) name outcome ?k (fw_db w))" by (metis decide_or_skip_store snd_conv)
  moreover have "k_reopen ?k = []" by (simp add: no_decision_def)
  ultimately have "P d'" using assms unfolding kept_by_deciding_def by blast
  then show ?thesis using dec by (simp add: settle_at_fetch_def)
qed

lemma settle_ok:
  assumes "kept_by_deciding P e" "fetch_ok P e limit budget now w"
    and "decision_ok \<lparr>fd_name = name, fd_outcome = outcome, fd_why = why, fd_reason = reason, fd_until = until\<rparr>"
  shows "fetch_ok P e limit budget now (settle_at_fetch e name outcome why reason until w)"
  using assms settle_db [OF assms(1)] by (simp add: fetch_ok_def)

lemma settle_and_say_ok:
  assumes "kept_by_deciding P e" "fetch_ok P e limit budget now w"
    and "decision_ok \<lparr>fd_name = name, fd_outcome = outcome, fd_why = why, fd_reason = reason, fd_until = until\<rparr>"
  shows "fetch_ok P e limit budget now (settle_and_say e repo name outcome why reason until w)"
  using settle_ok [OF assms] by (simp add: settle_and_say_def unless_raised_def)

lemma queued_ok [simp]: "fd_outcome x = ''queued'' \<Longrightarrow> decision_ok x"
  by (simp add: decision_ok_def)

lemma download_step_ok:
  "download_step e as_text repo w = (w', res) \<Longrightarrow> fetch_ok P e limit budget now w' = fetch_ok P e limit budget now w \<and> fw_raised w' = fw_raised w \<and>
     fw_spent w' = fw_spent w \<and> fw_fetched w' = fw_fetched w"
  by (auto simp: download_step_def fetch_ok_def split: prod.splits)

lemma adopt_step_ok [simp]: "fetch_ok P e limit budget now (adopt_step e' repo w) = fetch_ok P e limit budget now w"
  by (simp add: adopt_step_def fetch_ok_def split: option.split)

lemma adopt_pending_ok: "fetch_ok P e limit budget now w \<Longrightarrow> fetch_ok P e limit budget now (adopt_pending e' w)"
proof -
  have "fetch_ok P e limit budget now (foldl (\<lambda>w r. unless_raised (\<lambda>w. if served_as_gguf (fw_db w) r then adopt_step e' (d_repo r) w else w) w) w rs)"
    if "fetch_ok P e limit budget now w" for rs w
    using that by (induction rs arbitrary: w) (simp_all add: unless_raised_def)
  then show "fetch_ok P e limit budget now w \<Longrightarrow> ?thesis" by (simp add: adopt_pending_def)
qed

section \<open>Steps that spend\<close>

lemma arrived_named: "fetch_ok P e limit budget now w \<Longrightarrow> fetch_ok P e limit budget now (arrived (GotNamed dep) w)"
  by (simp add: fetch_ok_def arrived_def)

lemma arrived_base:
  assumes "fetch_ok P e limit budget now w" "\<not> past_budget budget (fw_spent w + now) sz" "0 < sz" "sz \<le> MAX_DOWNLOAD" "fe_floor e \<le> free - sz"
  shows "fetch_ok P e limit budget (now + sz) (arrived (GotBase dep sz free) w)"
  using assms by (auto simp: fetch_ok_def arrived_def past_budget_def)

lemma arrived_row:
  assumes "fetch_ok P e limit budget 0 w" "\<not> past_budget budget (fw_spent w) sz" "0 < sz" "sz \<le> MAX_DOWNLOAD" "fe_floor e \<le> free - sz"
    and "fw_fetched w < limit"
  shows "fetch_ok P e limit budget 0 (arrived (GotRow name sz free) (w\<lparr>fw_fetched := fw_fetched w + 1, fw_spent := fw_spent w + sz\<rparr>))"
  using assms by (auto simp: fetch_ok_def arrived_def past_budget_def)

definition needing_ok :: "(db \<Rightarrow> bool) \<Rightarrow> fetch_env \<Rightarrow> nat \<Rightarrow> int option \<Rightarrow> int \<Rightarrow> needing \<Rightarrow> bool" where
  "needing_ok P e limit budget spent acc \<longleftrightarrow> fetch_ok P e limit budget (fst (snd acc)) (fst acc) \<and> fw_spent (fst acc) = spent"

lemma need_step_ok:
  assumes "needing_ok P e limit budget spent acc"
  shows "needing_ok P e limit budget spent (need_step e name bases budget spent acc dep)"
proof -
  obtain w now waiting where acc: "acc = (w, now, waiting)" by (rule prod_cases3)
  obtain w' res where dl: "download_step e True dep w = (w', res)" by (rule prod.exhaust)
  have w: "fetch_ok P e limit budget now w" "fw_spent w = spent" using assms by (simp_all add: needing_ok_def acc)
  have w': "fetch_ok P e limit budget now w'" "fw_spent w' = spent" using download_step_ok [OF dl, of P limit budget now] w by simp_all
  show ?thesis
  proof (cases "dep \<in> set bases")
    case False
    then show ?thesis using dl w' arrived_named [OF w'(1)]
      by (cases res) (simp_all add: need_step_def acc needing_ok_def arrived_def)
  next
    case base: True
    show ?thesis
    proof (cases "past_budget budget (spent + now) (base_size e dep) \<or>
        \<not> fp_ok (plan_download (fe_gib e) (fe_free e (fw_disk w)) (fe_floor e) MAX_DOWNLOAD (base_size e dep))")
      case True
      then show ?thesis using base w by (auto simp: need_step_def acc needing_ok_def Let_def)
    next
      case False
      then have fits: "\<not> past_budget budget (fw_spent w' + now) (base_size e dep)" "0 < base_size e dep" "base_size e dep \<le> MAX_DOWNLOAD"
        "fe_floor e \<le> fe_free e (fw_disk w) - base_size e dep"
        using w'(2) by (simp_all add: planned_iff)
      show ?thesis
        using base False dl w' arrived_base [OF w'(1) fits] by (cases res) (simp_all add: need_step_def acc needing_ok_def Let_def arrived_def)
    qed
  qed
qed

lemma needs_of_ok:
  assumes "kept_by_deciding P e" "fetch_ok P e limit budget 0 w"
  shows "fetch_ok P e limit budget 0 (needs_of e budget name w)"
proof -
  have fold: "needing_ok P e limit budget spent acc \<Longrightarrow> needing_ok P e limit budget spent (foldl (need_step e name bases budget spent) acc deps)"
    for spent acc bases deps
    by (induction deps arbitrary: acc) (simp_all add: need_step_ok)
  obtain w1 cost waiting where acc: "foldl (need_step e name (runner_bases name) budget (fw_spent w)) (w, 0, None)
      (filter (\<lambda>m. \<not> have_download (fw_disk w) (fw_ledger w) m True) (model_requires e (fw_disk w) (fw_ledger w) (fw_db w) name)) = (w1, cost, waiting)"
    by (rule prod_cases3)
  have "needing_ok P e limit budget (fw_spent w) (w, 0, None)" using assms(2) by (simp add: needing_ok_def)
  from fold [OF this, of "runner_bases name"] acc have "fetch_ok P e limit budget cost w1" by (metis needing_ok_def fst_conv snd_conv)
  then have "fetch_ok P e limit budget 0 (w1\<lparr>fw_spent := fw_spent w1 + cost\<rparr>)" by (simp add: fetch_ok_def)
  then show ?thesis
    using acc settle_ok [OF assms(1)] by (simp add: needs_of_def Let_def split: option.split prod.split)
qed

lemma landed_ok:
  assumes "kept_by_deciding P e" "fetch_ok P e limit budget 0 w"
  shows "fetch_ok P e limit budget 0 (landed e budget r as_text place w)"
  using assms settle_ok [OF assms(1)] needs_of_ok [OF assms(1)] by (simp add: landed_def unless_raised_def)

lemma fetch_row_step_ok:
  assumes "kept_by_deciding P e" "fetch_ok P e limit budget 0 w" "fw_fetched w < limit"
  shows "fetch_ok P e limit budget 0 (fetch_row_step e budget r w)"
proof -
  let ?sz = "size_or e (fetch_name r) (fr_size r)" and ?free = "fe_free e (fw_disk w)"
  let ?p = "plan_download (fe_gib e) ?free (fe_floor e) MAX_DOWNLOAD ?sz"
  obtain w' res where dl: "download_step e (canonical (fr_lane r) \<in> set GGUF_SERVED) (fetch_name r) w = (w', res)" by (rule prod.exhaust)
  have w': "fetch_ok P e limit budget 0 w'" "fw_spent w' = fw_spent w" "fw_fetched w' < limit"
    using download_step_ok [OF dl, of P limit budget 0] assms by simp_all
  consider (over) "past_budget budget (fw_spent w) ?sz" | (refused) "\<not> past_budget budget (fw_spent w) ?sz" "\<not> fp_ok ?p"
    | (fits) "\<not> past_budget budget (fw_spent w) ?sz" "fp_ok ?p" by blast
  then show ?thesis
  proof cases
    case over
    then show ?thesis using settle_and_say_ok [OF assms(1,2)] by (simp add: fetch_row_step_def Let_def)
  next
    case refused
    show ?thesis
    proof (cases "fp_reason ?p = ''harness'' \<or> fp_reason ?p = ''machine''")
      case True
      then show ?thesis using refused settle_and_say_ok [OF assms(1,2)] by (simp add: fetch_row_step_def Let_def)
    next
      case False
      then have "decision_ok \<lparr>fd_name = fr_name r, fd_outcome = ''declined'', fd_why = NotPlanned (fp_why ?p), fd_reason = fp_reason ?p, fd_until = fp_until ?p\<rparr>"
        using plan_refused [OF refused(2)] by (simp add: decision_ok_def)
      then show ?thesis using False refused settle_and_say_ok [OF assms(1,2)] by (simp add: fetch_row_step_def Let_def)
    qed
  next
    case fits
    have "fetch_ok P e limit budget 0 (arrived (GotRow (fetch_name r) ?sz ?free) (w'\<lparr>fw_fetched := fw_fetched w' + 1, fw_spent := fw_spent w' + ?sz\<rparr>))"
      using fits w' by (intro arrived_row) (simp_all add: planned_iff)
    then show ?thesis using fits dl w'(1) landed_ok [OF assms(1)] by (cases res) (simp_all add: fetch_row_step_def Let_def)
  qed
qed

lemma row_turn_ok:
  assumes "kept_by_deciding P e" "fetch_ok P e limit budget 0 w"
  shows "fetch_ok P e limit budget 0 (row_turn e limit budget w r)"
proof -
  have full: "fetch_ok P e limit budget 0 (w\<lparr>fw_full := True\<rparr>)" using assms(2) by (simp add: fetch_ok_def)
  note say = settle_and_say_ok [OF assms]
  have runtime: "needs \<noteq> [] \<Longrightarrow> prefix ''runtime:'' u \<Longrightarrow> fetch_ok P e limit budget 0 (settle_and_say e a b ''declined'' (NoRuntime needs) ''machine'' u w)" for a b needs u
    by (rule say) (simp add: decision_ok_def)
  have attaches: "kind \<noteq> [] \<Longrightarrow> fetch_ok P e limit budget 0 (settle_and_say e a b ''declined'' (AttachesTo kind) ''candidate'' [] w)" for a b kind
    by (rule say) (simp add: decision_ok_def)
  show ?thesis
    unfolding row_turn_def Let_def
    by (simp only: split: if_split) (simp add: assms(2) full runtime attaches say fetch_row_step_ok [OF assms])
qed

lemma fetch_run_ok:
  assumes "kept_by_deciding P e" "P d"
  shows "fetch_ok P e limit budget 0 (fetch_run e limit budget lane fs st d)"
proof -
  have rows: "fetch_ok P e limit budget 0 (foldl (row_turn e limit budget) w rs)" if "fetch_ok P e limit budget 0 w" for w rs
    using that by (induction rs arbitrary: w) (simp_all add: row_turn_ok [OF assms(1)])
  have waits: "fetch_ok P e limit budget 0 (foldl (\<lambda>w name. unless_raised (needs_of e budget name) w) w names)" if "fetch_ok P e limit budget 0 w" for w names
    using that by (induction names arbitrary: w) (simp_all add: unless_raised_def needs_of_ok [OF assms(1)])
  have "fetch_ok P e limit budget 0 (first_state fs st d)" using assms(2) by (simp add: fetch_ok_def first_state_def)
  then show ?thesis using rows waits adopt_pending_ok by (simp add: fetch_run_def Let_def)
qed

text \<open>
  C30. A run keeps its bounds: what it downloads from the queue and as the bases of runners adds up to what it counts as spent,
  which never passes its budget; each of these downloads had a measured size, was no larger than the cap and left the
  floor of the disk free; and it fetches no more of the queue than its limit. What a config names beside a model
  is exempt from all of these (\<open>named_needs_are_not_metered\<close>).
\<close>

theorem fetch_keeps_its_bounds:
  "let w = fetch_run e limit budget lane fs st d
   in sum_list (map got_size (fw_got w)) = fw_spent w \<and> (\<forall>b. budget = Some b \<longrightarrow> fw_spent w \<le> max b 0) \<and>
      (\<forall>g \<in> set (fw_got w). let_in (fe_floor e) g) \<and> length (filter of_the_queue (fw_got w)) \<le> limit"
  using fetch_run_ok [of "\<lambda>_. True" e d limit budget lane fs st]
  by (auto simp: kept_by_deciding_def fetch_ok_def list_all_iff Let_def)

text \<open>
  C31. A run settles a candidate only on an answer about it: it declines one for a runtime this machine lacks, with what would
  end the wait, for attaching to a model, or for being larger than any download may be; everything about this harness, its
  budget or a full disk leaves the candidate queued. And the store it leaves is one the ladder's own steps reach.
\<close>

theorem fetch_settles_only_answers:
  assumes "store_reaches d" "fe_others e = alone"
  shows "store_reaches (fw_db (fetch_run e limit budget lane fs st d)) \<and>
    (\<forall>x \<in> set (fw_decided (fetch_run e limit budget lane fs st d)). decision_ok x)"
proof -
  have "kept_by_deciding store_reaches e"
    unfolding kept_by_deciding_def assms(2)
    by (intro allI impI, erule store_reaches.step, rule store_step.decided) (simp add: RETEST_def)
  from fetch_run_ok [OF this assms(1)] show ?thesis by (simp add: fetch_ok_def list_all_iff)
qed

section \<open>A small queue\<close>

text \<open>The queue holds one model of ten bytes, whose configuration names a base of a hundred GiB.\<close>

definition shop_db :: db where
  "shop_db = snd (decide alone 1 None ''a/m'' ''queued'' (no_decision\<lparr>k_tier := ''inspect''\<rparr>)
     (snd (set_size ''a/m'' 10 (snd (record_seen 0 None
        \<lparr>n_name = ''a/m'', n_source = [], n_url = [], n_why = [], n_relevance = 0, n_kind = ''weights'', n_lane = ''image'', n_resolved = [],
         n_registry = ''huggingface'', n_description = [], n_lane_source = [], n_category = []\<rparr> empty_db)))))"

definition shop_tree :: "string \<Rightarrow> hub_tree" where
  "shop_tree repo = \<lparr>tree_snapshots = True, tree_files = [(''s/config.json'', True)], tree_blobs = [], tree_rest = 0, tree_mtime = 0, tree_adapter = [],
     tree_config = (if repo = ''a/m'' then [(''base_model'', Some ''big/base'')] else [])\<rparr>"

definition shop_disk :: disk where
  "shop_disk = \<lparr>fs_nodes = [], fs_real = (\<lambda>d. d), fs_dirs = (\<lambda>d. True)\<rparr>"

definition shop_ledger :: ledger where
  "shop_ledger = \<lparr>led_rows = [], led_proposals = [(1, ''a/m'')], led_here = Some 4, led_new = 5\<rparr>"

definition shop_env :: fetch_env where
  "shop_env = \<lparr>fe_now = 2, fe_machine = None, fe_others = alone, fe_wording = (\<lambda>_. []), fe_gib = (\<lambda>_. []), fe_free = (\<lambda>_. 200 * GIB_INT),
     fe_floor = DISK_FLOOR, fe_sizes = [], fe_sizer = (\<lambda>_. 100 * GIB_INT), fe_listing = (\<lambda>_. Some []),
     fe_transfer = (\<lambda>repo name fs. (fs\<lparr>fs_nodes := (hub_dir ''/hub'' repo, Tree (shop_tree repo)) # fs_nodes fs\<rparr>, Some (hub_dir ''/hub'' repo))),
     fe_snaps = (\<lambda>_ _. []), fe_resolve = (\<lambda>_ p. p), fe_ceil = 0, fe_hub = ''/hub'', fe_models = ''/g'', fe_lineage = (\<lambda>_ _. []),
     fe_runtime_of = (\<lambda>_. []), fe_gguf_named = (\<lambda>_. False), fe_runtimes = [], fe_adapters = (\<lambda>_. False), fe_gap = (\<lambda>_ _ _ _. []),
     fe_ranked = (\<lambda>_. [''a/m''])\<rparr>"

lemmas shop_defs = shop_db_def shop_tree_def shop_disk_def shop_ledger_def shop_env_def

text \<open>The run fetches the model, and then the base its config names.\<close>

lemma shop_run:
  "let w = fetch_run shop_env 1 (Some 10) [] shop_disk shop_ledger shop_db
   in fw_got w = [GotRow ''a/m'' 10 (200 * GIB_INT), GotNamed ''big/base''] \<and> fw_spent w = 10 \<and> fw_raised w = None"
  by code_simp

lemma shop_db_reached: "store_reaches shop_db"
  unfolding shop_db_def
  by (rule store_reaches.step [OF store_reaches.step [OF store_reaches.step [OF store_reaches.start]]],
      rule store_step.recorded, rule store_step.sized, rule store_step.decided) (simp_all add: RETEST_def no_decision_def)

theorem fetch_keeps_its_bounds_witness:
  "length (filter of_the_queue (fw_got (fetch_run shop_env 1 (Some 10) [] shop_disk shop_ledger shop_db))) \<le> 1 \<and>
   fw_spent (fetch_run shop_env 1 (Some 10) [] shop_disk shop_ledger shop_db) \<le> 10"
  using fetch_keeps_its_bounds [of shop_env 1 "Some 10" "[]" shop_disk shop_ledger shop_db] by (simp add: Let_def)

theorem fetch_settles_only_answers_witness:
  "store_reaches (fw_db (fetch_run shop_env 1 (Some 10) [] shop_disk shop_ledger shop_db))"
  using fetch_settles_only_answers [OF shop_db_reached, of shop_env 1 "Some 10" "[]" shop_disk shop_ledger]
  by (simp add: shop_env_def)

text \<open>A base that the config names is fetched past the cap of a download and past the budget of the run.\<close>

lemma named_needs_are_not_metered:
  "GotNamed ''big/base'' \<in> set (fw_got (fetch_run shop_env 1 (Some 10) [] shop_disk shop_ledger shop_db)) \<and>
   fe_sizer shop_env ''big/base'' > MAX_DOWNLOAD"
proof -
  have "fw_got (fetch_run shop_env 1 (Some 10) [] shop_disk shop_ledger shop_db) = [GotRow ''a/m'' 10 (200 * GIB_INT), GotNamed ''big/base'']"
    using shop_run by (simp add: Let_def)
  then show ?thesis by (simp add: shop_env_def MAX_DOWNLOAD_def GIB_INT_def)
qed

end
