(* ===== verification/Cards.thy ===== *)
theory Cards
  imports Rank GgufFiles
begin

text \<open>
  What a model card says (\<open>harness/inspect.py\<close>): the lane that could measure the model and what named it, the models it was
  built from, the runtime its weights need, whether they are GGUF, and the facts the store keeps of it
  (\<open>memory_store/cards.py\<close> writes them). A set is the list of its members. The reader of prose, a table of regular
  expressions in \<open>harness/lanes.py\<close>, is the argument \<open>prose\<close>, and so is \<open>paper\<close>, which finds the words of a paper in a text.
\<close>

section \<open>A card\<close>

record hub_card =
  hc_id :: string
  hc_task :: string
  hc_library :: string
  hc_tags :: "string list"
  hc_siblings :: "sibling list"
  hc_modified :: string
  hc_model_type :: string
  hc_auto_map :: bool

text \<open>The only member of a set, if it has one.\<close>

definition the_one :: "'a list \<Rightarrow> 'a option" where
  "the_one xs = (case remdups xs of [x] \<Rightarrow> Some x | _ \<Rightarrow> None)"

text \<open>\<open>re.split(r"[-_\s:]+", t)\<close>, as far as its words go, and whether some tag holds one of the words.\<close>

definition tag_words :: "string \<Rightarrow> string list" where
  "tag_words t = cut_words (\<lambda>c. c \<in> {CHR ''-'', CHR ''_'', CHR '':''} \<or> is_space c) t"

definition tags_name :: "string list \<Rightarrow> string list \<Rightarrow> bool" where
  "tags_name vocabulary tags \<longleftrightarrow> list_ex (\<lambda>t. list_ex (\<lambda>w. w \<in> set vocabulary) (tag_words (lower (strip t)))) tags"

section \<open>Which lane could measure it\<close>

definition PIPELINE_LANES :: "(string \<times> string) list" where
  "PIPELINE_LANES = [(''automatic-speech-recognition'', ''stt''), (''text-to-speech'', ''tts''), (''text-to-image'', ''image''),
     (''text-to-video'', ''video''), (''image-to-video'', ''video''), (''text-generation'', ''code''),
     (''text-classification'', ''decide''), (''text-ranking'', ''retrieval''), (''text-retrieval'', ''retrieval''),
     (''visual-document-retrieval'', ''retrieval'')]"

definition TAG_LANES :: "(string \<times> string) list" where
  "TAG_LANES = [(''asr'', ''stt''), (''speech-recognition'', ''stt''), (''stt'', ''stt''), (''tts'', ''tts''),
     (''text-to-speech'', ''tts''), (''text-to-image'', ''image''), (''diffusion'', ''image''), (''svg'', ''svg''),
     (''text-to-svg'', ''svg''), (''image-to-svg'', ''svg''), (''text-to-music'', ''music''), (''music'', ''music''),
     (''structured-prediction'', ''decide'')]"

definition GENERIC_PIPELINE :: string where "GENERIC_PIPELINE = ''text-generation''"

definition OUTPUT_LANES :: "(string \<times> string) list" where
  "OUTPUT_LANES = [(''text'', ''code''), (''image'', ''image''), (''video'', ''video'')]"

definition NEEDS_AN_INPUT :: "string list" where
  "NEEDS_AN_INPUT = [''image-to-text'', ''table-to-text'', ''tabular-to-text'', ''image-to-image'', ''image-text-to-image'', ''video-to-video'']"

definition TEXT_TO_IMAGE_TAGS :: "string list" where
  "TEXT_TO_IMAGE_TAGS = [''text-to-image'', ''image-generation'']"

definition AUDIO_TAGS :: "(string \<times> string) list" where
  "AUDIO_TAGS = [(''music'', ''music''), (''text-to-music'', ''music''), (''music-generation'', ''music''), (''musicgen'', ''music''),
     (''tts'', ''tts''), (''text-to-speech'', ''tts''), (''speech-synthesis'', ''tts'')]"

definition AUDIO_TASK :: string where "AUDIO_TASK = ''text-to-audio''"

definition AUDIO_WORDS :: "(string \<times> string) list" where
  "AUDIO_WORDS = [(''music'', ''music''), (''musicgen'', ''music''), (''song'', ''music''), (''songs'', ''music''), (''tts'', ''tts'')]"

definition SETTLED_TASKS :: "string list" where "SETTLED_TASKS = AUDIO_TASK # NEEDS_AN_INPUT"
definition OCR_TASKS :: "string list" where "OCR_TASKS = [''image-to-text'', ''image-text-to-text'']"
definition EMBED_TASKS :: "string list" where "EMBED_TASKS = [''sentence-similarity'', ''feature-extraction'']"
definition RETRIEVAL_WORDS :: "string list" where "RETRIEVAL_WORDS = [''retrieval'', ''reranker'', ''rerank'', ''reranking'', ''colbert'']"
definition PII_TASK :: string where "PII_TASK = ''token-classification''"

definition PII_WORDS :: "string list" where
  "PII_WORDS = [''pii'', ''privacy'', ''anonymization'', ''anonymisation'', ''deidentification'', ''redaction'']"

definition is_retrieval :: "string list \<Rightarrow> bool" where "is_retrieval tags \<longleftrightarrow> tags_name RETRIEVAL_WORDS tags"
definition is_pii :: "string list \<Rightarrow> bool" where "is_pii tags \<longleftrightarrow> tags_name PII_WORDS tags"

definition or_empty :: "string option \<Rightarrow> string" where
  "or_empty x = (case x of None \<Rightarrow> [] | Some s \<Rightarrow> s)"

definition audio_lane :: "string \<Rightarrow> string" where
  "audio_lane tag =
     (case map_of AUDIO_TAGS tag of
        Some lane \<Rightarrow> lane
      | None \<Rightarrow> or_empty (the_one (List.map_filter (map_of AUDIO_WORDS) (tag_words tag))))"

text \<open>\<open>_settled_lane\<close>: the lane and what named it, \<^const>\<open>None\<close> for a task that is not settled.\<close>

definition settled_lane :: "(string \<Rightarrow> string) \<Rightarrow> string \<Rightarrow> string list \<Rightarrow> string \<Rightarrow> (string \<times> string) option" where
  "settled_lane prose task tags name =
     (if task \<in> {''image-to-image'', ''image-text-to-image''} then
        Some (if list_ex (\<lambda>t. t \<in> set TEXT_TO_IMAGE_TAGS) tags then (''image'', ''tag'') else ([], []))
      else if task \<in> set OCR_TASKS \<and> is_ocr tags \<and> \<not> list_ex (\<lambda>t. t \<in> set (map fst TAG_LANES)) tags then Some (''ocr'', ''tag'')
      else if task \<in> set EMBED_TASKS \<and> is_retrieval tags then Some (''retrieval'', ''tag'')
      else if task = PII_TASK \<and> is_pii tags then Some (''pii'', ''tag'')
      else if task \<in> set NEEDS_AN_INPUT then Some ([], [])
      else if task \<noteq> AUDIO_TASK then None
      else (let named = filter (\<lambda>l. l \<noteq> []) (map audio_lane tags)
            in case the_one named of
                 Some lane \<Rightarrow> Some (lane, ''tag'')
               | None \<Rightarrow>
                   (let lane = (if named = [] then prose (map (\<lambda>c. if c = CHR ''/'' then CHR '' '' else c) name) else [])
                    in Some (if lane \<in> {''music'', ''tts''} then (lane, ''prose'') else ([], [])))))"

text \<open>What follows the last occurrence of a separator: \<open>s.rpartition(sep)[2]\<close>, \<^const>\<open>None\<close> when there is none.\<close>

fun after_last :: "string \<Rightarrow> string \<Rightarrow> string option" where
  "after_last sep [] = None"
| "after_last sep (x # xs) =
     (case after_last sep xs of
        Some r \<Rightarrow> Some r
      | None \<Rightarrow> if prefix sep (x # xs) then Some (drop (length sep) (x # xs)) else None)"

text \<open>\<open>_lane_from_output\<close> of a task that does not end in \<open>-to-any\<close>.\<close>

definition plain_output_lane :: "string \<Rightarrow> string list \<Rightarrow> string" where
  "plain_output_lane tag from_tags =
     (case after_last ''-to-'' tag of
        None \<Rightarrow> []
      | Some out \<Rightarrow>
          (let lane = get_or [] OUTPUT_LANES out
           in if lane = ''code'' \<and> the_one from_tags = Some ''svg'' then ''svg'' else lane))"

definition card_lane :: "string \<Rightarrow> string" where
  "card_lane task =
     (if task \<in> set SETTLED_TASKS then []
      else case map_of PIPELINE_LANES task of Some lane \<Rightarrow> lane | None \<Rightarrow> plain_output_lane task [])"

definition task_lane :: "(string \<Rightarrow> string) \<Rightarrow> string \<Rightarrow> string list \<Rightarrow> string" where
  "task_lane prose task tags =
     (case settled_lane prose task tags [] of Some (lane, source) \<Rightarrow> lane | None \<Rightarrow> card_lane task)"

definition lane_from_output :: "(string \<Rightarrow> string) \<Rightarrow> string \<Rightarrow> string list \<Rightarrow> string list \<Rightarrow> string" where
  "lane_from_output prose tag from_tags card_tags =
     (if after_last ''-to-'' tag = Some ''any'' then
        or_empty (the_one (filter (\<lambda>l. l \<noteq> [])
          (from_tags @ map (\<lambda>t. task_lane prose t card_tags) (filter (\<lambda>t. sublist ''-to-'' t \<and> \<not> suffix ''-to-any'' t) card_tags))))
      else plain_output_lane tag from_tags)"

section \<open>What it was built from\<close>

definition LINEAGE_KINDS :: "string list" where
  "LINEAGE_KINDS = [''adapter'', ''finetune'', ''quantized'', ''merge'']"

definition lineage_tag :: "string \<Rightarrow> (string \<times> string) option" where
  "lineage_tag t =
     (let parts = split_at CHR '':'' (strip t); kind = (if length parts \<ge> 3 then lower (parts ! 1) else [])
      in if length parts < 2 \<or> lower (hd parts) \<noteq> ''base_model'' \<or> last parts = [] then None
         else Some (last parts, if kind \<in> set LINEAGE_KINDS then kind else []))"

definition lineage :: "string list \<Rightarrow> (string \<times> string) list" where
  "lineage tags = rev (remdups (rev (List.map_filter lineage_tag tags)))"

text \<open>\<open>TEXT_PARENTS\<close>: the start of a name, and whether a digit has to follow it.\<close>

definition TEXT_PARENTS :: "(string \<times> bool) list" where
  "TEXT_PARENTS = [(''qwen/qwen'', True), (''meta-llama/llama-'', True), (''meta-llama/meta-llama-'', True), (''mistralai/mistral'', False),
     (''mistralai/ministral'', False), (''mistralai/magistral'', False), (''mistralai/devstral'', False), (''microsoft/phi-'', True),
     (''google/gemma-'', True), (''deepseek-ai/deepseek-v'', True), (''deepseek-ai/deepseek-r'', True)]"

definition NOT_TEXT_PARENT :: "string list" where
  "NOT_TEXT_PARENT = [''vl'', ''omni'', ''tts'', ''asr'', ''audio'', ''image'', ''video'', ''vision'', ''embedding'', ''reranker'', ''ocr'', ''guard'', ''speech'']"

definition text_parent :: "string \<Rightarrow> bool" where
  "text_parent parent =
     (let p = lower (strip parent)
      in list_ex (\<lambda>(start, then_digit). prefix start p \<and>
           (\<not> then_digit \<or> (case drop (length start) p of [] \<Rightarrow> False | c # cs \<Rightarrow> is_digit c))) TEXT_PARENTS \<and>
         \<not> list_ex (\<lambda>w. w \<in> set NOT_TEXT_PARENT)
            (cut_words (\<lambda>c. c \<in> {CHR ''-'', CHR ''_'', CHR ''.'', CHR ''/''} \<or> is_space c) p))"

definition lane_and_source :: "(string \<Rightarrow> string) \<Rightarrow> hub_card \<Rightarrow> string \<Rightarrow> string \<times> string" where
  "lane_and_source prose hub said =
     (let tag = lower (strip (hc_task hub)); tags = map (\<lambda>t. lower (strip t)) (hc_tags hub);
          from_tags = List.map_filter (map_of TAG_LANES) tags
      in case settled_lane prose tag tags (hc_id hub) of
           Some got \<Rightarrow> got
         | None \<Rightarrow>
             (case map_of PIPELINE_LANES tag of
                Some lane \<Rightarrow>
                  (case the_one (filter (\<lambda>l. l \<noteq> lane) from_tags) of
                     Some specific \<Rightarrow> if tag = GENERIC_PIPELINE then (specific, ''tag'') else (lane, ''card'')
                   | None \<Rightarrow> (lane, ''card''))
              | None \<Rightarrow>
                  if tag \<noteq> [] then
                    (let lane = lane_from_output prose tag from_tags tags
                     in if lane = [] then ([], []) else (lane, if suffix ''-to-any'' tag then ''tag'' else ''card''))
                  else (case the_one from_tags of
                          Some lane \<Rightarrow> (lane, ''tag'')
                        | None \<Rightarrow>
                            if from_tags \<noteq> [] then ([], [])
                            else if list_ex (\<lambda>p. text_parent (fst p)) (lineage (hc_tags hub)) then (''code'', ''lineage'')
                            else (prose said, if prose said \<noteq> [] then ''prose'' else []))))"

definition lane_for :: "(string \<Rightarrow> string) \<Rightarrow> hub_card \<Rightarrow> string" where
  "lane_for prose hub = fst (lane_and_source prose hub [])"

section \<open>What loads it\<close>

text \<open>\<open>_GGUF_NAME\<close>: \<open>gguf\<close> between separators or ends; \<open>_GGUF_QUANT\<close>: a label such as \<open>Q4_K_M\<close> or \<open>IQ2_XS\<close> at the start or after a separator.\<close>

definition is_name_sep :: "char \<Rightarrow> bool" where
  "is_name_sep c \<longleftrightarrow> c \<in> {CHR ''-'', CHR ''_'', CHR ''.''}"

definition names_gguf :: "string \<Rightarrow> bool" where
  "names_gguf name \<longleftrightarrow> ''gguf'' \<in> set (cut_words is_name_sep (lower name))"

definition quant_label :: "string \<Rightarrow> bool" where
  "quant_label s =
     (let t = (case s of c # cs \<Rightarrow> if c = CHR ''i'' then cs else s | [] \<Rightarrow> [])
      in case t of
           [] \<Rightarrow> False
         | q # r \<Rightarrow> q = CHR ''q'' \<and> takeWhile is_digit r \<noteq> [] \<and>
                    (case dropWhile is_digit r of u # x # xs \<Rightarrow> u = CHR ''_'' \<and> is_token_char x | _ \<Rightarrow> False))"

fun names_quant :: "bool \<Rightarrow> string \<Rightarrow> bool" where
  "names_quant begins [] = False"
| "names_quant begins (c # cs) = (begins \<and> quant_label (c # cs) \<or> names_quant (is_name_sep c) cs)"

definition is_gguf :: "string \<Rightarrow> hub_card \<Rightarrow> bool" where
  "is_gguf model hub \<longleftrightarrow>
     lower (strip (hc_library hub)) = ''gguf'' \<or> list_ex (\<lambda>t. lower (strip t) = ''gguf'') (hc_tags hub) \<or>
     list_ex (\<lambda>f. suffix ''.gguf'' (lower (sib_name f))) (hc_siblings hub) \<or>
     names_gguf model \<or> names_quant True (lower model)"

text \<open>\<open>_NEEDS_CUDA\<close>: one of these words, whole.\<close>

definition NEEDS_CUDA :: "string list" where
  "NEEDS_CUDA = [''cuda'', ''tensorrt'', ''gemlite'', ''nvfp4'', ''modelopt'', ''marlin'', ''exllama'', ''bitsandbytes'']"

definition names_cuda :: "string \<Rightarrow> bool" where
  "names_cuda s \<longleftrightarrow> list_ex (\<lambda>w. w \<in> set NEEDS_CUDA) (cut_words (\<lambda>c. \<not> (is_token_char c \<or> c = CHR ''_'')) (lower s))"

definition SERVED_RUNTIME :: "(string \<times> string) list" where "SERVED_RUNTIME = [(''vllm'', ''vllm'')]"

definition runtime_needed :: "string \<Rightarrow> string list \<Rightarrow> string" where
  "runtime_needed library tags =
     (if list_ex names_cuda (library # tags) then ''cuda'' else get_or [] SERVED_RUNTIME (lower (strip library)))"

section \<open>The facts kept of a card\<close>

record model_card =
  cd_task :: string
  cd_library :: string
  cd_tags :: "string list"
  cd_parents :: "(string \<times> string) list"
  cd_attaches_to :: string
  cd_runtime_needed :: string
  cd_lane :: string
  cd_lane_source :: string
  cd_category :: string
  cd_model_type :: string
  cd_remote_code :: string

text \<open>\<open>remote_code.code_evidence\<close>.\<close>

definition code_evidence :: "hub_card \<Rightarrow> string" where
  "code_evidence hub =
     (if \<not> hc_auto_map hub then []
      else (let names = sort (filter (\<lambda>b. suffix ''.py'' b \<and> (prefix ''modeling_'' b \<or> prefix ''configuration_'' b))
                          (map (\<lambda>f. base_name (sib_name f)) (hc_siblings hub)));
                said = join '', '' (take 3 names)
            in if said \<noteq> [] then said else ''auto_map''))"

definition stripped_tags :: "string list \<Rightarrow> string list" where
  "stripped_tags tags = filter (\<lambda>t. t \<noteq> []) (map strip tags)"

definition plain_tags :: "string list \<Rightarrow> string list" where
  "plain_tags tags = filter (\<lambda>t. \<not> prefix ''base_model'' (lower t)) (stripped_tags tags)"

definition card_facts :: "(string \<Rightarrow> string) \<Rightarrow> hub_card \<Rightarrow> model_card" where
  "card_facts prose c =
     (let plain = plain_tags (hc_tags c); parents = lineage (stripped_tags (hc_tags c)); task = strip (hc_task c); library = strip (hc_library c);
          adapter = list_ex (\<lambda>p. snd p = ''adapter'') parents;
          (lane, source) = lane_and_source prose c []
      in \<lparr>cd_task = task, cd_library = library, cd_tags = plain, cd_parents = parents,
          cd_attaches_to = is_attachment (join '' '' ([task, library] @ plain @ [if adapter then ''adapter'' else []])),
          cd_runtime_needed = runtime_needed library plain, cd_lane = lane, cd_lane_source = source, cd_category = ''model'',
          cd_model_type = strip (hc_model_type c), cd_remote_code = code_evidence c\<rparr>)"

definition repo_facts :: "(string \<Rightarrow> bool) \<Rightarrow> string \<Rightarrow> string list \<Rightarrow> string \<Rightarrow> model_card" where
  "repo_facts paper description topics0 lane =
     (let topics = stripped_tags topics0; words = join '' '' (description # topics)
      in \<lparr>cd_task = [], cd_library = [], cd_tags = topics, cd_parents = [], cd_attaches_to = is_attachment words, cd_runtime_needed = [],
          cd_lane = lane, cd_lane_source = (if lane \<noteq> [] then ''prose'' else []),
          cd_category = (if paper words then TECHNIQUE else ''tool''), cd_model_type = [], cd_remote_code = []\<rparr>)"

end
