(* ===== verification/Inspect.thy ===== *)
theory Inspect
  imports Cards Serving
begin

text \<open>
  Whether a candidate can run here, read before its weights are downloaded (\<open>harness/inspect.py\<close>): the largest weight this
  machine loads, the fit of a model card and of a source tree, the one verdict about it, why, and what would end a refusal.
  The reader of a source tree is regular expressions over its files; what it found is the record \<open>tree_scan\<close>. The registry's
  answer about the size and lane of one model is an argument, and so is the clock. Sizes are in bytes.
\<close>

section \<open>Numbers in text\<close>

text \<open>\<open>f"{x:.1f}"\<close> of a number that is not negative, and \<open>float(s)\<close>: a plain decimal is read here, other spellings by \<open>other\<close>.\<close>

definition fixed1 :: "rat \<Rightarrow> string" where
  "fixed1 x = (let n = nat (py_round (x * 10)) in decimal (n div 10) @ ''.'' @ [digit n])"

definition float_of :: "(string \<Rightarrow> rat option) \<Rightarrow> string \<Rightarrow> rat option" where
  "float_of other s =
     (case partition_at CHR ''.'' (strip s) of
        (a, b) \<Rightarrow>
          if isdigit a \<and> isdigit b then Some (of_nat (nat_of_digits a) + of_nat (nat_of_digits b) / 10 ^ length b)
          else if isdigit (strip s) then Some (of_nat (nat_of_digits (strip s)))
          else other s)"

section \<open>This machine\<close>

text \<open>\<open>_RUNTIME_PROBES\<close> and \<open>detect\<close>: \<open>has\<close> answers the probes.\<close>

definition RUNTIMES :: "string list" where
  "RUNTIMES = [''mlx'', ''vllm'', ''llamacpp'', ''ds4'', ''cuda'', ''rocm'']"

definition detected :: "(string \<Rightarrow> bool) \<Rightarrow> string list" where
  "detected has = filter has RUNTIMES @ [ALWAYS]"

record accelerator =
  ac_kind :: string
  ac_total_gb :: rat

definition MEMORY_CEILING :: int where "MEMORY_CEILING = 22 * 1073741824"
definition MEMORY_CEILING_RAM_GB :: rat where "MEMORY_CEILING_RAM_GB = 32"

definition ceiling_bytes :: "accelerator \<Rightarrow> int" where
  "ceiling_bytes acc =
     (if ac_kind acc = ''discrete'' then \<lfloor>ac_total_gb acc * GIB\<rfloor>
      else if ac_total_gb acc > 0 then \<lfloor>of_int MEMORY_CEILING * ac_total_gb acc / MEMORY_CEILING_RAM_GB\<rfloor>
      else MEMORY_CEILING)"

definition SIZE_LIMIT :: nat where "SIZE_LIMIT = 12"
definition CLONE_KB_CAP :: int where "CLONE_KB_CAP = 250000"
definition UPSTREAM_DEAD_DAYS :: rat where "UPSTREAM_DEAD_DAYS = 730"

section \<open>The file ds4 would serve\<close>

definition ds4_resident :: "ds4_model \<Rightarrow> int \<Rightarrow> int" where
  "ds4_resident m sz = max 0 (sz - \<lfloor>dm_on_disk m * GIB\<rfloor>)"

definition ds4_known :: "(string \<Rightarrow> bool) \<Rightarrow> sibling list \<Rightarrow> (ds4_model \<times> int) list" where
  "ds4_known of_repo siblings =
     (let sized = foldl (\<lambda>d f. dict_put (sib_name f) (sib_size f) d) [] siblings
      in List.map_filter (\<lambda>m. if of_repo (lower (dm_repo m)) \<and> get_or 0 sized (dm_file m) \<noteq> 0
           then Some (m, get_or 0 sized (dm_file m)) else None) DS4_MODELS)"

text \<open>\<open>max(xs, key=f)\<close> and \<open>min(xs, key=f)\<close>: the first.\<close>

definition arg_max_of :: "('a \<Rightarrow> int) \<Rightarrow> 'a list \<Rightarrow> 'a option" where
  "arg_max_of f xs = (case xs of [] \<Rightarrow> None | x # rest \<Rightarrow> Some (first_max f x rest))"

definition ds4_pick :: "string \<Rightarrow> sibling list \<Rightarrow> int \<Rightarrow> (ds4_model \<times> int \<times> int \<times> bool) option" where
  "ds4_pick repo siblings ceil =
     (let mine = ds4_known (\<lambda>r. r = lower repo) siblings;
          known = (if mine = [] then ds4_known (\<lambda>r. True) siblings else mine);
          with_res = map (\<lambda>(m, s). (m, s, ds4_resident m s)) known; kept = (\<lambda>(m, s, r). r)
      in case arg_max_of kept (filter (\<lambda>x. kept x \<le> ceil) with_res) of
           Some (m, s, r) \<Rightarrow> Some (m, s, r, False)
         | None \<Rightarrow>
             (case arg_max_of (\<lambda>x. - kept x) (filter (\<lambda>(m, s, r). dm_streams m) with_res) of
                Some (m, s, r) \<Rightarrow> Some (m, s, r, True)
              | None \<Rightarrow> map_option (\<lambda>(m, s, r). (m, s, r, False)) (arg_max_of (\<lambda>x. - kept x) with_res)))"

section \<open>A fit\<close>

datatype fit_verdict =
    NotYet
  | NoRuntimeHere string "string list"
  | FloorNotKnown nat int nat
  | SizeOver int int
  | IdleYears rat
  | NothingToCall
  | NoneSized nat
  | WeightsFrom bool int int
  | NoWeightsNamed bool
  | Ds4Unlisted
  | Ds4Over string int rat int
  | Ds4Fits string int bool rat
  | SourceOver int

record fitted =
  ft_repo :: string
  ft_registry :: string
  ft_verdict :: string
  ft_why :: fit_verdict
  ft_weights :: "(string \<times> int) list"
  ft_largest :: int
  ft_smallest :: int
  ft_unsized :: "string list"
  ft_lanes :: "(string \<times> string) list"
  ft_headline :: "string list"
  ft_cuda_mentioned :: "string list"
  ft_mlx :: bool
  ft_idle_days :: rat
  ft_gguf :: bool
  ft_ds4 :: bool
  ft_resident :: int
  ft_streaming :: bool
  ft_ds4_file :: string
  ft_mps :: bool
  ft_cuda :: "string list"
  ft_entry_points :: "string list"
  ft_last_commit :: string
  ft_source_kb :: int
  ft_offered :: "string list"
  ft_description :: string
  ft_card :: model_card

definition no_card :: model_card where
  "no_card = \<lparr>cd_task = [], cd_library = [], cd_tags = [], cd_parents = [], cd_attaches_to = [], cd_runtime_needed = [], cd_lane = [],
     cd_lane_source = [], cd_category = [], cd_model_type = [], cd_remote_code = []\<rparr>"

definition new_fit :: "string \<Rightarrow> string \<Rightarrow> fitted" where
  "new_fit repo registry =
     \<lparr>ft_repo = repo, ft_registry = registry, ft_verdict = ''unknown'', ft_why = NotYet, ft_weights = [], ft_largest = 0, ft_smallest = 0,
      ft_unsized = [], ft_lanes = [], ft_headline = [], ft_cuda_mentioned = [], ft_mlx = False, ft_idle_days = 0, ft_gguf = False,
      ft_ds4 = False, ft_resident = 0, ft_streaming = False, ft_ds4_file = [], ft_mps = False, ft_cuda = [], ft_entry_points = [],
      ft_last_commit = [], ft_source_kb = 0, ft_offered = [], ft_description = [], ft_card = no_card\<rparr>"

section \<open>The verdict\<close>

definition HUGGINGFACE :: string where "HUGGINGFACE = ''huggingface''"

record inspect_env =
  ie_now :: rat
  ie_dead_days :: rat
  ie_stamp :: "string \<Rightarrow> rat option"
  ie_ceiling :: int
  ie_runtimes :: "string list"
  ie_prose :: "string \<Rightarrow> string"
  ie_paper :: "string \<Rightarrow> bool"

definition offers :: "fitted \<Rightarrow> string list" where
  "offers f = (if ft_mlx f then [''mlx''] else []) @ (if ft_cuda f \<noteq> [] then [''cuda''] else []) @
     (if ft_gguf f then [''llamacpp''] else []) @ (if ft_ds4 f then [''ds4''] else [])"

definition needs_named :: "string list \<Rightarrow> fitted \<Rightarrow> string" where
  "needs_named offered f =
     (if ''cuda'' \<in> set offered then join '', '' (take 3 (ft_cuda f)) else if hd offered = ''llamacpp'' then ''GGUF weights''
      else if hd offered = ''ds4'' then ''ds4'' @ [CHR 0x27] @ ''s own GGUF'' else ''mlx'')"

definition judged :: "string \<Rightarrow> fit_verdict \<Rightarrow> fitted \<Rightarrow> fitted" where
  "judged verdict why f = f\<lparr>ft_verdict := verdict, ft_why := why\<rparr>"

definition ds4_tables :: "fitted \<Rightarrow> rat" where
  "ds4_tables f = (let d = of_int (ft_largest f - ft_resident f) / GIB in if d \<ge> 1 / 20 then d else 0)"

definition decide_ds4 :: "int \<Rightarrow> fitted \<Rightarrow> fitted" where
  "decide_ds4 ceil f =
     (if ft_ds4_file f = [] then judged ''unknown'' Ds4Unlisted f
      else if ft_resident f > ceil \<and> \<not> ft_streaming f
      then judged ''too-big'' (Ds4Over (ft_ds4_file f) (ft_resident f) (ds4_tables f) ceil) f
      else judged ''fits'' (Ds4Fits (ft_ds4_file f) (ft_resident f) (ft_streaming f) (ds4_tables f)) f)"

text \<open>What is left once nothing refuses it: something to call, a size, or none named.\<close>

definition decide_rest :: "fitted \<Rightarrow> fitted" where
  "decide_rest f =
     (if ft_entry_points f = [] \<and> ft_registry f \<noteq> HUGGINGFACE then judged ''no-entry-point'' NothingToCall f
      else if ft_unsized f \<noteq> [] \<and> ft_weights f = [] then judged ''unknown'' (NoneSized (length (ft_unsized f))) f
      else judged ''fits'' (if ft_largest f > 0 then WeightsFrom (ft_mlx f) (ft_smallest f) (ft_largest f) else NoWeightsNamed (ft_mlx f)) f)"

definition decide_age :: "inspect_env \<Rightarrow> fitted \<Rightarrow> fitted" where
  "decide_age e f =
     (case (if ft_last_commit f = [] then None else ie_stamp e (ft_last_commit f)) of
        None \<Rightarrow> decide_rest f
      | Some t \<Rightarrow>
          (let days = (ie_now e - t) / 86400; f' = f\<lparr>ft_idle_days := days\<rparr>
           in if days > ie_dead_days e then judged ''dead'' (IdleYears (days / 365)) f' else decide_rest f'))"

definition decide_size :: "inspect_env \<Rightarrow> fitted \<Rightarrow> fitted" where
  "decide_size e f =
     (if ft_ds4 f then decide_ds4 (ie_ceiling e) f
      else if ft_smallest f > ie_ceiling e \<and> length (ft_unsized f) > length (ft_weights f)
      then judged ''unknown'' (FloorNotKnown (length (ft_weights f)) (ft_smallest f) (length (ft_unsized f))) f
      else if ft_smallest f > ie_ceiling e then judged ''too-big'' (SizeOver (ft_smallest f) (ie_ceiling e)) f
      else decide_age e f)"

definition decide_fit :: "inspect_env \<Rightarrow> fitted \<Rightarrow> fitted" where
  "decide_fit e f0 =
     (let offered = offers f0; f = f0\<lparr>ft_offered := offered\<rparr>
      in if offered \<noteq> [] \<and> list_all (\<lambda>r. refuses (ie_runtimes e) r \<noteq> []) offered
         then judged (refuses (ie_runtimes e) (hd offered)) (NoRuntimeHere (needs_named offered f) offered) f
         else decide_size e
           (if ft_cuda f \<noteq> [] \<and> ''cuda'' \<notin> set (ie_runtimes e)
            then f\<lparr>ft_cuda_mentioned := sort (remdups (ft_cuda_mentioned f @ ft_cuda f)), ft_cuda := []\<rparr> else f))"

definition reason_of :: "fitted \<Rightarrow> string" where
  "reason_of f =
     (if ft_verdict f = ''dead'' then ''upstream''
      else if ft_verdict f = ''too-big'' \<or> prefix ''needs-'' (ft_verdict f) then ''machine'' else ''candidate'')"

definition until_of :: "fitted \<Rightarrow> string" where
  "until_of f =
     (if prefix ''needs-'' (ft_verdict f)
      then ''runtime:'' @ (let any = join ''|'' (ft_offered f) in if any \<noteq> [] then any else drop 6 (ft_verdict f))
      else if ft_verdict f = ''too-big'' \<and> ft_ds4 f \<and> ft_resident f > 0 then ''ceiling_gb:>'' @ fixed1 (of_int (ft_resident f) / GIB)
      else if ft_verdict f = ''too-big'' \<and> ft_smallest f > 0 then ''ceiling_gb:>'' @ fixed1 (of_int (ft_smallest f) / GIB)
      else if ft_verdict f = ''dead'' \<and> ft_last_commit f \<noteq> [] then ''commit_after:'' @ ft_last_commit f
      else [])"

section \<open>A model card\<close>

text \<open>\<open>_NOISE_TAGS\<close>, every alternative as the prefix it is.\<close>

definition NOISE_TAGS :: "string list" where
  "NOISE_TAGS = [''license'', ''licence'', ''region'', ''arxiv'', ''doi'', ''dataset'', ''language'', ''base_model:quantized'', ''autotrain'',
     ''endpoints_compatible'', ''text-generation-inference'', ''safetensors'', ''gguf'', ''pytorch'', ''transformers'', ''diffusers'', ''onnx'',
     ''tensorboard'', ''has_space'', ''model-index'', ''model_index'', ''conversational'', ''en'', ''zh'', ''multilingual'']"

definition card_description :: "hub_card \<Rightarrow> string" where
  "card_description hub =
     (let tags = stripped_tags (hc_tags hub); parents = lineage tags;
          plain = filter (\<lambda>t. \<not> list_ex (\<lambda>n. prefix n (lower t)) NOISE_TAGS \<and> \<not> prefix ''base_model'' (lower t)) tags;
          decisive = filter (\<lambda>t. is_attachment t \<noteq> []) plain; others = filter (\<lambda>t. t \<notin> set decisive) plain;
          tot = sum_list (map sib_size (hc_siblings hub))
      in take 300 (join ''; ''
           ((if hc_task hub \<noteq> [] then [''task '' @ hc_task hub] else []) @
            (if hc_library hub \<noteq> [] then [''served by '' @ hc_library hub] else []) @
            (if plain \<noteq> [] then [''tagged '' @ join '', '' (decisive @ take 6 others)] else []) @
            (if parents \<noteq> []
             then [(if list_ex (\<lambda>p. snd p = ''adapter'') parents then ''adapter of'' else ''built from'') @ '' '' @
                   join '', '' (take 3 (sort (remdups (map fst parents))))] else []) @
            (if tot > 0 then [fixed1 (of_int tot / GIB) @ '' GiB of weights''] else []))))"

text \<open>The bytes that would be loaded, and for a ds4 repository the file picked.\<close>

definition weigh_model :: "inspect_env \<Rightarrow> string \<Rightarrow> hub_card \<Rightarrow> fitted \<Rightarrow> fitted \<times> int" where
  "weigh_model e model hub f =
     (let siblings = hc_siblings hub; as_text = canonical (lane_for (ie_prose e) hub) \<in> set ([] # TEXT_SERVED)
      in if ds4_recognised model (hc_tags hub) then
           (case ds4_pick model siblings (ie_ceiling e) of
              Some (m, tot, kept, streaming) \<Rightarrow>
                (f\<lparr>ft_ds4 := True, ft_resident := kept, ft_streaming := streaming, ft_ds4_file := dm_file m\<rparr>, tot)
            | None \<Rightarrow> (f\<lparr>ft_ds4 := True\<rparr>, 0))
         else if as_text \<and> gguf_only siblings then
           (f, case choose_file siblings (ie_ceiling e) of Some pick \<Rightarrow> snd pick | None \<Rightarrow> smallest siblings)
         else (f, sum_list (map sib_size siblings)))"

definition fit_of_card :: "inspect_env \<Rightarrow> string \<Rightarrow> hub_card \<Rightarrow> fitted" where
  "fit_of_card e model hub =
     (case weigh_model e model hub (new_fit model HUGGINGFACE) of
        (f, tot) \<Rightarrow>
          (let f1 = (if tot > 0 then f\<lparr>ft_weights := [(model, tot)], ft_largest := tot, ft_smallest := tot\<rparr>
                     else f\<lparr>ft_unsized := [model]\<rparr>);
               lane = lane_for (ie_prose e) hub
           in f1\<lparr>ft_headline := [model], ft_lanes := (if lane \<noteq> [] then [(model, lane)] else []),
                 ft_mlx := (lower (hc_library hub) = ''mlx'' \<or> ''mlx'' \<in> set (map lower (hc_tags hub))),
                 ft_gguf := (is_gguf model hub \<and> \<not> ft_ds4 f1), ft_last_commit := strip (hc_modified hub),
                 ft_description := card_description hub, ft_card := card_facts (ie_prose e) hub\<rparr>))"

definition inspect_model :: "inspect_env \<Rightarrow> string \<Rightarrow> hub_card \<Rightarrow> fitted" where
  "inspect_model e model hub = decide_fit e (fit_of_card e model hub)"

section \<open>A source tree\<close>

record repo_meta =
  rm_size_kb :: int
  rm_description :: string
  rm_topics :: "string list"

record tree_scan =
  ts_cuda :: "string list"
  ts_cuda_mentioned :: "string list"
  ts_ids :: "string list"
  ts_counts :: "(string \<times> nat) list"
  ts_in_readme :: "string list"
  ts_mlx :: bool
  ts_mps :: bool
  ts_entry_points :: "string list"
  ts_last_commit :: string

definition name_tokens :: "string \<Rightarrow> string list" where
  "name_tokens s = filter (\<lambda>t. length t > 2) (cut_words (\<lambda>c. \<not> is_token_char c) (lower s))"

definition headline_score :: "string \<Rightarrow> (string \<times> nat) list \<Rightarrow> string list \<Rightarrow> string \<Rightarrow> int" where
  "headline_score repo counts readme i =
     (if i \<in> set readme then 3 else 0) + int (min (get_or 1 counts i) 5) +
     (if list_ex (\<lambda>t. t \<in> set (name_tokens repo)) (name_tokens i) then 2 else 0)"

definition headline :: "string \<Rightarrow> string list \<Rightarrow> (string \<times> nat) list \<Rightarrow> string list \<Rightarrow> string list" where
  "headline repo ids counts readme = sort_key (\<lambda>i. (- headline_score repo counts readme i, int (length i))) ids"

definition sized_ids :: "string \<Rightarrow> tree_scan \<Rightarrow> string list" where
  "sized_ids repo found =
     (let half = max 1 (SIZE_LIMIT div 2)
      in rev (remdups (rev (take half (sort_key length (ts_ids found)) @
           take half (headline repo (ts_ids found) (ts_counts found) (ts_in_readme found))))))"

definition size_step :: "(string \<Rightarrow> int \<times> string) \<Rightarrow> fitted \<Rightarrow> string \<Rightarrow> fitted" where
  "size_step facts f i =
     (let (sz, lane) = facts i; f' = (if lane \<noteq> [] then f\<lparr>ft_lanes := dict_put i lane (ft_lanes f)\<rparr> else f)
      in if sz > 0 then f'\<lparr>ft_weights := dict_put i sz (ft_weights f')\<rparr> else f'\<lparr>ft_unsized := ft_unsized f' @ [i]\<rparr>)"

text \<open>\<open>max(..., default=0)\<close> and \<open>min(..., default=0)\<close>.\<close>

definition max_or_0 :: "int list \<Rightarrow> int" where
  "max_or_0 xs = (case xs of [] \<Rightarrow> 0 | x # rest \<Rightarrow> foldl max x rest)"

definition min_or_0 :: "int list \<Rightarrow> int" where
  "min_or_0 xs = (case xs of [] \<Rightarrow> 0 | x # rest \<Rightarrow> foldl min x rest)"

definition fit_of_source :: "inspect_env \<Rightarrow> string \<Rightarrow> repo_meta \<Rightarrow> tree_scan \<Rightarrow> (string \<Rightarrow> int \<times> string) \<Rightarrow> fitted" where
  "fit_of_source e repo meta found facts =
     (let f = (new_fit repo GITHUB)\<lparr>ft_source_kb := rm_size_kb meta, ft_description := take 200 (rm_description meta),
            ft_card := repo_facts (ie_paper e) (rm_description meta) (rm_topics meta) [], ft_last_commit := strip (ts_last_commit found),
            ft_mlx := ts_mlx found, ft_mps := ts_mps found, ft_cuda := ts_cuda found, ft_entry_points := ts_entry_points found,
            ft_cuda_mentioned := ts_cuda_mentioned found,
            ft_headline := headline repo (ts_ids found) (ts_counts found) (ts_in_readme found)\<rparr>;
          picked = sized_ids repo found; g = foldl (size_step facts) f picked
      in g\<lparr>ft_unsized := ft_unsized g @ filter (\<lambda>i. i \<notin> set picked) (ts_ids found),
           ft_largest := max_or_0 (map snd (ft_weights g)), ft_smallest := min_or_0 (map snd (ft_weights g))\<rparr>)"

text \<open>\<open>inspect\<close>: a tree too large to be source is refused unread; \<^const>\<open>None\<close> when the clone failed.\<close>

definition inspect_source ::
    "inspect_env \<Rightarrow> string \<Rightarrow> repo_meta \<Rightarrow> tree_scan option \<Rightarrow> (string \<Rightarrow> int \<times> string) \<Rightarrow> fitted option" where
  "inspect_source e repo meta found facts =
     (if rm_size_kb meta > CLONE_KB_CAP
      then Some (judged ''too-big'' (SourceOver (rm_size_kb meta))
             ((new_fit repo GITHUB)\<lparr>ft_source_kb := rm_size_kb meta, ft_description := take 200 (rm_description meta),
                ft_card := repo_facts (ie_paper e) (rm_description meta) (rm_topics meta) []\<rparr>))
      else case found of None \<Rightarrow> None | Some t \<Rightarrow> Some (decide_fit e (fit_of_source e repo meta t facts)))"

end
