(* ===== verification/InspectPass.thy ===== *)
theory InspectPass
  imports Inspect Proposals
begin

text \<open>
  The pass that reads candidates before their weights are fetched (\<open>_report_inspect\<close> in \<open>harness/commands/discover.py\<close>) and
  what it writes: the sighting, the size, the lane and the card of each (\<open>memory_store/cards.py\<close>), one verdict where the
  reading is an answer, and the weights a source tree queues. Each registry answers with the thing, that there is no such
  thing, or not at all. One time is read for a whole pass, and nobody else writes meanwhile. The columns of a card that the
  proposals of the model do not have are a table beside them.
\<close>

section \<open>The card of a proposal\<close>

record card_columns =
  cc_task :: string
  cc_library :: string
  cc_tags :: "string list"
  cc_runtime_needed :: string
  cc_read :: string
  cc_model_type :: string
  cc_remote_code :: string

record card_table =
  ct_columns :: "(nat \<times> card_columns) list"
  ct_lineage :: "(nat \<times> string \<times> string) list"

definition set_card :: "string \<Rightarrow> model_card \<Rightarrow> string \<Rightarrow> db \<times> card_table \<Rightarrow> bool \<times> db \<times> card_table" where
  "set_card name c read world =
     (case world of (d, t) \<Rightarrow>
        (case proposal_named d name of
           None \<Rightarrow> (False, d, t)
         | Some p \<Rightarrow>
             (True,
              d\<lparr>proposals := update_row p_id (p_id p)
                  (\<lambda>q. q\<lparr>p_attaches_to := cd_attaches_to c,
                         p_lane_source := (if cd_lane c \<noteq> [] \<and> canonical (p_lane p) = canonical (cd_lane c) then cd_lane_source c else p_lane_source q),
                         p_category := (if cd_category c \<noteq> [] then cd_category c else p_category q)\<rparr>) (proposals d)\<rparr>,
              \<lparr>ct_columns = dict_put (p_id p)
                  \<lparr>cc_task = cd_task c, cc_library = cd_library c, cc_tags = cd_tags c, cc_runtime_needed = cd_runtime_needed c, cc_read = read,
                   cc_model_type = cd_model_type c, cc_remote_code = cd_remote_code c\<rparr> (ct_columns t),
               ct_lineage = filter (\<lambda>(i, x). i \<noteq> p_id p) (ct_lineage t) @ map (\<lambda>x. (p_id p, x)) (rev (remdups (rev (cd_parents c))))\<rparr>)))"

definition parents_of :: "db \<times> card_table \<Rightarrow> string \<Rightarrow> (string \<times> string) list" where
  "parents_of world name =
     (case proposal_named (fst world) name of
        None \<Rightarrow> [] | Some p \<Rightarrow> map snd (filter (\<lambda>(i, x). i = p_id p) (ct_lineage (snd world))))"

section \<open>The work\<close>

text \<open>\<open>names[i::n]\<close>.\<close>

fun stride :: "nat \<Rightarrow> nat \<Rightarrow> 'a list \<Rightarrow> 'a list" where
  "stride i n [] = []"
| "stride 0 n (x # xs) = x # stride (n - 1) n xs"
| "stride (Suc i) n (x # xs) = stride i n xs"

text \<open>\<open>shard\<close>: \<^const>\<open>None\<close> is its \<open>SystemExit\<close>.\<close>

definition shard :: "'a list \<Rightarrow> string \<Rightarrow> 'a list option" where
  "shard names spec =
     (if spec = [] then Some names
      else if CHR ''/'' \<notin> set spec then None
      else (case partition_at CHR ''/'' spec of
              (a, b) \<Rightarrow>
                (case (py_int a, py_int b) of
                   (Some i, Some n) \<Rightarrow> if n < 1 \<or> \<not> (0 \<le> i \<and> i < n) then None else Some (stride (nat i) (nat n) names)
                 | _ \<Rightarrow> None)))"

datatype hub_answer = HubCard hub_card | HubGone | HubFailed
datatype repo_answer = RepoMeta repo_meta | RepoGone | RepoFailed
datatype whence = OnHub hub_card | OnGithub repo_meta | GoneFromBoth | NobodyKnows

text \<open>\<open>resolve_registry\<close>: only two clear noes say that there is no such thing.\<close>

definition resolve_registry :: "hub_answer \<Rightarrow> repo_answer \<Rightarrow> whence" where
  "resolve_registry hub gh =
     (case hub of
        HubCard c \<Rightarrow> OnHub c
      | _ \<Rightarrow> (case gh of
               RepoMeta m \<Rightarrow> OnGithub m
             | RepoGone \<Rightarrow> if hub = HubGone then GoneFromBoth else NobodyKnows
             | RepoFailed \<Rightarrow> NobodyKnows))"

section \<open>The state of a pass\<close>

record pass_env =
  pe_inspect :: inspect_env
  pe_now :: rat
  pe_machine :: "nat option"
  pe_hub :: "string \<Rightarrow> hub_answer"
  pe_gh :: "string \<Rightarrow> repo_answer"
  pe_source :: "string \<Rightarrow> tree_scan option"
  pe_sizes :: "string \<Rightarrow> int \<times> string"
  pe_wording :: "fit_verdict \<Rightarrow> string"

record pass_decision =
  pd_name :: string
  pd_outcome :: string
  pd_reason :: string
  pd_until :: string

record pass_state =
  ps_db :: db
  ps_cards :: card_table
  ps_fits :: "fitted list"
  ps_decided :: "pass_decision list"
  ps_raised :: "store_error option"

text \<open>\<open>except IllegalTransition\<close>, and with \<open>except KeyError\<close> beside it.\<close>

fun illegal_only :: "store_error \<Rightarrow> bool" where
  "illegal_only (Illegal r) = True"
| "illegal_only (NotSaidWhy w) = True"
| "illegal_only _ = False"

fun unknown_or_illegal :: "store_error \<Rightarrow> bool" where
  "unknown_or_illegal (NoProposal n) = True"
| "unknown_or_illegal e = illegal_only e"

definition decide_at_inspect :: "pass_env \<Rightarrow> (store_error \<Rightarrow> bool) \<Rightarrow> string \<Rightarrow> string \<Rightarrow> decision \<Rightarrow> pass_state \<Rightarrow> pass_state" where
  "decide_at_inspect e caught_here name outcome k st =
     (case decide alone (pe_now e) (pe_machine e) name outcome (k\<lparr>k_tier := ''inspect''\<rparr>) (ps_db st) of
        (Inr v, d') \<Rightarrow>
          st\<lparr>ps_db := d', ps_decided := ps_decided st @ [\<lparr>pd_name = name, pd_outcome = outcome, pd_reason = k_reason k, pd_until = k_until k\<rparr>]\<rparr>
      | (Inl err, d') \<Rightarrow> st\<lparr>ps_db := d', ps_raised := (if caught_here err then ps_raised st else Some err)\<rparr>)"

definition saw :: "pass_env \<Rightarrow> seen \<Rightarrow> int \<Rightarrow> string \<Rightarrow> pass_state \<Rightarrow> pass_state" where
  "saw e s sz source st =
     st\<lparr>ps_db := snd (set_lane (n_name s) (n_lane s) source (snd (set_size (n_name s) sz (snd (record_seen (pe_now e) (pe_machine e) s (ps_db st))))))\<rparr>"

definition put_card :: "string \<Rightarrow> model_card \<Rightarrow> pass_state \<Rightarrow> pass_state" where
  "put_card name c st =
     (case set_card name c ''card'' (ps_db st, ps_cards st) of (written, d, t) \<Rightarrow> st\<lparr>ps_db := d, ps_cards := t\<rparr>)"

section \<open>What one reading writes\<close>

definition sighting_of :: "pass_env \<Rightarrow> string \<Rightarrow> string \<Rightarrow> fitted \<Rightarrow> seen" where
  "sighting_of e registry repo f =
     \<lparr>n_name = repo, n_source = ''inspect'',
      n_url = (if registry = HUGGINGFACE then ''https://huggingface.co/'' @ repo else ''https://github.com/'' @ repo),
      n_why = pe_wording e (ft_why f), n_relevance = 0, n_kind = (if registry = HUGGINGFACE then ''weights'' else ''repo''),
      n_lane = get_or [] (ft_lanes f) repo, n_resolved = repo, n_registry = registry, n_description = ft_description f,
      n_lane_source = cd_lane_source (ft_card f), n_category = []\<rparr>"

definition fit_outcome :: "fitted \<Rightarrow> string" where
  "fit_outcome f = get_or ''declined'' [(''fits'', ''queued''), (''unknown'', [])] (ft_verdict f)"

definition fit_decision :: "pass_env \<Rightarrow> fitted \<Rightarrow> decision" where
  "fit_decision e f =
     no_decision\<lparr>k_size_bytes := (if ft_verdict f = ''fits'' then ft_largest f else 0), k_idle_days := ft_idle_days f,
       k_reason := reason_of f, k_until := until_of f, k_detail := take 200 (ft_verdict f @ '': '' @ pe_wording e (ft_why f))\<rparr>"

definition unless_stopped :: "(pass_state \<Rightarrow> pass_state) \<Rightarrow> pass_state \<Rightarrow> pass_state" where
  "unless_stopped g st = (if ps_raised st = None then g st else st)"

definition weight_sighting :: "string \<Rightarrow> fitted \<Rightarrow> string \<Rightarrow> seen" where
  "weight_sighting repo f m =
     \<lparr>n_name = m, n_source = ''inspect'', n_url = ''https://huggingface.co/'' @ m, n_why = ''named by '' @ repo, n_relevance = 0,
      n_kind = ''weights'', n_lane = get_or [] (ft_lanes f) m, n_resolved = m, n_registry = HUGGINGFACE, n_description = [],
      n_lane_source = [], n_category = ''model''\<rparr>"

definition link_needs :: "string \<Rightarrow> string \<Rightarrow> pass_state \<Rightarrow> pass_state" where
  "link_needs repo m st =
     (case link repo m ''needs'' [] None None None (ps_db st) of
        (Inl err, d') \<Rightarrow> st\<lparr>ps_db := d', ps_raised := Some err\<rparr> | (Inr u, d') \<Rightarrow> st\<lparr>ps_db := d'\<rparr>)"

definition queue_weight :: "pass_env \<Rightarrow> string \<Rightarrow> fitted \<Rightarrow> pass_state \<Rightarrow> string \<Rightarrow> pass_state" where
  "queue_weight e repo f st m =
     (let sz = get_or 0 (ft_weights f) m; lane = get_or [] (ft_lanes f) m
      in if ps_raised st \<noteq> None \<or> sz > ie_ceiling (pe_inspect e) then st
         else unless_stopped (decide_at_inspect e illegal_only m ''queued''
                (no_decision\<lparr>k_size_bytes := sz, k_reason := ''candidate'',
                   k_detail := ''lane='' @ (if lane \<noteq> [] then lane else ''-'') @ '' named by '' @ repo\<rparr>))
                (link_needs repo m (saw e (weight_sighting repo f m) sz [] st)))"

definition retire_others :: "pass_env \<Rightarrow> string \<Rightarrow> string list \<Rightarrow> pass_state \<Rightarrow> pass_state" where
  "retire_others e repo kept st =
     (case retire_unlisted (pe_now e) (pe_machine e) repo kept ''needs'' ''no longer among this repo's top-ranked weights'' ''ignored'' (ps_db st) of
        (Inl err, d') \<Rightarrow> st\<lparr>ps_db := d', ps_raised := Some err\<rparr> | (Inr gone, d') \<Rightarrow> st\<lparr>ps_db := d'\<rparr>)"

definition queue_weights :: "pass_env \<Rightarrow> string \<Rightarrow> fitted \<Rightarrow> pass_state \<Rightarrow> pass_state" where
  "queue_weights e repo f st =
     (let top3 = take 3 (filter (\<lambda>m. m \<in> set (map fst (ft_weights f))) (ft_headline f))
      in foldl (queue_weight e repo f) (retire_others e repo top3 st) top3)"

definition write_fit :: "pass_env \<Rightarrow> string \<Rightarrow> string \<Rightarrow> fitted \<Rightarrow> pass_state \<Rightarrow> pass_state" where
  "write_fit e registry repo f st0 =
     (let st1 = put_card repo (ft_card f)
            (saw e (sighting_of e registry repo f) (ft_largest f) (cd_lane_source (ft_card f)) (st0\<lparr>ps_fits := ps_fits st0 @ [f]\<rparr>));
          st2 = (if fit_outcome f = [] then st1 else decide_at_inspect e illegal_only repo (fit_outcome f) (fit_decision e f) st1)
      in if ft_verdict f \<noteq> ''fits'' \<or> registry = HUGGINGFACE then st2 else unless_stopped (queue_weights e repo f) st2)"

definition gone_decision :: "string \<Rightarrow> decision" where
  "gone_decision text = no_decision\<lparr>k_detail := take 200 text, k_reason := ''upstream''\<rparr>"

section \<open>One item of work\<close>

definition inspect_hub_item :: "pass_env \<Rightarrow> string \<Rightarrow> hub_answer \<Rightarrow> pass_state \<Rightarrow> pass_state" where
  "inspect_hub_item e repo answer st =
     (case answer of
        HubCard c \<Rightarrow> write_fit e HUGGINGFACE repo (inspect_model (pe_inspect e) repo c) st
      | HubGone \<Rightarrow> decide_at_inspect e unknown_or_illegal repo ''broken'' (gone_decision (repo @ '': the registry has no model by that name'')) st
      | HubFailed \<Rightarrow> st)"

definition inspect_source_item :: "pass_env \<Rightarrow> string \<Rightarrow> string \<Rightarrow> repo_answer \<Rightarrow> pass_state \<Rightarrow> pass_state" where
  "inspect_source_item e registry repo answer st =
     (case answer of
        RepoMeta m \<Rightarrow>
          (case inspect_source (pe_inspect e) repo m (pe_source e repo) (pe_sizes e) of
             None \<Rightarrow> st
           | Some f \<Rightarrow> write_fit e registry repo f st)
      | _ \<Rightarrow> st)"

text \<open>The base at the bottom of a method's spec. Each base is shorter than its spec; the length of the spec is fuel enough.\<close>

fun method_root :: "nat \<Rightarrow> string \<Rightarrow> string" where
  "method_root 0 spec = spec"
| "method_root (Suc n) spec = (if is_method spec \<and> base_of spec \<noteq> [] then method_root n (base_of spec) else spec)"

definition answer_method :: "pass_env \<Rightarrow> string \<Rightarrow> pass_state \<Rightarrow> pass_state" where
  "answer_method e spec st =
     (case proposal_named (ps_db st) (method_root (length spec) spec) of
        None \<Rightarrow> st
      | Some p \<Rightarrow>
          (case held_verdict (ps_db st) p of
             None \<Rightarrow> st
           | Some v \<Rightarrow>
               if v_tier v \<noteq> ''inspect'' then st
               else decide_at_inspect e unknown_or_illegal spec (v_outcome v)
                 (no_decision\<lparr>k_size_bytes := v_size_bytes v, k_reason := v_reason v, k_until := v_until v, k_idle_days := v_idle_days v,
                    k_detail := take 200 (''from its base '' @ p_name p @ '': '' @ v_detail v)\<rparr>)
                 (st\<lparr>ps_db := snd (set_size spec (p_size_bytes p) (ps_db st))\<rparr>)))"

definition route_item :: "pass_env \<Rightarrow> string \<Rightarrow> string \<Rightarrow> pass_state \<Rightarrow> pass_state" where
  "route_item e registry repo st = st\<lparr>ps_db := snd (set_registry repo registry (ps_db st))\<rparr>"

definition inspect_item :: "pass_env \<Rightarrow> pass_state \<Rightarrow> string \<times> string \<Rightarrow> pass_state" where
  "inspect_item e st item =
     (case item of (repo, registry) \<Rightarrow>
        if ps_raised st \<noteq> None then st
        else if is_method repo then answer_method e repo st
        else if registry = HUGGINGFACE then inspect_hub_item e repo (pe_hub e repo) st
        else if registry \<noteq> [] then inspect_source_item e registry repo (pe_gh e repo) st
        else (case resolve_registry (pe_hub e repo) (pe_gh e repo) of
                OnHub c \<Rightarrow> inspect_hub_item e repo (HubCard c) (route_item e HUGGINGFACE repo st)
              | OnGithub m \<Rightarrow> inspect_source_item e GITHUB repo (RepoMeta m) (route_item e GITHUB repo st)
              | GoneFromBoth \<Rightarrow>
                  decide_at_inspect e illegal_only repo ''broken'' (gone_decision (repo @ '': neither registry has anything by that name'')) st
              | NobodyKnows \<Rightarrow> st))"

definition inspect_pass :: "pass_env \<Rightarrow> (string \<times> string) list \<Rightarrow> db \<Rightarrow> card_table \<Rightarrow> pass_state" where
  "inspect_pass e work d t =
     foldl (inspect_item e) \<lparr>ps_db = d, ps_cards = t, ps_fits = [], ps_decided = [], ps_raised = None\<rparr> work"

text \<open>\<open>_in_fetch_order\<close>, and the work when it comes from the store: each registry's own, then what no registry is known for.\<close>

definition in_fetch_order :: "string list \<Rightarrow> (string \<times> string) list \<Rightarrow> (string \<times> string) list" where
  "in_fetch_order ranked work = sort_key (\<lambda>x. index_of (fst x) ranked) work"

definition work_from_store :: "nat \<Rightarrow> string list \<Rightarrow> db \<Rightarrow> (string \<times> string) list" where
  "work_from_store page ranked d =
     in_fetch_order ranked
       (concat (map (\<lambda>r. map (\<lambda>n. (n, r)) (pending d (page * 5) (Some r) False)) REGISTRIES) @
        map (\<lambda>n. (n, [])) (pending d (page * 5) (Some []) False))"

end
