(* ===== verification/Revisit.thy ===== *)
theory Revisit
  imports Inspect Machines
begin

text \<open>
  When a settled verdict is asked again (\<open>memory_store/revisit.py\<close>) and the machine it is asked on
  (\<open>this_machine\<close> of \<open>memory_store/machines.py\<close>): the condition a verdict waits on, the verdicts whose condition this
  machine meets, their way back to the inspect tier, and the receipts that are gone. A facts dictionary is a record; a limit
  nobody put in it is one of this harness's own, \<open>own_limits\<close>. \<open>other\<close> reads the spellings of a number that are no plain decimal.
\<close>

section \<open>This machine\<close>

text \<open>\<open>this_machine\<close>, of what the probes of the environment answered.\<close>

record probed =
  pr_hw_model :: string
  pr_os :: string
  pr_arch :: string
  pr_memory_gb :: rat
  pr_accelerator :: string
  pr_runtimes :: "string list"
  pr_ceiling :: int
  pr_versions :: "(string \<times> string) list"

definition this_machine :: "probed option \<Rightarrow> held_facts" where
  "this_machine probe =
     (case probe of
        None \<Rightarrow> \<lparr>hf_fingerprint = fingerprint [] [] [], hf_hw_model = [], hf_os = [], hf_arch = [], hf_memory_gb = 0, hf_accelerator = [],
                hf_runtimes = [], hf_ceiling_gb = 0, hf_versions = [], hf_limits = None, hf_last_commit = []\<rparr>
      | Some p \<Rightarrow>
          \<lparr>hf_fingerprint = fingerprint (pr_hw_model p) (pr_os p) (pr_arch p), hf_hw_model = pr_hw_model p, hf_os = pr_os p, hf_arch = pr_arch p,
           hf_memory_gb = pr_memory_gb p, hf_accelerator = pr_accelerator p, hf_runtimes = join '','' (sort (pr_runtimes p)),
           hf_ceiling_gb = of_int (pr_ceiling p) / GIB, hf_versions = pr_versions p, hf_limits = None, hf_last_commit = []\<rparr>)"

section \<open>Conditions\<close>

text \<open>\<open>_version_tuple\<close>; tuples compare as lists do.\<close>

definition version_tuple :: "string \<Rightarrow> nat list option" where
  "version_tuple v =
     (let parts = split_at CHR ''.'' v in if list_all isdigit parts then Some (map nat_of_digits parts) else None)"

text \<open>\<open>_ISO_DATE\<close>: begins with a date.\<close>

definition iso_date :: "string \<Rightarrow> bool" where
  "iso_date s \<longleftrightarrow>
     10 \<le> length s \<and> list_all is_digit (take 4 s) \<and> s ! 4 = CHR ''-'' \<and> list_all is_digit (take 2 (drop 5 s)) \<and>
     s ! 7 = CHR ''-'' \<and> list_all is_digit (take 2 (drop 8 s))"

definition more_than :: "(string \<Rightarrow> rat option) \<Rightarrow> rat \<Rightarrow> string \<Rightarrow> bool" where
  "more_than other have want = (case float_of other want of None \<Rightarrow> False | Some x \<Rightarrow> have > x)"

definition until_met :: "(string \<Rightarrow> rat option) \<Rightarrow> (string \<times> rat) list \<Rightarrow> string \<Rightarrow> held_facts \<Rightarrow> bool" where
  "until_met other own_limits until facts =
     (case partition_at CHR '':'' until of
        (key, want) \<Rightarrow>
          if until = [] then False
          else if key = ''runtime'' then
            list_ex (\<lambda>rt. rt \<in> set (split_at CHR '','' (hf_runtimes facts))) (split_at CHR ''|'' want)
          else if key = ''memory_gb'' \<and> prefix ''>'' want then more_than other (hf_memory_gb facts) (tl want)
          else if key = ''ceiling_gb'' \<and> prefix ''>'' want then more_than other (hf_ceiling_gb facts) (tl want)
          else if key = ''version'' \<and> CHR ''>'' \<in> set want then
            (case partition_at CHR ''>'' want of
               (pkg, least) \<Rightarrow>
                 (case (version_tuple (get_or [] (hf_versions facts) pkg), version_tuple least) of
                    (Some a, Some b) \<Rightarrow> a > b
                  | _ \<Rightarrow> False))
          else if key = ''limit'' \<and> CHR ''>'' \<in> set want then
            (case partition_at CHR ''>'' want of
               (name, least) \<Rightarrow>
                 (case map_of (case hf_limits facts of Some l \<Rightarrow> l | None \<Rightarrow> own_limits) name of
                    None \<Rightarrow> False
                  | Some have \<Rightarrow> more_than other have least))
          else if key = ''commit_after'' then
            (let seen = strip (hf_last_commit facts) in iso_date seen \<and> iso_date want \<and> seen > want)
          else False)"

section \<open>Verdicts whose condition is met\<close>

definition due_here :: "(string \<Rightarrow> bool) \<Rightarrow> db \<Rightarrow> proposal \<Rightarrow> bool" where
  "due_here met d p =
     (case held_verdict d p of
        None \<Rightarrow> False
      | Some v \<Rightarrow> v_until v \<noteq> [] \<and> v_outcome v \<in> set TERMINAL \<and> met (v_until v))"

definition revisitable :: "(string \<Rightarrow> bool) \<Rightarrow> db \<Rightarrow> (string \<times> string) list" where
  "revisitable met d =
     List.map_filter (\<lambda>p. if due_here met d p then map_option (\<lambda>v. (p_name p, v_until v)) (held_verdict d p) else None) (proposals d)"

text \<open>\<open>requeue_revisitable\<close>: each goes back to the inspect tier; an exception ends the pass.\<close>

fun requeue_each :: "(nat \<Rightarrow> db \<Rightarrow> db) \<Rightarrow> rat \<Rightarrow> nat option \<Rightarrow> (string \<times> string) list \<Rightarrow> db \<Rightarrow> (store_error + string list) \<times> db" where
  "requeue_each others now machine [] d = (Inr [], d)"
| "requeue_each others now machine ((name, until) # rest) d =
     (case retract others now machine name (until @ '' is met here'') ''queued'' ''inspect'' [] d of
        (Inl err, d') \<Rightarrow> (Inl err, d')
      | (Inr vid, d') \<Rightarrow>
          (case requeue_each others now machine rest d' of
             (Inl err, d'') \<Rightarrow> (Inl err, d'')
           | (Inr names, d'') \<Rightarrow> (Inr (name # names), d'')))"

definition requeue_revisitable ::
    "(nat \<Rightarrow> db \<Rightarrow> db) \<Rightarrow> rat \<Rightarrow> nat option \<Rightarrow> (string \<Rightarrow> bool) \<Rightarrow> db \<Rightarrow> (store_error + string list) \<times> db" where
  "requeue_revisitable others now machine met d = requeue_each others now machine (revisitable met d) d"

section \<open>Receipts that are gone\<close>

definition resolved_run_paths :: "string \<Rightarrow> string \<Rightarrow> string list" where
  "resolved_run_paths home run_path =
     (let raw = strip run_path
      in if raw = [] then [] else if prefix ''/'' raw then [raw] else [raw, home @ ''/'' @ raw])"

definition dangling_receipts :: "(string \<Rightarrow> bool) \<Rightarrow> string \<Rightarrow> db \<Rightarrow> (nat \<times> string) list" where
  "dangling_receipts there home d =
     List.map_filter (\<lambda>v.
         if v_run_path v \<noteq> [] \<and> v_run v = None \<and> \<not> list_ex there (resolved_run_paths home (v_run_path v))
         then (case v_proposal v of None \<Rightarrow> None | Some i \<Rightarrow> map_option (\<lambda>p. (v_id v, p_name p)) (row p_id i (proposals d)))
         else None)
       (verdicts d)"

end
