(* ===== verification/RevisitFacts.thy ===== *)
theory RevisitFacts
  imports Revisit ProposalFacts
begin

text \<open>
  What the verdict about a candidate says, and that the condition stored with a refusal is the one that ends it: exactly for
  a missing runtime, up to the rounding of its text for a size. And the way back: a pass leaves no verdict whose condition is met.
\<close>

section \<open>When a candidate fits\<close>

lemma offers_runtimes: "set (offers f) \<subseteq> set RUNTIMES"
  by (auto simp: offers_def RUNTIMES_def)

lemma refuses_offered: "r \<in> set (offers f) \<Longrightarrow> refuses rts r = [] \<longleftrightarrow> r \<in> set rts"
  by (auto simp: refuses_def ALWAYS_def offers_def split: if_splits)

lemma refused_iff:
  "list_all (\<lambda>r. refuses rts r \<noteq> []) (offers f) \<longleftrightarrow> (\<forall>r \<in> set (offers f). r \<notin> set rts)"
  by (simp add: list_all_iff refuses_offered)

definition kept_bytes :: "fitted \<Rightarrow> int" where
  "kept_bytes f = (if ft_ds4 f then ft_resident f else ft_smallest f)"

text \<open>The last commit is known and too old, as it can be told.\<close>

definition idle_too_long :: "inspect_env \<Rightarrow> fitted \<Rightarrow> bool" where
  "idle_too_long e f \<longleftrightarrow>
     (case (if ft_last_commit f = [] then None else ie_stamp e (ft_last_commit f)) of
        None \<Rightarrow> False | Some t \<Rightarrow> (ie_now e - t) / 86400 > ie_dead_days e)"

lemma decide_rest_verdict:
  "ft_verdict (decide_rest f) =
     (if ft_entry_points f = [] \<and> ft_registry f \<noteq> HUGGINGFACE then ''no-entry-point''
      else if ft_unsized f \<noteq> [] \<and> ft_weights f = [] then ''unknown'' else ''fits'')"
  by (simp add: decide_rest_def judged_def)

lemma decide_age_verdict:
  "ft_verdict (decide_age e f) = (if idle_too_long e f then ''dead'' else ft_verdict (decide_rest f))"
  by (cases "if ft_last_commit f = [] then None else ie_stamp e (ft_last_commit f)")
    (simp_all only: decide_age_def idle_too_long_def option.case Let_def, simp_all add: judged_def decide_rest_verdict)

lemma decide_size_verdict:
  "ft_verdict (decide_size e f) =
     (if ft_ds4 f then (if ft_ds4_file f = [] then ''unknown'' else if ft_resident f > ie_ceiling e \<and> \<not> ft_streaming f then ''too-big'' else ''fits'')
      else if ft_smallest f > ie_ceiling e then (if length (ft_unsized f) > length (ft_weights f) then ''unknown'' else ''too-big'')
      else if idle_too_long e f then ''dead''
      else if ft_entry_points f = [] \<and> ft_registry f \<noteq> HUGGINGFACE then ''no-entry-point''
      else if ft_unsized f \<noteq> [] \<and> ft_weights f = [] then ''unknown'' else ''fits'')"
  by (simp add: decide_size_def decide_ds4_def judged_def decide_age_verdict decide_rest_verdict)

lemma decide_verdict:
  "ft_verdict (decide_fit e f) =
     (if offers f \<noteq> [] \<and> (\<forall>r \<in> set (offers f). r \<notin> set (ie_runtimes e)) then ''needs-'' @ hd (offers f)
      else ft_verdict (decide_size e f))"
proof -
  have hd: "offers f \<noteq> [] \<Longrightarrow> \<forall>r \<in> set (offers f). r \<notin> set (ie_runtimes e) \<Longrightarrow> refuses (ie_runtimes e) (hd (offers f)) = ''needs-'' @ hd (offers f)"
    by (auto simp: refuses_def ALWAYS_def offers_def split: if_splits)
  have same: "ft_verdict (decide_size e (f\<lparr>ft_offered := x, ft_cuda_mentioned := y, ft_cuda := z\<rparr>)) = ft_verdict (decide_size e f)" for x y z
    by (simp add: decide_size_verdict idle_too_long_def)
  have same': "ft_verdict (decide_size e (f\<lparr>ft_offered := x\<rparr>)) = ft_verdict (decide_size e f)" for x
    by (simp add: decide_size_verdict idle_too_long_def)
  show ?thesis
    unfolding decide_fit_def Let_def refused_iff
    by (simp add: hd same same' judged_def)
qed

text \<open>
  A candidate is said to fit exactly when something it offers is here, or it asks for nothing; what it keeps in memory is within the
  ceiling, or ds4 can stream it; its upstream is not known to be idle too long; there is something to call, or it is weights;
  and it names no weights or some of them have a size.
\<close>

theorem fits_iff_runnable:
  "ft_verdict (decide_fit e f) = ''fits'' \<longleftrightarrow>
     (offers f = [] \<or> (\<exists>r \<in> set (offers f). r \<in> set (ie_runtimes e))) \<and>
     (if ft_ds4 f then ft_ds4_file f \<noteq> [] \<and> (ft_resident f \<le> ie_ceiling e \<or> ft_streaming f)
      else ft_smallest f \<le> ie_ceiling e \<and> \<not> idle_too_long e f \<and> (ft_registry f = HUGGINGFACE \<or> ft_entry_points f \<noteq> []) \<and>
        (ft_weights f \<noteq> [] \<or> ft_unsized f = []))"
  by (auto simp: decide_verdict decide_size_verdict)

section \<open>A missing runtime\<close>

lemma needs_iff: "prefix ''needs-'' (ft_verdict (decide_fit e f)) \<longleftrightarrow>
    offers f \<noteq> [] \<and> (\<forall>r \<in> set (offers f). r \<notin> set (ie_runtimes e))"
  by (simp add: decide_verdict decide_size_verdict)

lemma until_needs:
  assumes "prefix ''needs-'' (ft_verdict (decide_fit e f))"
  shows "until_of (decide_fit e f) = ''runtime:'' @ join ''|'' (offers f)"
proof -
  have n: "offers f \<noteq> []" "\<forall>r \<in> set (offers f). r \<notin> set (ie_runtimes e)" using assms needs_iff by auto
  then have "decide_fit e f = judged (refuses (ie_runtimes e) (hd (offers f))) (NoRuntimeHere (needs_named (offers f) (f\<lparr>ft_offered := offers f\<rparr>)) (offers f))
      (f\<lparr>ft_offered := offers f\<rparr>)"
    unfolding decide_fit_def Let_def refused_iff by simp
  then have "ft_offered (decide_fit e f) = offers f" by (simp add: judged_def)
  moreover have "join ''|'' (offers f) \<noteq> []"
  proof -
    obtain r rs where r: "offers f = r # rs" using n(1) by (cases "offers f") auto
    then have "r \<noteq> []" using offers_runtimes [of f] by (auto simp: RUNTIMES_def)
    then show ?thesis unfolding r by (cases rs) simp_all
  qed
  ultimately show ?thesis using assms by (simp add: until_of_def Let_def)
qed

lemma runtimes_read_back:
  assumes "ws \<noteq> []" "set ws \<subseteq> insert ALWAYS (set RUNTIMES)"
  shows "split_at CHR ''|'' (join ''|'' ws) = ws" "split_at CHR '','' (join '','' ws) = ws"
  using assms by (intro split_at_join; auto simp: RUNTIMES_def ALWAYS_def)+

lemma until_met_runtime:
  assumes "prefix ''needs-'' (ft_verdict (decide_fit e f))"
  shows "until_met other own (until_of (decide_fit e f)) (this_machine (Some (m\<lparr>pr_runtimes := detected has\<rparr>))) \<longleftrightarrow>
    (\<exists>r \<in> set (offers f). r \<in> set (detected has))"
proof -
  have part: "partition_at CHR '':'' (''runtime:'' @ x) = (''runtime'', x)" for x by simp
  have o: "split_at CHR ''|'' (join ''|'' (offers f)) = offers f"
    using assms offers_runtimes [of f] by (intro runtimes_read_back(1)) (auto simp: needs_iff)
  have "sort (detected has) \<noteq> []"
    by (metis append_is_Nil_conv detected_def length_0_conv length_sort list.distinct(1))
  then have "split_at CHR '','' (join '','' (sort (detected has))) = sort (detected has)"
    by (rule runtimes_read_back(2)) (auto simp: detected_def)
  then have r: "set (split_at CHR '','' (hf_runtimes (this_machine (Some (m\<lparr>pr_runtimes := detected has\<rparr>))))) = set (detected has)"
    by (simp add: this_machine_def)
  show ?thesis unfolding until_needs [OF assms] until_met_def part by (simp add: o r list_ex_iff)
qed

text \<open>
  C32. What a refusal for a missing runtime waits on is exactly what ends it: on any machine, whatever its ceiling and the clock there, the
  condition is met if and only if the same reading of the candidate is no longer refused for a runtime.
\<close>

theorem needs_end_exactly_when_met:
  assumes "prefix ''needs-'' (ft_verdict (decide_fit e f))"
  shows "until_met other own (until_of (decide_fit e f)) (this_machine (Some (m\<lparr>pr_runtimes := detected has\<rparr>))) \<longleftrightarrow>
    \<not> prefix ''needs-'' (ft_verdict (decide_fit (e'\<lparr>ie_runtimes := detected has\<rparr>) f))"
proof -
  have "offers f \<noteq> []" using assms by (simp add: needs_iff)
  then show ?thesis unfolding until_met_runtime [OF assms] needs_iff by auto
qed

section \<open>A size over the ceiling\<close>

lemma round_to_near: "\<bar>round_to 1 x - x\<bar> \<le> 1 / 20"
proof -
  have "\<bar>of_int (py_round (x * 10)) - x * 10\<bar> \<le> 1 / 2" by (rule py_round_near)
  moreover have "round_to 1 x = of_int (py_round (x * 10)) / 10" by (simp add: round_to_def)
  ultimately show ?thesis unfolding abs_le_iff by linarith
qed

lemma not_space_digits: "list_all is_digit a \<Longrightarrow> list_all is_digit b \<Longrightarrow> strip (a @ ''.'' @ b) = a @ ''.'' @ b"
  by (rule strip_no_space) (auto simp: list_all_iff is_digit_def is_space_def less_eq_char_def)

text \<open>What is written with one decimal is read back as the rounded number.\<close>

lemma float_of_fixed1:
  assumes "0 \<le> x"
  shows "float_of other (fixed1 x) = Some (round_to 1 x)"
proof -
  define n where "n = nat (py_round (x * 10))"
  have "0 \<le> py_round (x * 10)" using py_round_mono [of 0 "x * 10"] assms py_round_of_int [of 0] by simp
  then have r: "round_to 1 x = of_nat n / 10" by (simp add: round_to_def n_def of_nat_nat)
  have d: "isdigit (decimal (n div 10))" "isdigit [digit n]" using decimal_digits by (simp_all add: isdigit_def)
  have dot: "CHR ''.'' \<notin> set (decimal (n div 10))"
    using decimal_chars [of "CHR ''.''" "n div 10"] by (auto simp: is_digit_def less_eq_char_def)
  have f: "fixed1 x = decimal (n div 10) @ ''.'' @ [digit n]" by (simp add: fixed1_def n_def Let_def)
  have s: "strip (fixed1 x) = fixed1 x" unfolding f using d by (intro not_space_digits) (simp_all add: isdigit_def)
  have p: "partition_at CHR ''.'' (fixed1 x) = (decimal (n div 10), [digit n])"
    unfolding f using partition_at_append [OF dot, of "[digit n]"] by simp
  have v: "nat_of_digits [digit n] = n mod 10" by (simp add: nat_of_digits_def digit_value_digit)
  have "(of_nat n :: rat) = 10 * of_nat (n div 10) + of_nat (n mod 10)"
    using mult_div_mod_eq [of 10 n] by (metis of_nat_add of_nat_mult of_nat_numeral)
  then have "(of_nat (n div 10) :: rat) + of_nat (n mod 10) / 10 = of_nat n / 10" by simp
  then have "of_nat (nat_of_digits (decimal (n div 10))) + of_nat (nat_of_digits [digit n]) / 10 ^ length [digit n] = round_to 1 x"
    unfolding r v by simp
  then show ?thesis unfolding float_of_def s p prod.case using d by (simp only: simp_thms if_True)
qed

lemma too_big_parts:
  assumes "ft_verdict (decide_fit e f) = ''too-big''"
  shows "ie_ceiling e < kept_bytes f" "ft_ds4 (decide_fit e f) = ft_ds4 f" "ft_resident (decide_fit e f) = ft_resident f"
    "ft_smallest (decide_fit e f) = ft_smallest f"
proof -
  show "ie_ceiling e < kept_bytes f"
    using assms by (auto simp: decide_verdict decide_size_verdict kept_bytes_def split: if_splits)
  have a: "ft_ds4 (decide_rest g) = ft_ds4 g \<and> ft_resident (decide_rest g) = ft_resident g \<and> ft_smallest (decide_rest g) = ft_smallest g" for g
    by (simp add: decide_rest_def judged_def)
  have b: "ft_ds4 (decide_age e g) = ft_ds4 g \<and> ft_resident (decide_age e g) = ft_resident g \<and> ft_smallest (decide_age e g) = ft_smallest g" for g
    by (simp add: decide_age_def judged_def a Let_def split: option.split)
  have c: "ft_ds4 (decide_size e g) = ft_ds4 g \<and> ft_resident (decide_size e g) = ft_resident g \<and> ft_smallest (decide_size e g) = ft_smallest g" for g
    by (simp add: decide_size_def decide_ds4_def judged_def b)
  show "ft_ds4 (decide_fit e f) = ft_ds4 f" "ft_resident (decide_fit e f) = ft_resident f" "ft_smallest (decide_fit e f) = ft_smallest f"
    by (simp_all add: decide_fit_def judged_def c Let_def)
qed

lemma until_met_ceiling:
  assumes "ft_verdict (decide_fit e f) = ''too-big''" "0 \<le> ie_ceiling e"
  shows "until_met other own (until_of (decide_fit e f)) facts \<longleftrightarrow> round_to 1 (of_int (kept_bytes f) / GIB) < hf_ceiling_gb facts"
proof -
  have pos: "0 < kept_bytes f" using too_big_parts(1) [OF assms(1)] assms(2) by linarith
  then have u: "until_of (decide_fit e f) = ''ceiling_gb:>'' @ fixed1 (of_int (kept_bytes f) / GIB)"
    using assms(1) by (cases "ft_ds4 f") (simp_all add: until_of_def too_big_parts [OF assms(1)] kept_bytes_def)
  have part: "partition_at CHR '':'' (''ceiling_gb:>'' @ x) = (''ceiling_gb'', CHR ''>'' # x)" for x by simp
  have "0 \<le> of_int (kept_bytes f) / GIB" using pos by (simp add: GIB_def)
  then show ?thesis unfolding until_met_def u part by (simp add: more_than_def float_of_fixed1)
qed

text \<open>
  C37. What a refusal for size waits on is what ends it, up to a twentieth of a GiB: where it is met, and the candidate would still be too big,
  it is too big by no more than that; and a machine whose ceiling is above the size by more than that meets it.
\<close>

theorem too_big_ends_within_rounding:
  assumes "ft_verdict (decide_fit e f) = ''too-big''" "0 \<le> ie_ceiling e"
  shows "(until_met other own (until_of (decide_fit e f)) (this_machine (Some (m\<lparr>pr_ceiling := c\<rparr>))) \<and>
           ft_verdict (decide_fit (e'\<lparr>ie_ceiling := c\<rparr>) f) = ''too-big'' \<longrightarrow> of_int (kept_bytes f - c) < GIB / 20) \<and>
         (GIB / 20 < of_int (c - kept_bytes f) \<longrightarrow>
           until_met other own (until_of (decide_fit e f)) (this_machine (Some (m\<lparr>pr_ceiling := c\<rparr>))))"
proof -
  let ?x = "of_int (kept_bytes f) / GIB" and ?c = "of_int c / GIB"
  have near: "round_to 1 ?x \<le> ?x + 1 / 20" "?x - 1 / 20 \<le> round_to 1 ?x" using round_to_near [of ?x] unfolding abs_le_iff by linarith+
  have met: "until_met other own (until_of (decide_fit e f)) (this_machine (Some (m\<lparr>pr_ceiling := c\<rparr>))) \<longleftrightarrow> round_to 1 ?x < ?c"
    unfolding until_met_ceiling [OF assms] by (simp add: this_machine_def)
  have "round_to 1 ?x < ?c \<Longrightarrow> of_int (kept_bytes f - c) < GIB / 20" using near(2) by (simp add: GIB_def field_simps)
  moreover have "GIB / 20 < of_int (c - kept_bytes f) \<Longrightarrow> round_to 1 ?x < ?c" using near(1) by (simp add: GIB_def field_simps)
  ultimately show ?thesis unfolding met by blast
qed

text \<open>
  A candidate a byte too big for a card of 34193 MB waits on a ceiling over 31.8 GiB, which that card has: it is sent back and
  refused again by every pass.
\<close>

definition small_card :: inspect_env where
  "small_card = \<lparr>ie_now = 0, ie_dead_days = UPSTREAM_DEAD_DAYS, ie_stamp = (\<lambda>_. None), ie_ceiling = 34193000000, ie_runtimes = detected (\<lambda>_. False),
     ie_prose = (\<lambda>_. []), ie_paper = (\<lambda>_. False)\<rparr>"

definition byte_over :: fitted where
  "byte_over = (new_fit ''a/m'' HUGGINGFACE)\<lparr>ft_smallest := 34193000001, ft_largest := 34193000001, ft_weights := [(''a/m'', 34193000001)]\<rparr>"

definition card_facts_here :: probed where
  "card_facts_here = \<lparr>pr_hw_model = [], pr_os = [], pr_arch = [], pr_memory_gb = 0, pr_accelerator = [], pr_runtimes = detected (\<lambda>_. False),
     pr_ceiling = 34193000000, pr_versions = []\<rparr>"

lemma byte_over_too_big: "ft_verdict (decide_fit small_card byte_over) = ''too-big''"
  by (simp add: decide_verdict decide_size_verdict offers_def small_card_def byte_over_def new_fit_def)

lemma rounded_condition_is_met_at_once:
  "ft_verdict (decide_fit small_card byte_over) = ''too-big'' \<and>
   until_met other own (until_of (decide_fit small_card byte_over)) (this_machine (Some card_facts_here))"
proof -
  have "0 \<le> ie_ceiling small_card" by (simp add: small_card_def)
  moreover have "\<lfloor>170965000005 / 536870912 :: rat\<rfloor> = 318" by (simp add: floor_eq_iff)
  then have "round_to 1 (of_int (kept_bytes byte_over) / GIB) < hf_ceiling_gb (this_machine (Some card_facts_here))"
    by (simp add: kept_bytes_def byte_over_def new_fit_def this_machine_def card_facts_here_def GIB_def round_to_def py_round_def Let_def)
  ultimately show ?thesis using until_met_ceiling [OF byte_over_too_big] byte_over_too_big by blast
qed

theorem needs_end_exactly_when_met_witness:
  "until_met (\<lambda>_. None) [] (until_of (decide_fit small_card (byte_over\<lparr>ft_cuda := [''triton'']\<rparr>)))
     (this_machine (Some (card_facts_here\<lparr>pr_runtimes := detected (\<lambda>r. r = ''cuda'')\<rparr>))) \<longleftrightarrow>
   \<not> prefix ''needs-'' (ft_verdict (decide_fit (small_card\<lparr>ie_runtimes := detected (\<lambda>r. r = ''cuda'')\<rparr>) (byte_over\<lparr>ft_cuda := [''triton'']\<rparr>)))"
  by (rule needs_end_exactly_when_met)
    (simp add: decide_verdict offers_def small_card_def byte_over_def new_fit_def detected_def RUNTIMES_def ALWAYS_def)

theorem too_big_ends_within_rounding_witness:
  "until_met (\<lambda>_. None) [] (until_of (decide_fit small_card byte_over)) (this_machine (Some (card_facts_here\<lparr>pr_ceiling := 64000000000\<rparr>)))"
  using too_big_ends_within_rounding [OF byte_over_too_big, where other = "\<lambda>_. None" and own = "[]" and m = card_facts_here and c = 64000000000]
  by (simp add: small_card_def kept_bytes_def byte_over_def new_fit_def GIB_def)

section \<open>Back to the inspect tier\<close>

text \<open>Nobody else writing, a retraction of a proposal that is there always takes, and leaves it queued.\<close>

lemma retract_alone:
  assumes "ladder_inv d" "proposal_named d name = Some p" "strip why \<noteq> []"
  obtains vid where "retract alone now machine name why ''queued'' ''inspect'' until d
      = (Inr vid, snd (retract alone now machine name why ''queued'' ''inspect'' until d))"
    and "\<forall>q \<in> set (proposals (snd (retract alone now machine name why ''queued'' ''inspect'' until d))). p_name q = name \<longrightarrow> p_state q = ''queued''"
proof -
  let ?k = "no_decision\<lparr>k_tier := ''inspect'', k_until := until, k_detail := (if prefix ''retracted:'' why then why else ''retracted: '' @ why),
     k_reopen := RETRACTION, k_reopen_why := why\<rparr>"
  let ?v = "fields_of ''queued'' ?k ''reopened'' now machine"
  have ok: "store_ok d" and nm: "names_ok d" using assms(1) by (simp_all add: ladder_inv_def)
  have p: "p \<in> set (proposals d)" "p_name p = name" using proposal_named_Some [OF assms(2)] by simp_all
  have dist: "distinct (map p_id (proposals d))" using ok by (simp add: store_ok_def)
  have row: "row p_id (p_id p) (proposals d) = Some p" by (rule row_unique [OF dist p(1)])
  have rt: "RETRACTION \<noteq> []" by (simp add: RETRACTION_def)
  have "retract alone now machine name why ''queued'' ''inspect'' until d = write_verdict alone (p_id p) ?v RETRACTION why d"
    using assms(2) rt
    by (simp add: retract_def decide_def no_decision_def VERDICTS_def REASONS_def Let_def)
  also have "\<dots> = write_loop (Suc 7) alone (p_id p) ?v RETRACTION d"
    using assms(3) rt by (simp add: write_verdict_def eval_nat_numeral del: write_loop.simps)
  also have "\<dots> = (Inr (next_id v_id (verdicts d)), commit_move (p_id p) (columns (p_id p) p ?v RETRACTION) RETRACTION d)"
    by (rule write_alone [OF row]) (simp_all add: restates_def rt retraction_never_refused)
  finally have r: "retract alone now machine name why ''queued'' ''inspect'' until d
      = (Inr (next_id v_id (verdicts d)), commit_move (p_id p) (columns (p_id p) p ?v RETRACTION) RETRACTION d)" .
  have "p_state q = ''queued''" if q: "q \<in> set (proposals (commit_move (p_id p) (columns (p_id p) p ?v RETRACTION) RETRACTION d))" "p_name q = name" for q
  proof -
    have "q = moved_row (columns (p_id p) p ?v RETRACTION) RETRACTION (next_id v_id (verdicts d)) p \<or> q \<in> set (proposals d) \<and> p_id q \<noteq> p_id p"
      using q(1) unfolding commit_move_tables(2) [OF dist row] by (auto simp: update_row_def)
    then show ?thesis
    proof
      assume "q \<in> set (proposals d) \<and> p_id q \<noteq> p_id p"
      then have "q = p" using proposal_named_unique [OF nm, of q] proposal_named_unique [OF nm, of p] q(2) p by simp
      with \<open>q \<in> set (proposals d) \<and> p_id q \<noteq> p_id p\<close> show ?thesis by simp
    qed (simp add: fields_of_def)
  qed
  with r show thesis using that by simp
qed

lemma strip_not_Nil: "x \<in> set s \<Longrightarrow> \<not> is_space x \<Longrightarrow> strip s \<noteq> []"
proof -
  assume "x \<in> set s" "\<not> is_space x"
  then have t: "dropWhile is_space s \<noteq> []" by (auto simp: dropWhile_eq_Nil_conv)
  then have "hd (dropWhile is_space s) \<in> set (dropWhile is_space s)" "\<not> is_space (hd (dropWhile is_space s))" by (simp_all add: hd_dropWhile)
  then show ?thesis by (auto simp: strip_def dropWhile_eq_Nil_conv)
qed

lemma requeue_why: "strip (until @ '' is met here'') \<noteq> []"
  by (rule strip_not_Nil [of "CHR ''e''"]) (simp_all add: is_space_def)

lemma same_name: "names_ok d \<Longrightarrow> p \<in> set (proposals d) \<Longrightarrow> q \<in> set (proposals d) \<Longrightarrow> p_name p = p_name q \<Longrightarrow> p = q"
  by (metis option.inject proposal_named_unique)

text \<open>What a pass over a list of names leaves.\<close>

definition requeued :: "string list \<Rightarrow> db \<Rightarrow> db \<Rightarrow> bool" where
  "requeued names d d' \<longleftrightarrow>
     ladder_inv d' \<and> map p_name (proposals d') = map p_name (proposals d) \<and> (\<exists>vs. verdicts d' = verdicts d @ vs) \<and>
     (\<forall>p \<in> set (proposals d). p_name p \<notin> set names \<longrightarrow> p \<in> set (proposals d')) \<and>
     (\<forall>q \<in> set (proposals d'). p_name q \<in> set names \<longrightarrow> p_state q = ''queued'')"

lemma requeued_step:
  assumes "ladder_inv d" "ladder_inv d1" "map p_name (proposals d1) = map p_name (proposals d)" "verdicts d1 = verdicts d @ us"
    and "\<forall>p \<in> set (proposals d). p_name p \<noteq> name \<longrightarrow> p \<in> set (proposals d1)"
    and "\<forall>q \<in> set (proposals d1). p_name q = name \<longrightarrow> p_state q = ''queued''"
    and "requeued names d1 d'" "name \<notin> set names"
  shows "requeued (name # names) d d'"
proof -
  have "p_state q = ''queued''" if q: "q \<in> set (proposals d')" "p_name q = name" for q
  proof -
    have "name \<in> p_name ` set (proposals d1)" using q assms(7) by (metis image_eqI list.set_map requeued_def)
    then obtain q1 where q1: "q1 \<in> set (proposals d1)" "p_name q1 = name" by auto
    then have "q1 \<in> set (proposals d')" using assms(7,8) by (auto simp: requeued_def)
    then have "q1 = q" using same_name q q1 assms(7) by (metis ladder_inv_def requeued_def)
    then show ?thesis using q1 assms(6) by blast
  qed
  then show ?thesis using assms by (auto simp: requeued_def)
qed

lemma requeue_each_alone:
  assumes "ladder_inv d" "distinct (map fst rows)" "set (map fst rows) \<subseteq> p_name ` set (proposals d)"
  shows "fst (requeue_each alone now machine rows d) = Inr (map fst rows) \<and> requeued (map fst rows) d (snd (requeue_each alone now machine rows d))"
  using assms
proof (induction rows arbitrary: d)
  case Nil
  then show ?case by (simp add: requeued_def)
next
  case (Cons r rows)
  obtain name until where r: "r = (name, until)" by (cases r)
  define d1 where "d1 = snd (retract alone now machine name (until @ '' is met here'') ''queued'' ''inspect'' [] d)"
  have "name \<in> p_name ` set (proposals d)" using Cons.prems(3) by (simp add: r)
  then obtain p where p: "proposal_named d name = Some p" using proposal_named_None by (cases "proposal_named d name") auto
  obtain vid where step: "retract alone now machine name (until @ '' is met here'') ''queued'' ''inspect'' [] d = (Inr vid, d1)"
    "\<forall>q \<in> set (proposals d1). p_name q = name \<longrightarrow> p_state q = ''queued''"
    using retract_alone [OF Cons.prems(1) p requeue_why] unfolding d1_def by metis
  have ok: "store_ok d" using Cons.prems(1) by (simp add: ladder_inv_def)
  obtain k where k: "d1 = snd (decide alone now machine name ''queued'' k d)" "k_reopen k \<noteq> RETEST"
    by (simp add: d1_def retract_def Let_def no_decision_def RETEST_def RETRACTION_def)
  have inv: "ladder_inv d1" unfolding k(1) using decide_inv [OF Cons.prems(1) k(2)] .
  have names: "map p_name (proposals d1) = map p_name (proposals d)" unfolding k(1) by (rule decide_alone_rows(1) [OF Cons.prems(1)])
  have others: "\<forall>p \<in> set (proposals d). p_name p \<noteq> name \<longrightarrow> p \<in> set (proposals d1)"
    unfolding k(1) using decide_alone_rows(4) [OF Cons.prems(1)] by blast
  obtain us where us: "verdicts d1 = verdicts d @ us"
    unfolding k(1) using decide_extends [where env = alone, OF alone_extends ok] unfolding extends_def by blast
  have "set (map fst rows) \<subseteq> p_name ` set (proposals d1)"
    using Cons.prems(3) names by (metis list.set_map list.simps(9) set_subset_Cons subset_trans)
  then have ih: "fst (requeue_each alone now machine rows d1) = Inr (map fst rows)"
      "requeued (map fst rows) d1 (snd (requeue_each alone now machine rows d1))"
    using Cons.IH [OF inv] Cons.prems(2) by simp_all
  obtain d' where d': "requeue_each alone now machine rows d1 = (Inr (map fst rows), d')" using ih(1) by (cases "requeue_each alone now machine rows d1") auto
  have "requeued (map fst rows) d1 d'" using ih(2) unfolding d' by simp
  then have "requeued (name # map fst rows) d d'"
    using Cons.prems(2) by (intro requeued_step [OF Cons.prems(1) inv names us others step(2)]) (simp_all add: r)
  moreover have "requeue_each alone now machine (r # rows) d = (Inr (name # map fst rows), d')"
    unfolding r requeue_each.simps step(1) by (simp only: prod.case sum.case d')
  ultimately show ?case by (simp add: r)
qed

lemma revisitable_fst: "map fst (revisitable met d) = map p_name (filter (due_here met d) (proposals d))"
proof -
  have "map fst (List.map_filter (\<lambda>p. if due_here met d p then map_option (\<lambda>v. (p_name p, v_until v)) (held_verdict d p) else None) ps)
      = map p_name (filter (due_here met d) ps)" for ps
  proof (induction ps)
    case (Cons p ps)
    then show ?case by (cases "due_here met d p"; cases "held_verdict d p") (simp_all add: map_filter_simps, simp add: due_here_def)
  qed (simp add: map_filter_simps)
  then show ?thesis by (simp add: revisitable_def)
qed

lemma revisitable_names: "set (map fst (revisitable met d)) = p_name ` {p \<in> set (proposals d). due_here met d p}"
  by (simp only: revisitable_fst set_map set_filter)

lemma revisitable_distinct: "names_ok d \<Longrightarrow> distinct (map fst (revisitable met d))"
  by (simp only: revisitable_fst names_ok_def distinct_map_filter)

text \<open>A queued proposal waits on nothing, and what the pass did not touch waits as before.\<close>

lemma requeued_not_due:
  assumes "ladder_inv d" "requeued (map fst (revisitable met d)) d d'" "q \<in> set (proposals d')"
  shows "\<not> due_here met d' q"
proof (cases "p_name q \<in> set (map fst (revisitable met d))")
  case True
  then have state: "p_state q = ''queued''" using assms(2,3) by (auto simp: requeued_def)
  have "holder_ok d' q" using assms(2,3) by (auto simp: requeued_def ladder_inv_def store_ok_def proposal_ok_def)
  then have "held_verdict d' q = Some v \<Longrightarrow> v_outcome v = ''queued''" for v
    using holder_ok_held [of d' q] state by (cases "p_holder q") (auto simp: held_verdict_def)
  then show ?thesis by (auto simp: due_here_def TERMINAL_def split: option.split)
next
  case False
  have "p_name q \<in> p_name ` set (proposals d)" using assms(2,3) by (metis image_eqI list.set_map requeued_def)
  then obtain p where p: "p \<in> set (proposals d)" "p_name p = p_name q" by auto
  then have "p \<in> set (proposals d')" using False assms(2) by (auto simp: requeued_def)
  then have "p = q" using same_name p(2) assms(2,3) by (metis ladder_inv_def requeued_def)
  then have q: "q \<in> set (proposals d)" using p(1) by simp
  have "\<not> due_here met d q" using False q unfolding revisitable_names by blast
  moreover have "held_verdict d' q = held_verdict d q"
  proof -
    have "holder_ok d q" using assms(1) q by (auto simp: ladder_inv_def store_ok_def proposal_ok_def)
    moreover obtain vs where "verdicts d' = verdicts d @ vs" using assms(2) by (auto simp: requeued_def)
    ultimately show ?thesis
      using holder_ok_held [of d q] held_verdict_append [of d q] by (cases "p_holder q") (auto simp: held_verdict_def)
  qed
  ultimately show ?thesis by (simp add: due_here_def)
qed

text \<open>
  C34. A pass over what this machine can ask again sends every such candidate back, raising nothing when nobody else writes; it leaves no
  verdict whose condition is met, every other proposal as it was, and a store whose audit is clean.
\<close>

theorem requeue_leaves_none_due:
  assumes "store_reaches d"
  shows "case requeue_revisitable alone now machine met d of (res, d') \<Rightarrow>
      res = Inr (map fst (revisitable met d)) \<and> revisitable met d' = [] \<and> ladder_inv d' \<and>
      (\<forall>p \<in> set (proposals d). p_name p \<notin> set (map fst (revisitable met d)) \<longrightarrow> p \<in> set (proposals d'))"
proof -
  have inv: "ladder_inv d" by (rule store_reaches_inv [OF assms])
  have "set (map fst (revisitable met d)) \<subseteq> p_name ` set (proposals d)" unfolding revisitable_names by blast
  moreover have "distinct (map fst (revisitable met d))" using inv by (intro revisitable_distinct) (simp add: ladder_inv_def)
  ultimately have r: "fst (requeue_revisitable alone now machine met d) = Inr (map fst (revisitable met d))"
      "requeued (map fst (revisitable met d)) d (snd (requeue_revisitable alone now machine met d))"
    using requeue_each_alone [OF inv, of "revisitable met d" now machine] by (simp_all add: requeue_revisitable_def)
  have "revisitable met (snd (requeue_revisitable alone now machine met d)) = []"
    using requeued_not_due [OF inv r(2)] revisitable_names [of met "snd (requeue_revisitable alone now machine met d)"]
    by (cases "revisitable met (snd (requeue_revisitable alone now machine met d))") auto
  moreover obtain res d' where "requeue_revisitable alone now machine met d = (res, d')" by (rule prod.exhaust)
  ultimately show ?thesis using r by (simp only: prod.case fst_conv snd_conv requeued_def) blast
qed

text \<open>A model declined here for want of CUDA, asked again where there is one.\<close>

definition cuda_store :: db where
  "cuda_store = snd (decide alone 1 None ''a/m'' ''declined''
     (no_decision\<lparr>k_tier := ''inspect'', k_reason := ''machine'', k_until := ''runtime:cuda''\<rparr>)
     (snd (record_seen 0 None
        \<lparr>n_name = ''a/m'', n_source = [], n_url = [], n_why = [], n_relevance = 0, n_kind = ''weights'', n_lane = [], n_resolved = [],
         n_registry = ''huggingface'', n_description = [], n_lane_source = [], n_category = []\<rparr> empty_db)))"

lemma cuda_store_reached: "store_reaches cuda_store"
  unfolding cuda_store_def
  by (rule store_reaches.step [OF store_reaches.step [OF store_reaches.start]], rule store_step.recorded, rule store_step.decided)
    (simp add: RETEST_def no_decision_def)

lemma cuda_store_due: "revisitable (\<lambda>u. u = ''runtime:cuda'') cuda_store = [(''a/m'', ''runtime:cuda'')]"
  by code_simp

theorem requeue_leaves_none_due_witness:
  "fst (requeue_revisitable alone 2 None (\<lambda>u. u = ''runtime:cuda'') cuda_store) = Inr [''a/m''] \<and>
   revisitable (\<lambda>u. u = ''runtime:cuda'') (snd (requeue_revisitable alone 2 None (\<lambda>u. u = ''runtime:cuda'') cuda_store)) = []"
  using requeue_leaves_none_due [OF cuda_store_reached, where now = 2 and machine = None and met = "\<lambda>u. u = ''runtime:cuda''"]
  by (simp add: cuda_store_due split: prod.splits)

section \<open>A last commit\<close>

text \<open>
  A refusal as \<open>dead\<close> waits on a later commit, and no facts of a machine hold one, taken from its probes or read back from its row: it
  is never asked again.
\<close>

lemma commit_never_met:
  assumes "hf_last_commit facts = []"
  shows "\<not> until_met other own (''commit_after:'' @ x) facts"
proof -
  have "partition_at CHR '':'' (''commit_after:'' @ x) = (''commit_after'', x)" by simp
  moreover have "\<not> iso_date (strip (hf_last_commit facts))" using assms by (simp add: iso_date_def)
  ultimately show ?thesis unfolding until_met_def by simp
qed

lemma dead_is_never_revisited:
  "\<not> until_met other own (''commit_after:'' @ x) (this_machine probe)"
  "\<not> until_met other own (''commit_after:'' @ x) (kept_facts facts)"
  by (rule commit_never_met, simp add: this_machine_def split: option.split, rule commit_never_met, simp add: kept_facts_def)

end
