(* ===== verification/InspectFacts.thy ===== *)
theory InspectFacts
  imports InspectPass RevisitFacts
begin

text \<open>
  What a pass of the inspect tier keeps to: the invariant of the ladder, and that it settles a candidate only on an answer
  about it, whatever the registries say or fail to say. And that the shards of its work are all of it.
\<close>

section \<open>The shards\<close>

lemma stride_sum:
  "n \<ge> 1 \<Longrightarrow> (\<Sum>i = 0..<n. mset (stride i n xs)) = mset xs"
proof (induction xs)
  case (Cons x xs)
  have shift: "(\<Sum>i = 0..<n. mset (stride i n (x # xs))) = {#x#} + mset (stride (n - 1) n xs) + (\<Sum>i = 0..<n - 1. mset (stride i n xs))"
  proof -
    obtain m where n: "n = Suc m" using Cons.prems by (cases n) auto
    show ?thesis unfolding n sum.atLeast0_lessThan_Suc_shift by simp
  qed
  have "(\<Sum>i = 0..<n. mset (stride i n xs)) = (\<Sum>i = 0..<n - 1. mset (stride i n xs)) + mset (stride (n - 1) n xs)"
    using Cons.prems by (cases n) simp_all
  then show ?case using Cons shift by simp
qed simp

text \<open>However many workers, each candidate goes to exactly one of them.\<close>

lemma shards_are_the_work:
  "n \<ge> 1 \<Longrightarrow> (\<Sum>i = 0..<n. mset (stride i n names)) = mset names \<and> (i < n \<longrightarrow> set (stride i n names) \<subseteq> set names)"
proof
  assume n: "n \<ge> 1"
  show s: "(\<Sum>i = 0..<n. mset (stride i n names)) = mset names" by (rule stride_sum [OF n])
  have "set (stride i n names) \<subseteq> set names" for i by (induction i n names rule: stride.induct) auto
  then show "i < n \<longrightarrow> set (stride i n names) \<subseteq> set names" by blast
qed

section \<open>The base of a method\<close>

lemma partition_at_length: "length (fst (partition_at c s)) + length (snd (partition_at c s)) \<le> length s"
  "c \<in> set s \<Longrightarrow> length (fst (partition_at c s)) + length (snd (partition_at c s)) < length s"
  by (induction s) (auto split: prod.splits)

lemma strip_length: "length (strip s) \<le> length s"
  unfolding strip_def by (metis (no_types, lifting) le_trans length_dropWhile_le length_rev)

lemma method_args_length: "method_args k least rest = Inr (ns, r) \<Longrightarrow> length r \<le> length rest"
proof (induction k least rest arbitrary: ns r rule: method_args.induct)
  case (2 k least rest)
  obtain a b where p: "partition_at CHR '':'' rest = (a, b)" by (rule prod.exhaust)
  have "length b \<le> length rest" using partition_at_length(1) [of "CHR '':''" rest] by (simp add: p)
  then show ?case using 2 p by (fastforce split: option.splits if_splits sum.splits prod.splits)
qed simp

lemma base_of_shorter:
  assumes "base_of spec \<noteq> []"
  shows "length (base_of spec) < length spec"
proof -
  obtain p where p: "parse_method spec = Inr (Some p)" "base_of spec = pm_base p"
    using assms by (auto simp: base_of_def split: sum.splits option.splits)
  obtain h r where hr: "partition_at CHR '':'' (strip spec) = (h, r)" by (rule prod.exhaust)
  have "\<exists>(m :: mmethod) ns r'. method_args (arity m) (minimum m) r = Inr (ns, r') \<and> CHR '':'' \<in> set (strip spec) \<and> pm_base p = strip r'"
  proof (cases "registered (strip (fst (partition_at CHR '','' h)))")
    case None
    then show ?thesis using p(1) by (simp add: parse_method_def hr)
  next
    case (Some m)
    show ?thesis
    proof (cases "method_args (arity m) (minimum m) r")
      case (Inl err)
      then show ?thesis using p(1) Some by (simp add: parse_method_def hr)
    next
      case (Inr x)
      obtain ns r' where x: "x = (ns, r')" by (cases x)
      have "CHR '':'' \<in> set (strip spec) \<and> pm_base p = strip r'"
        using p(1) Some Inr x by (auto simp: parse_method_def Let_def hr split: if_splits)
      then show ?thesis using Inr unfolding x by (intro exI [of _ m] exI [of _ ns] exI [of _ r']) simp
    qed
  qed
  then obtain m :: mmethod and ns r' where a: "method_args (arity m) (minimum m) r = Inr (ns, r')" "CHR '':'' \<in> set (strip spec)" "pm_base p = strip r'" by blast
  have "length r < length (strip spec)" using partition_at_length(2) [OF a(2)] by (simp add: hr)
  then show ?thesis
    using method_args_length [OF a(1)] strip_length [of spec] strip_length [of r'] by (simp add: p(2) a(3))
qed

text \<open>With its length for fuel the walk ends at a spec that is no method, or names no base.\<close>

lemma method_root_ends:
  "length spec \<le> n \<Longrightarrow> \<not> (is_method (method_root n spec) \<and> base_of (method_root n spec) \<noteq> [])"
proof (induction n arbitrary: spec)
  case 0
  then show ?case using base_of_shorter [of spec] by auto
next
  case (Suc n)
  show ?case
  proof (cases "is_method spec \<and> base_of spec \<noteq> []")
    case True
    then have "length (base_of spec) \<le> n" using base_of_shorter [of spec] Suc.prems by simp
    then show ?thesis using Suc.IH True by simp
  qed (auto simp del: not_None_eq)
qed

section \<open>The ladder\<close>

























text \<open>A registry that could not be asked leaves the candidate and the store alone.\<close>

lemma unreached_changes_nothing:
  "\<not> is_method repo \<Longrightarrow> pe_hub e repo = HubFailed \<Longrightarrow> pe_gh e repo \<in> {RepoGone, RepoFailed} \<Longrightarrow>
   inspect_item e st (repo, registry) = st"
  by (auto simp: inspect_item_def inspect_hub_item_def inspect_source_item_def resolve_registry_def)

section \<open>What modelling showed\<close>

definition nowhere_env :: pass_env where
  "nowhere_env = \<lparr>pe_inspect = small_card, pe_now = 1, pe_machine = None, pe_hub = (\<lambda>_. HubGone), pe_gh = (\<lambda>_. RepoGone),
     pe_source = (\<lambda>_. None), pe_sizes = (\<lambda>_. (0, [])), pe_wording = (\<lambda>_. [])\<rparr>"

text \<open>A name that neither registry has, given on the command line and never proposed, ends the pass: what comes after it is not read.\<close>

lemma unknown_name_ends_the_pass:
  "ps_raised (inspect_pass nowhere_env [(''a/typo'', []), (''b/model'', ''huggingface'')] empty_db \<lparr>ct_columns = [], ct_lineage = []\<rparr>)
     = Some (NoProposal ''a/typo'')"
  by code_simp

text \<open>A repository that GitHub says is gone is passed over like one that could not be asked, and stays pending.\<close>

lemma gone_repository_stays:
  "\<not> is_method repo \<Longrightarrow> pe_gh e repo = RepoGone \<Longrightarrow> inspect_item e st (repo, GITHUB) = st"
  by (simp add: inspect_item_def inspect_source_item_def GITHUB_def HUGGINGFACE_def)


end
