(* ===== verification/Screening.thy ===== *)
theory Screening
  imports Scoring Revisit
begin

text \<open>
  The verdict of a screen (\<open>harness/screen.py\<close>): whose receipt it is, what passed, the failure class that decides when
  nothing did, and the condition a load failure waits on. The receipt is the summary of \<^theory_text>\<open>Scoring\<close>; the key a runner
  writes for a candidate is the argument \<open>key_of\<close>. A sentence is a constructor with what it quotes. \<^const>\<open>None\<close> is the
  \<open>KeyError\<close> of a class nobody declared.
\<close>

section \<open>Which row is the candidate's\<close>

type_synonym receipt_rows = "(string \<times> summary) list"

definition row_for :: "(string \<Rightarrow> string) \<Rightarrow> receipt_rows option \<Rightarrow> string \<Rightarrow> string \<Rightarrow> summary option" where
  "row_for key_of receipt candidate key0 =
     (case receipt of
        None \<Rightarrow> None
      | Some rows \<Rightarrow> (let key = (if key0 \<noteq> [] then key0 else key_of candidate) in if key = [] then None else map_of rows key))"

text \<open>\<open>wrong_run\<close>: the names of the receipt that is another candidate's.\<close>

definition wrong_run :: "(string \<Rightarrow> string) \<Rightarrow> receipt_rows option \<Rightarrow> string \<Rightarrow> string \<Rightarrow> string list option" where
  "wrong_run key_of receipt candidate key =
     (case receipt of
        None \<Rightarrow> None
      | Some rows \<Rightarrow> if rows = [] \<or> candidate = [] \<or> row_for key_of receipt candidate key \<noteq> None then None else Some (sort (map fst rows)))"

definition why_nothing_passed :: "(string \<Rightarrow> string) \<Rightarrow> receipt_rows option \<Rightarrow> string \<Rightarrow> string \<Rightarrow> string" where
  "why_nothing_passed key_of receipt candidate key =
     (case row_for key_of receipt candidate key of
        None \<Rightarrow> [] | Some s \<Rightarrow> take 300 (join ''; '' (filter (\<lambda>f. f \<noteq> []) (su_failures s))))"

section \<open>What a load failure waits on\<close>

definition ENGINE_RUNTIMES :: "(string \<times> string) list" where
  "ENGINE_RUNTIMES = [(''mflux'', ''mflux''), (''diffusers'', ''diffusers''), (''diffusers-video'', ''diffusers''), (''acestep'', ''ace-step''),
     (''tts'', ''mlx-audio''), (''stt'', ''mlx-audio''), (''hf-ocr'', ''transformers''), (''rerank'', ''sentence-transformers''),
     (''embed'', ''sentence-transformers''), (''hf-pii'', ''transformers''), (''ds4'', ''ds4'')]"

definition LOAD_RUNTIME :: string where "LOAD_RUNTIME = ''mlx-lm''"

definition engine_runtime :: "string \<Rightarrow> string" where
  "engine_runtime candidate = get_or [] ENGINE_RUNTIMES (head_of candidate)"

definition installed :: "(string \<times> string) list \<Rightarrow> string \<Rightarrow> string" where
  "installed vs pkg = (let v = get_or [] vs pkg in if v \<noteq> [] then v else ''0'')"

definition load_package :: "string \<Rightarrow> string" where
  "load_package candidate =
     (if prefix LLAMACPP_PREFIX candidate then ''llama.cpp''
      else if engine_runtime candidate \<noteq> [] then engine_runtime candidate else LOAD_RUNTIME)"

definition load_until :: "(string \<times> string) list \<Rightarrow> string \<Rightarrow> string" where
  "load_until vs candidate = ''version:'' @ load_package candidate @ ''>'' @ installed vs (load_package candidate)"

section \<open>The verdict\<close>

datatype screen_why =
    OfClass string string string
  | WrongRun "string list" string
  | ScreenExited int
  | NoRowsAtAll
  | CasesPassed nat

record screen_verdict =
  sv_outcome :: string
  sv_why :: screen_why
  sv_reason :: string
  sv_until :: string
  sv_class :: string

definition decide_class :: "(string \<times> string) list \<Rightarrow> rat option \<Rightarrow> string \<Rightarrow> string \<Rightarrow> string \<Rightarrow> string list \<Rightarrow> screen_verdict option" where
  "decide_class vs memory_gb cls why candidate limits =
     (case map_of CLASSES cls of
        None \<Rightarrow> None
      | Some (got, reason) \<Rightarrow>
          (let limit = (case sort limits of [] \<Rightarrow> [] | l # ls \<Rightarrow> l)
           in Some \<lparr>sv_outcome = got, sv_why = OfClass cls why limit, sv_reason = reason,
                sv_until = (if reason = ''runtime'' then load_until vs candidate
                            else if reason = ''limit'' \<and> limit \<noteq> [] then ''limit:'' @ limit
                            else if cls = ''gpu_fault'' \<and> (case memory_gb of None \<Rightarrow> False | Some m \<Rightarrow> m \<noteq> 0)
                            then ''memory_gb:>'' @ decimal (nat (py_round (case memory_gb of None \<Rightarrow> 0 | Some m \<Rightarrow> m)))
                            else []),
                sv_class = cls\<rparr>))"

definition screen_outcome ::
    "(string \<times> string) list \<Rightarrow> rat option \<Rightarrow> (string \<Rightarrow> string) \<Rightarrow> int \<Rightarrow> receipt_rows option \<Rightarrow> string \<Rightarrow> string \<Rightarrow> string \<Rightarrow> screen_verdict option" where
  "screen_outcome vs memory_gb key_of code receipt candidate key stderr_class =
     (if receipt = None \<and> stderr_class \<noteq> [] then decide_class vs memory_gb stderr_class [] candidate []
      else case (if candidate \<noteq> [] then wrong_run key_of receipt candidate key else None) of
        Some names \<Rightarrow>
          Some \<lparr>sv_outcome = ''queued'', sv_why = WrongRun names candidate, sv_reason = ''harness'', sv_until = [], sv_class = []\<rparr>
      | None \<Rightarrow>
          if code \<noteq> 0 then
            Some \<lparr>sv_outcome = ''broken'', sv_why = ScreenExited code, sv_reason = ''candidate'', sv_until = [], sv_class = ''crashed''\<rparr>
          else (case receipt of
                  None \<Rightarrow> Some \<lparr>sv_outcome = ''broken'', sv_why = NoRowsAtAll, sv_reason = ''candidate'', sv_until = [], sv_class = ''crashed''\<rparr>
                | Some [] \<Rightarrow> Some \<lparr>sv_outcome = ''broken'', sv_why = NoRowsAtAll, sv_reason = ''candidate'', sv_until = [], sv_class = ''crashed''\<rparr>
                | Some rows \<Rightarrow>
                    (let passed = sum_list (map (su_passed \<circ> snd) rows);
                         mine = (if candidate = [] then map snd rows
                                 else case row_for key_of receipt candidate key of None \<Rightarrow> [] | Some s \<Rightarrow> [s]);
                         cls = first_class (concat (map (map fst \<circ> su_failure_classes) mine));
                         why = (if candidate \<noteq> [] then why_nothing_passed key_of receipt candidate key else [])
                     in if passed \<noteq> 0 then
                          Some \<lparr>sv_outcome = ''screened'', sv_why = CasesPassed passed, sv_reason = ''candidate'', sv_until = [], sv_class = []\<rparr>
                        else decide_class vs memory_gb (if cls \<noteq> [] then cls else ''content_failed'') why candidate
                               (concat (map su_limits mine)))))"

section \<open>What it waits for\<close>

lemma load_package_plain: "CHR '':'' \<notin> set (load_package c)" "CHR ''>'' \<notin> set (load_package c)"
proof -
  have "load_package c \<in> set (''llama.cpp'' # LOAD_RUNTIME # map snd ENGINE_RUNTIMES)"
  proof (cases "map_of ENGINE_RUNTIMES (head_of c)")
    case None
    then show ?thesis by (simp add: load_package_def engine_runtime_def get_or_def)
  next
    case (Some r)
    then have "r \<in> snd ` set ENGINE_RUNTIMES" by (metis image_eqI map_of_SomeD snd_conv)
    then show ?thesis using Some by (simp add: load_package_def engine_runtime_def get_or_def)
  qed
  then show "CHR '':'' \<notin> set (load_package c)" "CHR ''>'' \<notin> set (load_package c)"
    by (auto simp: ENGINE_RUNTIMES_def LOAD_RUNTIME_def)
qed

lemma load_until_met:
  "until_met other own (load_until vs c) facts \<longleftrightarrow>
     (case (version_tuple (get_or [] (hf_versions facts) (load_package c)), version_tuple (installed vs (load_package c))) of
        (Some here, Some seen) \<Rightarrow> seen < here
      | _ \<Rightarrow> False)"
proof -
  have "partition_at CHR '':'' (load_until vs c) = (''version'', load_package c @ ''>'' @ installed vs (load_package c))"
    by (simp add: load_until_def)
  moreover have "partition_at CHR ''>'' (load_package c @ ''>'' @ installed vs (load_package c)) = (load_package c, installed vs (load_package c))"
    using partition_at_append [OF load_package_plain(2)] by simp
  moreover have "load_until vs c \<noteq> []" by (simp add: load_until_def)
  ultimately show ?thesis by (simp add: until_met_def)
qed

lemma engine_runtimes_named: "map_of ENGINE_RUNTIMES h = Some r \<Longrightarrow> r \<noteq> []"
  using map_of_SomeD [of ENGINE_RUNTIMES h r] by (auto simp: ENGINE_RUNTIMES_def)

lemma load_package_cases:
  "load_package c = (if prefix LLAMACPP_PREFIX c then ''llama.cpp''
     else case map_of ENGINE_RUNTIMES (head_of c) of Some r \<Rightarrow> r | None \<Rightarrow> ''mlx-lm'')"
  using engine_runtimes_named [of "head_of c"]
  by (simp add: load_package_def engine_runtime_def get_or_def LOAD_RUNTIME_def split: option.split)

text \<open>
  C36. What a failure to load waits on is met exactly where the version of the package that loads such a candidate (llama.cpp for
  its prefix, the runtime of its engine, mlx-lm for the rest) is above the one recorded when it failed, zero where none was:
  both read as plain dotted numbers and compared number by number. So never at once where it was seen, and nowhere when either
  version has anything but numbers and dots, as a pre-release has.
\<close>

theorem load_failure_waits_for_newer:
  "let pkg = (if prefix LLAMACPP_PREFIX c then ''llama.cpp''
       else case map_of ENGINE_RUNTIMES (head_of c) of Some r \<Rightarrow> r | None \<Rightarrow> ''mlx-lm'');
     recorded = (case map_of vs pkg of None \<Rightarrow> ''0'' | Some v \<Rightarrow> if v = [] then ''0'' else v)
   in until_met other own (load_until vs c) facts \<longleftrightarrow>
     (\<exists>now here seen. map_of (hf_versions facts) pkg = Some now \<and> version_tuple now = Some here \<and>
        version_tuple recorded = Some seen \<and> seen < here)"
proof -
  have none: "version_tuple [] = None" by code_simp
  have recorded: "installed vs pkg = (case map_of vs pkg of None \<Rightarrow> ''0'' | Some v \<Rightarrow> if v = [] then ''0'' else v)" for pkg
    by (simp add: installed_def get_or_def Let_def split: option.split)
  show ?thesis
    unfolding Let_def load_package_cases [symmetric] recorded [symmetric] load_until_met
    by (auto simp: get_or_def none split: option.splits)
qed

text \<open>A failure seen on a build whose version has letters in it is never asked again, however new the runtime becomes.\<close>

lemma prerelease_is_never_reopened:
  "\<not> until_met other own (load_until [(''diffusers'', ''0.36.0.dev0'')] ''diffusers:a/m'') facts"
proof -
  have "load_package ''diffusers:a/m'' = ''diffusers''" by code_simp
  moreover have "version_tuple (installed [(''diffusers'', ''0.36.0.dev0'')] ''diffusers'') = None" by code_simp
  ultimately show ?thesis unfolding load_until_met by (simp split: option.split)
qed

section \<open>What it settles\<close>

lemma classes_of: "map_of CLASSES cls = Some (got, reason) \<Longrightarrow> (cls, got, reason) \<in> set CLASSES"
  by (rule map_of_SomeD)

text \<open>The limits on record for the candidate: those of its own row, or of every row where no candidate is named.\<close>

definition own_limits :: "(string \<Rightarrow> string) \<Rightarrow> receipt_rows option \<Rightarrow> string \<Rightarrow> string \<Rightarrow> string list" where
  "own_limits key_of receipt c key =
     (case receipt of None \<Rightarrow> []
      | Some rows \<Rightarrow> if c = [] then concat (map (su_limits \<circ> snd) rows)
          else (case row_for key_of receipt c key of None \<Rightarrow> [] | Some s \<Rightarrow> su_limits s))"

definition least_limit :: "string list \<Rightarrow> string \<Rightarrow> bool" where
  "least_limit ls l \<longleftrightarrow> ls = [] \<and> l = [] \<or> l \<in> set ls \<and> (\<forall>x \<in> set ls. l \<le> x)"

lemma least_of_sort: "least_limit lims (case sort lims of [] \<Rightarrow> [] | l # ls \<Rightarrow> l)"
proof (cases "sort lims")
  case Nil
  then have "lims = []" by (metis length_0_conv length_sort)
  then show ?thesis by (simp add: least_limit_def)
next
  case (Cons l ls)
  have "sorted (l # ls)" "set lims = set (l # ls)" by (simp_all flip: Cons)
  then show ?thesis by (simp add: least_limit_def Cons)
qed

text \<open>What a refusal waits on, by what it is blamed on.\<close>

definition waits_on :: "(string \<times> string) list \<Rightarrow> rat option \<Rightarrow> string \<Rightarrow> string list \<Rightarrow> screen_verdict \<Rightarrow> bool" where
  "waits_on vs m c ls v \<longleftrightarrow>
     sv_reason v = ''runtime'' \<and> sv_until v = load_until vs c \<or>
     sv_reason v = ''limit'' \<and> (\<exists>l. least_limit ls l \<and> sv_until v = (if l = [] then [] else ''limit:'' @ l)) \<or>
     sv_reason v = ''machine'' \<and>
       sv_until v = (case m of None \<Rightarrow> []
         | Some gb \<Rightarrow> if sv_class v = ''gpu_fault'' \<and> gb \<noteq> 0 then ''memory_gb:>'' @ decimal (nat (py_round gb)) else [])"

lemma decide_class_blames:
  assumes "decide_class vs m cls why c ls = Some v"
  shows "sv_class v = cls \<and>
    (sv_outcome v = ''queued'' \<and> sv_reason v = ''harness'' \<and> sv_until v = [] \<or>
     sv_outcome v = ''broken'' \<and> sv_reason v = ''candidate'' \<and> sv_until v = [] \<or>
     sv_outcome v = ''declined'' \<and> waits_on vs m c ls v)"
proof -
  obtain got reason where c: "map_of CLASSES cls = Some (got, reason)" using assms by (auto simp: decide_class_def split: option.splits)
  define l where "l = (case sort ls of [] \<Rightarrow> [] | l # ls \<Rightarrow> l)"
  have v: "v = \<lparr>sv_outcome = got, sv_why = OfClass cls why l, sv_reason = reason,
      sv_until = (if reason = ''runtime'' then load_until vs c else if reason = ''limit'' \<and> l \<noteq> [] then ''limit:'' @ l
        else if cls = ''gpu_fault'' \<and> (case m of None \<Rightarrow> False | Some m \<Rightarrow> m \<noteq> 0)
        then ''memory_gb:>'' @ decimal (nat (py_round (case m of None \<Rightarrow> 0 | Some m \<Rightarrow> m))) else []), sv_class = cls\<rparr>"
    using assms unfolding decide_class_def c option.case prod.case Let_def l_def [symmetric] by (rule option.inject [THEN iffD1, symmetric])
  have least: "least_limit ls l" unfolding l_def by (rule least_of_sort)
  have all: "list_all (\<lambda>(k, g, r). g = ''queued'' \<and> r = ''harness'' \<and> k \<noteq> ''gpu_fault'' \<or>
      g = ''broken'' \<and> r = ''candidate'' \<and> k \<noteq> ''gpu_fault'' \<or> g = ''declined'' \<and> r = ''machine'' \<or>
      g = ''declined'' \<and> r = ''limit'' \<and> k \<noteq> ''gpu_fault'' \<or> g = ''declined'' \<and> r = ''runtime'') CLASSES"
    by (simp add: CLASSES_def)
  have "got = ''queued'' \<and> reason = ''harness'' \<and> cls \<noteq> ''gpu_fault'' \<or>
      got = ''broken'' \<and> reason = ''candidate'' \<and> cls \<noteq> ''gpu_fault'' \<or> got = ''declined'' \<and> reason = ''machine'' \<or>
      got = ''declined'' \<and> reason = ''limit'' \<and> cls \<noteq> ''gpu_fault'' \<or> got = ''declined'' \<and> reason = ''runtime''"
    using bspec [OF all [unfolded list_all_iff] classes_of [OF c]] unfolding prod.case .
  then show ?thesis
  proof (elim disjE conjE)
    assume limit: "got = ''declined''" "reason = ''limit''" "cls \<noteq> ''gpu_fault''"
    have "waits_on vs m c ls v" unfolding waits_on_def v
      by (intro disjI2 disjI1 conjI exI [of _ l]) (simp_all add: least limit)
    then show ?thesis by (simp add: v limit)
  qed (simp_all add: v waits_on_def split: option.split)
qed

text \<open>
  C35. A screen takes a candidate out of the running for good only by blaming the candidate itself; what it blames on the harness stays
  queued; and it passes a candidate only when some case passed. What it declines it blames on the runtime, and waits for a newer
  one; on a limit, and waits on the least of the limits the candidate's rows name, or on nothing where they name none (as where there
  is no receipt and the error stream alone was classed); or on the machine, and waits for more memory exactly for a GPU fault on a
  machine whose memory is known, otherwise on nothing.
\<close>

theorem screen_blames_what_it_settles:
  assumes "screen_outcome vs m key_of code receipt c key stderr_class = Some v"
  shows "sv_outcome v = ''queued'' \<and> sv_reason v = ''harness'' \<and> sv_until v = [] \<or>
    sv_outcome v = ''broken'' \<and> sv_reason v = ''candidate'' \<and> sv_until v = [] \<or>
    sv_outcome v = ''screened'' \<and> code = 0 \<and> (\<exists>rows. receipt = Some rows \<and> (\<exists>x \<in> set rows. 0 < su_passed (snd x))) \<or>
    sv_outcome v = ''declined'' \<and>
      (sv_reason v = ''runtime'' \<and> sv_until v = load_until vs c \<or>
       sv_reason v = ''limit'' \<and> (\<exists>l. least_limit (own_limits key_of receipt c key) l \<and>
         sv_until v = (if l = [] then [] else ''limit:'' @ l)) \<or>
       sv_reason v = ''machine'' \<and>
         sv_until v = (case m of None \<Rightarrow> []
           | Some gb \<Rightarrow> if sv_class v = ''gpu_fault'' \<and> gb \<noteq> 0 then ''memory_gb:>'' @ decimal (nat (py_round gb)) else []))"
  unfolding waits_on_def [symmetric]
proof -
  have passed: "sum_list (map (su_passed \<circ> snd) rows) \<noteq> 0 \<Longrightarrow> \<exists>x \<in> set rows. 0 < su_passed (snd x)" for rows :: receipt_rows
    by auto
  show "sv_outcome v = ''queued'' \<and> sv_reason v = ''harness'' \<and> sv_until v = [] \<or>
    sv_outcome v = ''broken'' \<and> sv_reason v = ''candidate'' \<and> sv_until v = [] \<or>
    sv_outcome v = ''screened'' \<and> code = 0 \<and> (\<exists>rows. receipt = Some rows \<and> (\<exists>x \<in> set rows. 0 < su_passed (snd x))) \<or>
    sv_outcome v = ''declined'' \<and> waits_on vs m c (own_limits key_of receipt c key) v"
  proof (cases "receipt = None \<and> stderr_class \<noteq> []")
    case True
    then have "decide_class vs m stderr_class [] c [] = Some v" using assms by (simp add: screen_outcome_def)
    from decide_class_blames [OF this] show ?thesis using True by (simp add: own_limits_def)
  next
    case own: False
    show ?thesis
    proof (cases "(if c \<noteq> [] then wrong_run key_of receipt c key else None) = None \<and> code = 0")
      case False
      then show ?thesis using assms own unfolding screen_outcome_def by (auto split: option.splits)
    next
      case right: True
      show ?thesis
      proof (cases "receipt = None \<or> receipt = Some []")
        case True
        then show ?thesis using assms own right unfolding screen_outcome_def by (elim disjE; clarsimp)
      next
        case False
        then obtain r rs where rows: "receipt = Some (r # rs)" by (metis neq_Nil_conv option.exhaust)
        let ?mine = "if c = [] then map snd (r # rs) else case row_for key_of receipt c key of None \<Rightarrow> [] | Some s \<Rightarrow> [s]"
        have out: "(if sum_list (map (su_passed \<circ> snd) (r # rs)) \<noteq> 0
            then Some \<lparr>sv_outcome = ''screened'', sv_why = CasesPassed (sum_list (map (su_passed \<circ> snd) (r # rs))),
              sv_reason = ''candidate'', sv_until = [], sv_class = []\<rparr>
            else decide_class vs m (let cls = first_class (concat (map (map fst \<circ> su_failure_classes) ?mine)) in if cls \<noteq> [] then cls else ''content_failed'')
              (if c \<noteq> [] then why_nothing_passed key_of receipt c key else []) c (concat (map su_limits ?mine))) = Some v"
          using assms unfolding rows screen_outcome_def Let_def
          by (simp only: right [unfolded rows] option.case list.case option.distinct simp_thms if_False if_True)
        have own_mine: "concat (map su_limits ?mine) = own_limits key_of receipt c key"
          by (simp add: own_limits_def rows split: option.split)
        show ?thesis
        proof (cases "sum_list (map (su_passed \<circ> snd) (r # rs)) = 0")
          case True
          then have "decide_class vs m (let cls = first_class (concat (map (map fst \<circ> su_failure_classes) ?mine)) in if cls \<noteq> [] then cls else ''content_failed'')
              (if c \<noteq> [] then why_nothing_passed key_of receipt c key else []) c (own_limits key_of receipt c key) = Some v"
            using out unfolding own_mine by (simp only: if_False simp_thms)
          from decide_class_blames [OF this] show ?thesis by (elim conjE disjE) simp_all
        next
          case False
          then have "sv_outcome v = ''screened''" using out by auto
          moreover have "code = 0" using right by simp
          moreover have "\<exists>x \<in> set (r # rs). 0 < su_passed (snd x)" using passed [OF False] .
          ultimately show ?thesis using rows by (intro disjI2 disjI1 conjI exI [of _ "r # rs"])
        qed
      qed
    qed
  qed
qed

text \<open>A timeout classed from the error stream waits on nothing: no row names the limit it met.\<close>

lemma classed_timeout_never_reopens:
  "case screen_outcome [] (Some 32) (\<lambda>c. c) 1 None ''a/m'' [] ''timeout'' of
     None \<Rightarrow> False | Some v \<Rightarrow> sv_outcome v = ''declined'' \<and> sv_reason v = ''limit'' \<and> sv_until v = []"
  by code_simp

theorem screen_blames_what_it_settles_witness:
  "case screen_outcome [] (Some 32) (\<lambda>c. c) 1 None ''a/m'' [] ''gpu_fault'' of
     None \<Rightarrow> False | Some v \<Rightarrow> sv_outcome v = ''declined'' \<and> sv_reason v = ''machine'' \<and> sv_until v = ''memory_gb:>32''"
proof -
  have s: "screen_outcome [] (Some 32) (\<lambda>c. c) 1 None ''a/m'' [] ''gpu_fault'' = Some \<lparr>sv_outcome = ''declined'',
      sv_why = OfClass ''gpu_fault'' [] [], sv_reason = ''machine'', sv_until = ''memory_gb:>32'', sv_class = ''gpu_fault''\<rparr>" by code_simp
  show ?thesis using screen_blames_what_it_settles [OF s] unfolding s by simp
qed

end
