(* ===== verification/Runs.thy ===== *)
theory Runs
  imports Scoring Revisit
begin

text \<open>
  Candidates and stored runs (\<open>harness/candidates.py\<close>, \<open>harness/runs.py\<close>): the one mapping from a spec to its receipt key, its
  proposal and its row; and the runs and their result rows, recorded once per path and read by every consumer. \<open>key_of\<close> is
  what a runner would write for a spec, \<open>[]\<close> where none can run it; JSON columns hold the value that was dumped; the split of a row's
  old \<open>artifact\<close> value, which looks into the run's directory, is the argument \<open>split_old\<close>.
\<close>

section \<open>The tables\<close>

record cand_row =
  cr_id :: nat
  cr_proposal :: "nat option"
  cr_spec :: string
  cr_key :: string
  cr_lane :: string
  cr_created :: rat

record eval_run =
  ru_id :: nat
  ru_path :: string
  ru_lane :: string
  ru_tier :: string
  ru_machine :: "nat option"
  ru_generated :: "rat option"
  ru_repeat :: int
  ru_digest :: string
  ru_receipt :: string
  ru_environment :: string
  ru_specs :: "(string \<times> string) list"
  ru_recorded :: rat
  ru_job :: "nat option"
  ru_split :: string
  ru_split_version :: string

record stored_row =
  sw_run :: nat
  sw_seq :: nat
  sw_candidate_id :: "nat option"
  sw_repeat :: nat
  sw_result :: result
  sw_output :: "string option"
  sw_artifact :: "string option"

text \<open>\<open>rd_names\<close>: the id and name of each proposal.\<close>

record runs_db =
  rd_names :: "(nat \<times> string) list"
  rd_candidates :: "cand_row list"
  rd_machines :: "machine_row list"
  rd_runs :: "eval_run list"
  rd_results :: "stored_row list"

section \<open>Candidates\<close>

definition proposal_id :: "runs_db \<Rightarrow> string \<Rightarrow> nat option" where
  "proposal_id d name = (if name = [] then None else map_option fst (find (\<lambda>(i, n). n = name) (rd_names d)))"

definition cand_of_spec :: "runs_db \<Rightarrow> string \<Rightarrow> cand_row option" where
  "cand_of_spec d spec = find (\<lambda>c. cr_spec c = spec) (rd_candidates d)"

text \<open>\<open>spec.split(",", 1)[0]\<close>.\<close>

definition bare_spec :: "string \<Rightarrow> string" where
  "bare_spec spec = fst (partition_at CHR '','' spec)"

definition owned_by :: "cand_row list \<Rightarrow> string \<Rightarrow> nat option" where
  "owned_by cs spec = (case find (\<lambda>c. cr_spec c = spec \<and> cr_proposal c \<noteq> None) cs of None \<Rightarrow> None | Some c \<Rightarrow> cr_proposal c)"

text \<open>\<open>link_variants\<close>: the owners are read before the first update.\<close>

definition link_variants :: "string option \<Rightarrow> runs_db \<Rightarrow> nat \<times> runs_db" where
  "link_variants base d =
     (let owner = owned_by (rd_candidates d);
          due = (\<lambda>c. cr_proposal c = None \<and> bare_spec (cr_spec c) \<noteq> cr_spec c \<and> owner (bare_spec (cr_spec c)) \<noteq> None \<and>
             (case base of None \<Rightarrow> True | Some b \<Rightarrow> b = bare_spec (cr_spec c)))
      in (length (filter due (rd_candidates d)),
          d\<lparr>rd_candidates := map (\<lambda>c. if due c then c\<lparr>cr_proposal := owner (bare_spec (cr_spec c))\<rparr> else c) (rd_candidates d)\<rparr>))"

definition complete_row :: "nat option \<Rightarrow> string \<Rightarrow> string \<Rightarrow> cand_row \<Rightarrow> cand_row" where
  "complete_row pid key lane c =
     c\<lparr>cr_proposal := (case pid of None \<Rightarrow> cr_proposal c | Some p \<Rightarrow> Some p), cr_key := key, cr_lane := (if cr_lane c = [] then lane else cr_lane c)\<rparr>"

definition put_candidate :: "nat option \<Rightarrow> string \<Rightarrow> string \<Rightarrow> string \<Rightarrow> rat \<Rightarrow> cand_row list \<Rightarrow> cand_row list" where
  "put_candidate pid spec key lane now cs =
     (let cs' = (if spec \<in> set (map cr_spec cs) then cs
                 else cs @ [\<lparr>cr_id = next_id cr_id cs, cr_proposal = pid, cr_spec = spec, cr_key = key, cr_lane = lane, cr_created = now\<rparr>])
      in map (\<lambda>c. if cr_spec c = spec then complete_row pid key lane c else c) cs')"

text \<open>The rows a run stored before the candidate had a row.\<close>

definition adopt_results :: "nat option \<Rightarrow> string \<Rightarrow> stored_row list \<Rightarrow> stored_row list" where
  "adopt_results cid key rows =
     map (\<lambda>w. if sw_candidate_id w = None \<and> rs_candidate (sw_result w) = key then w\<lparr>sw_candidate_id := cid\<rparr> else w) rows"

definition ensure_candidate ::
    "(string \<Rightarrow> string) \<Rightarrow> rat \<Rightarrow> string \<Rightarrow> string \<Rightarrow> string \<Rightarrow> string \<Rightarrow> runs_db \<Rightarrow> nat option \<times> runs_db" where
  "ensure_candidate key_of now spec0 proposal lane key0 d =
     (let spec = strip spec0; base = bare_spec spec;
          pid = (case proposal_id d proposal of
                   Some p \<Rightarrow> Some p
                 | None \<Rightarrow> if base = spec then None else (case cand_of_spec d base of None \<Rightarrow> None | Some c \<Rightarrow> cr_proposal c));
          key = (if key0 \<noteq> [] then key0 else case cand_of_spec d spec of Some c \<Rightarrow> cr_key c | None \<Rightarrow> key_of spec)
      in if spec = [] then (None, d)
         else if key = [] then (None, d)
         else
           (let d1 = d\<lparr>rd_candidates := put_candidate pid spec key lane now (rd_candidates d)\<rparr>;
                cid = map_option cr_id (cand_of_spec d1 spec);
                d2 = (if CHR '','' \<in> set spec then d1
                      else
                        (let d' = (if pid \<noteq> None then snd (link_variants (Some spec) d1) else d1)
                         in d'\<lparr>rd_results := adopt_results cid key (rd_results d')\<rparr>))
            in (map_option cr_id (cand_of_spec d2 spec), d2)))"

text \<open>\<open>for_proposal\<close> and \<open>from_receipt\<close>; \<open>spec_for\<close> is \<open>candidate_for\<close>.\<close>

definition for_proposal ::
    "(string \<Rightarrow> string) \<Rightarrow> (string \<Rightarrow> string \<Rightarrow> string \<Rightarrow> string) \<Rightarrow> rat \<Rightarrow> string \<Rightarrow> string \<Rightarrow> string \<Rightarrow> runs_db \<Rightarrow> string \<times> runs_db" where
  "for_proposal key_of spec_for now lane name attaches_to d =
     (let spec = spec_for lane name attaches_to
      in (spec, if spec \<noteq> [] then snd (ensure_candidate key_of now spec name lane [] d) else d))"

fun from_receipt ::
    "(string \<Rightarrow> string) \<Rightarrow> rat \<Rightarrow> (string \<times> string) list \<Rightarrow> (string \<times> string) list \<Rightarrow> string \<Rightarrow> runs_db \<Rightarrow> nat \<times> runs_db" where
  "from_receipt key_of now [] owners lane d = (0, d)"
| "from_receipt key_of now ((key, spec) # specs) owners lane d =
     (case ensure_candidate key_of now spec (get_or [] owners spec) lane key d of
        (got, d') \<Rightarrow>
          (case from_receipt key_of now specs owners lane d' of
             (n, d'') \<Rightarrow> (case got of None \<Rightarrow> (n, d'') | Some i \<Rightarrow> (if i \<noteq> 0 then n + 1 else n, d''))))"

text \<open>\<open>get\<close>: by spec, else the newest by receipt key, else the newest of the proposal named.\<close>

definition newest_cand :: "(cand_row \<Rightarrow> bool) \<Rightarrow> runs_db \<Rightarrow> cand_row option" where
  "newest_cand P d = (case sort_key (\<lambda>c. - int (cr_id c)) (filter P (rd_candidates d)) of [] \<Rightarrow> None | c # cs \<Rightarrow> Some c)"

definition proposal_of :: "runs_db \<Rightarrow> cand_row \<Rightarrow> string option" where
  "proposal_of d c = (case cr_proposal c of None \<Rightarrow> None | Some p \<Rightarrow> map_of (rd_names d) p)"

definition get_candidate :: "runs_db \<Rightarrow> string \<Rightarrow> cand_row option" where
  "get_candidate d label =
     (if label = [] then None
      else case cand_of_spec d label of
             Some c \<Rightarrow> Some c
           | None \<Rightarrow>
               (case newest_cand (\<lambda>c. cr_key c = label) d of
                  Some c \<Rightarrow> Some c
                | None \<Rightarrow> newest_cand (\<lambda>c. proposal_of d c = Some label) d))"

definition receipt_keys :: "runs_db \<Rightarrow> string \<Rightarrow> string list" where
  "receipt_keys d label =
     remdups (filter (\<lambda>k. k \<noteq> [])
       (map cr_key (filter (\<lambda>c. cr_spec c = label \<or> cr_key c = label \<or> proposal_of d c = Some label) (rd_candidates d))))"

text \<open>\<open>key_for\<close> with a connection; a candidate that cannot run has only the key computed.\<close>

definition key_for :: "(string \<Rightarrow> string) \<Rightarrow> rat \<Rightarrow> string \<Rightarrow> runs_db \<Rightarrow> string option \<times> runs_db" where
  "key_for key_of now spec d =
     (case get_candidate d spec of
        Some c \<Rightarrow> if cr_spec c = spec then (Some (cr_key c), d)
                  else (case ensure_candidate key_of now spec [] [] [] d of
                          (Some i, d') \<Rightarrow> (map_option cr_key (get_candidate d' spec), d')
                        | (None, d') \<Rightarrow> (Some (key_of spec), d'))
      | None \<Rightarrow> (case ensure_candidate key_of now spec [] [] [] d of
                   (Some i, d') \<Rightarrow> (map_option cr_key (get_candidate d' spec), d')
                 | (None, d') \<Rightarrow> (Some (key_of spec), d')))"

section \<open>What a receipt says\<close>

record receipt_row =
  rc_result :: result
  rc_class :: "string option"
  rc_candidate_id :: "nat option"
  rc_files :: "(string option \<times> string option) option"
  rc_artifact :: "string option"

record run_env =
  rv_hw_model :: string
  rv_os :: string
  rv_arch :: string
  rv_memory_gb :: rat
  rv_text :: string

text \<open>A row that is no case row is \<^const>\<open>None\<close>; \<open>rn_generated\<close> is the time its text names, where it names one.\<close>

record run_data =
  rn_rows :: "receipt_row option list"
  rn_modality :: string
  rn_tier :: string
  rn_repeat :: int
  rn_digest :: string
  rn_receipt :: string
  rn_env :: run_env
  rn_specs :: "(string \<times> string) list"
  rn_split :: string
  rn_split_version :: string
  rn_generated :: "rat option"

definition split_case :: "string \<Rightarrow> string \<times> nat" where
  "split_case case_id = (case partition_at CHR ''#'' case_id of (base, n) \<Rightarrow> (base, if isdigit n then nat_of_digits n else 1))"

definition blank_facts :: "string \<Rightarrow> run_env \<Rightarrow> held_facts" where
  "blank_facts fp e =
     \<lparr>hf_fingerprint = fp, hf_hw_model = rv_hw_model e, hf_os = rv_os e, hf_arch = rv_arch e, hf_memory_gb = rv_memory_gb e,
      hf_accelerator = [], hf_runtimes = [], hf_ceiling_gb = 0, hf_versions = [], hf_limits = None, hf_last_commit = []\<rparr>"

text \<open>\<open>machine_for\<close>: a receipt that names no OS is of the one machine with its board, if there is one.\<close>

definition machine_for :: "rat \<Rightarrow> run_env \<Rightarrow> machine_row list \<Rightarrow> nat option \<times> machine_row list" where
  "machine_for now e rows =
     (let same = filter (\<lambda>r. hf_hw_model (mr_facts r) = rv_hw_model e \<and> hf_arch (mr_facts r) = rv_arch e \<and> hf_os (mr_facts r) \<noteq> []) rows;
          fp = fingerprint (rv_hw_model e) (rv_os e) (rv_arch e)
      in if rv_hw_model e = [] \<and> rv_os e = [] \<and> rv_arch e = [] then (None, rows)
         else if rv_hw_model e \<noteq> [] \<and> os_family (rv_os e) = [] \<and> length same = 1 then (Some (mr_id (hd same)), rows)
         else
           (let rows' = (if fp \<in> set (map (hf_fingerprint \<circ> mr_facts) rows) then rows
                         else rows @ [\<lparr>mr_id = next_id mr_id rows, mr_facts = blank_facts fp e, mr_first_seen = now, mr_last_seen = now\<rparr>])
            in (map_option mr_id (find (\<lambda>r. hf_fingerprint (mr_facts r) = fp) rows'), rows')))"

text \<open>\<open>_legacy_spec\<close>: the label \<open>acestep/model@options\<close>, perhaps behind its engine, as a spec.\<close>

definition LF :: char where "LF = CHR 0x0A"

definition label_options :: "string \<Rightarrow> string option" where
  "label_options rest =
     (case rest of
        [] \<Rightarrow> Some []
      | c # opts \<Rightarrow>
          if c \<noteq> CHR ''@'' then None
          else if LF \<notin> set opts then Some opts
          else if LF \<notin> set (butlast opts) then Some (butlast opts)
          else None)"

definition legacy_spec :: "string \<Rightarrow> string" where
  "legacy_spec label =
     (let rest = (if prefix ''acestep:'' label then drop 8 label else label)
      in if \<not> prefix ''acestep/'' rest then label
         else
           (let body = drop 8 rest; model = takeWhile (\<lambda>c. c \<noteq> CHR ''@'' \<and> c \<noteq> CHR '','') body
            in if model = [] then label
               else case label_options (drop (length model) body) of
                      None \<Rightarrow> label
                    | Some opts \<Rightarrow> ''acestep:'' @ model @ (if opts \<noteq> [] then '','' @ opts else [])))"

section \<open>Recording a run\<close>

text \<open>\<open>_candidate\<close>: of the rows with a key the bare spec that is the key, then one without options, then the oldest.\<close>

definition key_rank :: "string \<Rightarrow> cand_row \<Rightarrow> bool \<times> bool \<times> nat" where
  "key_rank key c = (cr_spec c \<noteq> key, CHR '','' \<in> set (cr_spec c), cr_id c)"

definition candidate_of_row :: "(string \<Rightarrow> string) \<Rightarrow> rat \<Rightarrow> string \<Rightarrow> string \<Rightarrow> string \<Rightarrow> runs_db \<Rightarrow> nat option \<times> runs_db" where
  "candidate_of_row key_of now key spec lane d =
     (if spec \<noteq> [] then ensure_candidate key_of now (legacy_spec spec) [] lane key d
      else (case sort_key (key_rank key) (filter (\<lambda>c. cr_key c = key) (rd_candidates d)) of
              [] \<Rightarrow> (None, d)
            | c # cs \<Rightarrow> (Some (cr_id c), d)))"

definition stamped_id :: "runs_db \<Rightarrow> nat option \<Rightarrow> string \<Rightarrow> nat option" where
  "stamped_id d cid key =
     (case cid of
        None \<Rightarrow> None
      | Some i \<Rightarrow> (case row cr_id i (rd_candidates d) of None \<Rightarrow> None | Some c \<Rightarrow> if cr_key c = key then Some i else None))"

definition run_at :: "runs_db \<Rightarrow> string \<Rightarrow> eval_run option" where
  "run_at d path = find (\<lambda>r. ru_path r = path) (rd_runs d)"

definition fill_run :: "string \<Rightarrow> run_data \<Rightarrow> nat option \<Rightarrow> rat option \<Rightarrow> eval_run \<Rightarrow> eval_run" where
  "fill_run lane data mid when r =
     r\<lparr>ru_lane := lane, ru_tier := (if rn_tier data \<noteq> [] then rn_tier data else ''measure''), ru_machine := mid, ru_generated := when,
       ru_repeat := (if rn_repeat data \<noteq> 0 then rn_repeat data else 1), ru_digest := rn_digest data, ru_receipt := rn_receipt data,
       ru_environment := rv_text (rn_env data), ru_specs := rn_specs data, ru_split := rn_split data, ru_split_version := rn_split_version data\<rparr>"

definition put_run :: "rat \<Rightarrow> string \<Rightarrow> run_data \<Rightarrow> nat option \<Rightarrow> rat option \<Rightarrow> string \<Rightarrow> eval_run list \<Rightarrow> eval_run list" where
  "put_run now lane data mid when path runs =
     (if path \<in> set (map ru_path runs) then map (\<lambda>r. if ru_path r = path then fill_run lane data mid when r else r) runs
      else
        runs @ [fill_run lane data mid when
          \<lparr>ru_id = next_id ru_id runs, ru_path = path, ru_lane = [], ru_tier = [], ru_machine = None, ru_generated = None, ru_repeat = 1,
            ru_digest = [], ru_receipt = [], ru_environment = [], ru_specs = [], ru_recorded = now, ru_job = None, ru_split = [], ru_split_version = []\<rparr>])"

text \<open>The class of a row from before runners set one is read from its detail.\<close>

definition class_of_row :: "(string \<times> string) list \<Rightarrow> receipt_row \<Rightarrow> string" where
  "class_of_row specs r =
     (case rc_class r of
        Some cls \<Rightarrow> cls
      | None \<Rightarrow> if rs_passed (rc_result r) then [] else legacy_class (rs_detail (rc_result r)) (get_or [] specs (rs_candidate (rc_result r))))"

definition stored_of ::
    "(string \<Rightarrow> receipt_row \<Rightarrow> string option \<times> string option) \<Rightarrow> string \<Rightarrow> (string \<times> string) list \<Rightarrow> nat \<Rightarrow> nat \<Rightarrow> nat option \<Rightarrow> receipt_row \<Rightarrow> stored_row" where
  "stored_of split_old lane specs run_id seq cid r =
     (case (case rc_files r of Some f \<Rightarrow> f | None \<Rightarrow> split_old lane r) of
        (out, art) \<Rightarrow>
          \<lparr>sw_run = run_id, sw_seq = seq, sw_candidate_id = cid, sw_repeat = snd (split_case (rs_case_id (rc_result r))),
           sw_result = (rc_result r)\<lparr>rs_failure_class := class_of_row specs r\<rparr>, sw_output = out, sw_artifact = art\<rparr>)"

fun insert_rows ::
    "(string \<Rightarrow> string) \<Rightarrow> (string \<Rightarrow> receipt_row \<Rightarrow> string option \<times> string option) \<Rightarrow> rat \<Rightarrow> string \<Rightarrow> (string \<times> string) list \<Rightarrow> nat \<Rightarrow> nat
      \<Rightarrow> (string \<times> nat option) list \<Rightarrow> receipt_row list \<Rightarrow> runs_db \<Rightarrow> runs_db" where
  "insert_rows key_of split_old now lane specs run_id seq ids [] d = d"
| "insert_rows key_of split_old now lane specs run_id seq ids (r # rs) d =
     (let name = rs_candidate (rc_result r); cid = stamped_id d (rc_candidate_id r) name;
          found = (if cid = None \<and> name \<notin> set (map fst ids) then candidate_of_row key_of now name (get_or [] specs name) lane d else (None, d));
          ids' = (if cid = None \<and> name \<notin> set (map fst ids) then (name, fst found) # ids else ids); d1 = snd found;
          mine = (if cid \<noteq> None then cid else get_or None ids' name)
      in insert_rows key_of split_old now lane specs run_id (Suc seq) ids' rs
           (d1\<lparr>rd_results := rd_results d1 @ [stored_of split_old lane specs run_id seq mine r]\<rparr>))"

definition record_run ::
    "(string \<Rightarrow> string) \<Rightarrow> (string \<Rightarrow> receipt_row \<Rightarrow> string option \<times> string option) \<Rightarrow> rat \<Rightarrow> string \<Rightarrow> run_data \<Rightarrow> rat option \<Rightarrow> runs_db
      \<Rightarrow> nat option \<times> runs_db" where
  "record_run key_of split_old now path data when0 d =
     (let rows = List.map_filter (\<lambda>r. r) (rn_rows data); lane = lower (strip (rn_modality data));
          when = (case when0 of Some t \<Rightarrow> Some t | None \<Rightarrow> rn_generated data)
      in if rows = [] then (None, d)
         else
           (case machine_for now (rn_env data) (rd_machines d) of
              (mid, machines) \<Rightarrow>
                (let d1 = d\<lparr>rd_machines := machines, rd_runs := put_run now lane data mid when path (rd_runs d)\<rparr>
                 in case run_at d1 path of
                      None \<Rightarrow> (None, d1)
                    | Some r \<Rightarrow>
                        (Some (ru_id r),
                         insert_rows key_of split_old now lane (rn_specs data) (ru_id r) 0 [] rows
                           (d1\<lparr>rd_results := filter (\<lambda>w. sw_run w \<noteq> ru_id r) (rd_results d1)\<rparr>)))))"

section \<open>Reading\<close>

definition run_rows :: "runs_db \<Rightarrow> nat \<Rightarrow> nat option \<Rightarrow> stored_row list" where
  "run_rows d i cid =
     sort_key sw_seq (filter (\<lambda>w. sw_run w = i \<and> (case cid of None \<Rightarrow> True | Some c \<Rightarrow> sw_candidate_id w = Some c)) (rd_results d))"

definition runs_found :: "runs_db \<Rightarrow> string \<Rightarrow> string \<Rightarrow> nat list option \<Rightarrow> nat option \<Rightarrow> eval_run list" where
  "runs_found d lane tier machines cid =
     sort_key (\<lambda>r. (- (case ru_generated r of None \<Rightarrow> 0 | Some t \<Rightarrow> t), - int (ru_id r)))
       (filter (\<lambda>r. (lane = [] \<or> ru_lane r = lane) \<and> (tier = [] \<or> ru_tier r = tier) \<and>
          (case machines of None \<Rightarrow> True | Some ms \<Rightarrow> (case ru_machine r of None \<Rightarrow> False | Some m \<Rightarrow> m \<in> set ms)) \<and>
          (case cid of None \<Rightarrow> True | Some c \<Rightarrow> list_ex (\<lambda>w. sw_run w = ru_id r \<and> sw_candidate_id w = Some c) (rd_results d))) (rd_runs d))"

definition newest_run :: "runs_db \<Rightarrow> string \<Rightarrow> string \<Rightarrow> nat list option \<Rightarrow> nat option \<Rightarrow> eval_run option" where
  "newest_run d lane tier machines cid = (case runs_found d lane tier machines cid of [] \<Rightarrow> None | r # rs \<Rightarrow> Some r)"

definition machines_here :: "held_facts \<Rightarrow> runs_db \<Rightarrow> nat list" where
  "machines_here facts d =
     (case find (\<lambda>r. hf_fingerprint (mr_facts r) = hf_fingerprint facts) (rd_machines d) of None \<Rightarrow> [] | Some r \<Rightarrow> [mr_id r])"

definition run_for_job :: "runs_db \<Rightarrow> nat \<Rightarrow> eval_run option" where
  "run_for_job d job =
     (case sort_key (\<lambda>r. - int (ru_id r)) (filter (\<lambda>r. ru_job r = Some job) (rd_runs d)) of [] \<Rightarrow> None | r # rs \<Rightarrow> Some r)"

definition measured_keys :: "runs_db \<Rightarrow> string list" where
  "measured_keys d = remdups (map (rs_candidate \<circ> sw_result) (rd_results d))"

definition keys_in_run :: "runs_db \<Rightarrow> nat \<Rightarrow> string list" where
  "keys_in_run d i = remdups (map (rs_candidate \<circ> sw_result) (filter (\<lambda>w. sw_run w = i) (rd_results d)))"

definition run_lanes :: "runs_db \<Rightarrow> string list" where
  "run_lanes d = remdups (filter (\<lambda>l. l \<noteq> []) (map ru_lane (filter (\<lambda>r. ru_id r \<in> set (map sw_run (rd_results d))) (rd_runs d))))"

definition peak_of_key :: "runs_db \<Rightarrow> string \<Rightarrow> nat list option \<Rightarrow> nat" where
  "peak_of_key d key machines =
     foldl max 0 (map (rs_peak_kb \<circ> sw_result)
       (filter (\<lambda>w. rs_candidate (sw_result w) = key \<and>
          list_ex (\<lambda>r. ru_id r = sw_run w \<and> (case machines of None \<Rightarrow> True | Some ms \<Rightarrow> (case ru_machine r of None \<Rightarrow> False | Some m \<Rightarrow> m \<in> set ms)))
            (rd_runs d)) (rd_results d)))"

text \<open>\<open>first_seen\<close>: the earliest time of each lane and key.\<close>

definition first_measured :: "runs_db \<Rightarrow> ((string \<times> string) \<times> rat) list" where
  "first_measured d =
     (let seen = concat (map (\<lambda>w. List.map_filter (\<lambda>r. if ru_id r = sw_run w then map_option (\<lambda>t. ((ru_lane r, rs_candidate (sw_result w)), t)) (ru_generated r)
            else None) (rd_runs d)) (rd_results d))
      in map (\<lambda>k. (k, Min (snd ` set (filter (\<lambda>(k', t). k' = k) seen)))) (remdups (map fst seen)))"

definition age_days :: "rat \<Rightarrow> eval_run option \<Rightarrow> rat option" where
  "age_days now run =
     (case run of None \<Rightarrow> None | Some r \<Rightarrow> map_option (\<lambda>t. max 0 ((now - t) / 86400)) (ru_generated r))"

text \<open>\<open>summaries\<close> and \<open>row_for\<close>: the roll-up of \<^theory_text>\<open>Scoring\<close> over stored rows.\<close>

definition run_summaries :: "runs_db \<Rightarrow> string \<Rightarrow> string \<Rightarrow> (eval_run \<times> (string \<times> summary) list \<times> stored_row list) list" where
  "run_summaries d tier lane =
     List.map_filter (\<lambda>r. let got = run_rows d (ru_id r) None in if got = [] then None else Some (r, summarize (map sw_result got), got))
       (runs_found d lane tier None None)"

definition summary_row :: "runs_db \<Rightarrow> nat \<Rightarrow> nat \<Rightarrow> (string \<times> summary) option" where
  "summary_row d i cid = (case summarize (map sw_result (run_rows d i (Some cid))) of [] \<Rightarrow> None | s # ss \<Rightarrow> Some s)"

end
