(* ===== verification/RunsFacts.thy ===== *)
theory RunsFacts
  imports Runs
begin

text \<open>
  The store of runs: a spec has one row however it is named, a result row never points at a candidate or a run that is not there,
  and what a run recorded is what its readers get, row by row, however often it is recorded.
\<close>

section \<open>What a store keeps\<close>

definition cand_ids :: "runs_db \<Rightarrow> nat set" where
  "cand_ids d = cr_id ` set (rd_candidates d)"

definition cands_ok :: "runs_db \<Rightarrow> bool" where
  "cands_ok d \<longleftrightarrow> distinct (map cr_id (rd_candidates d)) \<and> distinct (map cr_spec (rd_candidates d)) \<and> [] \<notin> cr_key ` set (rd_candidates d)"

definition owned_ok :: "runs_db \<Rightarrow> bool" where
  "owned_ok d \<longleftrightarrow> (\<forall>w \<in> set (rd_results d). \<forall>i. sw_candidate_id w = Some i \<longrightarrow> i \<in> cand_ids d)"

definition runs_ok :: "runs_db \<Rightarrow> bool" where
  "runs_ok d \<longleftrightarrow> distinct (map ru_id (rd_runs d)) \<and> distinct (map ru_path (rd_runs d)) \<and> sw_run ` set (rd_results d) \<subseteq> ru_id ` set (rd_runs d)"

definition store_of_runs_ok :: "runs_db \<Rightarrow> bool" where
  "store_of_runs_ok d \<longleftrightarrow> cands_ok d \<and> owned_ok d \<and> runs_ok d"

text \<open>A row but for the candidate it is filed under.\<close>

definition unfiled :: "stored_row \<Rightarrow> stored_row" where
  "unfiled w = w\<lparr>sw_candidate_id := None\<rparr>"

lemma unfiled_fields [simp]:
  "sw_run (unfiled w) = sw_run w" "sw_seq (unfiled w) = sw_seq w" "sw_result (unfiled w) = sw_result w"
  "unfiled (w\<lparr>sw_candidate_id := c\<rparr>) = unfiled w"
  by (simp_all add: unfiled_def)

section \<open>One row for a spec\<close>

lemma put_candidate_keys:
  "map (\<lambda>c. (cr_id c, cr_spec c)) (put_candidate pid spec key lane now cs) =
     map (\<lambda>c. (cr_id c, cr_spec c)) cs @ (if spec \<in> cr_spec ` set cs then [] else [(next_id cr_id cs, spec)])"
  by (simp add: put_candidate_def Let_def comp_def complete_row_def if_distrib [of cr_id] if_distrib [of cr_spec] cong: if_cong)

lemma link_variants_keys [simp]:
  "map cr_id (rd_candidates (snd (link_variants base d))) = map cr_id (rd_candidates d)"
  "map cr_spec (rd_candidates (snd (link_variants base d))) = map cr_spec (rd_candidates d)"
  "map cr_key (rd_candidates (snd (link_variants base d))) = map cr_key (rd_candidates d)"
  "rd_results (snd (link_variants base d)) = rd_results d" "rd_runs (snd (link_variants base d)) = rd_runs d"
  "rd_machines (snd (link_variants base d)) = rd_machines d" "rd_names (snd (link_variants base d)) = rd_names d"
  by (simp_all add: link_variants_def Let_def comp_def if_distrib [of cr_id] if_distrib [of cr_spec] if_distrib [of cr_key] cong: if_cong)

lemma adopt_results_unfiled [simp]: "map unfiled (adopt_results cid key ws) = map unfiled ws"
  by (simp add: adopt_results_def comp_def if_distrib [of unfiled] cong: if_cong)

lemma put_candidate_ok:
  assumes "distinct (map cr_id cs)" "distinct (map cr_spec cs)" "[] \<notin> cr_key ` set cs" "key \<noteq> []"
  shows "distinct (map cr_id (put_candidate pid spec key lane now cs)) \<and> distinct (map cr_spec (put_candidate pid spec key lane now cs)) \<and>
    [] \<notin> cr_key ` set (put_candidate pid spec key lane now cs)"
proof -
  have p: "map fst (map (\<lambda>c. (cr_id c, cr_spec c)) (put_candidate pid spec key lane now cs)) = map cr_id (put_candidate pid spec key lane now cs)"
    "map snd (map (\<lambda>c. (cr_id c, cr_spec c)) (put_candidate pid spec key lane now cs)) = map cr_spec (put_candidate pid spec key lane now cs)"
    by (simp_all add: comp_def)
  have "distinct (map cr_id (put_candidate pid spec key lane now cs))" "distinct (map cr_spec (put_candidate pid spec key lane now cs))"
    unfolding p [symmetric] put_candidate_keys using assms(1,2) next_id_fresh [of _ cs cr_id] by (force simp: comp_def)+
  moreover have "[] \<notin> cr_key ` set (put_candidate pid spec key lane now cs)"
    using assms(3,4) by (auto simp: put_candidate_def Let_def complete_row_def split: if_splits)
  ultimately show ?thesis by simp
qed

text \<open>What every step of the mapping keeps, whatever it is asked.\<close>

definition kept_mapping :: "runs_db \<Rightarrow> runs_db \<Rightarrow> bool" where
  "kept_mapping d d' \<longleftrightarrow>
     rd_names d' = rd_names d \<and> rd_machines d' = rd_machines d \<and> rd_runs d' = rd_runs d \<and>
     map unfiled (rd_results d') = map unfiled (rd_results d) \<and> cand_ids d \<subseteq> cand_ids d' \<and>
     (cands_ok d \<longrightarrow> cands_ok d') \<and> (cands_ok d \<and> owned_ok d \<longrightarrow> owned_ok d')"

lemma kept_mapping_refl [simp]: "kept_mapping d d"
  by (simp add: kept_mapping_def)

lemma kept_mapping_trans: "kept_mapping d d' \<Longrightarrow> kept_mapping d' d'' \<Longrightarrow> kept_mapping d d''"
  unfolding kept_mapping_def by (metis subset_trans)

lemma put_candidate_has: "spec \<in> cr_spec ` set (put_candidate pid spec key lane now cs)"
proof -
  have "spec \<in> snd ` set (map (\<lambda>c. (cr_id c, cr_spec c)) (put_candidate pid spec key lane now cs))"
    unfolding put_candidate_keys by force
  then show ?thesis by (simp add: image_image)
qed

lemma cand_of_spec_id: "cand_of_spec d spec = Some c \<Longrightarrow> cr_id c \<in> cand_ids d \<and> cr_spec c = spec"
  by (auto simp: cand_of_spec_def cand_ids_def find_Some_iff)

lemma cand_of_spec_None: "cand_of_spec d spec = None \<longleftrightarrow> spec \<notin> cr_spec ` set (rd_candidates d)"
  by (auto simp: cand_of_spec_def find_None_iff)

text \<open>The two writes of \<open>ensure\<close>.\<close>

lemma put_kept:
  assumes "key \<noteq> []"
  shows "kept_mapping d (d\<lparr>rd_candidates := put_candidate pid spec key lane now (rd_candidates d)\<rparr>)"
proof -
  have ids: "cr_id ` set (rd_candidates d) \<subseteq> cr_id ` set (put_candidate pid spec key lane now (rd_candidates d))"
  proof -
    have "cr_id ` set (put_candidate pid spec key lane now (rd_candidates d)) = fst ` set (map (\<lambda>c. (cr_id c, cr_spec c)) (put_candidate pid spec key lane now (rd_candidates d)))"
      by (simp add: image_image)
    then show ?thesis unfolding put_candidate_keys by (auto simp: image_image)
  qed
  show ?thesis
    using put_candidate_ok [of "rd_candidates d" key pid spec lane now] assms ids
    by (auto simp: kept_mapping_def cands_ok_def owned_ok_def cand_ids_def)
qed

lemma link_kept: "kept_mapping d (snd (link_variants base d))"
proof -
  have ids: "cand_ids (snd (link_variants base d)) = cand_ids d" by (metis cand_ids_def link_variants_keys(1) list.set_map)
  have keys: "cr_key ` set (rd_candidates (snd (link_variants base d))) = cr_key ` set (rd_candidates d)" by (metis link_variants_keys(3) list.set_map)
  show ?thesis unfolding kept_mapping_def cands_ok_def owned_ok_def ids keys by simp
qed

lemma adopt_kept:
  assumes "\<And>i. cid = Some i \<Longrightarrow> i \<in> cand_ids d"
  shows "kept_mapping d (d\<lparr>rd_results := adopt_results cid key (rd_results d)\<rparr>)"
  using assms by (auto simp: kept_mapping_def cands_ok_def owned_ok_def cand_ids_def adopt_results_def split: if_splits)

text \<open>
  Naming a spec gives it its one row: created if it was not there, completed if it was. No other row changes its spec, its id or its
  key, no proposal is taken away, and every result row stays what it was but for the candidate it is filed under.
\<close>

lemma ensure_kept: "kept_mapping d (snd (ensure_candidate key_of now spec proposal lane key d))"
proof -
  define s where "s = strip spec"
  define pid where "pid = (case proposal_id d proposal of Some p \<Rightarrow> Some p
      | None \<Rightarrow> if bare_spec s = s then None else (case cand_of_spec d (bare_spec s) of None \<Rightarrow> None | Some c \<Rightarrow> cr_proposal c))"
  define k where "k = (if key \<noteq> [] then key else case cand_of_spec d s of Some c \<Rightarrow> cr_key c | None \<Rightarrow> key_of s)"
  define d1 where "d1 = d\<lparr>rd_candidates := put_candidate pid s k lane now (rd_candidates d)\<rparr>"
  define l where "l = (if pid \<noteq> None then snd (link_variants (Some s) d1) else d1)"
  have e: "snd (ensure_candidate key_of now spec proposal lane key d) =
      (if s = [] \<or> k = [] then d else if CHR '','' \<in> set s then d1 else l\<lparr>rd_results := adopt_results (map_option cr_id (cand_of_spec d1 s)) k (rd_results l)\<rparr>)"
    by (simp add: ensure_candidate_def Let_def s_def [symmetric] pid_def [symmetric] k_def [symmetric] d1_def [symmetric], simp add: l_def)
  show ?thesis
  proof (cases "s = [] \<or> k = []")
    case False
    then have one: "kept_mapping d d1" unfolding d1_def by (intro put_kept) simp
    have two: "kept_mapping d1 l" unfolding l_def by (simp add: link_kept)
    have "kept_mapping l (l\<lparr>rd_results := adopt_results (map_option cr_id (cand_of_spec d1 s)) k (rd_results l)\<rparr>)"
      using two cand_of_spec_id [of d1 s] by (intro adopt_kept) (auto simp: kept_mapping_def)
    then show ?thesis unfolding e using False one two kept_mapping_trans by (smt (verit, best))
  qed (simp add: e)
qed

lemma ensure_rows:
  "map (\<lambda>c. (cr_id c, cr_spec c)) (rd_candidates (snd (ensure_candidate key_of now spec proposal lane key d))) =
     map (\<lambda>c. (cr_id c, cr_spec c)) (rd_candidates d) @
       (if fst (ensure_candidate key_of now spec proposal lane key d) = None \<or> strip spec \<in> cr_spec ` set (rd_candidates d) then []
        else [(next_id cr_id (rd_candidates d), strip spec)])"
proof -
  have link: "map (\<lambda>c. (cr_id c, cr_spec c)) (rd_candidates (snd (link_variants b e))) = map (\<lambda>c. (cr_id c, cr_spec c)) (rd_candidates e)" for b e
    by (simp add: link_variants_def Let_def comp_def if_distrib [of cr_id] if_distrib [of cr_spec] cong: if_cong)
  have has: "cand_of_spec (e\<lparr>rd_candidates := cs\<rparr>) t \<noteq> None \<longleftrightarrow> t \<in> snd ` set (map (\<lambda>c. (cr_id c, cr_spec c)) cs)" for e cs t
    using cand_of_spec_None [of "e\<lparr>rd_candidates := cs\<rparr>" t] by (simp add: image_image)
  have has': "cand_of_spec e t \<noteq> None \<longleftrightarrow> t \<in> snd ` set (map (\<lambda>c. (cr_id c, cr_spec c)) (rd_candidates e))" for e t
    using cand_of_spec_None [of e t] by (simp add: image_image)
  have none: "map_option cr_id x = None \<longleftrightarrow> \<not> x \<noteq> None" for x by simp
  show ?thesis
    unfolding ensure_candidate_def Let_def
    by (simp add: link put_candidate_keys none has' del: not_None_eq map_option_is_None)
qed

lemma ensure_gives:
  assumes "ensure_candidate key_of now spec proposal lane key d = (Some i, d')"
  shows "\<exists>c \<in> set (rd_candidates d'). cr_id c = i \<and> cr_spec c = strip spec"
proof -
  have "map_option cr_id (cand_of_spec d' (strip spec)) = Some i"
    using assms by (auto simp: ensure_candidate_def Let_def split: if_splits)
  then show ?thesis by (auto simp: cand_of_spec_def find_Some_iff)
qed

section \<open>Recording a run\<close>

lemma candidate_of_row_kept:
  "kept_mapping d (snd (candidate_of_row key_of now key spec lane d))"
  "fst (candidate_of_row key_of now key spec lane d) = Some i \<Longrightarrow> i \<in> cand_ids (snd (candidate_of_row key_of now key spec lane d))"
proof -
  show "kept_mapping d (snd (candidate_of_row key_of now key spec lane d))"
    by (simp add: candidate_of_row_def ensure_kept split: list.split)
  assume f: "fst (candidate_of_row key_of now key spec lane d) = Some i"
  show "i \<in> cand_ids (snd (candidate_of_row key_of now key spec lane d))"
  proof (cases "spec = []")
    case True
    obtain c cs where c: "sort_key (key_rank key) (filter (\<lambda>c. cr_key c = key) (rd_candidates d)) = c # cs" "cr_id c = i"
      using f True by (auto simp: candidate_of_row_def split: list.splits)
    then have "c \<in> set (filter (\<lambda>c. cr_key c = key) (rd_candidates d))" by (metis list.set_intros(1) set_sort)
    then show ?thesis using c True by (auto simp: candidate_of_row_def cand_ids_def)
  next
    case False
    obtain x where x: "ensure_candidate key_of now (legacy_spec spec) [] lane key d = (Some i, x)"
      using f False by (cases "ensure_candidate key_of now (legacy_spec spec) [] lane key d") (simp add: candidate_of_row_def)
    then show ?thesis using ensure_gives [OF x] False by (auto simp: candidate_of_row_def cand_ids_def)
  qed
qed

lemma stamped_in: "stamped_id d cid key = Some i \<Longrightarrow> i \<in> cand_ids d"
  by (auto simp: stamped_id_def cand_ids_def dest: row_Some split: option.splits if_splits)

lemma stored_of_unfiled: "unfiled (stored_of split_old lane specs run_id seq cid r) = stored_of split_old lane specs run_id seq None r"
  by (simp add: stored_of_def unfiled_def split: prod.split option.split)

lemma stored_of_fields [simp]:
  "sw_run (stored_of split_old lane specs run_id seq cid r) = run_id" "sw_seq (stored_of split_old lane specs run_id seq cid r) = seq"
  "sw_candidate_id (stored_of split_old lane specs run_id seq cid r) = cid"
  by (simp_all add: stored_of_def split: prod.split option.split)

lemma insert_rows_ok:
  assumes "cands_ok d" "owned_ok d" "\<forall>n i. (n, Some i) \<in> set ids \<longrightarrow> i \<in> cand_ids d"
  shows "cands_ok (insert_rows key_of split_old now lane specs run_id seq ids rs d) \<and> owned_ok (insert_rows key_of split_old now lane specs run_id seq ids rs d) \<and> rd_runs (insert_rows key_of split_old now lane specs run_id seq ids rs d) = rd_runs d \<and>
    rd_machines (insert_rows key_of split_old now lane specs run_id seq ids rs d) = rd_machines d \<and>
    rd_names (insert_rows key_of split_old now lane specs run_id seq ids rs d) = rd_names d \<and>
    map unfiled (rd_results (insert_rows key_of split_old now lane specs run_id seq ids rs d)) =
      map unfiled (rd_results d) @ map (\<lambda>(n, r). stored_of split_old lane specs run_id n None r) (enumerate seq rs)"
  using assms
proof (induction rs arbitrary: seq ids d)
  case (Cons r rs)
  define name where "name = rs_candidate (rc_result r)"
  define cid where "cid = stamped_id d (rc_candidate_id r) name"
  define asks where "asks \<longleftrightarrow> cid = None \<and> name \<notin> set (map fst ids)"
  define found where "found = (if asks then candidate_of_row key_of now name (get_or [] specs name) lane d else (None, d))"
  define ids' where "ids' = (if asks then (name, fst found) # ids else ids)"
  define mine where "mine = (if cid \<noteq> None then cid else get_or None ids' name)"
  define d2 where "d2 = (snd found)\<lparr>rd_results := rd_results (snd found) @ [stored_of split_old lane specs run_id seq mine r]\<rparr>"
  have step: "insert_rows key_of split_old now lane specs run_id seq ids (r # rs) d = insert_rows key_of split_old now lane specs run_id (Suc seq) ids' rs d2"
    by (simp only: insert_rows.simps Let_def name_def [symmetric] cid_def [symmetric] asks_def [symmetric] found_def [symmetric] ids'_def [symmetric]
        mine_def [symmetric] d2_def [symmetric])
  have kept: "kept_mapping d (snd found)" unfolding found_def by (simp add: candidate_of_row_kept)
  have fresh: "fst found = Some i \<Longrightarrow> i \<in> cand_ids (snd found)" for i
    unfolding found_def using candidate_of_row_kept(2) by (auto split: if_splits)
  have sub: "cand_ids d \<subseteq> cand_ids (snd found)" using kept by (simp add: kept_mapping_def)
  have ids: "\<forall>n i. (n, Some i) \<in> set ids' \<longrightarrow> i \<in> cand_ids (snd found)"
    using Cons.prems(3) sub fresh unfolding ids'_def by (cases asks) (auto dest: sym)
  have mine: "mine = Some i \<Longrightarrow> i \<in> cand_ids (snd found)" for i
    using ids stamped_in [of d "rc_candidate_id r" name i] sub unfolding mine_def cid_def [symmetric]
    by (auto simp: get_or_def dest!: map_of_SomeD split: if_splits option.splits)
  have "cands_ok d2" "owned_ok d2" "cand_ids d2 = cand_ids (snd found)"
    using kept Cons.prems(1,2) mine by (auto simp: kept_mapping_def d2_def cands_ok_def owned_ok_def cand_ids_def)
  moreover have "rd_runs d2 = rd_runs d" "rd_machines d2 = rd_machines d" "rd_names d2 = rd_names d"
      "map unfiled (rd_results d2) = map unfiled (rd_results d) @ [stored_of split_old lane specs run_id seq None r]"
    using kept by (simp_all add: kept_mapping_def d2_def stored_of_unfiled)
  ultimately show ?case unfolding step using Cons.IH [of d2 ids' "Suc seq"] ids by simp
qed simp

lemma sort_key_unfiled: "map unfiled (sort_key sw_seq ws) = sort_key sw_seq (map unfiled ws)"
proof (induction ws)
  case (Cons w ws)
  have "map unfiled (insort_key sw_seq w vs) = insort_key sw_seq (unfiled w) (map unfiled vs)" for vs by (induction vs) simp_all
  then show ?case using Cons by simp
qed simp

lemma run_rows_unfiled: "map unfiled (run_rows d i None) = sort_key sw_seq (filter (\<lambda>w. sw_run w = i) (map unfiled (rd_results d)))"
  by (simp add: run_rows_def sort_key_unfiled filter_map comp_def)

lemma fill_run_fields [simp]:
  "ru_id (fill_run lane data mid when r) = ru_id r" "ru_path (fill_run lane data mid when r) = ru_path r"
  "ru_lane (fill_run lane data mid when r) = lane"
  by (simp_all add: fill_run_def)

lemma put_run_rows:
  assumes "distinct (map ru_id runs)" "distinct (map ru_path runs)"
  shows "distinct (map ru_id (put_run now lane data mid when path runs)) \<and> distinct (map ru_path (put_run now lane data mid when path runs)) \<and>
    ru_id ` set runs \<subseteq> ru_id ` set (put_run now lane data mid when path runs)"
proof (cases "path \<in> set (map ru_path runs)")
  case True
  have "map ru_id (put_run now lane data mid when path runs) = map ru_id runs" "map ru_path (put_run now lane data mid when path runs) = map ru_path runs"
    unfolding put_run_def if_P [OF True] by auto
  then show ?thesis using assms by (metis list.set_map subset_refl)
next
  case False
  have "next_id ru_id runs \<notin> ru_id ` set runs" using next_id_fresh [of _ runs ru_id] by force
  then show ?thesis using assms False by (simp add: put_run_def subset_insertI)
qed

lemma put_run_at:
  "\<exists>r. find (\<lambda>r. ru_path r = path) (put_run now lane data mid when path runs) = Some r \<and> ru_lane r = lane \<and>
     ru_id r = (case find (\<lambda>r. ru_path r = path) runs of None \<Rightarrow> next_id ru_id runs | Some old \<Rightarrow> ru_id old)"
proof (cases "path \<in> set (map ru_path runs)")
  case False
  then have "find (\<lambda>r. ru_path r = path) runs = None" by (auto simp: find_None_iff)
  moreover have "find P (runs @ [x]) = (if P x then Some x else None)" if "find P runs = None" for P x
    using that by (induction runs) (auto split: if_splits)
  ultimately show ?thesis using False by (simp add: put_run_def Let_def)
next
  case True
  have "find (\<lambda>r. ru_path r = path) (map (\<lambda>r. if ru_path r = path then fill_run lane data mid when r else r) rs) =
      map_option (fill_run lane data mid when) (find (\<lambda>r. ru_path r = path) rs)" for rs
    by (induction rs) auto
  moreover obtain old where "find (\<lambda>r. ru_path r = path) runs = Some old"
    using True by (cases "find (\<lambda>r. ru_path r = path) runs") (auto simp: find_None_iff)
  ultimately have "find (\<lambda>r. ru_path r = path) (put_run now lane data mid when path runs) = Some (fill_run lane data mid when old)"
      "find (\<lambda>r. ru_path r = path) runs = Some old"
    unfolding put_run_def if_P [OF True] by simp_all
  then show ?thesis by simp
qed

text \<open>
  C38. What a run recorded is what is read back: its rows, in the order they ran, each as the receipt gave it but for the candidate it is filed
  under. Recorded again under its path a run keeps its id and only its own rows are replaced; every row of another run
  stays, and no row points at a run or a candidate that is not there.
\<close>

theorem recorded_run_reads_back:
  assumes "store_of_runs_ok d" "record_run key_of split_old now path data when d = (Some i, d')"
  shows "store_of_runs_ok d' \<and> (\<exists>r. run_at d' path = Some r \<and> ru_id r = i) \<and> (\<forall>r. run_at d path = Some r \<longrightarrow> ru_id r = i) \<and>
    map unfiled (run_rows d' i None) =
      map (\<lambda>(n, r). stored_of split_old (lower (strip (rn_modality data))) (rn_specs data) i n None r) (enumerate 0 (List.map_filter (\<lambda>r. r) (rn_rows data))) \<and>
    (\<forall>j. j \<noteq> i \<longrightarrow> map unfiled (run_rows d' j None) = map unfiled (run_rows d j None))"
proof -
  define rows where "rows = List.map_filter (\<lambda>r. r) (rn_rows data)"
  define lane where "lane = lower (strip (rn_modality data))"
  define t where "t = (case when of Some t \<Rightarrow> Some t | None \<Rightarrow> rn_generated data)"
  obtain mid machines where m: "machine_for now (rn_env data) (rd_machines d) = (mid, machines)" by (rule prod.exhaust)
  define runs where "runs = put_run now lane data mid t path (rd_runs d)"
  obtain r where r: "find (\<lambda>r. ru_path r = path) runs = Some r"
      "ru_id r = (case find (\<lambda>r. ru_path r = path) (rd_runs d) of None \<Rightarrow> next_id ru_id (rd_runs d) | Some old \<Rightarrow> ru_id old)"
    unfolding runs_def using put_run_at by blast
  define d2 where "d2 = d\<lparr>rd_machines := machines, rd_runs := runs, rd_results := filter (\<lambda>w. sw_run w \<noteq> ru_id r) (rd_results d)\<rparr>"
  have rows: "rows \<noteq> []" using assms(2) by (auto simp: record_run_def rows_def Let_def split: if_splits)
  have res: "i = ru_id r" "d' = insert_rows key_of split_old now lane (rn_specs data) (ru_id r) 0 [] rows d2"
    using assms(2) rows r(1) m
    by (auto simp add: record_run_def Let_def rows_def [symmetric] lane_def [symmetric] t_def [symmetric] runs_def [symmetric] run_at_def d2_def)
  have ok: "cands_ok d" "owned_ok d" "runs_ok d" using assms(1) by (simp_all add: store_of_runs_ok_def)
  then have ok2: "cands_ok d2" "owned_ok d2" by (auto simp: d2_def cands_ok_def owned_ok_def cand_ids_def)
  have put: "distinct (map ru_id runs)" "distinct (map ru_path runs)" "ru_id ` set (rd_runs d) \<subseteq> ru_id ` set runs"
    unfolding runs_def using put_run_rows ok(3) by (simp_all add: runs_ok_def)
  note ins = insert_rows_ok [OF ok2, of "[]" key_of split_old now lane "rn_specs data" "ru_id r" 0 rows, folded res(2), folded res(1)]
  let ?new = "map (\<lambda>(n, r). stored_of split_old lane (rn_specs data) i n None r) (enumerate 0 rows)"
  have results: "map unfiled (rd_results d') = filter (\<lambda>w. sw_run w \<noteq> i) (map unfiled (rd_results d)) @ ?new"
    using ins by (simp add: d2_def res(1) filter_map comp_def)
  have new_run: "sw_run w = i" if "w \<in> set ?new" for w using that by auto
  have sorted_new: "sort_key sw_seq ?new = ?new"
    by (rule sort_key_id_if_sorted) (simp add: comp_def case_prod_beta)
  have own: "filter (\<lambda>w. sw_run w = i) ?new = ?new" by (intro filter_True ballI new_run)
  have not_own: "filter (\<lambda>w. sw_run w = j) ?new = []" if "j \<noteq> i" for j
    by (intro filter_False ballI) (metis new_run that)
  have gone: "filter (\<lambda>w. sw_run w = i) (filter (\<lambda>w. sw_run w \<noteq> i) ws) = []" for ws by (simp add: filter_empty_conv)
  have mine: "map unfiled (run_rows d' i None) = ?new"
    unfolding run_rows_unfiled results filter_append own gone append_Nil by (rule sorted_new)
  have others: "map unfiled (run_rows d' j None) = map unfiled (run_rows d j None)" if "j \<noteq> i" for j
  proof -
    have "filter (\<lambda>w. sw_run w = j) (filter (\<lambda>w. sw_run w \<noteq> i) (map unfiled (rd_results d))) = filter (\<lambda>w. sw_run w = j) (map unfiled (rd_results d))"
      using that by (auto intro: filter_cong)
    then show ?thesis unfolding run_rows_unfiled results filter_append not_own [OF that] by simp
  qed
  have at: "run_at d' path = Some r" using ins r(1) by (simp add: run_at_def d2_def)
  have old: "sw_run w \<in> ru_id ` set runs" if w: "w \<in> set (map unfiled (rd_results d))" for w
  proof -
    obtain x where "x \<in> set (rd_results d)" "sw_run w = sw_run x" using w by auto
    then show ?thesis using ok(3) put(3) unfolding runs_ok_def by (metis (no_types, lifting) imageI subsetD)
  qed
  have i: "i \<in> ru_id ` set runs" using r(1) res(1) by (auto simp: find_Some_iff)
  have "sw_run w \<in> ru_id ` set runs" if "w \<in> set (rd_results d')" for w
  proof -
    have "unfiled w \<in> set (map unfiled (rd_results d'))" using that by simp
    then have "unfiled w \<in> set (map unfiled (rd_results d)) \<or> unfiled w \<in> set ?new" unfolding results by auto
    then have "sw_run (unfiled w) \<in> ru_id ` set runs"
    proof
      assume "unfiled w \<in> set ?new"
      then have "sw_run (unfiled w) = i" by (rule new_run)
      then show ?thesis using i by simp
    qed (rule old)
    then show ?thesis by simp
  qed
  then have "runs_ok d'" using ins put(1,2) by (auto simp: runs_ok_def d2_def)
  then have "store_of_runs_ok d'" using ins by (simp add: store_of_runs_ok_def)
  then show ?thesis using at mine others r(2) res(1) unfolding rows_def [symmetric] lane_def [symmetric] by (auto simp: run_at_def)
qed

text \<open>A first run of two cases, recorded twice.\<close>

definition no_runs :: runs_db where
  "no_runs = \<lparr>rd_names = [], rd_candidates = [], rd_machines = [], rd_runs = [], rd_results = []\<rparr>"

definition case_row :: "string \<Rightarrow> bool \<Rightarrow> receipt_row" where
  "case_row c ok = \<lparr>rc_result = (verdict_row c ok [])\<lparr>rs_candidate := ''m''\<rparr>, rc_class = Some [], rc_candidate_id = None, rc_files = Some (Some ''x'', None), rc_artifact = None\<rparr>"

definition two_cases :: run_data where
  "two_cases = \<lparr>rn_rows = [Some (case_row ''a'' True), None, Some (case_row ''b'' False)], rn_modality = ''Code'', rn_tier = [], rn_repeat = 0, rn_digest = [], rn_receipt = [],
     rn_env = \<lparr>rv_hw_model = [], rv_os = [], rv_arch = [], rv_memory_gb = 0, rv_text = []\<rparr>, rn_specs = [(''m'', ''org/m'')], rn_split = [], rn_split_version = [], rn_generated = Some 5\<rparr>"

definition after_one :: runs_db where
  "after_one = snd (record_run (\<lambda>s. ''m'') (\<lambda>l r. (None, None)) 9 ''r1'' two_cases None no_runs)"

theorem recorded_run_reads_back_witness:
  "fst (record_run (\<lambda>s. ''m'') (\<lambda>l r. (None, None)) 9 ''r1'' two_cases None no_runs) = Some 1 \<and>
   store_of_runs_ok after_one \<and> map (rs_case_id \<circ> sw_result) (run_rows after_one 1 None) = [''a'', ''b'']"
proof -
  have f: "fst (record_run (\<lambda>s. ''m'') (\<lambda>l r. (None, None)) 9 ''r1'' two_cases None no_runs) = Some 1" by code_simp
  have r: "record_run (\<lambda>s. ''m'') (\<lambda>l r. (None, None)) 9 ''r1'' two_cases None no_runs = (Some 1, after_one)"
    unfolding after_one_def using f by (metis prod.collapse)
  have "store_of_runs_ok no_runs" by (simp add: no_runs_def store_of_runs_ok_def cands_ok_def owned_ok_def runs_ok_def)
  then have t: "store_of_runs_ok after_one" using recorded_run_reads_back [OF _ r] by blast
  have "map (rs_case_id \<circ> sw_result) (run_rows after_one 1 None) = [''a'', ''b'']" by code_simp
  then show ?thesis using f t by simp
qed

end
