(* ===== verification/Sensitivity.thy ===== *)
theory Sensitivity
  imports Prelude
begin

text \<open>
  Whether a constant does anything (\<open>harness/sensitivity.py\<close>): the distances between two outputs, the verdict of a sweep over
  the values of a knob, and the sweep itself. A probe is an argument, which may answer its calls differently; a sentence about a
  distance is a constructor with what it quotes. \<^const>\<open>None\<close> is an exception of Python itself.
\<close>

section \<open>Outputs\<close>

datatype pyval = PyNone | PyNum rat | PyStr string

datatype probe_output = Ranked "pyval list" | Mapped "(string \<times> pyval) list" | Plain pyval

datatype moved_detail =
    Positions nat nat nat nat "rat option" "pyval list"
  | Changed nat nat "(string \<times> pyval \<times> pyval) list"
  | Became pyval probe_output

section \<open>Distances\<close>

fun pairs_of :: "'a list \<Rightarrow> ('a \<times> 'a) list" where
  "pairs_of [] = []"
| "pairs_of (x # xs) = map (\<lambda>y. (x, y)) xs @ pairs_of xs"

text \<open>\<open>kendall\<close>; the dict of positions keeps the last of each item, as \<open>last_position\<close> does.\<close>

definition kendall :: "'a list \<Rightarrow> 'a list \<Rightarrow> rat option" where
  "kendall base other =
     (let common = filter (\<lambda>x. x \<in> set other) base
      in if length common < 2 then None
         else
           (let ps = pairs_of common;
                agree = length (filter (\<lambda>(a, b). last_position other a < last_position other b) ps);
                disagree = length ps - agree; total = agree + disagree
            in if total \<noteq> 0 then Some ((of_nat agree - of_nat disagree) / of_nat total) else None))"

definition item_at :: "pyval list \<Rightarrow> nat \<Rightarrow> pyval" where
  "item_at xs i = (if i < length xs then xs ! i else PyNone)"

definition rank_distance :: "pyval list \<Rightarrow> pyval list \<Rightarrow> nat \<times> moved_detail" where
  "rank_distance base other =
     (let width = max (length base) (length other);
          moved = length (filter (\<lambda>i. item_at base i \<noteq> item_at other i) [0..<width]);
          entered = filter (\<lambda>x. x \<notin> set base) other; left = filter (\<lambda>x. x \<notin> set other) base
      in (moved, Positions moved width (length entered) (length left) (kendall base other) (take 3 left)))"

definition map_distance :: "(string \<times> pyval) list \<Rightarrow> (string \<times> pyval) list \<Rightarrow> nat \<times> moved_detail" where
  "map_distance base other =
     (let keys = sort (remdups (map fst base @ map fst other));
          changed = filter (\<lambda>k. get_or PyNone base k \<noteq> get_or PyNone other k) keys
      in (length changed, Changed (length changed) (length keys) (map (\<lambda>k. (k, get_or PyNone base k, get_or PyNone other k)) (take 3 changed))))"

text \<open>\<open>x or {}\<close>, and \<open>list(x)\<close>.\<close>

definition or_dict :: "probe_output \<Rightarrow> (string \<times> pyval) list option" where
  "or_dict out =
     (case out of
        Mapped d \<Rightarrow> Some d
      | Ranked xs \<Rightarrow> if xs = [] then Some [] else None
      | Plain v \<Rightarrow> if v \<in> {PyNone, PyNum 0, PyStr []} then Some [] else None)"

definition as_list :: "probe_output \<Rightarrow> pyval list option" where
  "as_list out =
     (case out of
        Ranked xs \<Rightarrow> Some xs
      | Mapped d \<Rightarrow> Some (map (PyStr \<circ> fst) d)
      | Plain (PyStr s) \<Rightarrow> Some (map (\<lambda>c. PyStr [c]) s)
      | Plain v \<Rightarrow> None)"

definition is_mapped :: "probe_output \<Rightarrow> bool" where
  "is_mapped out = (case out of Mapped d \<Rightarrow> True | _ \<Rightarrow> False)"

definition distance :: "probe_output \<Rightarrow> probe_output \<Rightarrow> (nat \<times> moved_detail) option" where
  "distance base other =
     (if is_mapped base \<or> is_mapped other
      then (case (or_dict base, or_dict other) of (Some a, Some b) \<Rightarrow> Some (map_distance a b) | _ \<Rightarrow> None)
      else (case base of
              Plain v \<Rightarrow> Some (if base = other then 0 else 1, Became v other)
            | _ \<Rightarrow> (case (as_list base, as_list other) of (Some a, Some b) \<Rightarrow> Some (rank_distance a b) | _ \<Rightarrow> None)))"

section \<open>The verdict of a sweep\<close>

text \<open>A reading that could not be taken has no distance (the code's \<open>FAILED\<close>).\<close>

record sweep_reading =
  rd_value :: pyval
  rd_distance :: "nat option"
  rd_detail :: "moved_detail option"
  rd_error :: string
  rd_quality :: string

record sweep_finding =
  sf_name :: string
  sf_default :: pyval
  sf_verdict :: string
  sf_readings :: "sweep_reading list"
  sf_band :: "pyval list"
  sf_note :: string

datatype sweep_error = DefaultNotSwept "pyval list" | NotComparable

definition taken :: "sweep_reading \<Rightarrow> bool" where
  "taken r \<longleftrightarrow> rd_distance r \<noteq> None"

text \<open>\<open>{r.value: r for r in readings}\<close>: the last of a value.\<close>

definition by_value :: "sweep_reading list \<Rightarrow> pyval \<Rightarrow> sweep_reading option" where
  "by_value rs v = find (\<lambda>r. rd_value r = v) (rev rs)"

definition reads_zero :: "sweep_reading list \<Rightarrow> pyval \<Rightarrow> bool" where
  "reads_zero rs v \<longleftrightarrow> (case by_value rs v of None \<Rightarrow> False | Some r \<Rightarrow> rd_distance r = Some 0)"

definition swept_order :: "pyval list \<Rightarrow> sweep_reading list \<Rightarrow> pyval list" where
  "swept_order values rs = filter (\<lambda>v. case by_value rs v of None \<Rightarrow> False | Some r \<Rightarrow> taken r) values"

fun position :: "'a \<Rightarrow> 'a list \<Rightarrow> nat" where
  "position x [] = 0"
| "position x (y # ys) = (if x = y then 0 else Suc (position x ys))"

text \<open>The two loops of \<open>verdict_for\<close>.\<close>

fun walk_down :: "(nat \<Rightarrow> bool) \<Rightarrow> nat \<Rightarrow> nat" where
  "walk_down zero_at 0 = 0"
| "walk_down zero_at (Suc n) = (if zero_at n then walk_down zero_at n else Suc n)"

function walk_up :: "(nat \<Rightarrow> bool) \<Rightarrow> nat \<Rightarrow> nat \<Rightarrow> nat" where
  "walk_up zero_at n hi = (if hi < n - 1 \<and> zero_at (Suc hi) then walk_up zero_at n (Suc hi) else hi)"
  by pat_completeness auto
termination by (relation "measure (\<lambda>(z, n, hi). n - hi)") auto

declare walk_up.simps [simp del]

definition verdict_for :: "pyval \<Rightarrow> pyval list \<Rightarrow> sweep_reading list \<Rightarrow> sweep_error + string \<times> pyval list" where
  "verdict_for dflt values readings =
     (let done = filter taken readings
      in if done = [] then Inr (''unmeasurable'', [])
         else if list_all (\<lambda>r. rd_distance r = Some 0) done then Inr (''inert'', map rd_value done)
         else
           (let order = swept_order values readings; zero_at = (\<lambda>j. reads_zero readings (order ! j)); i = position dflt order;
                lo = walk_down zero_at i; hi = walk_up zero_at (length order) i;
                band = drop lo (take (hi + 1) order)
            in if dflt \<notin> set order then Inl (DefaultNotSwept order)
               else Inr (if length band = 1 then ''edge'' else ''band'', band)))"

section \<open>The sweep\<close>

text \<open>
  \<open>measure\<close>: call 0 of \<open>run\<close> is the baseline and call \<open>i\<close> the i-th value; the check is asked at a value and answers a mark or raises
  an exception of the named class.
\<close>

fun take_readings ::
    "(nat \<Rightarrow> pyval \<Rightarrow> string + probe_output) \<Rightarrow> (pyval \<Rightarrow> string + string) option \<Rightarrow> probe_output \<Rightarrow> nat \<Rightarrow> pyval list \<Rightarrow> sweep_error + sweep_reading list" where
  "take_readings run quality base n [] = Inr []"
| "take_readings run quality base n (v # vs) =
     and_then
       (case run n v of
          Inl err \<Rightarrow> Inr \<lparr>rd_value = v, rd_distance = None, rd_detail = None, rd_error = take 160 err, rd_quality = []\<rparr>
        | Inr out \<Rightarrow>
            (case distance base out of
               None \<Rightarrow> Inl NotComparable
             | Some (d, detail) \<Rightarrow>
                 Inr \<lparr>rd_value = v, rd_distance = Some d, rd_detail = Some detail, rd_error = [],
                   rd_quality = (case quality of
                      None \<Rightarrow> []
                    | Some check \<Rightarrow> (case check v of Inr mark \<Rightarrow> mark | Inl exc \<Rightarrow> ''check failed: '' @ exc))\<rparr>))
       (\<lambda>r. and_then (take_readings run quality base (Suc n) vs) (\<lambda>rs. Inr (r # rs)))"

definition measure_knob ::
    "string \<Rightarrow> pyval \<Rightarrow> pyval list \<Rightarrow> (nat \<Rightarrow> pyval \<Rightarrow> string + probe_output) \<Rightarrow> string \<Rightarrow> (pyval \<Rightarrow> string + string) option
      \<Rightarrow> sweep_error + sweep_finding" where
  "measure_knob name dflt values run note quality =
     (case run 0 dflt of
        Inl err \<Rightarrow>
          Inr \<lparr>sf_name = name, sf_default = dflt, sf_verdict = ''unmeasurable'',
            sf_readings = [\<lparr>rd_value = dflt, rd_distance = None, rd_detail = None, rd_error = take 160 err, rd_quality = []\<rparr>],
            sf_band = [], sf_note = note\<rparr>
      | Inr base \<Rightarrow>
          and_then (take_readings run quality base 1 values)
            (\<lambda>rs. and_then (verdict_for dflt values rs)
              (\<lambda>(verdict, band). Inr \<lparr>sf_name = name, sf_default = dflt, sf_verdict = verdict, sf_readings = rs, sf_band = band, sf_note = note\<rparr>)))"

section \<open>A distance is zero exactly for the same output\<close>

definition same_output :: "probe_output \<Rightarrow> probe_output \<Rightarrow> bool" where
  "same_output a b \<longleftrightarrow>
     (case (a, b) of
        (Ranked xs, Ranked ys) \<Rightarrow> xs = ys
      | (Mapped d, Mapped d') \<Rightarrow> map_of d = map_of d'
      | (Plain v, Plain w) \<Rightarrow> v = w
      | _ \<Rightarrow> False)"

definition output_kind :: "probe_output \<Rightarrow> nat" where
  "output_kind out = (case out of Ranked _ \<Rightarrow> 0 | Mapped _ \<Rightarrow> 1 | Plain _ \<Rightarrow> 2)"

text \<open>
  The same output up to \<^const>\<open>PyNone\<close>: rankings without the Nones they end with, mappings by what their keys give when a
  key that is missing gives None.
\<close>

definition settled_items :: "pyval list \<Rightarrow> pyval list" where
  "settled_items xs = rev (dropWhile (\<lambda>x. x = PyNone) (rev xs))"

definition same_but_none :: "probe_output \<Rightarrow> probe_output \<Rightarrow> bool" where
  "same_but_none a b \<longleftrightarrow>
     (case (a, b) of
        (Ranked xs, Ranked ys) \<Rightarrow> settled_items xs = settled_items ys
      | (Mapped d, Mapped d') \<Rightarrow> get_or PyNone d = get_or PyNone d'
      | (Plain v, Plain w) \<Rightarrow> v = w
      | _ \<Rightarrow> False)"

lemma settled_items_snoc: "settled_items (xs @ [x]) = (if x = PyNone then settled_items xs else xs @ [x])"
  by (simp add: settled_items_def)

lemma settled_items_keep: "item_at (settled_items xs) = item_at xs"
proof (induction xs rule: rev_induct)
  case (snoc x xs)
  have "item_at (xs @ [PyNone]) i = item_at xs i" for i by (auto simp: item_at_def nth_append)
  then show ?case using snoc by (auto simp: settled_items_snoc)
qed (simp add: settled_items_def)

lemma settled_items_last: "settled_items xs \<noteq> [] \<Longrightarrow> last (settled_items xs) \<noteq> PyNone"
  by (induction xs rule: rev_induct) (auto simp: settled_items_snoc, simp add: settled_items_def)

lemma items_longer:
  assumes "item_at xs = item_at ys" "xs \<noteq> [] \<Longrightarrow> last xs \<noteq> PyNone"
  shows "length xs \<le> length ys"
proof (rule ccontr)
  assume "\<not> length xs \<le> length ys"
  then have "xs \<noteq> []" "item_at ys (length xs - 1) = PyNone" by (auto simp: item_at_def)
  moreover have "item_at xs (length xs - 1) = last xs" using calculation(1) by (simp add: item_at_def last_conv_nth)
  ultimately show False using assms by simp
qed

lemma settled_items_eq: "settled_items xs = settled_items ys \<longleftrightarrow> item_at xs = item_at ys"
proof
  assume "item_at xs = item_at ys"
  then have same: "item_at (settled_items xs) = item_at (settled_items ys)" by (simp add: settled_items_keep)
  have len: "length (settled_items xs) = length (settled_items ys)"
    using items_longer [OF same settled_items_last] items_longer [OF same [symmetric] settled_items_last] by (rule le_antisym)
  show "settled_items xs = settled_items ys"
    using fun_cong [OF same] by (intro nth_equalityI len) (metis item_at_def len)
qed (metis settled_items_keep)

lemma rank_distance_zero: "fst (rank_distance xs ys) = 0 \<longleftrightarrow> settled_items xs = settled_items ys"
proof -
  have "fst (rank_distance xs ys) = 0 \<longleftrightarrow> (\<forall>i < max (length xs) (length ys). item_at xs i = item_at ys i)"
    by (auto simp: rank_distance_def Let_def filter_empty_conv)
  also have "\<dots> \<longleftrightarrow> item_at xs = item_at ys"
  proof
    assume "\<forall>i < max (length xs) (length ys). item_at xs i = item_at ys i"
    then have "item_at xs i = item_at ys i" for i by (cases "i < max (length xs) (length ys)") (auto simp: item_at_def)
    then show "item_at xs = item_at ys" by auto
  qed simp
  finally show ?thesis by (simp only: settled_items_eq)
qed

lemma map_distance_zero: "fst (map_distance d d') = 0 \<longleftrightarrow> get_or PyNone d = get_or PyNone d'"
proof
  assume zero: "fst (map_distance d d') = 0"
  show "get_or PyNone d = get_or PyNone d'"
  proof
    fix k
    show "get_or PyNone d k = get_or PyNone d' k"
    proof (cases "k \<in> set (map fst d @ map fst d')")
      case True
      then show ?thesis using zero by (auto simp: map_distance_def Let_def filter_empty_conv)
    next
      case False
      then have "map_of d k = None" "map_of d' k = None" by (simp_all add: map_of_eq_None_iff)
      then show ?thesis by (simp add: get_or_def)
    qed
  qed
qed (simp add: map_distance_def Let_def)

lemma distance_zero:
  assumes "output_kind a = output_kind b"
  shows "\<exists>d detail. distance a b = Some (d, detail) \<and> (d = 0 \<longleftrightarrow> same_but_none a b)"
proof (cases a)
  case (Ranked xs)
  then obtain ys where "b = Ranked ys" using assms by (cases b) (simp_all add: output_kind_def)
  then show ?thesis using Ranked rank_distance_zero [of xs ys]
    by (cases "rank_distance xs ys") (simp add: distance_def is_mapped_def as_list_def same_but_none_def)
next
  case (Mapped d)
  then obtain d' where "b = Mapped d'" using assms by (cases b) (simp_all add: output_kind_def)
  then show ?thesis using Mapped map_distance_zero [of d d']
    by (cases "map_distance d d'") (simp add: distance_def is_mapped_def or_dict_def same_but_none_def)
next
  case (Plain v)
  then obtain w where "b = Plain w" using assms by (cases b) (simp_all add: output_kind_def)
  then show ?thesis using Plain by (simp add: distance_def is_mapped_def same_but_none_def)
qed

text \<open>Where no item and no value is \<^const>\<open>PyNone\<close>, that is the same output.\<close>

definition told :: "probe_output \<Rightarrow> bool" where
  "told out = (case out of Ranked xs \<Rightarrow> PyNone \<notin> set xs | Mapped d \<Rightarrow> PyNone \<notin> snd ` set d | Plain _ \<Rightarrow> True)"

lemma settled_items_told: "PyNone \<notin> set xs \<Longrightarrow> settled_items xs = xs"
  by (induction xs rule: rev_induct) (auto simp: settled_items_snoc, simp add: settled_items_def)

lemma told_map: "PyNone \<notin> snd ` set d \<Longrightarrow> map_of d k = (if get_or PyNone d k = PyNone then None else Some (get_or PyNone d k))"
  by (auto simp: get_or_def split: option.split dest!: map_of_SomeD) force

lemma same_but_none_told: "told a \<Longrightarrow> told b \<Longrightarrow> same_but_none a b \<longleftrightarrow> same_output a b"
proof (cases a; cases b)
  fix d d' assume t: "told a" "told b" and ab: "a = Mapped d" "b = Mapped d'"
  have "map_of d = map_of d'" if "get_or PyNone d = get_or PyNone d'"
    using that told_map [of d] told_map [of d'] t by (intro ext) (simp add: told_def ab)
  then show ?thesis by (auto simp: same_but_none_def same_output_def ab get_or_def fun_eq_iff)
qed (auto simp: same_but_none_def same_output_def told_def settled_items_told)

text \<open>An item or a value that is \<open>None\<close> hides a difference from both distances.\<close>

lemma none_is_not_seen:
  "fst (rank_distance [PyStr x] [PyStr x, PyNone]) = 0" "fst (map_distance [] [(k, PyNone)]) = 0"
  by (simp_all add: rank_distance_def map_distance_def item_at_def get_or_def Let_def)

end
