(* ===== verification/SensitivityFacts.thy ===== *)
theory SensitivityFacts
  imports Sensitivity
begin

text \<open>
  What a sweep says is true of the outputs: a knob is inert exactly when every output that could be taken is the baseline's up to None, and
  the band is the widest run of values around the default that leaves the output alone.
\<close>

section \<open>The readings\<close>

definition reads_as :: "probe_output \<Rightarrow> string + probe_output \<Rightarrow> sweep_reading \<Rightarrow> bool" where
  "reads_as base answer r \<longleftrightarrow>
     (case answer of
        Inl err \<Rightarrow> rd_distance r = None
      | Inr out \<Rightarrow> \<exists>d detail. distance base out = Some (d, detail) \<and> rd_distance r = Some d)"

lemma readings_of_values:
  assumes "take_readings run quality base n vs = Inr rs"
  shows "length rs = length vs \<and> (\<forall>i < length vs. rd_value (rs ! i) = vs ! i \<and> reads_as base (run (n + i) (vs ! i)) (rs ! i))"
  using assms
proof (induction vs arbitrary: n rs)
  case (Cons v vs)
  then obtain r rs' where rs: "rs = r # rs'" "take_readings run quality base (Suc n) vs = Inr rs'" "rd_value r = v" "reads_as base (run n v) r"
    by (auto simp: and_then_Inr reads_as_def split: sum.splits option.splits)
  show ?case using Cons.IH [OF rs(2)] rs(1,3,4) by (simp add: nth_Cons split: nat.split)
qed simp

lemma verdict_inert:
  assumes "verdict_for dflt values rs = Inr (v, band)"
  shows "v = ''inert'' \<longleftrightarrow> (\<exists>r \<in> set rs. taken r) \<and> (\<forall>r \<in> set rs. taken r \<longrightarrow> rd_distance r = Some 0)"
  using assms by (auto simp: verdict_for_def Let_def list_all_iff filter_empty_conv split: if_splits)

text \<open>
  C39. For outputs of one kind, a knob is reported inert exactly when some of its values could be run and every one that could
  gave the output the default gives, up to None: the Nones a ranking ends with and a key that holds None are not told from
  what is missing (\<open>none_is_not_seen\<close>); where no None occurs it is the same output (\<open>same_but_none_told\<close>). No other
  difference is missed and none is invented.
\<close>

theorem inert_exactly_when_nothing_moves:
  assumes "measure_knob name dflt values run note quality = Inr f" "run 0 dflt = Inr base"
    "\<And>i out. i < length values \<Longrightarrow> run (Suc i) (values ! i) = Inr out \<Longrightarrow> output_kind base = output_kind out"
  shows "sf_verdict f = ''inert'' \<longleftrightarrow>
    (\<exists>i out. i < length values \<and> run (Suc i) (values ! i) = Inr out) \<and>
    (\<forall>i out. i < length values \<and> run (Suc i) (values ! i) = Inr out \<longrightarrow> same_but_none base out)"
proof -
  obtain rs band where rs: "take_readings run quality base 1 values = Inr rs" "verdict_for dflt values rs = Inr (sf_verdict f, band)"
    using assms(1,2) by (auto simp: measure_knob_def and_then_Inr)
  note len = conjunct1 [OF readings_of_values [OF rs(1)]]
  have read: "reads_as base (run (Suc i) (values ! i)) (rs ! i)" if "i < length values" for i
    using readings_of_values [OF rs(1)] that by simp
  have some: "taken (rs ! i) \<longleftrightarrow> (\<exists>out. run (Suc i) (values ! i) = Inr out)" if "i < length values" for i
    using read [OF that] by (auto simp: reads_as_def taken_def split: sum.splits)
  have zero: "rd_distance (rs ! i) = Some 0 \<longleftrightarrow> same_but_none base out" if i: "i < length values" "run (Suc i) (values ! i) = Inr out" for i out
    using read [OF i(1)] distance_zero [OF assms(3) [OF i]] unfolding reads_as_def i(2) by auto
  show ?thesis unfolding verdict_inert [OF rs(2)] Bex_def Ball_def in_set_conv_nth len
    using some zero by metis
qed

theorem inert_exactly_when_nothing_moves_witness:
  "case measure_knob ''min_shared'' (PyNum 2) [PyNum 1, PyNum 2, PyNum 9]
      (\<lambda>i v. if v = PyNum 9 then Inl ''offline'' else Inr (Ranked [PyStr ''a/m'', PyStr ''b/n''])) [] None of
     Inl err \<Rightarrow> False | Inr f \<Rightarrow> sf_verdict f = ''inert''"
proof -
  let ?run = "\<lambda>i v. if v = PyNum 9 then Inl ''offline'' else Inr (Ranked [PyStr ''a/m'', PyStr ''b/n''])"
  let ?vs = "[PyNum 1, PyNum 2, PyNum 9]"
  define m where "m = measure_knob ''min_shared'' (PyNum 2) ?vs ?run [] None"
  have "\<not> isl m" unfolding m_def by code_simp
  then obtain f where f: "m = Inr f" by (cases m) auto
  have "sf_verdict f = ''inert'' \<longleftrightarrow>
      (\<exists>i out. i < length ?vs \<and> ?run (Suc i) (?vs ! i) = Inr out) \<and>
      (\<forall>i out. i < length ?vs \<and> ?run (Suc i) (?vs ! i) = Inr out \<longrightarrow> same_but_none (Ranked [PyStr ''a/m'', PyStr ''b/n'']) out)"
    by (rule inert_exactly_when_nothing_moves [OF f [unfolded m_def]]) (auto simp: output_kind_def split: if_splits)
  then have "sf_verdict f = ''inert''" by (force simp: same_but_none_def split: if_splits)
  then show ?thesis unfolding m_def [symmetric] f by simp
qed

section \<open>The band\<close>

lemma walk_down_stops:
  "walk_down z n \<le> n" "walk_down z n \<le> j \<Longrightarrow> j < n \<Longrightarrow> z j" "walk_down z n = Suc k \<Longrightarrow> \<not> z k"
  by (induction n) (auto simp: less_Suc_eq split: if_splits)

lemma walk_up_stops:
  assumes "hi < n"
  shows "hi \<le> walk_up z n hi \<and> walk_up z n hi < n \<and> (\<forall>j. hi < j \<and> j \<le> walk_up z n hi \<longrightarrow> z j) \<and>
    (walk_up z n hi < n - 1 \<longrightarrow> \<not> z (Suc (walk_up z n hi)))"
  using assms
proof (induction z n hi rule: walk_up.induct)
  case (1 z n hi)
  show ?case
  proof (cases "hi < n - 1 \<and> z (Suc hi)")
    case True
    then have w: "walk_up z n hi = walk_up z n (Suc hi)" by (subst walk_up.simps) simp
    have "Suc hi < n" using True by linarith
    then have "Suc hi \<le> walk_up z n (Suc hi) \<and> walk_up z n (Suc hi) < n \<and> (\<forall>j. Suc hi < j \<and> j \<le> walk_up z n (Suc hi) \<longrightarrow> z j) \<and>
        (walk_up z n (Suc hi) < n - 1 \<longrightarrow> \<not> z (Suc (walk_up z n (Suc hi))))"
      using "1.IH" True by blast
    then show ?thesis unfolding w using True by (metis Suc_leD Suc_lessI le_antisym not_less_eq_eq)
  next
    case False
    then have "walk_up z n hi = hi" unfolding walk_up.simps [of z n hi] by (rule if_not_P)
    then show ?thesis using False 1 by auto
  qed
qed

lemma position_first: "x \<in> set xs \<Longrightarrow> position x xs < length xs \<and> xs ! position x xs = x"
  by (induction xs) auto

lemma verdict_of_band:
  assumes "verdict_for dflt values rs = Inr (v, band)" "v \<noteq> ''unmeasurable''" "v \<noteq> ''inert''"
  defines "z \<equiv> (\<lambda>j. reads_zero rs (swept_order values rs ! j))" and "i \<equiv> position dflt (swept_order values rs)"
  shows "dflt \<in> set (swept_order values rs)"
    "band = drop (walk_down z i) (take (walk_up z (length (swept_order values rs)) i + 1) (swept_order values rs))"
    "v = (if length band = 1 then ''edge'' else ''band'')"
proof -
  have some: "filter taken rs \<noteq> []"
  proof
    assume "filter taken rs = []"
    then have "verdict_for dflt values rs = Inr (''unmeasurable'', [])" by (simp add: verdict_for_def)
    then show False using assms(1,2) by simp
  qed
  have moves: "\<not> list_all (\<lambda>r. rd_distance r = Some 0) (filter taken rs)"
  proof
    assume "list_all (\<lambda>r. rd_distance r = Some 0) (filter taken rs)"
    then have "verdict_for dflt values rs = Inr (''inert'', map rd_value (filter taken rs))"
      using some by (simp only: verdict_for_def Let_def if_True if_False)
    then show False using assms(1,3) by simp
  qed
  define b where "b = drop (walk_down z i) (take (walk_up z (length (swept_order values rs)) i + 1) (swept_order values rs))"
  have eq: "verdict_for dflt values rs =
      (if dflt \<notin> set (swept_order values rs) then Inl (DefaultNotSwept (swept_order values rs))
       else Inr (if length b = 1 then ''edge'' else ''band'', b))"
    using some moves unfolding b_def z_def i_def by (simp only: verdict_for_def Let_def if_False not_False_eq_True simp_thms)
  show "dflt \<in> set (swept_order values rs)" using eq assms(1) by (metis sum.distinct(1))
  then have "band = b" "v = (if length b = 1 then ''edge'' else ''band'')" using eq assms(1) by (simp_all only: not_True_eq_False if_False sum.inject prod.inject)
  then show "band = drop (walk_down z i) (take (walk_up z (length (swept_order values rs)) i + 1) (swept_order values rs))"
    "v = (if length band = 1 then ''edge'' else ''band'')" unfolding b_def by blast+
qed

text \<open>
  C40. A band is the margin of the default: the values swept and taken are what is before the band, the band with the default
  in it, and what is after; every other value of the band leaves the output alone, the ones next to its ends do not, and the
  knob is on an edge exactly when the band is the default by itself.
\<close>

theorem band_is_the_margin:
  assumes "verdict_for dflt values rs = Inr (v, band)" "v \<noteq> ''unmeasurable''" "v \<noteq> ''inert''"
  shows "\<exists>below left right above.
    swept_order values rs = below @ left @ dflt # right @ above \<and> band = left @ dflt # right \<and>
    list_all (reads_zero rs) (left @ right) \<and>
    (below \<noteq> [] \<longrightarrow> \<not> reads_zero rs (last below)) \<and> (above \<noteq> [] \<longrightarrow> \<not> reads_zero rs (hd above)) \<and>
    v = (if left = [] \<and> right = [] then ''edge'' else ''band'')"
proof -
  define order where "order = swept_order values rs"
  define z where "z j = reads_zero rs (order ! j)" for j
  define i where "i = position dflt order"
  define lo where "lo = walk_down z i"
  define hi where "hi = walk_up z (length order) i"
  have res: "dflt \<in> set order" "band = drop lo (take (hi + 1) order)" "v = (if length band = 1 then ''edge'' else ''band'')"
    using verdict_of_band [OF assms] unfolding order_def lo_def hi_def i_def z_def by simp_all
  have i: "i < length order" "order ! i = dflt" using position_first [OF res(1)] by (simp_all add: i_def)
  have lo: "lo \<le> i" "\<And>j. lo \<le> j \<Longrightarrow> j < i \<Longrightarrow> z j" "\<And>k. lo = Suc k \<Longrightarrow> \<not> z k" unfolding lo_def using walk_down_stops by blast+
  have hi: "i \<le> hi" "hi < length order" "\<And>j. i < j \<Longrightarrow> j \<le> hi \<Longrightarrow> z j" "hi < length order - 1 \<Longrightarrow> \<not> z (Suc hi)"
    unfolding hi_def using walk_up_stops [OF i(1)] by blast+
  let ?below = "take lo order" and ?left = "drop lo (take i order)" and ?right = "drop (Suc i) (take (Suc hi) order)" and ?above = "drop (Suc hi) order"
  have split_i: "take (Suc hi) order = take i order @ dflt # ?right"
  proof -
    have "i < length (take (Suc hi) order)" using i(1) hi(1,2) by simp
    then have "take (Suc hi) order = take i (take (Suc hi) order) @ take (Suc hi) order ! i # ?right" by (rule id_take_nth_drop)
    moreover have "take i (take (Suc hi) order) = take i order" using hi(1) by (simp add: min_absorb1)
    moreover have "take (Suc hi) order ! i = dflt" using hi(1) i(2) by simp
    ultimately show ?thesis by metis
  qed
  have b: "band = ?left @ dflt # ?right" 
  proof -
    have "band = drop lo (take i order @ dflt # ?right)" unfolding res(2) Suc_eq_plus1 [symmetric] using split_i by metis
    also have "\<dots> = ?left @ dflt # ?right" using lo(1) i(1) by simp
    finally show ?thesis .
  qed
  have whole: "order = ?below @ ?left @ dflt # ?right @ ?above"
  proof -
    have "order = take (Suc hi) order @ ?above" by simp
    also have "take (Suc hi) order = (take lo (take i order) @ ?left) @ dflt # ?right" unfolding append_take_drop_id using split_i by simp
    finally show ?thesis using lo(1) by (simp add: min_def)
  qed
  have zero: "list_all (reads_zero rs) (?left @ ?right)"
  proof -
    have "list_all (reads_zero rs) ?left" unfolding list_all_length using lo(2) i(1) by (auto simp: z_def)
    moreover have "list_all (reads_zero rs) ?right" unfolding list_all_length using hi(2,3) by (auto simp: z_def)
    ultimately show ?thesis by simp
  qed
  have below: "?below \<noteq> [] \<longrightarrow> \<not> reads_zero rs (last ?below)"
    using lo(1,3) i(1) by (cases lo) (auto simp: z_def take_Suc_conv_app_nth)
  have above: "?above \<noteq> [] \<longrightarrow> \<not> reads_zero rs (hd ?above)"
    using hi(4) by (auto simp: z_def hd_drop_conv_nth)
  have v: "v = (if ?left = [] \<and> ?right = [] then ''edge'' else ''band'')" 
  proof -
    have "length (l @ d # r) = 1 \<longleftrightarrow> l = [] \<and> r = []" for l r :: "pyval list" and d by auto
    then show ?thesis using res(3) unfolding b by metis
  qed
  show ?thesis unfolding order_def [symmetric]
    by (rule exI [of _ ?below], rule exI [of _ ?left], rule exI [of _ ?right], rule exI [of _ ?above], intro conjI)
      (fact whole b zero below above v)+
qed

text \<open>A sweep of four values around 2, the last two a different output.\<close>

definition four_values :: "pyval list" where
  "four_values = [PyNum 1, PyNum 2, PyNum 3, PyNum 4]"

definition four_readings :: "sweep_reading list" where
  "four_readings = map (\<lambda>(v, d). \<lparr>rd_value = v, rd_distance = Some d, rd_detail = None, rd_error = [], rd_quality = []\<rparr>) (zip four_values [0, 0, 3, 5])"

theorem band_is_the_margin_witness:
  "verdict_for (PyNum 2) four_values four_readings = Inr (''band'', [PyNum 1, PyNum 2]) \<and>
   (\<exists>below left right above. swept_order four_values four_readings = below @ left @ PyNum 2 # right @ above \<and>
      [PyNum 1, PyNum 2] = left @ PyNum 2 # right \<and> list_all (reads_zero four_readings) (left @ right))"
proof -
  have v: "verdict_for (PyNum 2) four_values four_readings = Inr (''band'', [PyNum 1, PyNum 2])" by code_simp
  show ?thesis using band_is_the_margin [OF v] v by auto
qed

section \<open>The correlation beside a distance\<close>

lemma kendall_bounds: "kendall base other = Some tau \<Longrightarrow> - 1 \<le> tau \<and> tau \<le> 1"
proof -
  assume k: "kendall base other = Some tau"
  define ps where "ps = pairs_of (filter (\<lambda>x. x \<in> set other) base)"
  define agree where "agree = length (filter (\<lambda>(a, b). last_position other a < last_position other b) ps)"
  have le: "agree \<le> length ps" unfolding agree_def by (rule length_filter_le)
  then have sum: "agree + (length ps - agree) = length ps" by simp
  have "length ps \<noteq> 0" "tau = (of_nat agree - of_nat (length ps - agree)) / of_nat (length ps)"
    using k unfolding kendall_def Let_def ps_def [symmetric] agree_def [symmetric] sum by (auto split: if_splits)
  moreover have "(0::rat) < of_nat (length ps)" using calculation(1) by simp
  moreover have "(0::rat) \<le> of_nat agree" "(of_nat agree :: rat) \<le> of_nat (length ps)" using le by simp_all
  ultimately show ?thesis using le by (simp only: of_nat_diff le_divide_eq divide_le_eq) simp
qed

end
