(* ===== verification/Spec2Isabelle.thy ===== *)
theory Spec2Isabelle
  imports Ladder QueueFacts Pressure GatePowerFacts ChecksFacts ClaimsFacts Receipts ScoringFacts AdoptionFacts ServingFacts
    ExclusiveFacts MethodsFacts GatewayFacts Router CompletionFacts RankFacts ContextFacts DiskFacts FetchFacts InspectFacts Screening
    RunsFacts SensitivityFacts
begin

text \<open>
  The verification library of the harness: a loop that finds candidate models, tries them on lanes of cases, decides
  what each lane serves, and records why. Every theory models one part of it, definition by definition, and proves what
  makes that part correct.

  \<^bold>\<open>How the parts interact.\<close> A sighting becomes a proposal (\<open>harness/memory_store/proposals.py\<close>); screening and
  measuring write verdicts that move the proposal along a ladder (\<open>transitions.py\<close>, \<open>harness/reasons.py\<close>); work is queued as
  jobs one worker runs (\<open>harness/workqueue.py\<close>) while it watches memory (\<open>pressure.py\<close>, \<open>ramp.py\<close>); a run grades artifacts
  (\<open>harness/checks\<close>, \<open>evals/core.py\<close>), sums them up per candidate and says in a receipt what was run; the gate compares a
  challenger with the incumbent cell by cell on held-out cases (\<open>paired.py\<close>, \<open>holdout.py\<close>, \<open>power.py\<close>), or asks a
  person (\<open>human.py\<close>), and an adoption makes the winner the lane's default (\<open>adopt.py\<close>, \<open>winners.py\<close>). The adopted
  defaults are what the gateway serves: a spec, perhaps a method over a base (\<open>methods.py\<close>), has a route (\<open>serving.py\<close>),
  the gateway's configuration names it by lane (\<open>gateway.py\<close>), and a restart takes it live (\<open>gateway_switch.py\<close>). Requests
  go through it (\<open>completion.py\<close>), delegated ones only where nothing has to be loaded (\<open>delegate.py\<close>, \<open>router.py\<close>), and
  whatever loads models holds the machine lock (\<open>exclusive.py\<close>).

  \<^bold>\<open>The theories.\<close>
  \<^item> \<open>Prelude\<close>: text, numbers, dictionaries and tables shared by all; Python's \<open>round\<close>; the locale \<open>ranking\<close> of a sort by a key.
    \<open>Doubles\<close>: the rounding of a float operation to 53 bits, and its error.
  \<^item> \<open>Transitions\<close>, \<open>Reasons\<close>, \<open>VerdictStore\<close>, \<open>VerdictFacts\<close>, \<open>Machines\<close>, \<open>Lanes\<close>, \<open>Proposals\<close>, \<open>ProposalFacts\<close>, \<open>Ladder\<close>: the ladder,
    the vocabulary of reasons, the tables of proposals, verdicts, sightings and edges, the writer with its retries under
    interference, the row of the machine every decision writes, retests, and lanes. \<open>Ladder\<close> states their properties: a terminal outcome is final, the stored state is the
    fold of the events, a refused decision moves nothing and leaves at most this machine's row, the audit of every reachable store is clean, the retest budget holds.
  \<^item> \<open>Pressure\<close>, \<open>Queue\<close>, \<open>QueueFacts\<close>: memory samples and the ramp, the job table with every operation, the runner. The
    properties: the ramp returns and finds the boundary up to the rounding of its floats, ids are never reused, the runner works the whole queue and returns, a job ends as its exit code or flag says.
  \<^item> \<open>Paired\<close>, \<open>GatePower\<close>, \<open>GatePowerFacts\<close>: the sign test, the head to head, the holdout split, the power of a gate and the
    plan of repeats. The properties: the power calculation rejects exactly where the gate's test does for a challenger that gains, a plan is the least
    repeat that reaches its target, the split is a partition.
  \<^item> \<open>Checks\<close>, \<open>ChecksFacts\<close>, \<open>Claims\<close>, \<open>ClaimsFacts\<close>: the graders that need no model. The properties: letters read back
    as the choices they stand for, scores stay in their range, the matching of claims is one-to-one and stable.
  \<^item> \<open>Receipts\<close>, \<open>Scoring\<close>, \<open>ScoringFacts\<close>: what a run was and when two may be compared, the verdict of one artifact, and
    the roll-up of a run. The properties: comparability, the round trip of a receipt, every row counted once.
  \<^item> \<open>Votes\<close>, \<open>Adoption\<close>, \<open>AdoptionFacts\<close>, \<open>ServingFacts\<close>: a person's votes, both gates, the recorded adoption and what a
    machine serves. The properties: both gates or none, votes enough or forced, a guarded record, and the served lane as a
    refinement of "the newest eligible adoption".

  \<^item> \<open>Exclusive\<close>, \<open>ExclusiveFacts\<close>: the machine lock as a step relation over processes, with the locale \<open>kernel_lock\<close>
    of the laws of the file lock. The properties: one holder in every reachable machine, and a waiter always gets in.
  \<^item> \<open>Methods\<close>, \<open>MethodsFacts\<close>, \<open>Serving\<close>, \<open>Gateway\<close>, \<open>GatewayFacts\<close>, \<open>Router\<close>: the method registry, routes, the
    gateway's configuration and its switch, the router and admission. The properties: a spec parses back, best-of serves the
    first of the best, a switch takes or the last good one stays on record, unresolved is what failed since; a restart waits for quiet,
    only unprotected stems are unloaded, a delegated call loads nothing beside a holder.
  \<^item> \<open>Completion\<close>, \<open>Streaming\<close>, \<open>CompletionFacts\<close>: one request to the gateway. The properties: at most four requests that
    ask the same, every outcome is an answer, a failure of a known class, the server's own words or an exception of a body that is no
    object, a stream is put together again.

  \<^item> \<open>Rank\<close>, \<open>RankFacts\<close>: what a screen of each candidate would teach, the queue, and what is reported instead; the
    BM25 baseline. The properties: the order does not depend on how the candidates came, and the baseline is a stable sort.
  \<^item> \<open>GgufHeader\<close>, \<open>HeaderFacts\<close>, \<open>KvCache\<close>, \<open>GgufFiles\<close>: the header of a weights file, byte by byte, the context a
    model is served at, and which file of a repository is fetched (\<open>context.py\<close>, \<open>gguf.py\<close>). The properties: what a writer
    of the format writes is read back, the context is the largest that fits, the file the best that fits.
  \<^item> \<open>Downloads\<close>, \<open>DownloadFacts\<close>, \<open>ServedContext\<close>, \<open>ContextFacts\<close>: the ledger of weights on disk (\<open>downloads.py\<close>) as a
    refinement of a set of held paths, its repair, the plan of contexts over it and what a refusal means for a route.
  \<^item> \<open>Keepers\<close>, \<open>Disk\<close>, \<open>DiskFacts\<close>: what must stay, the inventory of the cache and its cleanup (\<open>disk.py\<close>). The properties:
    an entry goes only when it was rejected and nothing keeps it, and a cleanup leaves no row that points at nothing.
  \<^item> \<open>Fetch\<close>, \<open>FetchFacts\<close>: the worker that downloads queued weights (\<open>fetching.py\<close>), from the plan of one download to a run
    that adopts, downloads and settles. The properties: what a run takes from the queue and as bases of runners keeps its limit, its
    budget, the cap and the floor of the disk, and it settles a candidate only on an answer about it.
  \<^item> \<open>Cards\<close>, \<open>Inspect\<close>, \<open>Revisit\<close>, \<open>RevisitFacts\<close>: what a model card says (its lane, lineage and runtime), the fit of a card
    and of a source tree, its verdict and the condition a refusal waits on (\<open>inspect.py\<close>), and the way back of what this machine
    can ask again (\<open>memory_store/revisit.py\<close>, \<open>machines.py\<close>). The properties: the condition is what ends the refusal, exactly for a
    runtime and up to its rounding for a size, and asking again leaves nothing due.
  \<^item> \<open>InspectPass\<close>, \<open>InspectFacts\<close>: the pass over the queue of names (\<open>commands/discover.py\<close>), each answered by its registry. The
    property: it settles a proposal only on an answer about it, a method on the verdict of its base, and keeps the invariant of the ladder.
  \<^item> \<open>Screening\<close>: what a finished screen says of its candidate (\<open>screen.py\<close>). The properties: what a screen blames and what each refusal waits
    on, and a load failure waits for a newer version, in plain numbers, of the package that failed.
  \<^item> \<open>Runs\<close>, \<open>RunsFacts\<close>: the candidates table and the stored runs (\<open>candidates.py\<close>, \<open>runs.py\<close>), read by everything that compares.
    The property: what a run recorded is read back row by row, and recording it again replaces only its own rows.
  \<^item> \<open>Sensitivity\<close>, \<open>SensitivityFacts\<close>: the sweep of a constant over its range (\<open>sensitivity.py\<close>). The properties: inert means that
    nothing moved up to None, and a band is the margin of the default.

  \<^bold>\<open>How the code is modelled.\<close> A table is the list of its rows in id order, a dict an association list (in insertion order
  where it matters), a raised exception an \<^const>\<open>Inl\<close>, a float a rational. The ramp, whose boundary the
  rounding moves, rounds every operation to 53 bits (\<open>Doubles\<close>); elsewhere the arithmetic is exact and binary rounding is outside
  the model. Code that is not in the repository is an argument: the clock, the file system, other connections
  between two statements (\<open>env\<close> in \<open>VerdictStore\<close>), logarithms and exponentials, the digest behind a case's draw, the
  parsing of JSON, the processes a job runs. Loops end by structural recursion; the writer's retries are bounded by the
  eight attempts the code makes, the ramp's by a fuel of two per step under its cap (for a step no smaller than \<open>2\<^sup>-\<^sup>5\<^sup>1\<close> of it), and the runner's by a fuel shown sufficient in
  \<open>runner_works_the_queue\<close>. Sentences the code composes for a reader are kept as constructors with what they quote.

  \<^bold>\<open>What modelling showed.\<close> \<open>significant_loss_is_adopted\<close>: the paired gate does not ask which way the significant cells
  point. \<open>last_pairing_decides\<close>: of a case with several pairings only the last counts. \<open>letter_choices_flip\<close>: answers that are
  single letters are read as letter codes. \<open>child_outlives_the_lock\<close>: a child that inherited the variable works on under no
  lock once its parent is gone. \<open>first_switch_not_retried\<close>: a first switch that fails is not tried again.
  \<open>bodies_that_are_uncaught\<close>: a reply that is JSON but no object raises what no handler names. \<open>classed_timeout_never_reopens\<close>: a
  timeout read from the error stream waits on nothing.
  \<open>one_bad_header_stops_the_plan\<close>: a length of \<open>2 ^ 63\<close> in one header stops the plan of every file.
  \<open>kept_link_goes_with_its_file\<close>: a link the gateway serves is deleted with the file it points at.
  \<open>named_needs_are_not_metered\<close>: what a config names is fetched past the cap and the budget.
  \<open>rounded_condition_is_met_at_once\<close>: a candidate a byte too big waits on a ceiling this machine has. \<open>prerelease_is_never_reopened\<close>,
  \<open>dead_is_never_revisited\<close>: a condition over a pre-release version, or over a last commit, is never met.
  \<open>unknown_name_ends_the_pass\<close>: a name no registry has and nobody proposed ends the pass. \<open>gone_repository_stays\<close>: a repository
  that is gone stays queued. \<open>none_is_not_seen\<close>: a \<open>None\<close> hides a difference from a distance.

  \<^bold>\<open>Not modelled.\<close> The command line and the printing of reports and pages; clients of external services (discovery,
  feeds, papers, the transfers of downloads), the clone of a source tree and the regular expressions over its files; the processes of engines, runners and the gateway; SQL migrations; importers
  of corpora; and the checkers that render, transcribe or execute an artifact, whose findings are arguments of \<open>score\<close>.
\<close>

end
